(* ===== verification/Prelude.thy ===== *)
theory Prelude
  imports Complex_Main
begin

text \<open>
  Shared vocabulary of the development: Go's strings package on byte strings, instants and
  durations in nanoseconds, IEEE double precision values, and the list and map lemmas that the
  components use. Strings are byte lists (\<open>string\<close>); the whitespace and the case mapping of
  \<open>strings.TrimSpace\<close>, \<open>strings.Fields\<close> and \<open>strings.ToLower\<close> are those of ASCII.
\<close>

named_theorems str_defs \<comment> \<open>unfoldings of the string helpers, to evaluate them on literals\<close>
named_theorems store_simps \<comment> \<open>field equations of the fact store operations\<close>
named_theorems frame_simps \<comment> \<open>what an operation leaves unchanged\<close>

section \<open>Instants and durations\<close>

text \<open>
  \<open>time.Time\<close> and \<open>time.Duration\<close> are integers counting nanoseconds; a \<open>time.Time\<close> field
  whose zero value has a meaning of its own (\<open>IsZero\<close>) is an \<open>instant option\<close>.
\<close>

type_synonym instant = int
type_synonym duration = int

abbreviation Nanosecond :: duration where "Nanosecond \<equiv> 1"
abbreviation Microsecond :: duration where "Microsecond \<equiv> 1000"
abbreviation Millisecond :: duration where "Millisecond \<equiv> 1000000"
abbreviation Second :: duration where "Second \<equiv> 1000000000"
abbreviation Minute :: duration where "Minute \<equiv> 60000000000"
abbreviation Hour :: duration where "Hour \<equiv> 3600000000000"

text \<open>An operation that returns \<open>(T, error)\<close>: \<open>Inl\<close> carries the error's text.\<close>

type_synonym 'a res = "string + 'a"

section \<open>Strings\<close>

definition is_space :: "char \<Rightarrow> bool" where
  "is_space c \<longleftrightarrow> c \<in> {CHR 0x09, CHR 0x0A, CHR 0x0B, CHR 0x0C, CHR 0x0D, CHR '' ''}"

definition is_digit :: "char \<Rightarrow> bool" where
  "is_digit c \<longleftrightarrow> 48 \<le> (of_char c :: nat) \<and> (of_char c :: nat) \<le> 57"

definition TrimSpace :: "string \<Rightarrow> string" where
  "TrimSpace s = rev (dropWhile is_space (rev (dropWhile is_space s)))"

definition lower_char :: "char \<Rightarrow> char" where
  "lower_char c =
     (if 65 \<le> (of_char c :: nat) \<and> (of_char c :: nat) \<le> 90
      then char_of ((of_char c :: nat) + 32) else c)"

definition ToLower :: "string \<Rightarrow> string" where
  "ToLower s = map lower_char s"

definition HasPrefix :: "string \<Rightarrow> string \<Rightarrow> bool" where
  "HasPrefix s p \<longleftrightarrow> take (length p) s = p"

definition TrimPrefix :: "string \<Rightarrow> string \<Rightarrow> string" where
  "TrimPrefix s p = (if HasPrefix s p then drop (length p) s else s)"

definition CutSuffix :: "string \<Rightarrow> string \<Rightarrow> string option" where
  "CutSuffix s p =
     (if HasPrefix (rev s) (rev p) then Some (take (length s - length p) s) else None)"

text \<open>\<open>strings.Cut(s, sep)\<close> for a one-byte separator: the text before and after its first
  occurrence, \<open>None\<close> where it does not occur.\<close>

fun Cut :: "string \<Rightarrow> char \<Rightarrow> (string \<times> string) option" where
  "Cut [] c = None"
| "Cut (x # xs) c =
     (if x = c then Some ([], xs)
      else map_option (\<lambda>(a, b). (x # a, b)) (Cut xs c))"

text \<open>\<open>strings.Contains(s, sub)\<close>.\<close>

fun StrContains :: "string \<Rightarrow> string \<Rightarrow> bool" where
  "StrContains [] sub \<longleftrightarrow> sub = []"
| "StrContains (x # xs) sub \<longleftrightarrow> HasPrefix (x # xs) sub \<or> StrContains xs sub"

text \<open>\<open>strings.Fields(s)\<close>: the maximal runs of non-space bytes.\<close>

fun Fields_from :: "string \<Rightarrow> string \<Rightarrow> string list" where
  "Fields_from acc [] = (if acc = [] then [] else [rev acc])"
| "Fields_from acc (x # xs) =
     (if is_space x then (if acc = [] then Fields_from [] xs else rev acc # Fields_from [] xs)
      else Fields_from (x # acc) xs)"

definition Fields :: "string \<Rightarrow> string list" where
  "Fields s = Fields_from [] s"

declare is_space_def [str_defs] is_digit_def [str_defs] TrimSpace_def [str_defs]
  lower_char_def [str_defs] ToLower_def [str_defs] HasPrefix_def [str_defs]
  TrimPrefix_def [str_defs] CutSuffix_def [str_defs] Fields_def [str_defs]

lemma Cut_Some_iff: "Cut s c = Some (a, b) \<longleftrightarrow> s = a @ c # b \<and> c \<notin> set a"
proof (induction s arbitrary: a)
  case Nil
  show ?case by simp
next
  case (Cons x xs)
  show ?case
  proof (cases a)
    case Nil
    then show ?thesis by (auto split: option.splits)
  next
    case (Cons y ys)
    then show ?thesis using Cons.IH by (auto split: option.splits)
  qed
qed

lemma Cut_None_iff: "Cut s c = None \<longleftrightarrow> c \<notin> set s"
  by (induction s) auto

lemma Cut_append [simp]: "c \<notin> set a \<Longrightarrow> Cut (a @ c # b) c = Some (a, b)"
  by (simp add: Cut_Some_iff)

lemma TrimSpace_Nil [simp]: "TrimSpace [] = []"
  by (simp add: TrimSpace_def)

lemma StrContains_iff: "StrContains s sub \<longleftrightarrow> (\<exists>a b. s = a @ sub @ b)"
proof (induction s)
  case Nil
  show ?case by auto
next
  case (Cons x xs)
  have pre: "HasPrefix (x # xs) sub \<longleftrightarrow> (\<exists>b. x # xs = sub @ b)"
    by (metis HasPrefix_def append_eq_conv_conj append_take_drop_id)
  show ?case
  proof
    assume "StrContains (x # xs) sub"
    then show "\<exists>a b. x # xs = a @ sub @ b"
      using pre Cons.IH by (metis StrContains.simps(2) append_Cons append_Nil)
  next
    assume "\<exists>a b. x # xs = a @ sub @ b"
    then obtain a b where ab: "x # xs = a @ sub @ b" by blast
    show "StrContains (x # xs) sub"
    proof (cases a)
      case Nil
      with ab pre have "HasPrefix (x # xs) sub" by auto
      then show ?thesis by simp
    next
      case (Cons y ys)
      with ab have "xs = ys @ sub @ b" by simp
      with Cons.IH have "StrContains xs sub" by blast
      then show ?thesis by simp
    qed
  qed
qed

section \<open>Double precision values\<close>

text \<open>
  A \<open>float64\<close> is a not-a-number, an infinity or a rational. Rounding is to the nearest value
  with a 53-bit significand, ties to even; the exponent range is not bounded.
\<close>

datatype float64 = NaN | NegInf | Finite rat | PosInf

fun f_le :: "float64 \<Rightarrow> float64 \<Rightarrow> bool" where
  "f_le NaN _ = False"
| "f_le _ NaN = False"
| "f_le NegInf _ = True"
| "f_le _ PosInf = True"
| "f_le (Finite a) (Finite b) = (a \<le> b)"
| "f_le _ _ = False"

definition f_eq :: "float64 \<Rightarrow> float64 \<Rightarrow> bool" where
  "f_eq a b \<longleftrightarrow> f_le a b \<and> f_le b a"

fun floorlog2 :: "nat \<Rightarrow> nat" where
  "floorlog2 n = (if n < 2 then 0 else Suc (floorlog2 (n div 2)))"

declare floorlog2.simps [simp del]

definition pow2 :: "int \<Rightarrow> rat" where
  "pow2 e = (if 0 \<le> e then 2 ^ nat e else 1 / 2 ^ nat (- e))"

definition round_half_even :: "rat \<Rightarrow> int" where
  "round_half_even x =
     (let q = \<lfloor>x\<rfloor>; r = x - of_int q
      in if r < 1 / 2 then q else if r > 1 / 2 then q + 1 else if even q then q else q + 1)"

text \<open>The rounding of a rational to double precision.\<close>

definition fl :: "rat \<Rightarrow> rat" where
  "fl x =
     (if x = 0 then 0
      else let (n, d) = quotient_of \<bar>x\<bar>;
               k = int (floorlog2 (nat n)) - int (floorlog2 (nat d));
               k' = (if \<bar>x\<bar> < pow2 k then k - 1 else k);
               e = k' - 52
           in sgn x * of_int (round_half_even (\<bar>x\<bar> * pow2 (- e))) * pow2 e)"

text \<open>\<open>float64(n)\<close> for an integer \<open>n\<close>, and \<open>Duration.Seconds\<close>.\<close>

definition f64_of_int :: "int \<Rightarrow> float64" where
  "f64_of_int n = (if \<bar>n\<bar> \<le> 2 ^ 53 then Finite (of_int n) else Finite (fl (of_int n)))"

definition Seconds :: "duration \<Rightarrow> rat" where
  "Seconds d =
     (let s = sgn d * (\<bar>d\<bar> div Second); n = sgn d * (\<bar>d\<bar> mod Second)
      in fl (fl (of_int s) + fl (fl (of_int n) / 1000000000)))"

lemma f_le_refl_iff: "f_le a a \<longleftrightarrow> a \<noteq> NaN"
  by (cases a) auto

lemma f_le_total: "a \<noteq> NaN \<Longrightarrow> b \<noteq> NaN \<Longrightarrow> f_le a b \<or> f_le b a"
  by (cases a; cases b) auto

section \<open>Lists that are filled through a seen set\<close>

text \<open>
  The idiom \<open>if !seen[n] { seen[n] = true; out = append(out, n) }\<close>: what has been seen is what
  the output already holds.
\<close>

fun add_unseen :: "'a list \<Rightarrow> 'a list \<Rightarrow> 'a list" where
  "add_unseen out [] = out"
| "add_unseen out (n # ns) = add_unseen (if n \<in> set out then out else out @ [n]) ns"

lemma set_add_unseen [simp]: "set (add_unseen out ns) = set out \<union> set ns"
  by (induction out ns rule: add_unseen.induct) auto

lemma distinct_add_unseen: "distinct out \<Longrightarrow> distinct (add_unseen out ns)"
  by (induction out ns rule: add_unseen.induct) auto

lemma add_unseen_append: "add_unseen out (a @ b) = add_unseen (add_unseen out a) b"
  by (induction out a rule: add_unseen.induct) auto

lemma add_unseen_prefix: "\<exists>r. add_unseen out ns = out @ r"
proof (induction out ns rule: add_unseen.induct)
  case (1 out)
  then show ?case by simp
next
  case (2 out n ns)
  then show ?case by (cases "n \<in> set out") auto
qed

lemma add_unseen_id: "set ns \<subseteq> set out \<Longrightarrow> add_unseen out ns = out"
  by (induction out ns rule: add_unseen.induct) auto

lemma add_unseen_fresh:
  "distinct ns \<Longrightarrow> set ns \<inter> set out = {} \<Longrightarrow> add_unseen out ns = out @ ns"
  by (induction out ns rule: add_unseen.induct) auto

section \<open>Loops that stop early\<close>

text \<open>
  \<open>for _, x := range xs { acc = f(acc, x); if acc == stop { break } }\<close>.
\<close>

fun fold_until :: "'a \<Rightarrow> ('a \<Rightarrow> 'b \<Rightarrow> 'a) \<Rightarrow> 'a \<Rightarrow> 'b list \<Rightarrow> 'a" where
  "fold_until stop f acc [] = acc"
| "fold_until stop f acc (x # xs) =
     (let acc' = f acc x in if acc' = stop then acc' else fold_until stop f acc' xs)"

lemma fold_until_foldl:
  assumes "\<And>x. f stop x = stop"
  shows "fold_until stop f acc xs = foldl f acc xs"
proof -
  have stuck: "foldl f stop ys = stop" for ys
    by (induction ys) (auto simp: assms)
  show ?thesis
    by (induction xs arbitrary: acc) (auto simp: Let_def stuck)
qed

section \<open>Prefixes\<close>

lemma HasPrefix_iff: "HasPrefix s p \<longleftrightarrow> (\<exists>t. s = p @ t)"
  by (metis HasPrefix_def append_eq_conv_conj append_take_drop_id)

lemma HasPrefix_append [simp]: "HasPrefix (p @ t) p"
  by (simp add: HasPrefix_def)

lemma TrimPrefix_append [simp]: "TrimPrefix (p @ t) p = t"
  by (simp add: TrimPrefix_def)

section \<open>Sorted strings\<close>

text \<open>\<open>sort.Strings\<close> and \<open>slices.Sort\<close> on strings: byte-wise lexicographic order.\<close>

fun str_le :: "string \<Rightarrow> string \<Rightarrow> bool" where
  "str_le [] _ \<longleftrightarrow> True"
| "str_le (_ # _) [] \<longleftrightarrow> False"
| "str_le (a # as) (b # bs) \<longleftrightarrow>
     (of_char a :: nat) < of_char b \<or> (a = b \<and> str_le as bs)"

fun insert_str :: "string \<Rightarrow> string list \<Rightarrow> string list" where
  "insert_str x [] = [x]"
| "insert_str x (y # ys) = (if str_le x y then x # y # ys else y # insert_str x ys)"

definition sort_strings :: "string list \<Rightarrow> string list" where
  "sort_strings xs = foldr insert_str xs []"

lemma set_insert_str [simp]: "set (insert_str x ys) = insert x (set ys)"
  by (induction ys) auto

lemma set_sort_strings [simp]: "set (sort_strings xs) = set xs"
  unfolding sort_strings_def by (induction xs) auto

end
