(* ===== verification/Facts.thy ===== *)
theory Facts
  imports Prelude
begin

text \<open>
  The package \<open>internal/facts\<close>: three-valued truth, fact values with a quality, and the fact
  store that sources write and the condition evaluator reads. A \<open>Store\<close> holds its facts by
  value, because each \<open>*Fact\<close> is reachable from one key only; the mutexes make every method one
  atomic step.
\<close>

section \<open>Quality, fact types and dynamic values (types.go)\<close>

datatype Quality = QualityUnknown | QualityStale | QualityGood

fun Quality_String :: "Quality \<Rightarrow> string" where
  "Quality_String QualityGood = ''good''"
| "Quality_String QualityStale = ''stale''"
| "Quality_String QualityUnknown = ''unknown''"

datatype FactType =
  TypeNumber | TypePercent | TypeDuration | TypeEnum | TypeSet | TypeBool | TypeString

fun FactType_String :: "FactType \<Rightarrow> string" where
  "FactType_String TypeNumber = ''number''"
| "FactType_String TypePercent = ''percent''"
| "FactType_String TypeDuration = ''duration''"
| "FactType_String TypeEnum = ''enum''"
| "FactType_String TypeSet = ''set''"
| "FactType_String TypeBool = ''bool''"
| "FactType_String TypeString = ''string''"

definition ParseFactType :: "string \<Rightarrow> FactType" where
  "ParseFactType s =
     (if s = ''number'' then TypeNumber
      else if s = ''percent'' then TypePercent
      else if s = ''duration'' then TypeDuration
      else if s = ''enum'' then TypeEnum
      else if s = ''set'' then TypeSet
      else if s = ''bool'' then TypeBool
      else if s = ''string'' then TypeString
      else TypeString)"

text \<open>
  The dynamic type behind an \<open>any\<close>, as far as the code's type switches tell them apart.
  \<open>GOther\<close> is a value of any other type, with its \<open>%v\<close> rendering.
\<close>

datatype goval =
    GNil
  | GBool bool
  | GFloat64 float64
  | GFloat32 float64
  | GInt int
  | GInt64 int
  | GInt32 int
  | GString string
  | GStrings "string list"
  | GAnys "goval list"
  | GOther string

record FactDeclaration =
  d_Name :: string
  d_Type :: string
  d_Range :: "float64 list"
  d_Values :: "string list"
  d_Description :: string
  d_Unit :: string

record Fact =
  f_Key :: string
  f_Value :: goval
  f_Type :: FactType
  f_Quality :: Quality
  f_UpdatedAt :: "instant option"
  f_Source :: string

definition Fact_Get :: "Fact \<Rightarrow> goval \<times> Quality \<times> instant option" where
  "Fact_Get f = (f_Value f, f_Quality f, f_UpdatedAt f)"

definition Fact_Set :: "Fact \<Rightarrow> goval \<Rightarrow> instant \<Rightarrow> Fact" where
  "Fact_Set f v t = f\<lparr>f_Value := v, f_UpdatedAt := Some t, f_Quality := QualityGood\<rparr>"

definition SetQuality :: "Fact \<Rightarrow> Quality \<Rightarrow> Fact" where
  "SetQuality f q = f\<lparr>f_Quality := q\<rparr>"

section \<open>Three-valued logic (types.go)\<close>

datatype Trilean = Unavailable | TFalse | TTrue

fun Trilean_String :: "Trilean \<Rightarrow> string" where
  "Trilean_String TTrue = ''true''"
| "Trilean_String TFalse = ''false''"
| "Trilean_String Unavailable = ''unavailable''"

definition TriAnd :: "Trilean \<Rightarrow> Trilean \<Rightarrow> Trilean" where
  "TriAnd a b =
     (if a = TFalse \<or> b = TFalse then TFalse
      else if a = Unavailable \<or> b = Unavailable then Unavailable
      else TTrue)"

definition TriOr :: "Trilean \<Rightarrow> Trilean \<Rightarrow> Trilean" where
  "TriOr a b =
     (if a = TTrue \<or> b = TTrue then TTrue
      else if a = Unavailable \<or> b = Unavailable then Unavailable
      else TFalse)"

fun TriNot :: "Trilean \<Rightarrow> Trilean" where
  "TriNot TTrue = TFalse"
| "TriNot TFalse = TTrue"
| "TriNot Unavailable = Unavailable"

definition BoolToTrilean :: "bool \<Rightarrow> Trilean" where
  "BoolToTrilean b = (if b then TTrue else TFalse)"

text \<open>
  The contract the evaluator and the feed policy rely on: a Kleene algebra on three values, in
  which a conjunction or disjunction over a list is decided by its absorbing element and an
  unknown operand never decides anything.
\<close>

locale kleene3 =
  fixes conj3 disj3 :: "'t \<Rightarrow> 't \<Rightarrow> 't"
    and neg3 :: "'t \<Rightarrow> 't"
    and tt3 ff3 uu3 :: 't
  assumes three: "x = tt3 \<or> x = ff3 \<or> x = uu3"
    and distinct3: "tt3 \<noteq> ff3" "tt3 \<noteq> uu3" "ff3 \<noteq> uu3"
    and conj_ff: "conj3 ff3 x = ff3"
    and conj_tt: "conj3 tt3 x = x"
    and conj_comm: "conj3 x y = conj3 y x"
    and conj_assoc: "conj3 (conj3 x y) z = conj3 x (conj3 y z)"
    and conj_idem: "conj3 x x = x"
    and neg_neg: "neg3 (neg3 x) = x"
    and neg_tt: "neg3 tt3 = ff3"
    and de_morgan: "disj3 x y = neg3 (conj3 (neg3 x) (neg3 y))"
begin

lemma neg_ff: "neg3 ff3 = tt3"
  using neg_neg [of tt3] neg_tt by simp

lemma neg_uu: "neg3 uu3 = uu3"
  using three [of "neg3 uu3"] neg_neg [of uu3] neg_tt neg_ff distinct3 by metis

lemma disj_tt: "disj3 tt3 x = tt3"
  by (simp add: de_morgan neg_tt conj_ff neg_ff)

lemma disj_ff: "disj3 ff3 x = x"
  by (simp add: de_morgan neg_ff conj_tt neg_neg)

lemma foldl_conj_start: "foldl conj3 a xs = conj3 a (foldl conj3 tt3 xs)"
proof (induction xs arbitrary: a)
  case Nil
  show ?case by (metis conj_comm conj_tt foldl_Nil)
next
  case (Cons x xs)
  have "foldl conj3 a (x # xs) = conj3 (conj3 a x) (foldl conj3 tt3 xs)"
    using Cons.IH [of "conj3 a x"] by simp
  also have "\<dots> = conj3 a (foldl conj3 (conj3 tt3 x) xs)"
    using Cons.IH [of x] by (simp add: conj_assoc conj_tt)
  finally show ?case by simp
qed

lemma foldl_conj_Cons: "foldl conj3 tt3 (x # xs) = conj3 x (foldl conj3 tt3 xs)"
  using foldl_conj_start [of x xs] by (simp add: conj_tt)

lemma conj_eq_ff: "conj3 x y = ff3 \<longleftrightarrow> x = ff3 \<or> y = ff3"
  using three [of x] three [of y] conj_tt [of y] conj_tt [of x] conj_idem [of uu3]
    conj_comm [of x y] conj_ff [of x] conj_ff [of y] distinct3 by fastforce

lemma conj_eq_tt: "conj3 x y = tt3 \<longleftrightarrow> x = tt3 \<and> y = tt3"
  using three [of x] three [of y] conj_tt [of y] conj_tt [of x] conj_idem [of uu3]
    conj_comm [of x y] conj_ff [of x] conj_ff [of y] distinct3 by fastforce

lemma foldl_conj_ff: "foldl conj3 tt3 xs = ff3 \<longleftrightarrow> ff3 \<in> set xs"
proof (induction xs)
  case Nil
  show ?case using distinct3 by simp
next
  case (Cons x xs)
  then show ?case unfolding foldl_conj_Cons conj_eq_ff by auto
qed

lemma foldl_conj_tt: "foldl conj3 tt3 xs = tt3 \<longleftrightarrow> set xs \<subseteq> {tt3}"
proof (induction xs)
  case Nil
  show ?case by simp
next
  case (Cons x xs)
  then show ?case unfolding foldl_conj_Cons conj_eq_tt by auto
qed

lemma foldl_disj_neg: "foldl disj3 (neg3 a) (map neg3 xs) = neg3 (foldl conj3 a xs)"
  by (induction xs arbitrary: a) (simp_all add: de_morgan neg_neg)

lemma foldl_disj_tt: "foldl disj3 ff3 xs = tt3 \<longleftrightarrow> tt3 \<in> set xs"
proof -
  have "foldl disj3 ff3 xs = neg3 (foldl conj3 tt3 (map neg3 xs))"
    using foldl_disj_neg [of tt3 "map neg3 xs"] by (simp add: neg_tt o_def neg_neg)
  moreover have "neg3 y = tt3 \<longleftrightarrow> y = ff3" for y
    using neg_neg neg_tt neg_ff by metis
  moreover have "ff3 \<in> set (map neg3 xs) \<longleftrightarrow> tt3 \<in> set xs"
    using neg_neg neg_tt by (auto simp: image_iff) (metis neg_ff neg_neg)
  ultimately show ?thesis by (simp add: foldl_conj_ff)
qed

lemma foldl_disj_ff: "foldl disj3 ff3 xs = ff3 \<longleftrightarrow> set xs \<subseteq> {ff3}"
proof -
  have "foldl disj3 ff3 xs = neg3 (foldl conj3 tt3 (map neg3 xs))"
    using foldl_disj_neg [of tt3 "map neg3 xs"] by (simp add: neg_tt o_def neg_neg)
  moreover have "neg3 y = ff3 \<longleftrightarrow> y = tt3" for y
    using neg_neg neg_tt neg_ff by metis
  moreover have "neg3 x = tt3 \<longleftrightarrow> x = ff3" for x
    using neg_neg neg_tt neg_ff by metis
  ultimately show ?thesis by (auto simp: foldl_conj_tt image_subset_iff)
qed

lemma conj_loop: "fold_until ff3 conj3 a xs = foldl conj3 a xs"
  by (rule fold_until_foldl) (rule conj_ff)

lemma disj_loop: "fold_until tt3 disj3 a xs = foldl disj3 a xs"
  by (rule fold_until_foldl) (rule disj_tt)

end

interpretation tri: kleene3 TriAnd TriOr TriNot TTrue TFalse Unavailable
proof unfold_locales
  fix x :: Trilean
  show "x = TTrue \<or> x = TFalse \<or> x = Unavailable" by (cases x) auto
next
  fix x y :: Trilean
  show "TriOr x y = TriNot (TriAnd (TriNot x) (TriNot y))"
    by (cases x; cases y) (auto simp: TriAnd_def TriOr_def)
next
  fix x :: Trilean
  show "TriNot (TriNot x) = x" by (cases x) auto
qed (auto simp: TriAnd_def intro: Trilean.exhaust)

section \<open>The fact store (store.go)\<close>

record Store =
  s_facts :: "string \<rightharpoonup> Fact"
  s_decls :: "string \<rightharpoonup> FactDeclaration"
  s_polls :: "string \<rightharpoonup> duration"

definition NewStore :: Store where
  "NewStore = \<lparr>s_facts = Map.empty, s_decls = Map.empty, s_polls = Map.empty\<rparr>"

definition fact_key :: "string \<Rightarrow> string \<Rightarrow> string" where
  "fact_key source name = source @ CHR ''.'' # name"

text \<open>One iteration of the loop of \<open>RegisterSource\<close>: a fact that exists keeps its value.\<close>

definition register_decl :: "string \<Rightarrow> FactDeclaration \<Rightarrow> Store \<Rightarrow> Store" where
  "register_decl source d s =
     (let key = fact_key source (d_Name d);
          s' = s\<lparr>s_decls := (s_decls s)(key \<mapsto> d)\<rparr>
      in if s_facts s key = None
         then s'\<lparr>s_facts := (s_facts s')(key \<mapsto>
                \<lparr>f_Key = key, f_Value = GNil, f_Type = ParseFactType (d_Type d),
                 f_Quality = QualityUnknown, f_UpdatedAt = None, f_Source = source\<rparr>)\<rparr>
         else s')"

definition RegisterSource :: "string \<Rightarrow> duration \<Rightarrow> FactDeclaration list \<Rightarrow> Store \<Rightarrow> Store" where
  "RegisterSource source pollInterval declarations s =
     fold (register_decl source) declarations
       (s\<lparr>s_polls := (s_polls s)(source \<mapsto> pollInterval)\<rparr>)"

definition Store_Update :: "string \<Rightarrow> goval \<Rightarrow> instant \<Rightarrow> Store \<Rightarrow> Store" where
  "Store_Update key v t s =
     (case s_facts s key of
        None \<Rightarrow> s
      | Some f \<Rightarrow> s\<lparr>s_facts := (s_facts s)(key \<mapsto> Fact_Set f v t)\<rparr>)"

definition Store_Get :: "Store \<Rightarrow> string \<Rightarrow> goval \<times> Quality \<times> instant option" where
  "Store_Get s key =
     (case s_facts s key of
        None \<Rightarrow> (GNil, QualityUnknown, None)
      | Some f \<Rightarrow> Fact_Get f)"

definition stalenessFactor :: int where "stalenessFactor = 2"

definition minPollInterval :: duration where "minPollInterval = Second"

definition sourceFromKey :: "string \<Rightarrow> string" where
  "sourceFromKey key = (case Cut key CHR ''.'' of None \<Rightarrow> key | Some (a, _) \<Rightarrow> a)"

text \<open>What the loop of \<open>RefreshQuality\<close> does to the fact stored under \<open>key\<close>.\<close>

definition refresh_fact :: "(string \<rightharpoonup> duration) \<Rightarrow> instant \<Rightarrow> string \<Rightarrow> Fact \<Rightarrow> Fact" where
  "refresh_fact polls now key f =
     (case polls (sourceFromKey key) of
        None \<Rightarrow> f
      | Some interval \<Rightarrow>
          (if f_Quality f = QualityUnknown then f
           else let interval' = (if interval < minPollInterval then minPollInterval else interval)
                in case f_UpdatedAt f of
                     None \<Rightarrow> SetQuality f QualityStale
                   | Some t \<Rightarrow>
                       (if now - t > interval' * stalenessFactor
                        then SetQuality f QualityStale else SetQuality f QualityGood)))"

definition RefreshQuality :: "instant \<Rightarrow> Store \<Rightarrow> Store" where
  "RefreshQuality now s =
     s\<lparr>s_facts := (\<lambda>k. map_option (refresh_fact (s_polls s) now k) (s_facts s k))\<rparr>"

definition FactValue :: "Store \<Rightarrow> string \<Rightarrow> goval" where
  "FactValue s key =
     (case Store_Get s key of (v, q, _) \<Rightarrow> if q \<noteq> QualityGood then GNil else v)"

definition FactQuality :: "Store \<Rightarrow> string \<Rightarrow> string" where
  "FactQuality s key = (case Store_Get s key of (_, q, _) \<Rightarrow> Quality_String q)"

definition FactAgeAt :: "Store \<Rightarrow> string \<Rightarrow> instant \<Rightarrow> rat" where
  "FactAgeAt s key now =
     (case Store_Get s key of
        (_, _, None) \<Rightarrow> -1
      | (_, _, Some t) \<Rightarrow> (let age = Seconds (now - t) in if age < 0 then 0 else age))"

text \<open>\<open>GetDeclaration\<close>, \<open>AllFacts\<close> and \<open>AllDeclarations\<close> return the maps' contents.\<close>

definition GetDeclaration :: "Store \<Rightarrow> string \<Rightarrow> FactDeclaration option" where
  "GetDeclaration s key = s_decls s key"

definition AllDeclarations :: "Store \<Rightarrow> (string \<rightharpoonup> FactDeclaration)" where
  "AllDeclarations s = s_decls s"

definition AllFacts :: "Store \<Rightarrow> (string \<rightharpoonup> Fact)" where
  "AllFacts s = s_facts s"

subsection \<open>Field equations\<close>

lemma sourceFromKey_fact_key [simp]:
  "CHR ''.'' \<notin> set source \<Longrightarrow> sourceFromKey (fact_key source name) = source"
  by (simp add: sourceFromKey_def fact_key_def)

lemma Update_polls [simp, store_simps]: "s_polls (Store_Update k v t s) = s_polls s"
  by (simp add: Store_Update_def split: option.splits)

lemma Update_decls [simp, store_simps]: "s_decls (Store_Update k v t s) = s_decls s"
  by (simp add: Store_Update_def split: option.splits)

lemma Update_facts [simp, store_simps]:
  "s_facts (Store_Update k v t s) =
     (case s_facts s k of None \<Rightarrow> s_facts s | Some f \<Rightarrow> (s_facts s)(k \<mapsto> Fact_Set f v t))"
  by (simp add: Store_Update_def split: option.splits)

lemma Refresh_polls [simp, store_simps]: "s_polls (RefreshQuality now s) = s_polls s"
  by (simp add: RefreshQuality_def)

lemma Refresh_decls [simp, store_simps]: "s_decls (RefreshQuality now s) = s_decls s"
  by (simp add: RefreshQuality_def)

lemma Refresh_facts [simp, store_simps]:
  "s_facts (RefreshQuality now s) k = map_option (refresh_fact (s_polls s) now k) (s_facts s k)"
  by (simp add: RefreshQuality_def)

lemma Register_decl_polls [simp]: "s_polls (register_decl src d s) = s_polls s"
  by (simp add: register_decl_def Let_def)

lemma Register_fold_polls [simp]: "s_polls (fold (register_decl src) ds s) = s_polls s"
  by (induction ds arbitrary: s) auto

lemma Register_polls [simp, store_simps]:
  "s_polls (RegisterSource src i ds s) = (s_polls s)(src \<mapsto> i)"
  by (simp add: RegisterSource_def)

lemma Register_decl_keeps:
  "s_facts s k = Some f \<Longrightarrow> s_facts (register_decl src d s) k = Some f"
  by (auto simp: register_decl_def Let_def)

lemma Register_fold_keeps:
  "s_facts s k = Some f \<Longrightarrow> s_facts (fold (register_decl src) ds s) k = Some f"
  by (induction ds arbitrary: s) (auto intro: Register_decl_keeps)

lemma RegisterSource_keeps:
  "s_facts s k = Some f \<Longrightarrow> s_facts (RegisterSource src i ds s) k = Some f"
  by (simp add: RegisterSource_def Register_fold_keeps)

lemma refresh_fact_frame [simp]:
  "f_Value (refresh_fact p now k f) = f_Value f"
  "f_UpdatedAt (refresh_fact p now k f) = f_UpdatedAt f"
  "f_Key (refresh_fact p now k f) = f_Key f"
  "f_Source (refresh_fact p now k f) = f_Source f"
  by (simp_all add: refresh_fact_def Let_def SetQuality_def split: option.splits)

subsection \<open>The representation invariant\<close>

text \<open>
  Every fact is stored under its own key and is declared, every declaration has a fact, and a
  fact is unknown exactly while it has never been reported, in which case it has no value.
\<close>

definition fact_inv :: "string \<Rightarrow> Fact \<Rightarrow> bool" where
  "fact_inv k f \<longleftrightarrow> f_Key f = k \<and> (f_Quality f = QualityUnknown \<longleftrightarrow> f_UpdatedAt f = None) \<and>
     (f_UpdatedAt f = None \<longrightarrow> f_Value f = GNil)"

definition store_inv :: "Store \<Rightarrow> bool" where
  "store_inv s \<longleftrightarrow> (\<forall>k f. s_facts s k = Some f \<longrightarrow> fact_inv k f) \<and> dom (s_facts s) = dom (s_decls s)"

lemma store_invI:
  "(\<And>k f. s_facts s k = Some f \<Longrightarrow> fact_inv k f) \<Longrightarrow> dom (s_facts s) = dom (s_decls s) \<Longrightarrow> store_inv s"
  by (simp add: store_inv_def)

lemma store_invD: "store_inv s \<Longrightarrow> s_facts s k = Some f \<Longrightarrow> fact_inv k f"
  by (simp add: store_inv_def)

lemma store_inv_dom: "store_inv s \<Longrightarrow> dom (s_facts s) = dom (s_decls s)"
  by (simp add: store_inv_def)

lemma store_inv_New: "store_inv NewStore"
  by (simp add: store_inv_def NewStore_def)

lemma fact_inv_fresh:
  "fact_inv k \<lparr>f_Key = k, f_Value = GNil, f_Type = ty, f_Quality = QualityUnknown,
     f_UpdatedAt = None, f_Source = src\<rparr>"
  by (simp add: fact_inv_def)

lemma fact_inv_Set: "fact_inv k f \<Longrightarrow> fact_inv k (Fact_Set f v t)"
  by (simp add: fact_inv_def Fact_Set_def)

lemma fact_inv_refresh: "fact_inv k f \<Longrightarrow> fact_inv k (refresh_fact p now k f)"
  by (auto simp: fact_inv_def refresh_fact_def SetQuality_def Let_def split: option.splits)

lemma store_inv_Update:
  assumes "store_inv s"
  shows "store_inv (Store_Update k v t s)"
proof (rule store_invI)
  fix k' f
  assume "s_facts (Store_Update k v t s) k' = Some f"
  then show "fact_inv k' f"
    using assms by (auto simp: store_invD fact_inv_Set split: option.splits if_splits)
next
  show "dom (s_facts (Store_Update k v t s)) = dom (s_decls (Store_Update k v t s))"
    using store_inv_dom [OF assms] by (auto split: option.splits)
qed

lemma store_inv_Refresh:
  assumes "store_inv s"
  shows "store_inv (RefreshQuality now s)"
proof (rule store_invI)
  fix k f
  assume "s_facts (RefreshQuality now s) k = Some f"
  then show "fact_inv k f"
    using assms by (auto intro: fact_inv_refresh dest: store_invD)
next
  show "dom (s_facts (RefreshQuality now s)) = dom (s_decls (RefreshQuality now s))"
    using store_inv_dom [OF assms] by (auto simp: dom_def)
qed

lemma store_inv_register_decl:
  assumes "store_inv s"
  shows "store_inv (register_decl src d s)"
proof (rule store_invI)
  fix k f
  assume "s_facts (register_decl src d s) k = Some f"
  then show "fact_inv k f"
    using assms
    by (auto simp: register_decl_def Let_def fact_inv_fresh split: if_splits dest: store_invD)
next
  show "dom (s_facts (register_decl src d s)) = dom (s_decls (register_decl src d s))"
    using store_inv_dom [OF assms] by (auto simp: register_decl_def Let_def)
qed

lemma store_inv_fold_register: "store_inv s \<Longrightarrow> store_inv (fold (register_decl src) ds s)"
  by (induction ds arbitrary: s) (auto intro: store_inv_register_decl)

lemma store_inv_Register:
  assumes "store_inv s"
  shows "store_inv (RegisterSource src i ds s)"
proof -
  have "store_inv (s\<lparr>s_polls := (s_polls s)(src \<mapsto> i)\<rparr>)"
    using assms by (simp add: store_inv_def)
  then show ?thesis unfolding RegisterSource_def by (rule store_inv_fold_register)
qed

lemmas store_inv_preserved =
  store_inv_New store_inv_Update store_inv_Refresh store_inv_Register

subsection \<open>The contract of the store\<close>

text \<open>
  What the readers of the store rely on. \<open>get\<close> reads a key, \<open>upd\<close> is a report of a source,
  \<open>refresh\<close> the periodic freshness pass, \<open>window\<close> how old a report may be before it stops
  counting, \<open>known\<close> whether the key is declared.
\<close>

locale fact_store =
  fixes get :: "'s \<Rightarrow> 'k \<Rightarrow> 'v \<times> Quality \<times> instant option"
    and upd :: "'k \<Rightarrow> 'v \<Rightarrow> instant \<Rightarrow> 's \<Rightarrow> 's"
    and refresh :: "instant \<Rightarrow> 's \<Rightarrow> 's"
    and window :: "'s \<Rightarrow> 'k \<Rightarrow> duration option"
    and known :: "'s \<Rightarrow> 'k \<Rightarrow> bool"
  assumes get_upd_same: "known s k \<Longrightarrow> get (upd k v t s) k = (v, QualityGood, Some t)"
    and get_upd_other: "k' \<noteq> k \<Longrightarrow> get (upd k v t s) k' = get s k'"
    and get_upd_unknown: "\<not> known s k \<Longrightarrow> upd k v t s = s"
    and get_refresh: "get s k = (v, q, Some t) \<Longrightarrow> q \<noteq> QualityUnknown \<Longrightarrow> window s k = Some w \<Longrightarrow>
      get (refresh now s) k = (v, if now - t > w then QualityStale else QualityGood, Some t)"
    and get_refresh_unknown: "get s k = (v, QualityUnknown, u) \<Longrightarrow>
      get (refresh now s) k = (v, QualityUnknown, u)"
    and window_upd: "window (upd k v t s) = window s"
    and window_refresh: "window (refresh now s) = window s"
    and known_upd: "known (upd k v t s) = known s"
    and known_refresh: "known (refresh now s) = known s"
begin

lemma report_then_refresh:
  assumes "known s k" and "window s k = Some w"
  shows "get (refresh now (upd k v t s)) k =
    (v, if now - t > w then QualityStale else QualityGood, Some t)"
proof -
  have "get (upd k v t s) k = (v, QualityGood, Some t)"
    by (rule get_upd_same [OF assms(1)])
  then show ?thesis
    using assms(2) by (intro get_refresh) (auto simp: window_upd)
qed

lemma unreported_stays_unknown:
  assumes "get s k = (v, QualityUnknown, t)"
  shows "get (fold refresh nows s) k = (v, QualityUnknown, t)"
  using assms by (induction nows arbitrary: s) (auto intro: get_refresh_unknown)

text \<open>Over a whole pass sequence only the last instant counts.\<close>

lemma window_fold: "window (fold refresh nows s) = window s"
  by (induction nows arbitrary: s) (auto simp: window_refresh)

lemma refresh_many:
  assumes "get s k = (v, q, Some t)" and "q \<noteq> QualityUnknown" and "window s k = Some w"
    and "nows \<noteq> []"
  shows "get (fold refresh nows s) k =
    (v, if last nows - t > w then QualityStale else QualityGood, Some t)"
  using assms
proof (induction nows arbitrary: s q)
  case Nil
  then show ?case by simp
next
  case (Cons n ns)
  have step: "get (refresh n s) k = (v, if n - t > w then QualityStale else QualityGood, Some t)"
    using Cons.prems by (intro get_refresh)
  show ?case
  proof (cases "ns = []")
    case True
    with step show ?thesis by simp
  next
    case False
    have "get (fold refresh ns (refresh n s)) k =
        (v, if last ns - t > w then QualityStale else QualityGood, Some t)"
      by (rule Cons.IH [OF step]) (use Cons.prems False in \<open>auto simp: window_refresh split: if_splits\<close>)
    with False show ?thesis by simp
  qed
qed

end

definition staleness_window :: "Store \<Rightarrow> string \<Rightarrow> duration option" where
  "staleness_window s k =
     map_option (\<lambda>i. max i minPollInterval * stalenessFactor) (s_polls s (sourceFromKey k))"

definition declared :: "Store \<Rightarrow> string \<Rightarrow> bool" where
  "declared s k \<longleftrightarrow> s_facts s k \<noteq> None"

lemma Get_refresh:
  assumes "Store_Get s k = (v, q, Some t)" and "q \<noteq> QualityUnknown"
    and "staleness_window s k = Some w"
  shows "Store_Get (RefreshQuality now s) k =
    (v, if now - t > w then QualityStale else QualityGood, Some t)"
proof -
  from assms(1) obtain f where f: "s_facts s k = Some f" "f_Value f = v" "f_Quality f = q"
      "f_UpdatedAt f = Some t"
    by (auto simp: Store_Get_def Fact_Get_def split: option.splits)
  from assms(3) obtain i where i: "s_polls s (sourceFromKey k) = Some i"
      "w = max i minPollInterval * stalenessFactor"
    by (auto simp: staleness_window_def)
  have "(if i < minPollInterval then minPollInterval else i) = max i minPollInterval"
    by (simp add: max_def)
  with f i assms(2) show ?thesis
    by (auto simp: Store_Get_def Fact_Get_def refresh_fact_def SetQuality_def Let_def)
qed

interpretation store: fact_store Store_Get Store_Update RefreshQuality staleness_window declared
proof unfold_locales
  fix s k v q t w now
  assume "Store_Get s k = (v, q, Some t)" "q \<noteq> QualityUnknown" "staleness_window s k = Some w"
  then show "Store_Get (RefreshQuality now s) k =
      (v, if now - t > w then QualityStale else QualityGood, Some t)"
    by (rule Get_refresh)
next
  fix s k v t now
  assume "Store_Get s k = (v, QualityUnknown, t)"
  then show "Store_Get (RefreshQuality now s) k = (v, QualityUnknown, t)"
    by (auto simp: Store_Get_def Fact_Get_def refresh_fact_def split: option.splits)
qed (auto simp: Store_Get_def Fact_Get_def Fact_Set_def declared_def staleness_window_def
       Store_Update_def fun_eq_iff split: option.splits)

end
