(* ===== verification/Durations.thy ===== *)
theory Durations
  imports Facts
begin

text \<open>
  Durations as the configuration writes them: \<open>ParseDuration\<close> and \<open>Duration\<close> of
  \<open>internal/config/loader.go\<close> on top of Go's \<open>time.ParseDuration\<close>, and the record of what the
  program takes from code outside the repository.
\<close>

section \<open>The runtime the program relies on\<close>

text \<open>
  Code that is not part of the repository is a field of \<open>runtime\<close>, an argument of every
  definition that uses it: float parsing and printing (\<open>strconv.ParseFloat\<close>, the \<open>%v\<close> verb on a
  \<open>float64\<close> or \<open>float32\<close>), the conversion of a \<open>float64\<close> outside the \<open>int64\<close> range (left to the platform by
  the language), the expression compiler and machine (\<open>expr-lang/expr\<close>), the digest that names a
  condition's timer (\<open>sha256\<close> of its JSON encoding) and the expression checker that
  \<open>canarium validate\<close> installs. The machine is given the four functions of its environment and
  answers with its result and the keys it asked \<open>fact()\<close> for.
\<close>

record exprenv =
  env_fact :: "string \<Rightarrow> goval"
  env_quality :: "string \<Rightarrow> string"
  env_age :: "string \<Rightarrow> rat"
  env_contains :: "goval \<Rightarrow> string \<Rightarrow> bool"

record 'c runtime =
  rt_ParseFloat :: "string \<Rightarrow> float64 option"
  rt_FormatFloat :: "float64 \<Rightarrow> string"
  rt_FormatFloat32 :: "float64 \<Rightarrow> string"
  rt_FloatToInt :: "float64 \<Rightarrow> int"
  rt_ExprCompile :: "string \<Rightarrow> bool"
  rt_ExprRun :: "string \<Rightarrow> exprenv \<Rightarrow> goval option \<times> string list"
  rt_Digest :: "'c \<Rightarrow> string"

section \<open>time.ParseDuration\<close>

definition digit_val :: "char \<Rightarrow> nat" where
  "digit_val c = of_char c - 48"

text \<open>The integer before the decimal point; \<open>None\<close> when it leaves the 63-bit range.\<close>

fun leadingInt :: "nat \<Rightarrow> string \<Rightarrow> (nat \<times> string) option" where
  "leadingInt x [] = Some (x, [])"
| "leadingInt x (c # s) =
     (if \<not> is_digit c then Some (x, c # s)
      else if x > 2 ^ 63 div 10 then None
      else let y = x * 10 + digit_val c in if y > 2 ^ 63 then None else leadingInt y s)"

text \<open>The digits after the point: their value, their number while the value fits, the rest.\<close>

fun leadingFraction :: "nat \<Rightarrow> nat \<Rightarrow> bool \<Rightarrow> string \<Rightarrow> nat \<times> nat \<times> string" where
  "leadingFraction x k ovf [] = (x, k, [])"
| "leadingFraction x k ovf (c # s) =
     (if \<not> is_digit c then (x, k, c # s)
      else if ovf then leadingFraction x k ovf s
      else if x > (2 ^ 63 - 1) div 10 then leadingFraction x k True s
      else let y = x * 10 + digit_val c
           in if y > 2 ^ 63 then leadingFraction x k True s
              else leadingFraction y (Suc k) False s)"

definition unitMap :: "string \<Rightarrow> nat option" where
  "unitMap u =
     (if u = ''ns'' then Some 1
      else if u = ''us'' \<or> u = [CHR 0xC2, CHR 0xB5, CHR ''s''] \<or> u = [CHR 0xCE, CHR 0xBC, CHR ''s'']
      then Some 1000
      else if u = ''ms'' then Some 1000000
      else if u = ''s'' then Some 1000000000
      else if u = ''m'' then Some 60000000000
      else if u = ''h'' then Some 3600000000000
      else None)"

definition not_unit_end :: "char \<Rightarrow> bool" where
  "not_unit_end c \<longleftrightarrow> \<not> (c = CHR ''.'' \<or> is_digit c)"

text \<open>
  One round of the loop consumes a number (its integer part, its fraction and the number of
  fraction digits) and then its unit.
\<close>

definition parse_fraction :: "string \<Rightarrow> nat \<times> nat \<times> string \<times> bool" where
  "parse_fraction s =
     (case s of
        [] \<Rightarrow> (0, 0, s, False)
      | c # r \<Rightarrow>
          (if c = CHR ''.''
           then let (f, k, r') = leadingFraction 0 0 False r in (f, k, r', length r \<noteq> length r')
           else (0, 0, s, False)))"

definition parse_number :: "string \<Rightarrow> (nat \<times> nat \<times> nat \<times> string) option" where
  "parse_number s =
     (if s = [] \<or> \<not> (hd s = CHR ''.'' \<or> is_digit (hd s)) then None
      else case leadingInt 0 s of
             None \<Rightarrow> None
           | Some (v, s1) \<Rightarrow>
               (let (f, k, s2, post) = parse_fraction s1
                in if length s = length s1 \<and> \<not> post then None else Some (v, f, k, s2)))"

definition scale_number :: "nat \<Rightarrow> nat \<Rightarrow> nat \<Rightarrow> nat \<Rightarrow> nat option" where
  "scale_number v f k unit =
     (if v > 2 ^ 63 div unit then None
      else if f = 0 then Some (v * unit)
      else let v' = v * unit + nat \<lfloor>fl (fl (of_nat f) * fl (of_nat unit / 10 ^ k))\<rfloor>
           in if v' > 2 ^ 63 then None else Some v')"

definition parse_component :: "string \<Rightarrow> (nat \<times> string) option" where
  "parse_component s =
     (case parse_number s of
        None \<Rightarrow> None
      | Some (v, f, k, s2) \<Rightarrow>
          (let u = takeWhile not_unit_end s2
           in if u = [] then None
              else case unitMap u of
                     None \<Rightarrow> None
                   | Some unit \<Rightarrow>
                       map_option (\<lambda>n. (n, dropWhile not_unit_end s2)) (scale_number v f k unit)))"

lemma leadingInt_length: "leadingInt x s = Some (v, r) \<Longrightarrow> length r \<le> length s"
  by (induction x s rule: leadingInt.induct)
    (auto simp: Let_def split: if_splits)

lemma leadingFraction_length: "leadingFraction x k b s = (f, k', r) \<Longrightarrow> length r \<le> length s"
  by (induction x k b s rule: leadingFraction.induct)
    (auto simp: Let_def split: if_splits)

lemma parse_fraction_length: "parse_fraction s = (f, k, r, p) \<Longrightarrow> length r \<le> length s"
  by (fastforce simp: parse_fraction_def Let_def dest: leadingFraction_length
      split: list.splits if_splits prod.splits)

lemma parse_number_length: "parse_number s = Some (v, f, k, r) \<Longrightarrow> length r \<le> length s"
  by (fastforce simp: parse_number_def Let_def dest: leadingInt_length parse_fraction_length
      split: option.splits if_splits prod.splits)

lemma dropWhile_shorter: "takeWhile P t \<noteq> [] \<Longrightarrow> length (dropWhile P t) < length t"
  by (cases t) (auto simp: length_dropWhile_le le_imp_less_Suc split: if_splits)

lemma parse_component_length:
  "parse_component s = Some (v, r) \<Longrightarrow> length r < length s"
  by (fastforce simp: parse_component_def Let_def dest: parse_number_length dropWhile_shorter
      split: option.splits if_splits)

text \<open>The loop; \<open>d\<close> is the sum so far.\<close>

function parse_components :: "nat \<Rightarrow> string \<Rightarrow> nat option" where
  "parse_components d s =
     (if s = [] then Some d
      else case parse_component s of
             None \<Rightarrow> None
           | Some (v, r) \<Rightarrow> (if d + v > 2 ^ 63 then None else parse_components (d + v) r))"
  by pat_completeness auto
termination
  by (relation "measure (\<lambda>(d, s). length s)") (auto dest: parse_component_length)

declare parse_components.simps [simp del]

definition time_ParseDuration :: "string \<Rightarrow> duration option" where
  "time_ParseDuration s =
     (let neg = (s \<noteq> [] \<and> hd s = CHR ''-'');
          t = (if s \<noteq> [] \<and> (hd s = CHR ''-'' \<or> hd s = CHR ''+'') then tl s else s)
      in if t = ''0'' then Some 0
         else if t = [] then None
         else case parse_components 0 t of
                None \<Rightarrow> None
              | Some d \<Rightarrow>
                  (if neg then Some (- int d)
                   else if d > 2 ^ 63 - 1 then None
                   else Some (int d)))"

section \<open>ParseDuration and Duration (loader.go)\<close>

text \<open>
  \<open>Duration(x)\<close> of a \<open>float64\<close>: truncation where the result fits an \<open>int64\<close>, else whatever the
  platform gives.
\<close>

definition float_to_duration :: "('c, 'z) runtime_scheme \<Rightarrow> float64 \<Rightarrow> duration" where
  "float_to_duration rt x =
     (case x of
        Finite q \<Rightarrow>
          (let n = (if 0 \<le> q then \<lfloor>q\<rfloor> else \<lceil>q\<rceil>)
           in if - (2 ^ 63) \<le> n \<and> n < 2 ^ 63 then n else rt_FloatToInt rt x)
      | _ \<Rightarrow> rt_FloatToInt rt x)"

fun f_mul_pos :: "float64 \<Rightarrow> rat \<Rightarrow> float64" where
  "f_mul_pos NaN c = NaN"
| "f_mul_pos PosInf c = PosInf"
| "f_mul_pos NegInf c = NegInf"
| "f_mul_pos (Finite q) c = Finite (fl (q * c))"

definition ParseDuration :: "('c, 'z) runtime_scheme \<Rightarrow> string \<Rightarrow> duration option" where
  "ParseDuration rt s =
     (if s = [] then Some 0
      else let s = TrimSpace s
           in case time_ParseDuration s of
                Some d \<Rightarrow> Some d
              | None \<Rightarrow>
                  (case CutSuffix s ''d'' of
                     None \<Rightarrow> None
                   | Some numStr \<Rightarrow>
                       (case rt_ParseFloat rt numStr of
                          None \<Rightarrow> None
                        | Some days \<Rightarrow>
                            Some (float_to_duration rt
                              (f_mul_pos (f_mul_pos days 24) (of_int Hour))))))"

text \<open>
  \<open>Duration(value, def)\<close> returns the duration and whether the value failed to parse; callers
  log the failure and use the duration.
\<close>

definition Duration :: "('c, 'z) runtime_scheme \<Rightarrow> string \<Rightarrow> duration \<Rightarrow> duration \<times> bool" where
  "Duration rt value def =
     (if TrimSpace value = [] then (def, False)
      else case ParseDuration rt value of
             None \<Rightarrow> (def, True)
           | Some d \<Rightarrow> (d, False))"

abbreviation duration_or :: "('c, 'z) runtime_scheme \<Rightarrow> string \<Rightarrow> duration \<Rightarrow> duration" where
  "duration_or rt value def \<equiv> fst (Duration rt value def)"

section \<open>What parsing guarantees\<close>

text \<open>\<open>strconv.Itoa\<close> on a natural number.\<close>

fun show_nat :: "nat \<Rightarrow> string" where
  "show_nat n = (if n < 10 then [char_of (n + 48)] else show_nat (n div 10) @ [char_of (n mod 10 + 48)])"

declare show_nat.simps [simp del]

lemma digit_char [simp]:
  assumes "d < 10"
  shows "is_digit (char_of (d + 48))" and "digit_val (char_of (d + 48)) = d"
  using assms by (simp_all add: is_digit_def digit_val_def)

lemma digit_not_space: "is_digit c \<Longrightarrow> \<not> is_space c"
  by (auto simp: is_digit_def is_space_def)

lemma digit_not_sign: "is_digit c \<Longrightarrow> c \<noteq> CHR ''-'' \<and> c \<noteq> CHR ''+'' \<and> c \<noteq> CHR ''.''"
  by (auto simp: is_digit_def)

lemma show_nat_digits: "\<forall>c \<in> set (show_nat n). is_digit c"
proof (induction n rule: show_nat.induct)
  case (1 n)
  show ?case
  proof (cases "n < 10")
    case True
    then show ?thesis by (subst show_nat.simps) simp
  next
    case False
    with "1.IH" show ?thesis by (subst show_nat.simps) (auto simp del: of_char_of)
  qed
qed

lemma show_nat_nonempty: "show_nat n \<noteq> []"
  by (subst show_nat.simps) simp

lemma leadingInt_show_nat: "n \<le> 2 ^ 63 \<Longrightarrow> leadingInt 0 (show_nat n @ t) = leadingInt n t"
proof (induction n arbitrary: t rule: show_nat.induct)
  case (1 n)
  show ?case
  proof (cases "n < 10")
    case True
    with "1.prems" show ?thesis by (subst show_nat.simps) (simp add: Let_def)
  next
    case False
    have split: "n div 10 * 10 + n mod 10 = n" by simp
    have "leadingInt 0 (show_nat n @ t) = leadingInt 0 (show_nat (n div 10) @ char_of (n mod 10 + 48) # t)"
      using False by (subst show_nat.simps) simp
    also have "\<dots> = leadingInt (n div 10) (char_of (n mod 10 + 48) # t)"
      using "1.IH" [OF False, of "char_of (n mod 10 + 48) # t"] "1.prems" by linarith
    also have "\<dots> = leadingInt n t"
    proof -
      have "n div 10 \<le> 2 ^ 63 div 10" using "1.prems" by (rule div_le_mono)
      with "1.prems" split show ?thesis by (simp add: Let_def)
    qed
    finally show ?thesis .
  qed
qed

lemma leadingInt_stop: "t \<noteq> [] \<Longrightarrow> \<not> is_digit (hd t) \<Longrightarrow> leadingInt n t = Some (n, t)"
  by (cases t) auto

lemma unitMap_chars:
  assumes "unitMap u = Some m"
  shows "u \<noteq> []" and "takeWhile not_unit_end u = u" and "dropWhile not_unit_end u = []"
    and "\<not> is_digit (hd u)" and "hd u \<noteq> CHR ''.''" and "\<not> is_space (last u)" and "m > 0"
  using assms
  by (auto simp: unitMap_def not_unit_end_def is_digit_def is_space_def split: if_splits)

lemma parse_component_print:
  assumes u: "unitMap u = Some m" and n: "n * m \<le> 2 ^ 63"
  shows "parse_component (show_nat n @ u) = Some (n * m, [])"
proof -
  note um = unitMap_chars [OF u]
  have "n \<le> n * m" using um(7) by simp
  with n have small: "n \<le> 2 ^ 63" by linarith
  have "n \<le> 2 ^ 63 div m"
    using n um(7) by (simp add: less_eq_div_iff_mult_less_eq)
  moreover have "is_digit (hd (show_nat n @ u))"
    using show_nat_digits [of n] show_nat_nonempty [of n] by simp
  moreover have "leadingInt 0 (show_nat n @ u) = Some (n, u)"
    using leadingInt_show_nat [OF small, of u] leadingInt_stop [of u n] um by simp
  moreover have "parse_fraction u = (0, 0, u, False)"
    using um by (cases u) (auto simp: parse_fraction_def)
  ultimately show ?thesis
    using um(1,7) show_nat_nonempty [of n]
    by (simp add: parse_component_def parse_number_def scale_number_def u um(2,3) Let_def)
qed

lemma time_ParseDuration_print:
  assumes u: "unitMap u = Some m" and n: "n * m < 2 ^ 63"
  shows "time_ParseDuration (show_nat n @ u) = Some (int (n * m))"
proof -
  have d: "is_digit (hd (show_nat n))" and ne: "show_nat n \<noteq> []"
    using show_nat_digits [of n] show_nat_nonempty [of n] by simp_all
  have "show_nat n @ u \<noteq> ''0''"
    using ne unitMap_chars(1) [OF u] by (cases "show_nat n") auto
  moreover have "parse_components 0 (show_nat n @ u) = Some (n * m)"
    using parse_component_print [OF u, of n] n ne
    by (simp add: parse_components.simps)
  ultimately show ?thesis
    using digit_not_sign [OF d] ne n by (auto simp: time_ParseDuration_def Let_def)
qed

lemma TrimSpace_id:
  "s \<noteq> [] \<Longrightarrow> \<not> is_space (hd s) \<Longrightarrow> \<not> is_space (last s) \<Longrightarrow> TrimSpace s = s"
  by (simp add: TrimSpace_def dropWhile_eq_self_iff [THEN iffD2] hd_rev)

text \<open>
  A duration written as a number and one of Go's units parses to that number of
  nanoseconds, for every value that fits an int64.
\<close>

theorem ParseDuration_print:
  assumes u: "unitMap u = Some m" and n: "n * m < 2 ^ 63"
  shows "ParseDuration rt (show_nat n @ u) = Some (int n * int m)"
proof -
  have d: "is_digit (hd (show_nat n))" and ne: "show_nat n \<noteq> []"
    using show_nat_digits [of n] show_nat_nonempty [of n] by simp_all
  have "TrimSpace (show_nat n @ u) = show_nat n @ u"
    by (rule TrimSpace_id) (use d ne unitMap_chars [OF u] digit_not_space in auto)
  then show ?thesis
    using ne time_ParseDuration_print [OF u n] by (simp add: ParseDuration_def Let_def)
qed

lemma parse_components_bound: "parse_components d s = Some r \<Longrightarrow> d \<le> 2 ^ 63 \<Longrightarrow> r \<le> 2 ^ 63"
proof (induction d s rule: parse_components.induct)
  case (1 d s)
  show ?case
  proof (cases "s = []")
    case True
    with "1.prems" show ?thesis by (simp add: parse_components.simps)
  next
    case False
    with "1.prems" obtain v r' where p: "parse_component s = Some (v, r')" and b: "\<not> d + v > 2 ^ 63"
        and rec: "parse_components (d + v) r' = Some r"
      by (subst (asm) parse_components.simps) (auto split: option.splits if_splits)
    from "1.IH" [OF False p refl b rec] b show ?thesis by simp
  qed
qed

text \<open>
  Every duration that \<open>time.ParseDuration\<close> accepts is an int64: the parser reports an error
  instead of wrapping around.
\<close>

theorem time_ParseDuration_int64:
  assumes "time_ParseDuration s = Some d"
  shows "- (2 ^ 63) \<le> d \<and> d < 2 ^ 63"
proof -
  define t where "t = (if s \<noteq> [] \<and> (hd s = CHR ''-'' \<or> hd s = CHR ''+'') then tl s else s)"
  show ?thesis
  proof (cases "t = ''0''")
    case True
    with assms show ?thesis by (auto simp: time_ParseDuration_def t_def Let_def)
  next
    case False
    with assms obtain n where n: "parse_components 0 t = Some n"
        and d: "d = - int n \<or> (n \<le> 2 ^ 63 - 1 \<and> d = int n)"
      by (auto simp: time_ParseDuration_def t_def Let_def split: option.splits if_splits)
    from parse_components_bound [OF n] have "int n \<le> 2 ^ 63"
      by (metis of_nat_le_iff of_nat_numeral of_nat_power zero_le)
    with d show ?thesis by (auto simp: nat_less_le)
  qed
qed

end
