(* ===== verification/Dwell_Store.thy ===== *)
theory Dwell_Store
  imports Durations
begin

text \<open>
  The dwell timers' persistence: the record the evaluator saves (\<open>DwellRecord\<close> of
  \<open>internal/conditions/dwell.go\<close>) and the table that keeps it (\<open>internal/state/dwell.go\<close>), with
  the contract of the Go interface \<open>DwellStore\<close> between them.
\<close>

record DwellRecord =
  r_RequiredNS :: int
  r_ElapsedNS :: int
  r_Satisfied :: bool
  r_LastSeen :: instant

text \<open>A row of \<open>dwell_trackers\<close>; \<open>last_seen_at\<close> is in whole seconds.\<close>

record dwell_row =
  row_required_ns :: int
  row_elapsed_ns :: int
  row_satisfied :: bool
  row_last_seen_at :: int

type_synonym dwell_table = "string \<rightharpoonup> dwell_row"

definition Time_Unix :: "instant \<Rightarrow> int" where
  "Time_Unix t = t div Second"

definition LoadDwellTrackers :: "dwell_table \<Rightarrow> (string \<rightharpoonup> DwellRecord)" where
  "LoadDwellTrackers tbl =
     (\<lambda>k. map_option (\<lambda>row. \<lparr>r_RequiredNS = row_required_ns row, r_ElapsedNS = row_elapsed_ns row,
              r_Satisfied = row_satisfied row, r_LastSeen = row_last_seen_at row * Second\<rparr>) (tbl k))"

definition SaveDwellTracker :: "string \<Rightarrow> DwellRecord \<Rightarrow> dwell_table \<Rightarrow> dwell_table" where
  "SaveDwellTracker key rec tbl =
     tbl(key \<mapsto> \<lparr>row_required_ns = r_RequiredNS rec, row_elapsed_ns = r_ElapsedNS rec,
               row_satisfied = r_Satisfied rec, row_last_seen_at = Time_Unix (r_LastSeen rec)\<rparr>)"

definition DeleteDwellTracker :: "string \<Rightarrow> dwell_table \<Rightarrow> dwell_table" where
  "DeleteDwellTracker key tbl = tbl(key := None)"

text \<open>\<open>DELETE FROM dwell_trackers WHERE last_seen_at < before\<close>.\<close>

definition PruneDwellTrackers :: "instant \<Rightarrow> dwell_table \<Rightarrow> dwell_table" where
  "PruneDwellTrackers before tbl =
     (\<lambda>k. case tbl k of None \<Rightarrow> None
        | Some row \<Rightarrow> (if row_last_seen_at row < Time_Unix before then None else Some row))"

section \<open>The contract\<close>

text \<open>
  What the evaluator expects of a \<open>DwellStore\<close>: a saved record comes back with the progress it
  was saved with, its instant moved to the past by less than a second, and no key disturbs another.
\<close>

locale dwell_store =
  fixes load :: "'s \<Rightarrow> (string \<rightharpoonup> DwellRecord)"
    and save :: "string \<Rightarrow> DwellRecord \<Rightarrow> 's \<Rightarrow> 's"
    and del :: "string \<Rightarrow> 's \<Rightarrow> 's"
  assumes load_save_same: "\<exists>r'. load (save k r s) k = Some r' \<and> r_RequiredNS r' = r_RequiredNS r \<and>
      r_ElapsedNS r' = r_ElapsedNS r \<and> r_Satisfied r' = r_Satisfied r \<and>
      r_LastSeen r' \<le> r_LastSeen r \<and> r_LastSeen r - r_LastSeen r' < Second"
    and load_save_other: "k' \<noteq> k \<Longrightarrow> load (save k r s) k' = load s k'"
    and load_del: "load (del k s) = (load s)(k := None)"
begin

text \<open>The last write to a key is the one that counts.\<close>

lemma last_save_wins:
  assumes "k \<notin> fst ` set later"
  shows "\<exists>r'. load (fold (\<lambda>(k, r). save k r) later (save k r s)) k = Some r' \<and>
    r_ElapsedNS r' = r_ElapsedNS r \<and> r_Satisfied r' = r_Satisfied r"
proof -
  have "load (fold (\<lambda>(k, r). save k r) later s') k = load s' k" for s'
    using assms by (induction later arbitrary: s') (auto simp: load_save_other)
  then show ?thesis using load_save_same [of k r s] by force
qed

end

interpretation dwell_db: dwell_store LoadDwellTrackers SaveDwellTracker DeleteDwellTracker
proof unfold_locales
  fix k :: string and r :: DwellRecord and s :: dwell_table
  have "r_LastSeen r - r_LastSeen r div Second * Second < Second"
    and "r_LastSeen r div Second * Second \<le> r_LastSeen r"
    using div_mult_mod_eq [of "r_LastSeen r" Second] pos_mod_bound [of Second "r_LastSeen r"]
      pos_mod_sign [of Second "r_LastSeen r"] by linarith+
  then show "\<exists>r'. LoadDwellTrackers (SaveDwellTracker k r s) k = Some r' \<and>
      r_RequiredNS r' = r_RequiredNS r \<and> r_ElapsedNS r' = r_ElapsedNS r \<and>
      r_Satisfied r' = r_Satisfied r \<and> r_LastSeen r' \<le> r_LastSeen r \<and>
      r_LastSeen r - r_LastSeen r' < Second"
    by (simp add: LoadDwellTrackers_def SaveDwellTracker_def Time_Unix_def)
qed (auto simp: LoadDwellTrackers_def SaveDwellTracker_def DeleteDwellTracker_def fun_eq_iff)

lemma Prune_keeps_recent:
  assumes "tbl k = Some row" and "Time_Unix before \<le> row_last_seen_at row"
  shows "PruneDwellTrackers before tbl k = Some row"
  using assms by (simp add: PruneDwellTrackers_def)

end
