(* ===== verification/Conditions.thy ===== *)
theory Conditions
  imports Dwell_Store
begin

text \<open>
  The package \<open>internal/conditions\<close>: evaluating a condition against the fact store
  (\<open>evaluator.go\<close>, \<open>expr.go\<close>), the \<open>for:\<close> timers (\<open>dwell.go\<close>) and the read-only account of a
  condition (\<open>explain.go\<close>). The evaluator is a state threaded through every call: its timers, the
  cache of compiled templates and the table the timers are saved to.
\<close>

section \<open>Conditions (config/types.go)\<close>

datatype ConditionConfig = Cond
  (c_Condition: string)
  (c_Fact: string)
  (c_Above: "float64 option")
  (c_Below: "float64 option")
  (c_Equals: goval)
  (c_Is: string)
  (c_IsNot: string)
  (c_In: "string list")
  (c_Contains: string)
  (c_For: string)
  (c_Value: string)
  (c_Conditions: "ConditionConfig list")

type_synonym rt = "ConditionConfig runtime"

text \<open>The zero value, and the constructors of the YAML shorthand (\<open>condition_yaml.go\<close>).\<close>

definition zero_cond :: ConditionConfig where
  "zero_cond = Cond [] [] None None GNil [] [] [] [] [] [] []"

definition literal_cond :: "string \<Rightarrow> ConditionConfig" where
  "literal_cond s = Cond s [] None None GNil [] [] [] [] [] [] []"

definition conditionFromString :: "string \<Rightarrow> ConditionConfig" where
  "conditionFromString s =
     (let t = ToLower (TrimSpace s)
      in if t = ''true'' then literal_cond ''true''
         else if t = ''false'' then literal_cond ''false''
         else Cond ''template'' [] None None GNil [] [] [] [] [] s [])"

section \<open>Leaf conditions (evaluator.go)\<close>

definition inferConditionType :: "ConditionConfig \<Rightarrow> string" where
  "inferConditionType c =
     (if c_Condition c \<noteq> [] then c_Condition c
      else if c_Value c \<noteq> [] then ''template''
      else if c_Fact c \<noteq> [] then
        (if c_Above c \<noteq> None \<or> c_Below c \<noteq> None \<or> c_Equals c \<noteq> GNil then ''numeric'' else ''state'')
      else ''true'')"

definition usable :: "Quality \<Rightarrow> goval \<Rightarrow> bool" where
  "usable q v \<longleftrightarrow> q = QualityGood \<and> v \<noteq> GNil"

fun toFloat64 :: "goval \<Rightarrow> float64 option" where
  "toFloat64 (GFloat64 n) = Some n"
| "toFloat64 (GFloat32 n) = Some n"
| "toFloat64 (GInt n) = Some (f64_of_int n)"
| "toFloat64 (GInt64 n) = Some (f64_of_int n)"
| "toFloat64 (GInt32 n) = Some (f64_of_int n)"
| "toFloat64 _ = None"

definition evaluateNumeric :: "Store \<Rightarrow> ConditionConfig \<Rightarrow> Trilean" where
  "evaluateNumeric st c =
     (case Store_Get st (c_Fact c) of (val, quality, _) \<Rightarrow>
        if \<not> usable quality val then Unavailable
        else case toFloat64 val of
               None \<Rightarrow> Unavailable
             | Some num \<Rightarrow>
                 (if (case c_Above c of None \<Rightarrow> False | Some a \<Rightarrow> f_le num a) then TFalse
                  else if (case c_Below c of None \<Rightarrow> False | Some b \<Rightarrow> f_le b num) then TFalse
                  else if c_Equals c \<noteq> GNil then
                    (case toFloat64 (c_Equals c) of
                       None \<Rightarrow> Unavailable
                     | Some target \<Rightarrow> if \<not> f_eq num target then TFalse else TTrue)
                  else TTrue))"

text \<open>\<open>fmt.Sprintf("%v", val)\<close>.\<close>

definition show_int :: "int \<Rightarrow> string" where
  "show_int n = (if n < 0 then CHR ''-'' # show_nat (nat (- n)) else show_nat (nat n))"

fun join_with :: "string \<Rightarrow> string list \<Rightarrow> string" where
  "join_with sep [] = []"
| "join_with sep [x] = x"
| "join_with sep (x # xs) = x @ sep @ join_with sep xs"

fun Sprintf_v :: "rt \<Rightarrow> goval \<Rightarrow> string" where
  "Sprintf_v rt GNil = ''<nil>''"
| "Sprintf_v rt (GBool b) = (if b then ''true'' else ''false'')"
| "Sprintf_v rt (GFloat64 x) = rt_FormatFloat rt x"
| "Sprintf_v rt (GFloat32 x) = rt_FormatFloat32 rt x"
| "Sprintf_v rt (GInt n) = show_int n"
| "Sprintf_v rt (GInt64 n) = show_int n"
| "Sprintf_v rt (GInt32 n) = show_int n"
| "Sprintf_v rt (GString s) = s"
| "Sprintf_v rt (GStrings ss) = ''['' @ join_with '' '' ss @ '']''"
| "Sprintf_v rt (GAnys vs) = ''['' @ join_with '' '' (map (Sprintf_v rt) vs) @ '']''"
| "Sprintf_v rt (GOther r) = r"

definition evaluateState :: "rt \<Rightarrow> Store \<Rightarrow> ConditionConfig \<Rightarrow> Trilean" where
  "evaluateState rt st c =
     (case Store_Get st (c_Fact c) of (val, quality, _) \<Rightarrow>
        if \<not> usable quality val then Unavailable
        else if c_Contains c \<noteq> [] then
          (case val of
             GStrings v \<Rightarrow> BoolToTrilean (c_Contains c \<in> set v)
           | GAnys v \<Rightarrow> (if GString (c_Contains c) \<in> set v then TTrue else TFalse)
           | GString v \<Rightarrow> BoolToTrilean (StrContains v (c_Contains c))
           | _ \<Rightarrow> Unavailable)
        else let strVal = Sprintf_v rt val
             in if c_Is c \<noteq> [] then BoolToTrilean (strVal = c_Is c)
                else if c_IsNot c \<noteq> [] then BoolToTrilean (strVal \<noteq> c_IsNot c)
                else if c_In c \<noteq> [] then (if strVal \<in> set (c_In c) then TTrue else TFalse)
                else Unavailable)"

section \<open>Dwell timers (dwell.go)\<close>

record DwellTracker =
  t_Required :: duration
  t_StartedAt :: "instant option"
  t_Credited :: duration
  t_Satisfied :: bool
  t_LastSeen :: "instant option"
  t_lastPersisted :: "instant option"

text \<open>
  \<open>ev_store\<close> is the attached table, \<open>None\<close> when there is none; \<open>ev_faults\<close> lists which of the
  coming writes to it fail (no entry: the write succeeds).
\<close>

record Evaluator =
  ev_dwell :: "string \<rightharpoonup> DwellTracker"
  ev_programs :: "string set"
  ev_store :: "dwell_table option"
  ev_faults :: "bool list"

definition NewEvaluator :: Evaluator where
  "NewEvaluator = \<lparr>ev_dwell = Map.empty, ev_programs = {}, ev_store = None, ev_faults = []\<rparr>"

definition Elapsed :: "DwellTracker \<Rightarrow> instant \<Rightarrow> duration" where
  "Elapsed d now =
     (case t_StartedAt d of
        None \<Rightarrow> t_Credited d
      | Some s \<Rightarrow> (let since = now - s in t_Credited d + (if since < 0 then 0 else since)))"

definition SetDwellStore :: "dwell_table \<Rightarrow> Evaluator \<Rightarrow> Evaluator" where
  "SetDwellStore tbl ev =
     (let records = LoadDwellTrackers tbl
      in ev\<lparr>ev_store := Some tbl,
            ev_dwell := (\<lambda>k. case records k of
               None \<Rightarrow> ev_dwell ev k
             | Some rec \<Rightarrow> Some \<lparr>t_Required = r_RequiredNS rec, t_StartedAt = None,
                 t_Credited = r_ElapsedNS rec, t_Satisfied = r_Satisfied rec,
                 t_LastSeen = Some (r_LastSeen rec), t_lastPersisted = None\<rparr>)\<rparr>)"

definition lastPersistBasis :: "DwellTracker \<Rightarrow> instant option" where
  "lastPersistBasis d = (case t_LastSeen d of None \<Rightarrow> t_StartedAt d | Some t \<Rightarrow> Some t)"

definition zero_instant :: instant where
  "zero_instant = - 62135596800 * Second"

text \<open>A write to the table, which a fault turns into a no-op.\<close>

definition store_write :: "(dwell_table \<Rightarrow> dwell_table) \<Rightarrow> Evaluator \<Rightarrow> Evaluator" where
  "store_write f ev =
     (case ev_faults ev of
        [] \<Rightarrow> ev\<lparr>ev_store := map_option f (ev_store ev)\<rparr>
      | b # bs \<Rightarrow> (if b then ev\<lparr>ev_faults := bs\<rparr>
                    else ev\<lparr>ev_store := map_option f (ev_store ev), ev_faults := bs\<rparr>))"

definition basis_instant :: "DwellTracker \<Rightarrow> instant" where
  "basis_instant d = (case lastPersistBasis d of None \<Rightarrow> zero_instant | Some t \<Rightarrow> t)"

definition dwell_record :: "DwellTracker \<Rightarrow> DwellRecord" where
  "dwell_record d =
     \<lparr>r_RequiredNS = t_Required d, r_ElapsedNS = Elapsed d (basis_instant d),
      r_Satisfied = t_Satisfied d,
      r_LastSeen = (case t_LastSeen d of None \<Rightarrow> zero_instant | Some t \<Rightarrow> t)\<rparr>"

definition persistLocked :: "string \<Rightarrow> DwellTracker \<Rightarrow> Evaluator \<Rightarrow> Evaluator" where
  "persistLocked key d ev =
     (if ev_store ev = None then ev\<lparr>ev_dwell := (ev_dwell ev)(key \<mapsto> d)\<rparr>
      else let ev' = store_write (SaveDwellTracker key (dwell_record d)) ev
           in ev'\<lparr>ev_dwell := (ev_dwell ev')(key \<mapsto> d\<lparr>t_lastPersisted := t_LastSeen d\<rparr>)\<rparr>)"

definition dwellPersistInterval :: duration where
  "dwellPersistInterval = 30 * Second"

definition persistThrottledLocked :: "string \<Rightarrow> DwellTracker \<Rightarrow> instant \<Rightarrow> Evaluator \<Rightarrow> Evaluator" where
  "persistThrottledLocked key d now ev =
     (if ev_store ev = None \<or> t_StartedAt d = None then ev\<lparr>ev_dwell := (ev_dwell ev)(key \<mapsto> d)\<rparr>
      else case t_lastPersisted d of
             Some p \<Rightarrow>
               (if now - p < dwellPersistInterval then ev\<lparr>ev_dwell := (ev_dwell ev)(key \<mapsto> d)\<rparr>
                else persistLocked key d ev)
           | None \<Rightarrow> persistLocked key d ev)"

definition fresh_tracker :: "duration \<Rightarrow> DwellTracker" where
  "fresh_tracker required =
     \<lparr>t_Required = required, t_StartedAt = None, t_Credited = 0, t_Satisfied = False,
      t_LastSeen = None, t_lastPersisted = None\<rparr>"

text \<open>
  \<open>applyDwell\<close> takes the timer out of the map (a new one where there is none), changes it and
  puts it back; the persisting functions do the latter.
\<close>

definition applyDwell ::
  "rt \<Rightarrow> ConditionConfig \<Rightarrow> Trilean \<Rightarrow> duration \<Rightarrow> instant \<Rightarrow> Evaluator \<Rightarrow> Trilean \<times> Evaluator" where
  "applyDwell rt c current required now ev =
     (let key = rt_Digest rt c;
          tracker = (case ev_dwell ev key of None \<Rightarrow> fresh_tracker required | Some t \<Rightarrow> t);
          tracker = tracker\<lparr>t_Required := required, t_LastSeen := Some now\<rparr>
      in if current \<noteq> TTrue then
           (let changed = (t_StartedAt tracker \<noteq> None \<or> t_Credited tracker \<noteq> 0 \<or> t_Satisfied tracker);
                tracker = tracker\<lparr>t_StartedAt := None, t_Credited := 0, t_Satisfied := False\<rparr>;
                ev' = (if changed then persistLocked key tracker ev
                       else ev\<lparr>ev_dwell := (ev_dwell ev)(key \<mapsto> tracker)\<rparr>)
            in (if current = Unavailable then Unavailable else TFalse, ev'))
         else
           (let tracker = (if t_StartedAt tracker = None then tracker\<lparr>t_StartedAt := Some now\<rparr> else tracker);
                satisfied = (Elapsed tracker now \<ge> required);
                ev' = (if satisfied \<noteq> t_Satisfied tracker
                       then persistLocked key (tracker\<lparr>t_Satisfied := satisfied\<rparr>) ev
                       else persistThrottledLocked key tracker now ev)
            in (if satisfied then TTrue else TFalse, ev')))"

definition ResetDwell :: "rt \<Rightarrow> ConditionConfig \<Rightarrow> Evaluator \<Rightarrow> Evaluator" where
  "ResetDwell rt c ev =
     (let key = rt_Digest rt c; ev' = ev\<lparr>ev_dwell := (ev_dwell ev)(key := None)\<rparr>
      in if ev_store ev' = None then ev' else store_write (DeleteDwellTracker key) ev')"

record DwellSnapshot =
  sn_Required :: duration
  sn_Elapsed :: duration
  sn_Satisfied :: bool
  sn_Active :: bool

definition DwellProgress :: "instant \<Rightarrow> Evaluator \<Rightarrow> (string \<rightharpoonup> DwellSnapshot)" where
  "DwellProgress now ev =
     (\<lambda>k. map_option (\<lambda>t. \<lparr>sn_Required = t_Required t, sn_Elapsed = Elapsed t now,
            sn_Satisfied = t_Satisfied t, sn_Active = (t_StartedAt t \<noteq> None)\<rparr>) (ev_dwell ev k))"

section \<open>Templates (expr.go)\<close>

definition env_contains_fn :: "goval \<Rightarrow> string \<Rightarrow> bool" where
  "env_contains_fn v value =
     (case v of
        GStrings ss \<Rightarrow> value \<in> set ss
      | GAnys vs \<Rightarrow> GString value \<in> set vs
      | GString s \<Rightarrow> StrContains s value
      | _ \<Rightarrow> False)"

definition buildExprEnv :: "Store \<Rightarrow> instant \<Rightarrow> exprenv" where
  "buildExprEnv st now =
     \<lparr>env_fact = FactValue st, env_quality = FactQuality st,
      env_age = (\<lambda>k. FactAgeAt st k now), env_contains = env_contains_fn\<rparr>"

definition compile :: "rt \<Rightarrow> string \<Rightarrow> Evaluator \<Rightarrow> bool \<times> Evaluator" where
  "compile rt e ev =
     (if e \<in> ev_programs ev then (True, ev)
      else if rt_ExprCompile rt e then (True, ev\<lparr>ev_programs := insert e (ev_programs ev)\<rparr>)
      else (False, ev))"

text \<open>\<open>evaluateExpr\<close>: the result (\<open>None\<close> on an error), whether \<open>fact()\<close> answered nil.\<close>

definition evaluateExpr ::
  "rt \<Rightarrow> Store \<Rightarrow> string \<Rightarrow> instant \<Rightarrow> Evaluator \<Rightarrow> (goval \<times> bool) option \<times> Evaluator" where
  "evaluateExpr rt st e now ev =
     (case compile rt e ev of
        (False, ev') \<Rightarrow> (None, ev')
      | (True, ev') \<Rightarrow>
          (case rt_ExprRun rt e (buildExprEnv st now) of
             (None, _) \<Rightarrow> (None, ev')
           | (Some r, asked) \<Rightarrow> (Some (r, \<exists>k \<in> set asked. FactValue st k = GNil), ev')))"

definition evaluateTemplate ::
  "rt \<Rightarrow> Store \<Rightarrow> ConditionConfig \<Rightarrow> instant \<Rightarrow> Evaluator \<Rightarrow> Trilean \<times> Evaluator" where
  "evaluateTemplate rt st c now ev =
     (if c_Value c = [] then (Unavailable, ev)
      else case evaluateExpr rt st (c_Value c) now ev of
             (None, ev') \<Rightarrow> (Unavailable, ev')
           | (Some (r, saw), ev') \<Rightarrow>
               (if saw then Unavailable
                else case r of GBool b \<Rightarrow> BoolToTrilean b | _ \<Rightarrow> Unavailable, ev'))"

section \<open>Evaluate (evaluator.go)\<close>

text \<open>The branches of the type switch of \<open>evaluateInner\<close> that do not recurse.\<close>

definition evaluate_leaf ::
  "rt \<Rightarrow> Store \<Rightarrow> instant \<Rightarrow> ConditionConfig \<Rightarrow> Evaluator \<Rightarrow> Trilean \<times> Evaluator" where
  "evaluate_leaf rt st now c ev =
     (let t = inferConditionType c
      in if t = ''numeric'' then (evaluateNumeric st c, ev)
         else if t = ''state'' then (evaluateState rt st c, ev)
         else if t = ''template'' then evaluateTemplate rt st c now ev
         else if t = ''true'' then (TTrue, ev)
         else if t = ''false'' then (TFalse, ev)
         else (Unavailable, ev))"

text \<open>The dwell part of \<open>Evaluate\<close>.\<close>

definition apply_for ::
  "rt \<Rightarrow> instant \<Rightarrow> ConditionConfig \<Rightarrow> Trilean \<times> Evaluator \<Rightarrow> Trilean \<times> Evaluator" where
  "apply_for rt now c p =
     (case p of (result, ev) \<Rightarrow>
        if c_For c \<noteq> [] then
          (case ParseDuration rt (c_For c) of
             None \<Rightarrow> (result, ev)
           | Some dur \<Rightarrow> (if dur = 0 then (result, ev) else applyDwell rt c result dur now ev))
        else (result, ev))"

lemma size_Conditions: "Suc (2 * size_list size (c_Conditions c)) < 2 * size c"
  by (cases c) simp

lemma size_hd_Conditions: "c_Conditions c = x # xs \<Longrightarrow> Suc (2 * size x) < 2 * size c"
  using size_Conditions [of c] by simp

function (sequential)
  Evaluate :: "rt \<Rightarrow> Store \<Rightarrow> instant \<Rightarrow> ConditionConfig \<Rightarrow> Evaluator \<Rightarrow> Trilean \<times> Evaluator"
  and evaluateInner :: "rt \<Rightarrow> Store \<Rightarrow> instant \<Rightarrow> ConditionConfig \<Rightarrow> Evaluator \<Rightarrow> Trilean \<times> Evaluator"
  and evaluateAnd ::
    "rt \<Rightarrow> Store \<Rightarrow> instant \<Rightarrow> Trilean \<Rightarrow> ConditionConfig list \<Rightarrow> Evaluator \<Rightarrow> Trilean \<times> Evaluator"
  and evaluateOr ::
    "rt \<Rightarrow> Store \<Rightarrow> instant \<Rightarrow> Trilean \<Rightarrow> ConditionConfig list \<Rightarrow> Evaluator \<Rightarrow> Trilean \<times> Evaluator"
where
  "Evaluate rt st now c ev = apply_for rt now c (evaluateInner rt st now c ev)"
| "evaluateInner rt st now c ev =
     (let t = inferConditionType c
      in if t = ''and'' then evaluateAnd rt st now TTrue (c_Conditions c) ev
         else if t = ''or'' then evaluateOr rt st now TFalse (c_Conditions c) ev
         else if t = ''not'' then
           (case c_Conditions c of
              [] \<Rightarrow> (Unavailable, ev)
            | x # _ \<Rightarrow> (case Evaluate rt st now x ev of (v, ev') \<Rightarrow> (TriNot v, ev')))
         else evaluate_leaf rt st now c ev)"
| "evaluateAnd rt st now result [] ev = (result, ev)"
| "evaluateAnd rt st now result (x # xs) ev =
     (case Evaluate rt st now x ev of (val, ev') \<Rightarrow>
        let result' = TriAnd result val
        in if result' = TFalse then (TFalse, ev') else evaluateAnd rt st now result' xs ev')"
| "evaluateOr rt st now result [] ev = (result, ev)"
| "evaluateOr rt st now result (x # xs) ev =
     (case Evaluate rt st now x ev of (val, ev') \<Rightarrow>
        let result' = TriOr result val
        in if result' = TTrue then (TTrue, ev') else evaluateOr rt st now result' xs ev')"
  by pat_completeness auto
termination
  by (relation "measure (\<lambda>x. case x of
        Inl (Inl (_, _, _, c, _)) \<Rightarrow> 2 * size c + 1
      | Inl (Inr (_, _, _, c, _)) \<Rightarrow> 2 * size c
      | Inr (Inl (_, _, _, _, cs, _)) \<Rightarrow> 2 * size_list size cs + 1
      | Inr (Inr (_, _, _, _, cs, _)) \<Rightarrow> 2 * size_list size cs + 1)")
    (auto dest: size_hd_Conditions intro: size_Conditions)

declare Evaluate.simps [simp del] evaluateInner.simps [simp del]

end
