(* ===== verification/Explain.thy ===== *)
theory Explain
  imports Conditions
begin

text \<open>
  \<open>internal/conditions/explain.go\<close>, the read-only account of a condition, and the semantics both
  it and \<open>Evaluate\<close> implement: \<open>sem\<close> gives the value of a condition from the fact store and the
  timers as they stand, with no side effect.
\<close>

section \<open>Explain (explain.go)\<close>

record DwellExplanation =
  dx_RequiredSeconds :: rat
  dx_ElapsedSeconds :: rat
  dx_Tracked :: bool

datatype Explanation = Explanation
  (ex_Condition: string)
  (ex_Fact: string)
  (ex_Above: "float64 option")
  (ex_Below: "float64 option")
  (ex_Equals: goval)
  (ex_Is: string)
  (ex_IsNot: string)
  (ex_In: "string list")
  (ex_Contains: string)
  (ex_Value: string)
  (ex_For: string)
  (ex_Result: string)
  (ex_Instant: string)
  (ex_Dwell: "DwellExplanation option")
  (ex_FactValue: goval)
  (ex_FactQuality: string)
  (ex_Conditions: "Explanation list")

definition parseTrilean :: "string \<Rightarrow> Trilean" where
  "parseTrilean s = (if s = ''true'' then TTrue else if s = ''false'' then TFalse else Unavailable)"

definition explainDwell ::
  "rt \<Rightarrow> ConditionConfig \<Rightarrow> Trilean \<Rightarrow> duration \<Rightarrow> instant \<Rightarrow> Evaluator \<Rightarrow> DwellExplanation \<times> string" where
  "explainDwell rt c inst required now ev =
     (let tracked = (ev_dwell ev (rt_Digest rt c) \<noteq> None);
          elapsed = (case ev_dwell ev (rt_Digest rt c) of None \<Rightarrow> 0 | Some t \<Rightarrow> Elapsed t now);
          dwell = \<lparr>dx_RequiredSeconds = Seconds required, dx_ElapsedSeconds = 0, dx_Tracked = tracked\<rparr>
      in if inst \<noteq> TTrue then (dwell, Trilean_String inst)
         else let dwell = dwell\<lparr>dx_ElapsedSeconds := Seconds elapsed\<rparr>
              in if tracked \<and> elapsed \<ge> required then (dwell, Trilean_String TTrue)
                 else (dwell, Trilean_String TFalse))"

text \<open>The last part of \<open>Explain\<close>: filling in the results, with the dwell requirement applied.\<close>

definition explain_finish ::
  "rt \<Rightarrow> instant \<Rightarrow> ConditionConfig \<Rightarrow> Trilean \<Rightarrow> goval \<Rightarrow> string \<Rightarrow> Explanation list \<Rightarrow> Evaluator \<Rightarrow> Explanation" where
  "explain_finish rt now c inst fv fq kids ev =
     (let (dwell, result) =
            (if c_For c \<noteq> [] then
               (case ParseDuration rt (c_For c) of
                  None \<Rightarrow> (None, Trilean_String inst)
                | Some required \<Rightarrow>
                    (if required > 0
                     then (case explainDwell rt c inst required now ev of (d, r) \<Rightarrow> (Some d, r))
                     else (None, Trilean_String inst)))
             else (None, Trilean_String inst))
      in Explanation (inferConditionType c) (c_Fact c) (c_Above c) (c_Below c) (c_Equals c) (c_Is c)
           (c_IsNot c) (c_In c) (c_Contains c) (c_Value c) (c_For c) result (Trilean_String inst)
           dwell fv fq kids)"

function (sequential)
  Explain :: "rt \<Rightarrow> Store \<Rightarrow> instant \<Rightarrow> ConditionConfig \<Rightarrow> Evaluator \<Rightarrow> Explanation \<times> Evaluator"
  and explain_all ::
    "rt \<Rightarrow> Store \<Rightarrow> instant \<Rightarrow> ConditionConfig list \<Rightarrow> Evaluator \<Rightarrow> Explanation list \<times> Evaluator"
where
  "Explain rt st now c ev =
     (let t = inferConditionType c
      in if t = ''and'' then
           (case explain_all rt st now (c_Conditions c) ev of (kids, ev') \<Rightarrow>
              (explain_finish rt now c
                 (foldl (\<lambda>r k. TriAnd r (parseTrilean (ex_Result k))) TTrue kids) GNil [] kids ev', ev'))
         else if t = ''or'' then
           (case explain_all rt st now (c_Conditions c) ev of (kids, ev') \<Rightarrow>
              (explain_finish rt now c
                 (foldl (\<lambda>r k. TriOr r (parseTrilean (ex_Result k))) TFalse kids) GNil [] kids ev', ev'))
         else if t = ''not'' then
           (case c_Conditions c of
              [] \<Rightarrow> (explain_finish rt now c Unavailable GNil [] [] ev, ev)
            | x # _ \<Rightarrow>
                (case Explain rt st now x ev of (k, ev') \<Rightarrow>
                   (explain_finish rt now c (TriNot (parseTrilean (ex_Result k))) GNil [] [k] ev', ev')))
         else
           (case evaluate_leaf rt st now c ev of (inst, ev') \<Rightarrow>
              (if c_Fact c \<noteq> [] then
                 (case Store_Get st (c_Fact c) of (v, q, _) \<Rightarrow>
                    explain_finish rt now c inst v (Quality_String q) [] ev')
               else explain_finish rt now c inst GNil [] [] ev', ev')))"
| "explain_all rt st now [] ev = ([], ev)"
| "explain_all rt st now (x # xs) ev =
     (case Explain rt st now x ev of (k, ev') \<Rightarrow>
        (case explain_all rt st now xs ev' of (ks, ev'') \<Rightarrow> (k # ks, ev'')))"
  by pat_completeness auto
termination
  by (relation "measure (\<lambda>x. case x of
        Inl (_, _, _, c, _) \<Rightarrow> 2 * size c
      | Inr (_, _, _, cs, _) \<Rightarrow> 2 * size_list size cs + 1)")
    (auto dest: size_hd_Conditions intro: size_Conditions)

declare Explain.simps [simp del]

text \<open>\<open>Explain\<close> of a nil condition.\<close>

definition Explain_ptr ::
  "rt \<Rightarrow> Store \<Rightarrow> instant \<Rightarrow> ConditionConfig option \<Rightarrow> Evaluator \<Rightarrow> Explanation \<times> Evaluator" where
  "Explain_ptr rt st now c ev =
     (case c of
        None \<Rightarrow> (Explanation ''true'' [] None None GNil [] [] [] [] [] []
                   (Trilean_String Unavailable) (Trilean_String Unavailable) None GNil [] [], ev)
      | Some c \<Rightarrow> Explain rt st now c ev)"

section \<open>The meaning of a condition\<close>

text \<open>A leaf's value does not depend on the evaluator's state: \<open>leaf_val\<close> starts from an empty cache.\<close>

definition leaf_val :: "rt \<Rightarrow> Store \<Rightarrow> instant \<Rightarrow> ConditionConfig \<Rightarrow> Trilean" where
  "leaf_val rt st now c = fst (evaluate_leaf rt st now c NewEvaluator)"

definition dwell_view ::
  "rt \<Rightarrow> instant \<Rightarrow> (string \<rightharpoonup> DwellTracker) \<Rightarrow> ConditionConfig \<Rightarrow> Trilean \<Rightarrow> Trilean" where
  "dwell_view rt now D c r =
     (if c_For c = [] then r
      else case ParseDuration rt (c_For c) of
             None \<Rightarrow> r
           | Some d \<Rightarrow>
               (if d = 0 \<or> r \<noteq> TTrue then r
                else if (case D (rt_Digest rt c) of None \<Rightarrow> 0 | Some t \<Rightarrow> Elapsed t now) \<ge> d
                     then TTrue else TFalse))"

lemma size_in_Conditions: "x \<in> set (c_Conditions c) \<Longrightarrow> size x < size c"
  using size_Conditions [of c] size_list_estimation' [of x "c_Conditions c" "size x" size] by simp

function sem :: "rt \<Rightarrow> Store \<Rightarrow> instant \<Rightarrow> (string \<rightharpoonup> DwellTracker) \<Rightarrow> ConditionConfig \<Rightarrow> Trilean" where
  "sem rt st now D c =
     dwell_view rt now D c
       (if inferConditionType c = ''and'' then foldl TriAnd TTrue (map (sem rt st now D) (c_Conditions c))
        else if inferConditionType c = ''or'' then foldl TriOr TFalse (map (sem rt st now D) (c_Conditions c))
        else if inferConditionType c = ''not'' then
          (case c_Conditions c of [] \<Rightarrow> Unavailable | x # _ \<Rightarrow> TriNot (sem rt st now D x))
        else leaf_val rt st now c)"
  by pat_completeness auto
termination
  by (relation "measure (\<lambda>(_, _, _, _, c). size c)") (auto intro!: size_in_Conditions)

declare sem.simps [simp del]

text \<open>The value before the dwell requirement.\<close>

definition inst :: "rt \<Rightarrow> Store \<Rightarrow> instant \<Rightarrow> (string \<rightharpoonup> DwellTracker) \<Rightarrow> ConditionConfig \<Rightarrow> Trilean" where
  "inst rt st now D c =
     (if inferConditionType c = ''and'' then foldl TriAnd TTrue (map (sem rt st now D) (c_Conditions c))
      else if inferConditionType c = ''or'' then foldl TriOr TFalse (map (sem rt st now D) (c_Conditions c))
      else if inferConditionType c = ''not'' then
        (case c_Conditions c of [] \<Rightarrow> Unavailable | x # _ \<Rightarrow> TriNot (sem rt st now D x))
      else leaf_val rt st now c)"

lemma sem_inst: "sem rt st now D c = dwell_view rt now D c (inst rt st now D c)"
  by (subst sem.simps) (simp add: inst_def)

section \<open>The evaluator's invariant\<close>

text \<open>Every cached template compiles, and no timer carries a negative credit.\<close>

definition ev_inv :: "rt \<Rightarrow> Evaluator \<Rightarrow> bool" where
  "ev_inv rt ev \<longleftrightarrow> (\<forall>e \<in> ev_programs ev. rt_ExprCompile rt e) \<and>
     (\<forall>k t. ev_dwell ev k = Some t \<longrightarrow> 0 \<le> t_Credited t)"

lemma ev_inv_New: "ev_inv rt NewEvaluator"
  by (simp add: ev_inv_def NewEvaluator_def)

lemma leaf_value:
  "ev_inv rt ev \<Longrightarrow> fst (evaluate_leaf rt st now c ev) = leaf_val rt st now c"
  by (auto simp: leaf_val_def evaluate_leaf_def evaluateTemplate_def evaluateExpr_def compile_def
      ev_inv_def NewEvaluator_def Let_def split: option.splits prod.splits bool.splits goval.splits)

lemma leaf_frame:
  "ev_dwell (snd (evaluate_leaf rt st now c ev)) = ev_dwell ev"
  "ev_store (snd (evaluate_leaf rt st now c ev)) = ev_store ev"
  "ev_faults (snd (evaluate_leaf rt st now c ev)) = ev_faults ev"
  by (auto simp: evaluate_leaf_def evaluateTemplate_def evaluateExpr_def compile_def Let_def
      split: option.splits prod.splits bool.splits goval.splits)

lemma leaf_inv: "ev_inv rt ev \<Longrightarrow> ev_inv rt (snd (evaluate_leaf rt st now c ev))"
  by (auto simp: evaluate_leaf_def evaluateTemplate_def evaluateExpr_def compile_def Let_def
      ev_inv_def split: option.splits prod.splits bool.splits goval.splits)

section \<open>Evaluate computes the meaning\<close>

lemma store_write_frame [simp]:
  "ev_dwell (store_write f ev) = ev_dwell ev" "ev_programs (store_write f ev) = ev_programs ev"
  by (simp_all add: store_write_def split: list.splits)

lemma persist_dwell:
  "ev_dwell (persistLocked k t ev) = (ev_dwell ev)(k \<mapsto> t\<lparr>t_lastPersisted :=
      (if ev_store ev = None then t_lastPersisted t else t_LastSeen t)\<rparr>)"
  "ev_programs (persistLocked k t ev) = ev_programs ev"
  by (simp_all add: persistLocked_def Let_def)

lemma persist_dwell_ex:
  "\<exists>p. ev_dwell (persistLocked k t ev) = (ev_dwell ev)(k \<mapsto> t\<lparr>t_lastPersisted := p\<rparr>)"
  by (intro exI) (rule persist_dwell(1))

lemma persistThrottled_dwell:
  "\<exists>p. ev_dwell (persistThrottledLocked k t now ev) = (ev_dwell ev)(k \<mapsto> t\<lparr>t_lastPersisted := p\<rparr>)"
  "ev_programs (persistThrottledLocked k t now ev) = ev_programs ev"
proof -
  have "ev\<lparr>ev_dwell := (ev_dwell ev)(k \<mapsto> t)\<rparr> =
      ev\<lparr>ev_dwell := (ev_dwell ev)(k \<mapsto> t\<lparr>t_lastPersisted := t_lastPersisted t\<rparr>)\<rparr>" by simp
  then show "\<exists>p. ev_dwell (persistThrottledLocked k t now ev) = (ev_dwell ev)(k \<mapsto> t\<lparr>t_lastPersisted := p\<rparr>)"
    by (auto simp: persistThrottledLocked_def persist_dwell split: option.splits)
      (metis DwellTracker.update_convs(6) DwellTracker.surjective)+
qed (simp add: persistThrottledLocked_def persist_dwell split: option.splits)

text \<open>
  What one application of the dwell requirement does: its answer, the one timer it touches and
  how much credit that timer then holds.
\<close>

definition credit :: "(string \<rightharpoonup> DwellTracker) \<Rightarrow> string \<Rightarrow> instant \<Rightarrow> duration" where
  "credit D k now = (case D k of None \<Rightarrow> 0 | Some t \<Rightarrow> Elapsed t now)"

lemma Elapsed_frame [simp]:
  "Elapsed (t\<lparr>t_lastPersisted := p\<rparr>) now = Elapsed t now"
  "Elapsed (t\<lparr>t_Satisfied := b\<rparr>) now = Elapsed t now"
  "Elapsed (t\<lparr>t_Required := r, t_LastSeen := l\<rparr>) now = Elapsed t now"
  by (simp_all add: Elapsed_def Let_def split: option.splits)

lemma Elapsed_start [simp]:
  "Elapsed (if t_StartedAt t = None then t\<lparr>t_StartedAt := Some now\<rparr> else t) now = Elapsed t now"
  by (simp add: Elapsed_def Let_def split: option.splits)

text \<open>The timer that \<open>applyDwell\<close> works on, before and after a true observation.\<close>

definition touched :: "rt \<Rightarrow> ConditionConfig \<Rightarrow> duration \<Rightarrow> instant \<Rightarrow> Evaluator \<Rightarrow> DwellTracker" where
  "touched rt c d now ev =
     (case ev_dwell ev (rt_Digest rt c) of None \<Rightarrow> fresh_tracker d | Some t \<Rightarrow> t)
       \<lparr>t_Required := d, t_LastSeen := Some now\<rparr>"

definition started :: "instant \<Rightarrow> DwellTracker \<Rightarrow> DwellTracker" where
  "started now t = (if t_StartedAt t = None then t\<lparr>t_StartedAt := Some now\<rparr> else t)"

lemma touched_Elapsed [simp]: "Elapsed (touched rt c d now ev) now = credit (ev_dwell ev) (rt_Digest rt c) now"
  by (simp add: touched_def credit_def Elapsed_def fresh_tracker_def Let_def split: option.splits)

lemma started_Elapsed [simp]: "Elapsed (started now t) now = Elapsed t now"
  by (simp add: started_def)

lemma started_Credited [simp]: "t_Credited (started now t) = t_Credited t"
  by (simp add: started_def)

lemma touched_Credited:
  "t_Credited (touched rt c d now ev) = 0 \<or>
    (\<exists>t0. ev_dwell ev (rt_Digest rt c) = Some t0 \<and> t_Credited (touched rt c d now ev) = t_Credited t0)"
  by (auto simp: touched_def fresh_tracker_def split: option.splits)

lemma applyDwell_false:
  assumes "r \<noteq> TTrue"
  shows "\<exists>p ev'. applyDwell rt c r d now ev = (r, ev') \<and> ev_programs ev' = ev_programs ev \<and>
    ev_dwell ev' = (ev_dwell ev)(rt_Digest rt c \<mapsto> (touched rt c d now ev)
      \<lparr>t_StartedAt := None, t_Credited := 0, t_Satisfied := False, t_lastPersisted := p\<rparr>)"
proof -
  let ?t = "(touched rt c d now ev)\<lparr>t_StartedAt := None, t_Credited := 0, t_Satisfied := False\<rparr>"
  have r: "(if r = Unavailable then Unavailable else TFalse) = r"
    using assms by (cases r) auto
  have same: "?t\<lparr>t_lastPersisted := t_lastPersisted ?t\<rparr> = ?t" by simp
  show ?thesis
    using assms r persist_dwell [of "rt_Digest rt c" ?t ev] same
    unfolding applyDwell_def touched_def [symmetric] Let_def
    by (auto simp del: touched_Elapsed) (metis same)+
qed

lemma applyDwell_true:
  "\<exists>p ev'. applyDwell rt c TTrue d now ev =
      (if credit (ev_dwell ev) (rt_Digest rt c) now \<ge> d then TTrue else TFalse, ev') \<and>
    ev_programs ev' = ev_programs ev \<and>
    ev_dwell ev' = (ev_dwell ev)(rt_Digest rt c \<mapsto> (started now (touched rt c d now ev))
      \<lparr>t_Satisfied := (credit (ev_dwell ev) (rt_Digest rt c) now \<ge> d), t_lastPersisted := p\<rparr>)"
proof -
  let ?k = "rt_Digest rt c" and ?t = "started now (touched rt c d now ev)"
  let ?sat = "credit (ev_dwell ev) ?k now \<ge> d"
  have eq: "applyDwell rt c TTrue d now ev = (if ?sat then TTrue else TFalse,
      if ?sat \<noteq> t_Satisfied ?t then persistLocked ?k (?t\<lparr>t_Satisfied := ?sat\<rparr>) ev
      else persistThrottledLocked ?k ?t now ev)"
    unfolding applyDwell_def touched_def [symmetric] started_def [symmetric] Let_def by simp
  show ?thesis
  proof (cases "?sat = t_Satisfied ?t")
    case False
    with eq persist_dwell_ex [of ?k "?t\<lparr>t_Satisfied := ?sat\<rparr>" ev] show ?thesis
      by (auto simp: persist_dwell(2))
  next
    case True
    obtain p where p: "ev_dwell (persistThrottledLocked ?k ?t now ev) =
        (ev_dwell ev)(?k \<mapsto> ?t\<lparr>t_lastPersisted := p\<rparr>)"
      using persistThrottled_dwell(1) by blast
    have "?t\<lparr>t_lastPersisted := p\<rparr> = ?t\<lparr>t_Satisfied := ?sat, t_lastPersisted := p\<rparr>"
      unfolding True by simp
    then have "ev_dwell (persistThrottledLocked ?k ?t now ev) =
        (ev_dwell ev)(?k \<mapsto> ?t\<lparr>t_Satisfied := ?sat, t_lastPersisted := p\<rparr>)"
      unfolding p by (rule arg_cong)
    moreover have "applyDwell rt c TTrue d now ev =
        (if ?sat then TTrue else TFalse, persistThrottledLocked ?k ?t now ev)"
      using eq True by simp
    ultimately show ?thesis using persistThrottled_dwell(2) by blast
  qed
qed

text \<open>
  Changing one timer does not change the meaning of any condition, as long as the credit of that
  timer is the same whenever its condition holds.
\<close>

lemma dwell_view_credit:
  "dwell_view rt now D c r =
     (if c_For c = [] then r
      else case ParseDuration rt (c_For c) of
             None \<Rightarrow> r
           | Some d \<Rightarrow> (if d = 0 \<or> r \<noteq> TTrue then r
                        else if credit D (rt_Digest rt c) now \<ge> d then TTrue else TFalse))"
  unfolding dwell_view_def credit_def by (rule refl)

lemma inst_cong:
  "(\<And>x. x \<in> set (c_Conditions c) \<Longrightarrow> sem rt st now D' x = sem rt st now D x) \<Longrightarrow>
   inst rt st now D' c = inst rt st now D c"
  by (auto simp: inst_def cong: map_cong split: list.splits)

text \<open>
  A set of conditions that contains the parts of its members and on which the digest has no
  collision, such as all the conditions of one configuration.
\<close>

definition collision_free :: "rt \<Rightarrow> ConditionConfig set \<Rightarrow> bool" where
  "collision_free rt S \<longleftrightarrow> inj_on (rt_Digest rt) S \<and> (\<forall>c \<in> S. set (c_Conditions c) \<subseteq> S)"

lemma collision_freeD:
  "collision_free rt S \<Longrightarrow> c \<in> S \<Longrightarrow> c' \<in> S \<Longrightarrow> rt_Digest rt c' = rt_Digest rt c \<Longrightarrow> c' = c"
  by (auto simp: collision_free_def dest: inj_onD)

lemma collision_free_kids:
  "collision_free rt S \<Longrightarrow> c \<in> S \<Longrightarrow> x \<in> set (c_Conditions c) \<Longrightarrow> x \<in> S"
  by (auto simp: collision_free_def)

lemma update_stable:
  assumes S: "collision_free rt S" and c: "c \<in> S"
    and t: "inst rt st now D c = TTrue \<Longrightarrow> Elapsed t now = credit D (rt_Digest rt c) now"
    and c': "c' \<in> S"
  shows "sem rt st now (D(rt_Digest rt c \<mapsto> t)) c' = sem rt st now D c'"
  using c'
proof (induction "size c'" arbitrary: c' rule: less_induct)
  case less
  let ?D = "D(rt_Digest rt c \<mapsto> t)"
  have i: "inst rt st now ?D c' = inst rt st now D c'"
    by (rule inst_cong)
      (rule less.hyps, erule size_in_Conditions, rule collision_free_kids [OF S less.prems])
  have "inst rt st now D c' = TTrue \<Longrightarrow>
      credit ?D (rt_Digest rt c') now = credit D (rt_Digest rt c') now"
    using t collision_freeD [OF S c less.prems] by (cases "c' = c") (auto simp: credit_def)
  then show ?case
    unfolding sem_inst i dwell_view_credit by (auto split: option.splits)
qed

definition same_sem ::
  "rt \<Rightarrow> Store \<Rightarrow> instant \<Rightarrow> ConditionConfig set \<Rightarrow> Evaluator \<Rightarrow> Evaluator \<Rightarrow> bool" where
  "same_sem rt st now S ev ev' \<longleftrightarrow> (\<forall>c \<in> S. sem rt st now (ev_dwell ev') c = sem rt st now (ev_dwell ev) c)"

lemma same_sem_refl [simp]: "same_sem rt st now S ev ev"
  by (simp add: same_sem_def)

lemma same_sem_trans: "same_sem rt st now S a b \<Longrightarrow> same_sem rt st now S b c \<Longrightarrow> same_sem rt st now S a c"
  by (simp add: same_sem_def)

lemma same_sem_dwell: "ev_dwell ev' = ev_dwell ev \<Longrightarrow> same_sem rt st now S ev ev'"
  by (simp add: same_sem_def)

lemma apply_for_sem:
  assumes S: "collision_free rt S" and c: "c \<in> S" and inv: "ev_inv rt ev"
    and r: "r = inst rt st now (ev_dwell ev) c"
    and res: "apply_for rt now c (r, ev) = (v, ev')"
  shows "v = sem rt st now (ev_dwell ev) c \<and> same_sem rt st now S ev ev' \<and> ev_inv rt ev'"
proof (cases "c_For c \<noteq> [] \<and> (\<exists>d. ParseDuration rt (c_For c) = Some d \<and> d \<noteq> 0)")
  case False
  with res r inv show ?thesis
    by (auto simp: apply_for_def sem_inst dwell_view_def split: option.splits if_splits)
next
  case True
  then obtain d where d: "c_For c \<noteq> []" "ParseDuration rt (c_For c) = Some d" "d \<noteq> 0" by blast
  then have res': "applyDwell rt c r d now ev = (v, ev')" using res by (simp add: apply_for_def)
  have sem: "sem rt st now (ev_dwell ev) c = (if r \<noteq> TTrue then r
      else if credit (ev_dwell ev) (rt_Digest rt c) now \<ge> d then TTrue else TFalse)"
    using d r by (simp add: sem_inst dwell_view_credit)
  obtain t where t: "ev_dwell ev' = (ev_dwell ev)(rt_Digest rt c \<mapsto> t)"
      and el: "r = TTrue \<Longrightarrow> Elapsed t now = credit (ev_dwell ev) (rt_Digest rt c) now"
      and cr: "t_Credited t = 0 \<or> (\<exists>t0. ev_dwell ev (rt_Digest rt c) = Some t0 \<and> t_Credited t = t_Credited t0)"
      and pr: "ev_programs ev' = ev_programs ev" and v: "v = sem rt st now (ev_dwell ev) c"
  proof (cases "r = TTrue")
    case True
    with applyDwell_true [of rt c d now ev] res' sem touched_Credited [of rt c d now ev]
    show ?thesis by (auto intro: that)
  next
    case False
    with applyDwell_false [OF False, of rt c d now ev] res' sem show ?thesis by (auto intro: that)
  qed
  have "same_sem rt st now S ev ev'"
    unfolding same_sem_def t using el r by (auto intro: update_stable [OF S c])
  moreover have "ev_inv rt ev'"
    using inv cr by (auto simp: ev_inv_def t pr)
  ultimately show ?thesis using v by simp
qed

lemma foldl_TFalse: "foldl TriAnd TFalse xs = TFalse"
  by (induction xs) (auto simp: TriAnd_def)

lemma foldl_TTrue: "foldl TriOr TTrue xs = TTrue"
  by (induction xs) (auto simp: TriOr_def)

text \<open>What a call that starts in \<open>ev\<close> and ends in \<open>ev'\<close> keeps, next to its result.\<close>

definition keeps ::
  "rt \<Rightarrow> Store \<Rightarrow> instant \<Rightarrow> ConditionConfig set \<Rightarrow> Evaluator \<Rightarrow> Evaluator \<Rightarrow> bool" where
  "keeps rt st now S ev ev' \<longleftrightarrow> same_sem rt st now S ev ev' \<and> ev_inv rt ev'"

lemma keeps_trans: "keeps rt st now S a b \<Longrightarrow> keeps rt st now S b c \<Longrightarrow> keeps rt st now S a c"
  by (auto simp: keeps_def intro: same_sem_trans)

lemma keeps_map_sem:
  "set cs \<subseteq> S \<Longrightarrow> keeps rt st now S ev ev' \<Longrightarrow> map (sem rt st now (ev_dwell ev')) cs = map (sem rt st now (ev_dwell ev)) cs"
  by (auto simp: keeps_def same_sem_def)

lemma keeps_inv: "keeps rt st now S ev ev' \<Longrightarrow> ev_inv rt ev'"
  by (simp add: keeps_def)

lemma keeps_refl: "ev_inv rt ev \<Longrightarrow> keeps rt st now S ev ev"
  by (simp add: keeps_def)

lemma keeps_inst: "collision_free rt S \<Longrightarrow> c \<in> S \<Longrightarrow> keeps rt st now S ev ev' \<Longrightarrow>
    inst rt st now (ev_dwell ev') c = inst rt st now (ev_dwell ev) c"
  by (intro inst_cong) (auto simp: keeps_def same_sem_def dest: collision_free_kids)

lemma leaf_keeps: "ev_inv rt ev \<Longrightarrow> keeps rt st now S ev (snd (evaluate_leaf rt st now c ev))"
  by (simp add: keeps_def leaf_inv same_sem_dwell leaf_frame)

lemma Evaluate_sem_all:
  assumes S: "collision_free rt S"
  shows "c \<in> S \<Longrightarrow> ev_inv rt ev \<Longrightarrow> fst (Evaluate rt st now c ev) = sem rt st now (ev_dwell ev) c \<and>
      keeps rt st now S ev (snd (Evaluate rt st now c ev))"
    and "c \<in> S \<Longrightarrow> ev_inv rt ev \<Longrightarrow> fst (evaluateInner rt st now c ev) = inst rt st now (ev_dwell ev) c \<and>
      keeps rt st now S ev (snd (evaluateInner rt st now c ev))"
    and "set cs \<subseteq> S \<Longrightarrow> ev_inv rt ev \<Longrightarrow> fst (evaluateAnd rt st now r cs ev) =
        foldl TriAnd r (map (sem rt st now (ev_dwell ev)) cs) \<and>
      keeps rt st now S ev (snd (evaluateAnd rt st now r cs ev))"
    and "set cs \<subseteq> S \<Longrightarrow> ev_inv rt ev \<Longrightarrow> fst (evaluateOr rt st now r cs ev) =
        foldl TriOr r (map (sem rt st now (ev_dwell ev)) cs) \<and>
      keeps rt st now S ev (snd (evaluateOr rt st now r cs ev))"
  using S
proof (induction rt st now c ev and rt st now c ev and rt st now r cs ev and rt st now r cs ev
    rule: Evaluate_evaluateInner_evaluateAnd_evaluateOr.induct)
  case (1 rt st now c ev)
  obtain r ev1 where e: "evaluateInner rt st now c ev = (r, ev1)" by force
  with 1 have r: "r = inst rt st now (ev_dwell ev) c" and k: "keeps rt st now S ev ev1" by auto
  obtain v ev2 where a: "apply_for rt now c (r, ev1) = (v, ev2)" by force
  have "v = sem rt st now (ev_dwell ev1) c \<and> same_sem rt st now S ev1 ev2 \<and> ev_inv rt ev2"
    by (rule apply_for_sem [OF "1.prems"(3,1) keeps_inv [OF k] _ a])
      (simp add: r keeps_inst [OF "1.prems"(3,1) k])
  with k "1.prems"(1) show ?case
    by (simp add: Evaluate.simps e a) (auto simp: keeps_def same_sem_def)
next
  case (2 rt st now c ev)
  have sub: "set (c_Conditions c) \<subseteq> S"
    using collision_free_kids [OF "2.prems"(3,1)] by blast
  consider "inferConditionType c = ''and''" | "inferConditionType c = ''or''"
    | "inferConditionType c = ''not''"
    | "inferConditionType c \<notin> {''and'', ''or'', ''not''}" by blast
  then show ?case
  proof cases
    case 1
    with 2 sub show ?thesis by (simp add: evaluateInner.simps inst_def)
  next
    case b: 2
    with 2 sub show ?thesis by (simp add: evaluateInner.simps inst_def)
  next
    case c: 3
    with 2 sub show ?thesis
      by (fastforce simp: evaluateInner.simps inst_def keeps_refl split: list.splits prod.splits)
  next
    case d: 4
    with 2 sub show ?thesis
      by (simp add: evaluateInner.simps inst_def leaf_value leaf_keeps)
  qed
next
  case (3 rt st now r ev)
  then show ?case by (simp add: keeps_refl)
next
  case (4 rt st now r x xs ev)
  then have sub: "set xs \<subseteq> S" by simp
  obtain v ev1 where e: "Evaluate rt st now x ev = (v, ev1)" by force
  with 4 have v: "v = sem rt st now (ev_dwell ev) x" and k: "keeps rt st now S ev ev1" by auto
  show ?case
  proof (cases "TriAnd r v = TFalse")
    case True
    with k e v show ?thesis by (simp add: foldl_TFalse)
  next
    case False
    with 4 e k have "fst (evaluateAnd rt st now (TriAnd r v) xs ev1) =
        foldl TriAnd (TriAnd r v) (map (sem rt st now (ev_dwell ev1)) xs) \<and>
        keeps rt st now S ev1 (snd (evaluateAnd rt st now (TriAnd r v) xs ev1))"
      by (simp add: keeps_inv)
    with False e k v show ?thesis
      by (simp add: keeps_map_sem [OF sub k]) (blast intro: keeps_trans)
  qed
next
  case (5 rt st now r ev)
  then show ?case by (simp add: keeps_refl)
next
  case (6 rt st now r x xs ev)
  then have sub: "set xs \<subseteq> S" by simp
  obtain v ev1 where e: "Evaluate rt st now x ev = (v, ev1)" by force
  with 6 have v: "v = sem rt st now (ev_dwell ev) x" and k: "keeps rt st now S ev ev1" by auto
  show ?case
  proof (cases "TriOr r v = TTrue")
    case True
    with k e v show ?thesis by (simp add: foldl_TTrue)
  next
    case False
    with 6 e k have "fst (evaluateOr rt st now (TriOr r v) xs ev1) =
        foldl TriOr (TriOr r v) (map (sem rt st now (ev_dwell ev1)) xs) \<and>
        keeps rt st now S ev1 (snd (evaluateOr rt st now (TriOr r v) xs ev1))"
      by (simp add: keeps_inv)
    with False e k v show ?thesis
      by (simp add: keeps_map_sem [OF sub k]) (blast intro: keeps_trans)
  qed
qed

lemma Evaluate_sem:
  "collision_free rt S \<Longrightarrow> c \<in> S \<Longrightarrow> ev_inv rt ev \<Longrightarrow>
   fst (Evaluate rt st now c ev) = sem rt st now (ev_dwell ev) c"
  using Evaluate_sem_all(1) by blast

lemma Evaluate_keeps:
  "collision_free rt S \<Longrightarrow> c \<in> S \<Longrightarrow> ev_inv rt ev \<Longrightarrow> keeps rt st now S ev (snd (Evaluate rt st now c ev))"
  using Evaluate_sem_all(1) by blast

section \<open>Explain computes the meaning without side effects\<close>

lemma parse_print_Trilean [simp]: "parseTrilean (Trilean_String t) = t"
  by (cases t) (simp_all add: parseTrilean_def)

lemma ev_inv_credit: "ev_inv rt ev \<Longrightarrow> 0 \<le> credit (ev_dwell ev) k now"
  by (auto simp: ev_inv_def credit_def Elapsed_def Let_def split: option.splits)

lemma explain_finish_Result:
  assumes "ev_inv rt ev"
  shows "ex_Result (explain_finish rt now c r fv fq kids ev) =
    Trilean_String (dwell_view rt now (ev_dwell ev) c r)"
proof (cases "c_For c \<noteq> [] \<and> (\<exists>d. ParseDuration rt (c_For c) = Some d \<and> d > 0)")
  case False
  with ev_inv_credit [OF assms, of "rt_Digest rt c" now] show ?thesis
    by (auto simp: explain_finish_def dwell_view_credit split: option.splits)
next
  case True
  then obtain d where d: "c_For c \<noteq> []" "ParseDuration rt (c_For c) = Some d" "d > 0" by blast
  then show ?thesis
    by (auto simp: explain_finish_def dwell_view_def explainDwell_def Let_def
        split: option.splits prod.splits)
qed

text \<open>Two evaluators that differ in their template cache at most.\<close>

definition same_timers :: "Evaluator \<Rightarrow> Evaluator \<Rightarrow> bool" where
  "same_timers ev ev' \<longleftrightarrow> ev_dwell ev' = ev_dwell ev \<and> ev_store ev' = ev_store ev \<and> ev_faults ev' = ev_faults ev"

lemma same_timers_leaf: "same_timers ev (snd (evaluate_leaf rt st now c ev))"
  by (simp add: same_timers_def leaf_frame)

lemma Explain_state:
  "snd (Explain rt st now c ev) =
     (if inferConditionType c = ''and'' \<or> inferConditionType c = ''or''
      then snd (explain_all rt st now (c_Conditions c) ev)
      else if inferConditionType c = ''not'' then
        (case c_Conditions c of [] \<Rightarrow> ev | x # _ \<Rightarrow> snd (Explain rt st now x ev))
      else snd (evaluate_leaf rt st now c ev))"
  by (subst Explain.simps) (simp add: Let_def split: prod.splits list.splits)

lemma Explain_frame_all:
  "same_timers ev (snd (Explain rt st now c ev))"
  "same_timers ev (snd (explain_all rt st now cs ev))"
proof (induction rt st now c ev and rt st now cs ev rule: Explain_explain_all.induct)
  case (1 rt st now c ev)
  show ?case
  proof (cases "inferConditionType c = ''not''")
    case False
    with 1(1,2) show ?thesis by (subst Explain_state) (auto simp: same_timers_leaf)
  next
    case True
    show ?thesis
    proof (cases "c_Conditions c")
      case Nil
      with True show ?thesis by (simp add: Explain_state same_timers_def)
    next
      case (Cons x xs)
      have "same_timers ev (snd (Explain rt st now x ev))"
        by (rule 1(3)) (use True Cons in auto)
      with True Cons show ?thesis by (subst Explain_state) simp
    qed
  qed
next
  case (3 rt st now x xs ev)
  then show ?case by (auto simp: same_timers_def split: prod.splits)
qed (simp add: same_timers_def)

lemmas Explain_frame = Explain_frame_all(1) [unfolded same_timers_def]

lemma fold_kids:
  assumes "map ex_Result ks = map (\<lambda>c. Trilean_String (g c)) cs"
  shows "foldl (\<lambda>r k. f r (parseTrilean (ex_Result k))) a ks = foldl f a (map g cs)"
  using assms
proof (induction cs arbitrary: ks a)
  case Nil
  then show ?case by simp
next
  case (Cons c cs)
  then show ?case by (cases ks) auto
qed

lemma Explain_sem_all:
  "ev_inv rt ev \<Longrightarrow> ev_inv rt (snd (Explain rt st now c ev)) \<and>
     ex_Result (fst (Explain rt st now c ev)) = Trilean_String (sem rt st now (ev_dwell ev) c)"
  "ev_inv rt ev \<Longrightarrow> ev_inv rt (snd (explain_all rt st now cs ev)) \<and>
     map ex_Result (fst (explain_all rt st now cs ev)) =
       map (\<lambda>c. Trilean_String (sem rt st now (ev_dwell ev) c)) cs"
proof (induction rt st now c ev and rt st now cs ev rule: Explain_explain_all.induct)
  case (1 rt st now c ev)
  consider "inferConditionType c = ''and''" | "inferConditionType c = ''or''"
    | "inferConditionType c = ''not''"
    | "inferConditionType c \<notin> {''and'', ''or'', ''not''}" by blast
  then show ?case
  proof cases
    case a: 1
    obtain ks ev' where e: "explain_all rt st now (c_Conditions c) ev = (ks, ev')" by force
    with 1 a have "ev_inv rt ev'" and ks: "map ex_Result ks =
        map (\<lambda>c. Trilean_String (sem rt st now (ev_dwell ev) c)) (c_Conditions c)" by auto
    moreover have "ev_dwell ev' = ev_dwell ev"
      using Explain_frame_all(2) [of ev rt st now "c_Conditions c"] e by (simp add: same_timers_def)
    ultimately show ?thesis
      using a e by (subst (1 2) Explain.simps)
        (simp add: explain_finish_Result fold_kids [OF ks] sem_inst [of rt st now _ c] inst_def)
  next
    case b: 2
    obtain ks ev' where e: "explain_all rt st now (c_Conditions c) ev = (ks, ev')" by force
    with 1 b have "ev_inv rt ev'" and ks: "map ex_Result ks =
        map (\<lambda>c. Trilean_String (sem rt st now (ev_dwell ev) c)) (c_Conditions c)" by auto
    moreover have "ev_dwell ev' = ev_dwell ev"
      using Explain_frame_all(2) [of ev rt st now "c_Conditions c"] e by (simp add: same_timers_def)
    ultimately show ?thesis
      using b e by (subst (1 2) Explain.simps)
        (simp add: explain_finish_Result fold_kids [OF ks] sem_inst [of rt st now _ c] inst_def)
  next
    case c: 3
    show ?thesis
    proof (cases "c_Conditions c")
      case Nil
      with c 1 show ?thesis
        by (subst (1 2) Explain.simps) (simp add: explain_finish_Result sem_inst [of rt st now _ c] inst_def)
    next
      case (Cons x xs)
      obtain k ev' where e: "Explain rt st now x ev = (k, ev')" by force
      have "ev_inv rt (snd (Explain rt st now x ev)) \<and> ex_Result (fst (Explain rt st now x ev)) =
          Trilean_String (sem rt st now (ev_dwell ev) x)"
        by (rule 1(3)) (use c Cons "1.prems" in auto)
      then have "ev_inv rt ev'" and "ex_Result k = Trilean_String (sem rt st now (ev_dwell ev) x)"
        using e by simp_all
      moreover have "ev_dwell ev' = ev_dwell ev" using Explain_frame [of rt st now x ev] e by simp
      ultimately show ?thesis
        using c e Cons by (subst (1 2) Explain.simps)
          (simp add: explain_finish_Result sem_inst [of rt st now _ c] inst_def)
    qed
  next
    case d: 4
    obtain r ev' where e: "evaluate_leaf rt st now c ev = (r, ev')" by force
    then have "r = leaf_val rt st now c" "ev_inv rt ev'" "ev_dwell ev' = ev_dwell ev"
      using leaf_value [OF "1.prems", of st now c] leaf_inv [OF "1.prems", of st now c]
        leaf_frame(1) [of rt st now c ev] by simp_all
    with d e show ?thesis
      by (subst (1 2) Explain.simps)
        (simp add: explain_finish_Result sem_inst [of rt st now _ c] inst_def split: prod.splits)
  qed
next
  case (3 rt st now x xs ev)
  then show ?case
    using Explain_frame [of rt st now x ev] by (auto split: prod.splits)
qed simp

end
