(* ===== verification/Config.thy ===== *)
theory Config
  imports Explain
begin

text \<open>
  The configuration (\<open>internal/config/types.go\<close>), its defaults (\<open>loader.go\<close>) and the resolution of
  the client references of a stage (\<open>validate.go\<close>). A pointer to a struct is an option; a
  \<open>map[string]any\<close> is a map to the values a fact can have.
\<close>

section \<open>The configuration's types (types.go)\<close>

record ProbeConfig =
  pr_Method :: string
  pr_Port :: int
  pr_Timeout :: string

record WakeConfig =
  wc_Transport :: string
  wc_MAC :: string
  wc_Broadcast :: string
  wc_Config :: "string \<rightharpoonup> goval"

record ClientConfig =
  cl_Name :: string
  cl_Description :: string
  cl_Transport :: string
  cl_Address :: string
  cl_MAC :: string
  cl_Credentials :: string
  cl_Tags :: "string list"
  cl_Feeds :: "string list"
  cl_FeedPolicy :: string
  cl_ShutdownBudget :: string
  cl_WakePolicy :: string
  cl_GuardPeriod :: string
  cl_CommsLossAssumes :: string
  cl_DependsOn :: "string list"
  cl_After :: "string list"
  cl_Before :: "string list"
  cl_Probe :: "ProbeConfig option"
  cl_Wake :: "WakeConfig option"
  cl_Config :: "string \<rightharpoonup> goval"

record PostShutdownConfig =
  ps_Action :: string
  ps_Command :: string
  ps_Delay :: int
  ps_UPS :: string
  ps_Host :: string
  ps_Port :: int
  ps_Username :: string
  ps_Password :: string

definition CommsLossSafe :: string where "CommsLossSafe = ''safe''"
definition CommsLossThreatened :: string where "CommsLossThreatened = ''threatened''"

definition WaitPolicySkip :: string where "WaitPolicySkip = ''skip''"
definition WaitPolicyEscalate :: string where "WaitPolicyEscalate = ''escalate''"
definition WaitPolicyHold :: string where "WaitPolicyHold = ''hold''"

definition ValidWaitPolicies :: "string list" where
  "ValidWaitPolicies = [WaitPolicySkip, WaitPolicyEscalate, WaitPolicyHold]"

record StageConfig =
  sg_Name :: string
  sg_When :: ConditionConfig
  sg_Clients :: "string list"
  sg_Budget :: string
  sg_WaitTimeout :: string
  sg_WaitPolicy :: string
  sg_PointOfNoReturn :: bool

record ShutdownConfig =
  sh_PostShutdown :: "PostShutdownConfig option"
  sh_Stages :: "StageConfig list"

text \<open>\<open>WakeConfig_\<close>, the wake part of a plan.\<close>

record PlanWakeConfig =
  wk_Gate :: ConditionConfig
  wk_Stagger :: string
  wk_Order :: string
  wk_Stages :: "StageConfig list"
  wk_ProbeInterval :: string
  wk_BootDeadline :: string
  wk_Retries :: int

record PlanConfig =
  pl_Name :: string
  pl_Trigger :: ConditionConfig
  pl_Abort :: "ConditionConfig option"
  pl_Shutdown :: ShutdownConfig
  pl_Wake :: PlanWakeConfig

record SourceConfig =
  sc_Name :: string
  sc_Type :: string
  sc_PollInterval :: string
  sc_Config :: "string \<rightharpoonup> goval"

record WebhookConfig =
  wh_URL :: string
  wh_Headers :: "string \<rightharpoonup> string"
  wh_Events :: "string list"

record AuthConfig =
  au_PasswordHash :: string
  au_TrustProxyHeaders :: bool
  au_TrustedProxies :: "string list"
  au_AllowedOrigins :: "string list"

record CanariumConfig =
  ca_Mode :: string
  ca_Host :: string
  ca_DataDir :: string
  ca_JournalRetain :: string
  ca_ConfigReadonly :: bool
  ca_Auth :: AuthConfig
  ca_Webhooks :: "WebhookConfig list"

record SSHTransportConfig =
  ssh_User :: string
  ssh_Port :: int
  ssh_Command :: string
  ssh_KeyPath :: string
  ssh_KeyPassphrase :: string
  ssh_KnownHosts :: string
  ssh_HostKeyPolicy :: string
  ssh_ConnectTimeout :: string
  ssh_CommandTimeout :: string

record WOLTransportConfig =
  wol_RepeatCount :: int
  wol_RepeatDelay :: string
  wol_Port :: int

record Config =
  cf_Canarium :: CanariumConfig
  cf_SSH :: SSHTransportConfig
  cf_WOL :: WOLTransportConfig
  cf_Sources :: "SourceConfig list"
  cf_Clients :: "ClientConfig list"
  cf_Plans :: "PlanConfig list"

section \<open>Defaults (types.go, loader.go)\<close>

definition DefaultShutdownBudget :: duration where "DefaultShutdownBudget = 3 * Minute"
definition DefaultGuardPeriod :: duration where "DefaultGuardPeriod = 60 * Second"
definition DefaultWaitTimeout :: duration where "DefaultWaitTimeout = Hour"
definition DefaultStagger :: duration where "DefaultStagger = 45 * Second"
definition DefaultProbeInterval :: duration where "DefaultProbeInterval = 30 * Second"
definition DefaultBootDeadline :: duration where "DefaultBootDeadline = 5 * Minute"
definition DefaultRetries :: int where "DefaultRetries = 3"
definition DefaultJournalRetain :: duration where "DefaultJournalRetain = 30 * 24 * Hour"

text \<open>The value of a field that is empty, and of one that is set.\<close>

definition or_default :: "string \<Rightarrow> string \<Rightarrow> string" where
  "or_default s d = (if s = [] then d else s)"

definition default_client :: "ClientConfig \<Rightarrow> ClientConfig" where
  "default_client c =
     c\<lparr>cl_ShutdownBudget := or_default (cl_ShutdownBudget c) ''3m'',
       cl_FeedPolicy := or_default (cl_FeedPolicy c) ''any'',
       cl_WakePolicy := or_default (cl_WakePolicy c) ''power_state'',
       cl_GuardPeriod := or_default (cl_GuardPeriod c) ''60s''\<rparr>"

definition default_stage :: "StageConfig \<Rightarrow> StageConfig" where
  "default_stage s =
     s\<lparr>sg_WaitTimeout := or_default (sg_WaitTimeout s) ''1h'',
       sg_WaitPolicy := or_default (sg_WaitPolicy s) ''skip''\<rparr>"

definition default_wake :: "PlanWakeConfig \<Rightarrow> PlanWakeConfig" where
  "default_wake w =
     w\<lparr>wk_Stagger := or_default (wk_Stagger w) ''45s'',
       wk_Order := or_default (wk_Order w) ''reverse'',
       wk_ProbeInterval := or_default (wk_ProbeInterval w) ''30s'',
       wk_BootDeadline := or_default (wk_BootDeadline w) ''5m'',
       wk_Retries := (if wk_Retries w = 0 then 3 else wk_Retries w)\<rparr>"

definition default_plan :: "PlanConfig \<Rightarrow> PlanConfig" where
  "default_plan p =
     p\<lparr>pl_Wake := default_wake (pl_Wake p),
       pl_Shutdown := (pl_Shutdown p)\<lparr>sh_Stages := map default_stage (sh_Stages (pl_Shutdown p))\<rparr>\<rparr>"

definition default_canarium :: "CanariumConfig \<Rightarrow> CanariumConfig" where
  "default_canarium c =
     c\<lparr>ca_Mode := or_default (ca_Mode c) ''disarmed'',
       ca_Host := or_default (ca_Host c) ''0.0.0.0:8420'',
       ca_DataDir := or_default (ca_DataDir c) ''/var/lib/canarium'',
       ca_JournalRetain := or_default (ca_JournalRetain c) ''30d''\<rparr>"

text \<open>The settings of a file that gives none are the default ones.\<close>

definition DefaultCanariumConfig :: CanariumConfig where
  "DefaultCanariumConfig =
     \<lparr>ca_Mode = ''disarmed'', ca_Host = ''0.0.0.0:8420'', ca_DataDir = ''/var/lib/canarium'', ca_JournalRetain = ''30d'',
      ca_ConfigReadonly = False, ca_Auth = \<lparr>au_PasswordHash = [], au_TrustProxyHeaders = False, au_TrustedProxies = [], au_AllowedOrigins = []\<rparr>, ca_Webhooks = []\<rparr>"

lemma default_canarium_of_zero:
  "default_canarium (DefaultCanariumConfig\<lparr>ca_Mode := [], ca_Host := [], ca_DataDir := [], ca_JournalRetain := []\<rparr>) =
   DefaultCanariumConfig"
  by (simp add: default_canarium_def DefaultCanariumConfig_def or_default_def)

text \<open>\<open>join\<close> is \<open>filepath.Join\<close>.\<close>

definition applyDefaults :: "(string \<Rightarrow> string \<Rightarrow> string) \<Rightarrow> Config \<Rightarrow> Config" where
  "applyDefaults join cfg =
     (let can = default_canarium (cf_Canarium cfg); ssh = cf_SSH cfg
      in cfg\<lparr>cf_Canarium := can,
             cf_SSH := ssh\<lparr>ssh_KnownHosts := or_default (ssh_KnownHosts ssh) (join (ca_DataDir can) ''known_hosts''),
                           ssh_HostKeyPolicy := or_default (ssh_HostKeyPolicy ssh) ''accept-new''\<rparr>,
             cf_Clients := map default_client (cf_Clients cfg),
             cf_Plans := map default_plan (cf_Plans cfg)\<rparr>)"

section \<open>Client references (validate.go)\<close>

definition IsZeroCondition :: "ConditionConfig \<Rightarrow> bool" where
  "IsZeroCondition c \<longleftrightarrow>
     c_Condition c = [] \<and> c_Fact c = [] \<and> c_Value c = [] \<and>
     c_Above c = None \<and> c_Below c = None \<and> c_Equals c = GNil \<and>
     c_Is c = [] \<and> c_IsNot c = [] \<and> c_Contains c = [] \<and>
     c_For c = [] \<and> c_In c = [] \<and> c_Conditions c = []"

definition buildClientNameSet :: "Config \<Rightarrow> string set" where
  "buildClientNameSet cfg = set (map cl_Name (cf_Clients cfg))"

text \<open>A tag's clients, in the order the loops append them; \<open>None\<close> for a tag nobody has.\<close>

definition add_tag :: "string \<Rightarrow> (string \<rightharpoonup> string list) \<Rightarrow> string \<Rightarrow> (string \<rightharpoonup> string list)" where
  "add_tag name tags t = tags(t \<mapsto> (case tags t of None \<Rightarrow> [] | Some ns \<Rightarrow> ns) @ [name])"

definition buildTagMap :: "Config \<Rightarrow> (string \<rightharpoonup> string list)" where
  "buildTagMap cfg = foldl (\<lambda>tags c. foldl (add_tag (cl_Name c)) tags (cl_Tags c)) Map.empty (cf_Clients cfg)"

definition tag_prefix :: string where "tag_prefix = ''tag:''"

text \<open>The names one reference stands for.\<close>

definition ref_names :: "(string \<rightharpoonup> string list) \<Rightarrow> string \<Rightarrow> string list" where
  "ref_names tagMap ref =
     (if HasPrefix ref tag_prefix
      then (case tagMap (TrimPrefix ref tag_prefix) of None \<Rightarrow> [] | Some ns \<Rightarrow> ns)
      else [ref])"

definition ResolveClientRefs :: "string list \<Rightarrow> Config \<Rightarrow> string list" where
  "ResolveClientRefs refs cfg =
     (let tagMap = buildTagMap cfg
      in foldl (\<lambda>result ref. add_unseen result (ref_names tagMap ref)) [] refs)"

subsection \<open>What a reference resolves to\<close>

definition tagged :: "ClientConfig list \<Rightarrow> string \<Rightarrow> string list" where
  "tagged cs t = concat (map (\<lambda>c. map (\<lambda>_. cl_Name c) (filter (\<lambda>u. u = t) (cl_Tags c))) cs)"

definition nonempty :: "'a list \<Rightarrow> 'a list option" where
  "nonempty xs = (if xs = [] then None else Some xs)"

lemma add_tag_fold:
  assumes "\<forall>u. tags u = nonempty (acc u)"
  shows "foldl (add_tag name) tags ts u = nonempty (acc u @ map (\<lambda>_. name) (filter (\<lambda>v. v = u) ts))"
  using assms
proof (induction ts arbitrary: tags acc)
  case Nil
  then show ?case by simp
next
  case (Cons t ts)
  have "\<forall>u. add_tag name tags t u = nonempty ((acc(t := acc t @ [name])) u)"
    using Cons.prems by (simp add: add_tag_def nonempty_def)
  from Cons.IH [OF this] show ?case by simp
qed

lemma buildTagMap_fold:
  assumes "\<forall>u. tags u = nonempty (acc u)"
  shows "foldl (\<lambda>tags c. foldl (add_tag (cl_Name c)) tags (cl_Tags c)) tags cs u = nonempty (acc u @ tagged cs u)"
  using assms
proof (induction cs arbitrary: tags acc)
  case Nil
  then show ?case by (simp add: tagged_def)
next
  case (Cons c cs)
  have "\<forall>u. foldl (add_tag (cl_Name c)) tags (cl_Tags c) u =
      nonempty (acc u @ map (\<lambda>_. cl_Name c) (filter (\<lambda>v. v = u) (cl_Tags c)))"
    using add_tag_fold [OF Cons.prems] by blast
  from Cons.IH [OF this] show ?case by (simp add: tagged_def)
qed

lemma buildTagMap_tagged: "buildTagMap cfg t = nonempty (tagged (cf_Clients cfg) t)"
  using buildTagMap_fold [of Map.empty "\<lambda>_. []" "cf_Clients cfg" t]
  by (simp add: buildTagMap_def nonempty_def)

lemma ref_names_tag [simp]:
  "ref_names (buildTagMap cfg) (tag_prefix @ t) = tagged (cf_Clients cfg) t"
  by (auto simp: ref_names_def buildTagMap_tagged nonempty_def)

lemma set_tagged: "set (tagged cs t) = {cl_Name c | c. c \<in> set cs \<and> t \<in> set (cl_Tags c)}"
  by (auto simp: tagged_def)

lemma ResolveClientRefs_concat:
  "ResolveClientRefs refs cfg = add_unseen [] (concat (map (ref_names (buildTagMap cfg)) refs))"
proof -
  have "foldl (\<lambda>result ref. add_unseen result (ref_names m ref)) out refs =
      add_unseen out (concat (map (ref_names m) refs))" for m out
    by (induction refs arbitrary: out) (simp_all add: add_unseen_append)
  then show ?thesis by (simp add: ResolveClientRefs_def)
qed

lemma Resolve_distinct: "distinct (ResolveClientRefs refs cfg)"
  by (simp add: ResolveClientRefs_concat distinct_add_unseen)

lemma Resolve_set:
  "set (ResolveClientRefs refs cfg) =
     {r \<in> set refs. \<not> HasPrefix r tag_prefix} \<union>
     {cl_Name c | c t. c \<in> set (cf_Clients cfg) \<and> t \<in> set (cl_Tags c) \<and> tag_prefix @ t \<in> set refs}"
proof -
  have tag: "set (ref_names (buildTagMap cfg) r) = {cl_Name c | c t. c \<in> set (cf_Clients cfg) \<and>
      t \<in> set (cl_Tags c) \<and> tag_prefix @ t = r}" if "HasPrefix r tag_prefix" for r
    using that by (auto simp: HasPrefix_iff set_tagged)
  have name: "set (ref_names (buildTagMap cfg) r) = {r}" if "\<not> HasPrefix r tag_prefix" for r
    using that by (simp add: ref_names_def)
  show ?thesis (is "?L = ?R")
  proof (rule set_eqI)
    fix x
    have "x \<in> ?L \<longleftrightarrow> (\<exists>r \<in> set refs. x \<in> set (ref_names (buildTagMap cfg) r))"
      by (auto simp: ResolveClientRefs_concat)
    also have "\<dots> \<longleftrightarrow> x \<in> ?R"
    proof
      assume "\<exists>r \<in> set refs. x \<in> set (ref_names (buildTagMap cfg) r)"
      then obtain r where r: "r \<in> set refs" "x \<in> set (ref_names (buildTagMap cfg) r)" by blast
      then show "x \<in> ?R" using tag [of r] name [of r] by (cases "HasPrefix r tag_prefix") auto
    next
      assume "x \<in> ?R"
      then consider "x \<in> set refs" "\<not> HasPrefix x tag_prefix"
        | c t where "c \<in> set (cf_Clients cfg)" "t \<in> set (cl_Tags c)" "tag_prefix @ t \<in> set refs" "x = cl_Name c"
        by blast
      then show "\<exists>r \<in> set refs. x \<in> set (ref_names (buildTagMap cfg) r)"
      proof cases
        case 1
        then show ?thesis using name by blast
      next
        case (2 c t)
        then have "x \<in> set (ref_names (buildTagMap cfg) (tag_prefix @ t))" by (auto simp: set_tagged)
        with 2 show ?thesis by blast
      qed
    qed
    finally show "x \<in> ?L \<longleftrightarrow> x \<in> ?R" .
  qed
qed

end
