(* ===== verification/Netutil.thy ===== *)
theory Netutil
  imports Prelude "HOL-Library.Word"
begin

text \<open>
  Hardware addresses (\<open>internal/netutil/mac.go\<close>): \<open>NormaliseMAC\<close> on top of Go's \<open>net.ParseMAC\<close> and
  \<open>HardwareAddr.String\<close>. An octet is an 8-bit word.
\<close>

unbundle bit_operations_syntax

type_synonym octet = "8 word"

section \<open>net.ParseMAC and HardwareAddr.String\<close>

definition hex_val :: "char \<Rightarrow> nat option" where
  "hex_val c =
     (let n = of_char c in
      if 48 \<le> n \<and> n \<le> 57 then Some (n - 48)
      else if 97 \<le> n \<and> n \<le> 102 then Some (n - 87)
      else if 65 \<le> n \<and> n \<le> 70 then Some (n - 55)
      else None)"

text \<open>
  \<open>xtoi2(s, e)\<close>: the two hexadecimal digits \<open>s\<close> starts with; a third character has to be the
  separator \<open>e\<close>.
\<close>

fun xtoi2 :: "string \<Rightarrow> char \<Rightarrow> octet option" where
  "xtoi2 (a # b # rest) e =
     (if rest \<noteq> [] \<and> hd rest \<noteq> e then None
      else case (hex_val a, hex_val b) of
             (Some x, Some y) \<Rightarrow> Some (of_nat (16 * x + y))
           | _ \<Rightarrow> None)"
| "xtoi2 _ e = None"

text \<open>\<open>n\<close> octets of two digits, each followed by the separator but the last.\<close>

fun parse_octets :: "nat \<Rightarrow> char \<Rightarrow> string \<Rightarrow> octet list option" where
  "parse_octets 0 e s = Some []"
| "parse_octets (Suc n) e s =
     (case xtoi2 s e of
        None \<Rightarrow> None
      | Some b \<Rightarrow> (case parse_octets n e (drop 3 s) of None \<Rightarrow> None | Some bs \<Rightarrow> Some (b # bs)))"

text \<open>The dotted form: \<open>n\<close> groups of four digits.\<close>

fun parse_groups :: "nat \<Rightarrow> string \<Rightarrow> octet list option" where
  "parse_groups 0 s = Some []"
| "parse_groups (Suc n) s =
     (case (xtoi2 (take 2 s) (CHR 0x00), xtoi2 (drop 2 s) (CHR ''.'')) of
        (Some a, Some b) \<Rightarrow> (case parse_groups n (drop 5 s) of None \<Rightarrow> None | Some bs \<Rightarrow> Some (a # b # bs))
      | _ \<Rightarrow> None)"

definition net_ParseMAC :: "string \<Rightarrow> octet list option" where
  "net_ParseMAC s =
     (if length s < 14 then None
      else if s ! 2 = CHR '':'' \<or> s ! 2 = CHR ''-'' then
        (let n = (length s + 1) div 3
         in if (length s + 1) mod 3 \<noteq> 0 \<or> n \<notin> {6, 8, 20} then None else parse_octets n (s ! 2) s)
      else if s ! 4 = CHR ''.'' then
        (let n = 2 * (length s + 1) div 5
         in if (length s + 1) mod 5 \<noteq> 0 \<or> n \<notin> {6, 8, 20} then None else parse_groups (n div 2) s)
      else None)"

definition hex_digit :: "nat \<Rightarrow> char" where
  "hex_digit n = char_of (if n < 10 then 48 + n else 87 + n)"

definition octet_string :: "octet \<Rightarrow> string" where
  "octet_string b = [hex_digit (unat b div 16), hex_digit (unat b mod 16)]"

fun HardwareAddr_String :: "octet list \<Rightarrow> string" where
  "HardwareAddr_String [] = []"
| "HardwareAddr_String [b] = octet_string b"
| "HardwareAddr_String (b # bs) = octet_string b @ CHR '':'' # HardwareAddr_String bs"

section \<open>NormaliseMAC (mac.go)\<close>

definition NormaliseMAC :: "string \<Rightarrow> string option" where
  "NormaliseMAC s =
     (case net_ParseMAC s of
        None \<Rightarrow> None
      | Some hw \<Rightarrow>
          if length hw \<noteq> 6 then None
          else if hw ! 0 AND 1 \<noteq> 0 then None
          else if list_all (\<lambda>b. b = 0) hw then None
          else Some (HardwareAddr_String hw))"

section \<open>A normalised address is normal\<close>

lemma hex_val_digit: "n < 16 \<Longrightarrow> hex_val (hex_digit n) = Some n"
  by (auto simp: hex_val_def hex_digit_def Let_def)

lemma hex_digit_not_sep: "n < 16 \<Longrightarrow> hex_digit n \<noteq> CHR '':''"
  using hex_val_digit [of n] by (auto simp: hex_val_def)

lemma octet_bounds: "unat (b :: octet) div 16 < 16" "unat b mod 16 < 16"
  using unsigned_less [of b, where ?'a = nat] by (auto simp: less_mult_imp_div_less)

lemma xtoi2_octet: "rest = [] \<or> hd rest = e \<Longrightarrow> xtoi2 (octet_string b @ rest) e = Some b"
proof -
  assume "rest = [] \<or> hd rest = e"
  moreover have "of_nat (16 * (unat b div 16) + unat b mod 16) = b"
    by (simp add: mult_div_mod_eq)
  ultimately show ?thesis
    by (auto simp: octet_string_def hex_val_digit [OF octet_bounds(1)] hex_val_digit [OF octet_bounds(2)])
qed

lemma length_String: "bs \<noteq> [] \<Longrightarrow> length (HardwareAddr_String bs) + 1 = 3 * length bs"
  by (induction bs rule: HardwareAddr_String.induct) (auto simp: octet_string_def)

lemma parse_octets_String:
  "bs \<noteq> [] \<Longrightarrow> parse_octets (length bs) (CHR '':'') (HardwareAddr_String bs) = Some bs"
proof (induction bs rule: HardwareAddr_String.induct)
  case (2 b)
  then show ?case using xtoi2_octet [of "[]" _ b] by simp
next
  case (3 b v va)
  have "drop 3 (octet_string b @ CHR '':'' # r) = r" for r by (simp add: octet_string_def)
  with 3 xtoi2_octet [of "CHR '':'' # HardwareAddr_String (v # va)" _ b] show ?case by simp
qed simp

lemma ParseMAC_String:
  assumes "length hw = 6"
  shows "net_ParseMAC (HardwareAddr_String hw) = Some hw"
proof -
  obtain a b bs where hw: "hw = a # b # bs" using assms by (metis One_nat_def Suc_length_conv numeral_eq_Suc pred_numeral_simps(2,3) BitM.simps(2) eval_nat_numeral(3))
  have "HardwareAddr_String hw ! 2 = CHR '':''" by (simp add: hw octet_string_def)
  moreover have "length (HardwareAddr_String hw) = 17" using length_String [of hw] assms by (auto simp: hw)
  moreover have "parse_octets 6 (CHR '':'') (HardwareAddr_String hw) = Some hw"
    using parse_octets_String [of hw] assms by (metis hw list.distinct(1))
  ultimately show ?thesis by (simp add: net_ParseMAC_def Let_def)
qed

text \<open>
  \<open>NormaliseMAC\<close> is a normal form: what it returns is the seventeen characters of a unicast
  address that is not all zero, and normalising it again changes nothing, so an address learned
  from a device and the same address typed into the configuration compare equal.
\<close>

theorem NormaliseMAC_normal_form:
  assumes "NormaliseMAC s = Some t"
  shows "NormaliseMAC t = Some t \<and> length t = 17 \<and>
    (\<exists>hw. net_ParseMAC t = Some hw \<and> length hw = 6 \<and> \<not> bit (hd hw) 0 \<and> (\<exists>b \<in> set hw. b \<noteq> 0))"
proof -
  obtain hw where hw: "net_ParseMAC s = Some hw" "length hw = 6" "hw ! 0 AND 1 = 0" "\<not> list_all (\<lambda>b. b = 0) hw"
      "t = HardwareAddr_String hw"
    using assms by (auto simp: NormaliseMAC_def split: option.splits if_splits)
  have p: "net_ParseMAC t = Some hw" using ParseMAC_String [OF hw(2)] hw(5) by simp
  have "NormaliseMAC t = Some t" using p hw by (simp add: NormaliseMAC_def)
  moreover have "length t = 17" using length_String [of hw] hw(2,5) by (cases hw) auto
  moreover have "hd hw = hw ! 0" using hw(2) by (cases hw) auto
  moreover have "\<not> bit (hw ! 0) 0"
    using hw(3) by (metis and_one_eq bit_0 even_iff_mod_2_eq_zero odd_iff_mod_2_eq_one zero_neq_one)
  ultimately show ?thesis using p hw(2,4) by (auto simp: list_all_iff)
qed

end
