(* ===== verification/Validation.thy ===== *)
theory Validation
  imports Config Netutil
begin

text \<open>
  The checks of a configuration (\<open>internal/config/validate.go\<close>). A validator only ever appends to
  its result, so each is a function to the list of diagnostics it appends, in order; a diagnostic
  is the message's format as a constructor, with the message's arguments. Where the code ranges
  over a Go map the order of the iteration is an argument.
\<close>

section \<open>Diagnostics\<close>

text \<open>The context of a condition: whose it is, and the path of nested conditions to it.\<close>

datatype ctx =
  CtxTrigger string | CtxAbort string | CtxWhen string string | CtxGate string | CtxKid ctx nat

datatype dctx =
  DctxCanarium | DctxClient string string | DctxStage string string string | DctxWake string string

datatype source_msg =
    SourceNoName nat
  | SourceDuplicate string
  | SourceNoType nat string
  | SourceUnknownType nat string string "string list"
  | SourceBadPoll nat string string

datatype daemon_msg =
    ModeInvalid string
  | HostEmpty
  | DataDirEmpty
  | RetainZero
  | HashNotBcrypt
  | HashSet
  | ReadonlySet
  | WebhookNoURL nat

datatype client_msg =
    ClientNoName
  | ClientDuplicate string
  | ClientNoTransport string
  | ClientUnknownTransport string string "string list"
  | ClientUnknownWakeTransport string string "string list"
  | ClientBadCommsLoss string string
  | ClientBadFeedPolicy string string
  | ClientBadWakePolicy string string
  | ClientUnknownDependency string string
  | BudgetTooShort string duration

datatype post_msg =
    PostBadAction string string
  | PostNoCommand string
  | PostNoUPS string
  | PostPortRange string int
  | PostDelayNegative string
  | PostHalfCredentials string
  | PostNoCredentials string
  | PostNoHost string

datatype dep_msg =
    DependencyCycle string string
  | ClientInTwoStages string string nat nat
  | DependencySameStage string string string string
  | DependencyBeforeDependent string string nat string nat
  | AfterContradicted string string nat string nat

datatype cond_msg =
    CondNil ctx
  | NumericNoFact ctx
  | NumericNoBound ctx
  | StateNoFact ctx
  | StateNoTest ctx
  | NestedMissing ctx string
  | NotOneNested ctx
  | TemplateNoValue ctx
  | TemplateInvalid ctx string
  | UnknownCondition ctx string
  | ForInvalid ctx string
  | ForNegative ctx
  | UnknownFact ctx string "string list"

datatype duration_msg =
    DurationInvalid dctx string
  | DurationNegative dctx string

datatype plan_msg =
    PlanNoName
  | PlanDuplicate string
  | StageNoName string nat
  | StageBadWaitPolicy string string string
  | StageSkips string string "duration + string"
  | StageTagEmpty string string string
  | StageUnknownClient string string string
  | PonrMarked string
  | PonrAbsent string
  | WakeStageTagEmpty string nat string
  | WakeStageUnknownClient string nat string
  | RetriesNegative string
  | GateMissing string

text \<open>Of \<open>selfpreservation.go\<close>: a client is named with its address, and with where it would be shut down.\<close>

datatype self_msg =
    IdentityUnknown
  | SelfUnscheduled string string
  | SelfShutDown string string string string
  | PostShutdownCutsPower string string string

text \<open>Of \<open>loadAndValidate\<close> (\<open>cmd/canarium/main.go\<close>): the error of building the sources, and an unset variable.\<close>

datatype load_msg = SourcesUnusable string | EnvMissing string

datatype message =
    SourceMsg source_msg
  | DaemonMsg daemon_msg
  | ClientMsg client_msg
  | PostMsg post_msg
  | DepMsg dep_msg
  | CondMsg cond_msg
  | DurationMsg duration_msg
  | PlanMsg plan_msg
  | SelfMsg self_msg
  | LoadMsg load_msg

datatype diag = Err message | Warn message | Inform message

record ValidationResult =
  vr_Errors :: "message list"
  vr_Warnings :: "message list"
  vr_Info :: "message list"

fun add_diag :: "ValidationResult \<Rightarrow> diag \<Rightarrow> ValidationResult" where
  "add_diag r (Err m) = r\<lparr>vr_Errors := vr_Errors r @ [m]\<rparr>"
| "add_diag r (Warn m) = r\<lparr>vr_Warnings := vr_Warnings r @ [m]\<rparr>"
| "add_diag r (Inform m) = r\<lparr>vr_Info := vr_Info r @ [m]\<rparr>"

definition HasErrors :: "ValidationResult \<Rightarrow> bool" where
  "HasErrors r \<longleftrightarrow> length (vr_Errors r) > 0"

definition has_err :: "diag list \<Rightarrow> bool" where
  "has_err ds \<longleftrightarrow> (\<exists>m. Err m \<in> set ds)"

lemma has_err_code [code]: "has_err ds = list_ex (\<lambda>d. case d of Err _ \<Rightarrow> True | _ \<Rightarrow> False) ds"
proof (induction ds)
  case (Cons d ds)
  then show ?case by (cases d) (auto simp: has_err_def)
qed (simp add: has_err_def)

definition issue :: "bool \<Rightarrow> diag \<Rightarrow> diag list" where
  "issue b d = (if b then [d] else [])"

lemma has_err_simps [simp]:
  "\<not> has_err []"
  "has_err (ds @ es) \<longleftrightarrow> has_err ds \<or> has_err es"
  "has_err (Err m # ds)"
  "has_err (Warn m # ds) \<longleftrightarrow> has_err ds"
  "has_err (Inform m # ds) \<longleftrightarrow> has_err ds"
  "has_err (issue b (Err m)) \<longleftrightarrow> b"
  "\<not> has_err (issue b (Warn m))"
  "\<not> has_err (issue b (Inform m))"
  by (auto simp: has_err_def issue_def)

lemma has_err_concat [simp]: "has_err (concat dss) \<longleftrightarrow> (\<exists>ds \<in> set dss. has_err ds)"
  by (induction dss) auto

text \<open>The host the daemon runs on (\<open>selfpreservation.go\<close>); an address has four or sixteen octets.\<close>

record LocalIdentity =
  li_Hostnames :: "string list"
  li_Addresses :: "octet list list"

text \<open>What the daemon supports.\<close>

record Registry =
  rg_Transports :: "string list"
  rg_Local :: "LocalIdentity option"
  rg_SourceTypes :: "string list"
  rg_Facts :: "string list"

text \<open>\<open>reg != nil && len(known) > 0 && !slices.Contains(known, x)\<close>.\<close>

definition unsupported :: "(Registry \<Rightarrow> string list) \<Rightarrow> Registry option \<Rightarrow> string \<Rightarrow> bool" where
  "unsupported known reg x \<longleftrightarrow>
     (case reg of None \<Rightarrow> False | Some r \<Rightarrow> known r \<noteq> [] \<and> x \<notin> set (known r))"

definition known_list :: "(Registry \<Rightarrow> string list) \<Rightarrow> Registry option \<Rightarrow> string list" where
  "known_list known reg = (case reg of None \<Rightarrow> [] | Some r \<Rightarrow> known r)"

section \<open>Durations, budgets\<close>

definition checkDuration :: "rt \<Rightarrow> string \<Rightarrow> dctx \<Rightarrow> diag list" where
  "checkDuration rt value context =
     (if TrimSpace value = [] then []
      else case ParseDuration rt value of
             None \<Rightarrow> [Err (DurationMsg (DurationInvalid context value))]
           | Some d \<Rightarrow> issue (d < 0) (Err (DurationMsg (DurationNegative context value))))"

definition minVerifiableBudget :: duration where
  "minVerifiableBudget = 90 * Second"

definition warnIfBudgetTooShortToVerify :: "rt \<Rightarrow> ClientConfig \<Rightarrow> diag list" where
  "warnIfBudgetTooShortToVerify rt c =
     (case Duration rt (cl_ShutdownBudget c) DefaultShutdownBudget of (budget, err) \<Rightarrow>
        if err \<or> budget \<le> 0 then []
        else issue (budget < minVerifiableBudget) (Warn (ClientMsg (BudgetTooShort (cl_Name c) budget))))"

section \<open>Sources and daemon settings\<close>

text \<open>The loop of \<open>validateSources\<close>; \<open>i\<close> is the index, \<open>names\<close> the names seen.\<close>

fun validate_sources :: "rt \<Rightarrow> Registry option \<Rightarrow> nat \<Rightarrow> string set \<Rightarrow> SourceConfig list \<Rightarrow> diag list" where
  "validate_sources rt reg i names [] = []"
| "validate_sources rt reg i names (s # ss) =
     (if sc_Name s = [] then [Err (SourceMsg (SourceNoName i))]
      else issue (sc_Name s \<in> names) (Err (SourceMsg (SourceDuplicate (sc_Name s))))) @
     (if sc_Type s = [] then [Err (SourceMsg (SourceNoType i (sc_Name s)))]
      else issue (unsupported rg_SourceTypes reg (sc_Type s))
             (Err (SourceMsg (SourceUnknownType i (sc_Name s) (sc_Type s) (known_list rg_SourceTypes reg)))) @
           issue (sc_PollInterval s \<noteq> [] \<and> ParseDuration rt (sc_PollInterval s) = None)
             (Err (SourceMsg (SourceBadPoll i (sc_Name s) (sc_PollInterval s))))) @
     validate_sources rt reg (Suc i) (insert (sc_Name s) names) ss"

definition validateSources :: "rt \<Rightarrow> Config \<Rightarrow> Registry option \<Rightarrow> diag list" where
  "validateSources rt cfg reg = validate_sources rt reg 0 {} (cf_Sources cfg)"

definition webhook_diags :: "(nat \<times> WebhookConfig) list \<Rightarrow> diag list" where
  "webhook_diags whs =
     concat (map (\<lambda>(i, wh). issue (TrimSpace (wh_URL wh) = []) (Err (DaemonMsg (WebhookNoURL i)))) whs)"

definition validateCanarium :: "rt \<Rightarrow> Config \<Rightarrow> diag list" where
  "validateCanarium rt cfg =
     (let c = cf_Canarium cfg; hash = TrimSpace (au_PasswordHash (ca_Auth c))
      in issue (ToLower (TrimSpace (ca_Mode c)) \<notin>
            {''disarmed'', ''dry-run'', ''dryrun'', ''dry_run'', ''armed''}) (Err (DaemonMsg (ModeInvalid (ca_Mode c)))) @
         issue (ca_Host c = []) (Err (DaemonMsg HostEmpty)) @
         issue (ca_DataDir c = []) (Err (DaemonMsg DataDirEmpty)) @
         (if ca_JournalRetain c = [] then []
          else checkDuration rt (ca_JournalRetain c) DctxCanarium @
               issue (ParseDuration rt (ca_JournalRetain c) = Some 0) (Warn (DaemonMsg RetainZero))) @
         (if hash = [] then [] else issue (\<not> HasPrefix hash ''$2'') (Err (DaemonMsg HashNotBcrypt)) @ [Inform (DaemonMsg HashSet)]) @
         issue (ca_ConfigReadonly c) (Inform (DaemonMsg ReadonlySet)) @
         webhook_diags (enumerate 0 (ca_Webhooks c)))"

section \<open>Clients\<close>

definition client_diags :: "rt \<Rightarrow> Registry option \<Rightarrow> ClientConfig \<Rightarrow> diag list" where
  "client_diags rt reg c =
     (if cl_Transport c = [] then [Err (ClientMsg (ClientNoTransport (cl_Name c)))]
      else issue (unsupported rg_Transports reg (cl_Transport c))
             (Err (ClientMsg (ClientUnknownTransport (cl_Name c) (cl_Transport c) (known_list rg_Transports reg))))) @
     (case cl_Wake c of None \<Rightarrow> []
      | Some w \<Rightarrow> issue (wc_Transport w \<noteq> [] \<and> unsupported rg_Transports reg (wc_Transport w))
          (Err (ClientMsg (ClientUnknownWakeTransport (cl_Name c) (wc_Transport w) (known_list rg_Transports reg))))) @
     issue (cl_CommsLossAssumes c \<notin> {[], CommsLossThreatened, CommsLossSafe})
       (Err (ClientMsg (ClientBadCommsLoss (cl_Name c) (cl_CommsLossAssumes c)))) @
     checkDuration rt (cl_ShutdownBudget c) (DctxClient (cl_Name c) ''shutdown_budget'') @
     warnIfBudgetTooShortToVerify rt c @
     checkDuration rt (cl_GuardPeriod c) (DctxClient (cl_Name c) ''guard_period'') @
     (case cl_Probe c of None \<Rightarrow> []
      | Some p \<Rightarrow> checkDuration rt (pr_Timeout p) (DctxClient (cl_Name c) ''probe.timeout'')) @
     issue (cl_FeedPolicy c \<notin> {''any'', ''all''}) (Err (ClientMsg (ClientBadFeedPolicy (cl_Name c) (cl_FeedPolicy c)))) @
     issue (cl_WakePolicy c \<notin> {''power_state'', ''retain_state''})
       (Err (ClientMsg (ClientBadWakePolicy (cl_Name c) (cl_WakePolicy c))))"

text \<open>The loop of \<open>validateClients\<close>: its diagnostics, the names, the dependencies put off.\<close>

fun validate_clients ::
  "rt \<Rightarrow> Registry option \<Rightarrow> string set \<Rightarrow> (string \<times> string list) list \<Rightarrow> ClientConfig list \<Rightarrow>
   diag list \<times> string set \<times> (string \<times> string list) list" where
  "validate_clients rt reg names deferred [] = ([], names, deferred)"
| "validate_clients rt reg names deferred (c # cs) =
     (if cl_Name c = [] then
        (case validate_clients rt reg names deferred cs of (ds, r) \<Rightarrow> (Err (ClientMsg ClientNoName) # ds, r))
      else
        (case validate_clients rt reg (insert (cl_Name c) names)
                (deferred @ [(cl_Name c, cl_DependsOn c)]) cs of
           (ds, r) \<Rightarrow>
             (issue (cl_Name c \<in> names) (Err (ClientMsg (ClientDuplicate (cl_Name c)))) @ client_diags rt reg c @ ds, r)))"

definition unknown_deps :: "string set \<Rightarrow> (string \<times> string list) list \<Rightarrow> diag list" where
  "unknown_deps names deferred =
     concat (map (\<lambda>(client, deps). concat (map (\<lambda>dep.
       issue (dep \<notin> names) (Err (ClientMsg (ClientUnknownDependency client dep)))) deps)) deferred)"

definition validateClients :: "rt \<Rightarrow> Config \<Rightarrow> Registry option \<Rightarrow> diag list" where
  "validateClients rt cfg reg =
     (case validate_clients rt reg {} [] (cf_Clients cfg) of
        (ds, names, deferred) \<Rightarrow> ds @ unknown_deps names deferred)"

section \<open>Conditions\<close>

definition cond_type :: "ConditionConfig \<Rightarrow> string" where
  "cond_type c =
     (let t = c_Condition c;
          t = (if t = [] \<and> c_Value c \<noteq> [] then ''template'' else t)
      in if t = [] \<and> c_Fact c \<noteq> [] then
           (if c_Above c \<noteq> None \<or> c_Below c \<noteq> None \<or> c_Equals c \<noteq> GNil then ''numeric'' else ''state'')
         else t)"

definition nearestFacts :: "string \<Rightarrow> string list \<Rightarrow> string list" where
  "nearestFacts unknown known =
     (let source = (case Cut unknown (CHR ''.'') of None \<Rightarrow> unknown | Some (a, _) \<Rightarrow> a);
          matches = filter (\<lambda>k. HasPrefix k (source @ ''.'')) known;
          matches = (if matches = [] then known else matches)
      in take 3 (sort_strings matches))"

definition leaf_diags :: "rt \<Rightarrow> ctx \<Rightarrow> ConditionConfig \<Rightarrow> diag list" where
  "leaf_diags rt context c =
     (let t = cond_type c
      in if t = ''numeric'' then
           issue (c_Fact c = []) (Err (CondMsg (NumericNoFact context))) @
           issue (c_Above c = None \<and> c_Below c = None \<and> c_Equals c = GNil) (Err (CondMsg (NumericNoBound context)))
         else if t = ''state'' then
           issue (c_Fact c = []) (Err (CondMsg (StateNoFact context))) @
           issue (c_Is c = [] \<and> c_IsNot c = [] \<and> c_In c = [] \<and> c_Contains c = []) (Err (CondMsg (StateNoTest context)))
         else if t \<in> {''and'', ''or''} then issue (c_Conditions c = []) (Err (CondMsg (NestedMissing context t)))
         else if t = ''not'' then issue (length (c_Conditions c) \<noteq> 1) (Err (CondMsg (NotOneNested context)))
         else if t = ''template'' then
           (if c_Value c = [] then [Err (CondMsg (TemplateNoValue context))]
            else issue (\<not> rt_ExprCompile rt (c_Value c)) (Err (CondMsg (TemplateInvalid context (c_Value c)))))
         else issue (t \<notin> {[], ''true'', ''false''}) (Warn (CondMsg (UnknownCondition context t))))"

text \<open>The conditions \<open>validateConditionConfig\<close> recurses into.\<close>

definition checked_kids :: "ConditionConfig \<Rightarrow> ConditionConfig list" where
  "checked_kids c =
     (if cond_type c \<in> {''and'', ''or''} then c_Conditions c
      else if cond_type c = ''not'' then take 1 (c_Conditions c) else [])"

definition common_diags :: "rt \<Rightarrow> Registry option \<Rightarrow> ctx \<Rightarrow> ConditionConfig \<Rightarrow> diag list" where
  "common_diags rt reg context c =
     (if c_For c = [] then []
      else case ParseDuration rt (c_For c) of
             None \<Rightarrow> [Err (CondMsg (ForInvalid context (c_For c)))]
           | Some d \<Rightarrow> issue (d < 0) (Err (CondMsg (ForNegative context)))) @
     issue (c_Fact c \<noteq> [] \<and> unsupported rg_Facts reg (c_Fact c))
       (Err (CondMsg (UnknownFact context (c_Fact c) (nearestFacts (c_Fact c) (known_list rg_Facts reg)))))"

lemma size_checked_kids: "(i, x) \<in> set (enumerate 0 (checked_kids c)) \<Longrightarrow> size x < size c"
proof -
  assume "(i, x) \<in> set (enumerate 0 (checked_kids c))"
  then have "x \<in> set (checked_kids c)" by (auto simp: in_set_enumerate_eq)
  then have "x \<in> set (c_Conditions c)"
    by (auto simp: checked_kids_def split: if_splits dest: in_set_takeD)
  then show ?thesis by (rule size_in_Conditions)
qed

function validateConditionConfig :: "rt \<Rightarrow> Registry option \<Rightarrow> ctx \<Rightarrow> ConditionConfig \<Rightarrow> diag list" where
  "validateConditionConfig rt reg context c =
     leaf_diags rt context c @
     concat (map (\<lambda>(i, x). validateConditionConfig rt reg (CtxKid context i) x)
       (enumerate 0 (checked_kids c))) @
     common_diags rt reg context c"
  by pat_completeness auto
termination
  by (relation "measure (\<lambda>(_, _, _, c). size c)") (auto dest: size_checked_kids)

declare validateConditionConfig.simps [simp del]

section \<open>Plans\<close>

definition waitTimeoutOrDefault :: "rt \<Rightarrow> string \<Rightarrow> duration + string" where
  "waitTimeoutOrDefault rt value =
     (case Duration rt value DefaultWaitTimeout of (d, err) \<Rightarrow> if err then Inr value else Inl d)"

definition validatePostShutdown :: "string \<Rightarrow> PostShutdownConfig option \<Rightarrow> diag list" where
  "validatePostShutdown plan ps =
     (case ps of
        None \<Rightarrow> []
      | Some ps \<Rightarrow>
          issue (ToLower (TrimSpace (ps_Action ps)) \<notin>
              {[], ''upscmd'', ''outlet_off'', ''load_off'', ''outlet_on'', ''load_on''})
            (Err (PostMsg (PostBadAction plan (ps_Action ps)))) @
          issue (TrimSpace (ps_Command ps) = []) (Err (PostMsg (PostNoCommand plan))) @
          issue (TrimSpace (ps_UPS ps) = []) (Err (PostMsg (PostNoUPS plan))) @
          issue (ps_Port ps < 0 \<or> ps_Port ps > 65535) (Err (PostMsg (PostPortRange plan (ps_Port ps)))) @
          issue (ps_Delay ps < 0) (Err (PostMsg (PostDelayNegative plan))) @
          issue ((ps_Username ps = []) \<noteq> (ps_Password ps = [])) (Err (PostMsg (PostHalfCredentials plan))) @
          issue (ps_Username ps = [] \<and> ps_Password ps = []) (Warn (PostMsg (PostNoCredentials plan))) @
          issue (TrimSpace (ps_Host ps) = []) (Inform (PostMsg (PostNoHost plan))))"

definition warnIfWakeGateMissing :: "PlanConfig \<Rightarrow> diag list" where
  "warnIfWakeGateMissing p = issue (IsZeroCondition (wk_Gate (pl_Wake p))) (Warn (PlanMsg (GateMissing (pl_Name p))))"

text \<open>The references of a stage: a tag nobody has is a warning, an unknown name an error.\<close>

definition ref_diags ::
  "Config \<Rightarrow> (string \<Rightarrow> plan_msg) \<Rightarrow> (string \<Rightarrow> plan_msg) \<Rightarrow> string list \<Rightarrow> diag list" where
  "ref_diags cfg tag_msg name_msg refs =
     concat (map (\<lambda>ref.
       if HasPrefix ref tag_prefix
       then issue (buildTagMap cfg (TrimPrefix ref tag_prefix) = None) (Warn (PlanMsg (tag_msg (TrimPrefix ref tag_prefix))))
       else issue (ref \<notin> buildClientNameSet cfg) (Err (PlanMsg (name_msg ref)))) refs)"

definition stage_diags :: "rt \<Rightarrow> Config \<Rightarrow> Registry option \<Rightarrow> string \<Rightarrow> nat \<times> StageConfig \<Rightarrow> diag list" where
  "stage_diags rt cfg reg plan = (\<lambda>(i, s).
     issue (sg_Name s = []) (Err (PlanMsg (StageNoName plan i))) @
     validateConditionConfig rt reg (CtxWhen plan (sg_Name s)) (sg_When s) @
     checkDuration rt (sg_Budget s) (DctxStage plan (sg_Name s) ''budget'') @
     checkDuration rt (sg_WaitTimeout s) (DctxStage plan (sg_Name s) ''wait_timeout'') @
     issue (sg_WaitPolicy s \<noteq> [] \<and> sg_WaitPolicy s \<notin> set ValidWaitPolicies)
       (Err (PlanMsg (StageBadWaitPolicy plan (sg_Name s) (sg_WaitPolicy s)))) @
     issue (sg_WaitPolicy s = WaitPolicySkip \<or> sg_WaitPolicy s = [])
       (Inform (PlanMsg (StageSkips plan (sg_Name s) (waitTimeoutOrDefault rt (sg_WaitTimeout s))))) @
     ref_diags cfg (StageTagEmpty plan (sg_Name s)) (StageUnknownClient plan (sg_Name s)) (sg_Clients s))"

definition wake_field :: "PlanWakeConfig \<Rightarrow> string \<Rightarrow> string" where
  "wake_field w f =
     (if f = ''wake.stagger'' then wk_Stagger w
      else if f = ''wake.probe_interval'' then wk_ProbeInterval w
      else if f = ''wake.boot_deadline'' then wk_BootDeadline w else [])"

text \<open>\<open>wfields\<close>: the order in which Go ranges over the map literal of the three wake durations.\<close>

definition plan_diags :: "rt \<Rightarrow> Config \<Rightarrow> Registry option \<Rightarrow> string list \<Rightarrow> PlanConfig \<Rightarrow> diag list" where
  "plan_diags rt cfg reg wfields p =
     validateConditionConfig rt reg (CtxTrigger (pl_Name p)) (pl_Trigger p) @
     (case pl_Abort p of None \<Rightarrow> [] | Some a \<Rightarrow> validateConditionConfig rt reg (CtxAbort (pl_Name p)) a) @
     concat (map (stage_diags rt cfg reg (pl_Name p)) (enumerate 0 (sh_Stages (pl_Shutdown p)))) @
     [Inform (PlanMsg (if list_ex sg_PointOfNoReturn (sh_Stages (pl_Shutdown p))
              then PonrMarked (pl_Name p) else PonrAbsent (pl_Name p)))] @
     validatePostShutdown (pl_Name p) (sh_PostShutdown (pl_Shutdown p)) @
     warnIfWakeGateMissing p @
     validateConditionConfig rt reg (CtxGate (pl_Name p)) (wk_Gate (pl_Wake p)) @
     concat (map (\<lambda>(i, s). ref_diags cfg (WakeStageTagEmpty (pl_Name p) i)
         (WakeStageUnknownClient (pl_Name p) i) (sg_Clients s)) (enumerate 0 (wk_Stages (pl_Wake p)))) @
     issue (wk_Retries (pl_Wake p) < 0) (Err (PlanMsg (RetriesNegative (pl_Name p)))) @
     concat (map (\<lambda>f. checkDuration rt (wake_field (pl_Wake p) f) (DctxWake (pl_Name p) f)) wfields)"

fun validate_plans ::
  "rt \<Rightarrow> Config \<Rightarrow> Registry option \<Rightarrow> string list \<Rightarrow> string set \<Rightarrow> PlanConfig list \<Rightarrow> diag list" where
  "validate_plans rt cfg reg wfields names [] = []"
| "validate_plans rt cfg reg wfields names (p # ps) =
     (if pl_Name p = [] then Err (PlanMsg PlanNoName) # validate_plans rt cfg reg wfields names ps
      else issue (pl_Name p \<in> names) (Err (PlanMsg (PlanDuplicate (pl_Name p)))) @
           plan_diags rt cfg reg wfields p @
           validate_plans rt cfg reg wfields (insert (pl_Name p) names) ps)"

definition validatePlans :: "rt \<Rightarrow> Config \<Rightarrow> Registry option \<Rightarrow> string list \<Rightarrow> diag list" where
  "validatePlans rt cfg reg wfields = validate_plans rt cfg reg wfields {} (cf_Plans cfg)"

section \<open>Dependencies\<close>

type_synonym graph = "string \<rightharpoonup> string list"

definition dep_graph :: "Config \<Rightarrow> graph" where
  "dep_graph cfg = foldl (\<lambda>g c. g(cl_Name c \<mapsto> cl_DependsOn c)) Map.empty (cf_Clients cfg)"

text \<open>A missing key of a Go map reads as its zero value.\<close>

definition deps :: "graph \<Rightarrow> string \<Rightarrow> string list" where
  "deps g n = (case g n of None \<Rightarrow> [] | Some ds \<Rightarrow> ds)"

record dfs_state =
  df_visited :: "string set"
  df_path :: "string set"
  df_diags :: "diag list"

text \<open>
  The closure \<open>hasCycle\<close> and its loop over the dependencies of a node. The fuel bounds the depth
  of the recursion: each level marks a node as visited that was not, so the number of nodes is
  enough (\<open>dfs_fuel_enough\<close>); with none left the answer is \<open>None\<close>.
\<close>

fun hasCycle :: "nat \<Rightarrow> graph \<Rightarrow> string \<Rightarrow> dfs_state \<Rightarrow> (bool \<times> dfs_state) option"
  and cycle_loop :: "nat \<Rightarrow> graph \<Rightarrow> string \<Rightarrow> string list \<Rightarrow> dfs_state \<Rightarrow> (bool \<times> dfs_state) option"
where
  "hasCycle 0 g node s = None"
| "hasCycle (Suc n) g node s =
     cycle_loop n g node (deps g node)
       (s\<lparr>df_visited := insert node (df_visited s), df_path := insert node (df_path s)\<rparr>)"
| "cycle_loop n g node [] s = Some (False, s\<lparr>df_path := df_path s - {node}\<rparr>)"
| "cycle_loop n g node (dep # ds) s =
     (if dep \<notin> df_visited s then
        (case hasCycle n g dep s of
           None \<Rightarrow> None
         | Some (True, s') \<Rightarrow> Some (True, s')
         | Some (False, s') \<Rightarrow> cycle_loop n g node ds s')
      else if dep \<in> df_path s then
        Some (True, s\<lparr>df_diags := df_diags s @ [Err (DepMsg (DependencyCycle node dep))]\<rparr>)
      else cycle_loop n g node ds s)"

text \<open>\<open>for name := range graph\<close>, in the order \<open>order\<close>.\<close>

fun cycle_search :: "nat \<Rightarrow> graph \<Rightarrow> string list \<Rightarrow> dfs_state \<Rightarrow> dfs_state option" where
  "cycle_search n g [] s = Some s"
| "cycle_search n g (name # order) s =
     (if name \<in> df_visited s then cycle_search n g order s
      else case hasCycle n g name s of
             None \<Rightarrow> None
           | Some (_, s') \<Rightarrow> cycle_search n g order s')"

definition graph_nodes :: "Config \<Rightarrow> string list" where
  "graph_nodes cfg = concat (map (\<lambda>c. cl_Name c # cl_DependsOn c) (cf_Clients cfg))"

definition cycle_diags :: "Config \<Rightarrow> string list \<Rightarrow> diag list" where
  "cycle_diags cfg order =
     (case cycle_search (Suc (length (graph_nodes cfg))) (dep_graph cfg) order
             \<lparr>df_visited = {}, df_path = {}, df_diags = []\<rparr> of
        None \<Rightarrow> []
      | Some s \<Rightarrow> df_diags s)"

text \<open>The stage of each client of a plan, with an error for a client that has two.\<close>

fun place :: "string \<Rightarrow> nat \<Rightarrow> string list \<Rightarrow> (string \<rightharpoonup> nat) \<Rightarrow> diag list \<times> (string \<rightharpoonup> nat)" where
  "place plan i [] m = ([], m)"
| "place plan i (name # names) m =
     (case place plan i names (m(name \<mapsto> i)) of (ds, m') \<Rightarrow>
        ((case m name of None \<Rightarrow> [] | Some prev \<Rightarrow> [Err (DepMsg (ClientInTwoStages plan name prev i))]) @ ds, m'))"

fun place_stages :: "Config \<Rightarrow> string \<Rightarrow> nat \<Rightarrow> StageConfig list \<Rightarrow> (string \<rightharpoonup> nat) \<Rightarrow> diag list \<times> (string \<rightharpoonup> nat)" where
  "place_stages cfg plan i [] m = ([], m)"
| "place_stages cfg plan i (s # ss) m =
     (case place plan i (ResolveClientRefs (sg_Clients s) cfg) m of (ds, m') \<Rightarrow>
        (case place_stages cfg plan (Suc i) ss m' of (es, m'') \<Rightarrow> (ds @ es, m'')))"

definition order_diags :: "PlanConfig \<Rightarrow> (string \<rightharpoonup> nat) \<Rightarrow> ClientConfig \<Rightarrow> diag list" where
  "order_diags p stageClients c =
     (case stageClients (cl_Name c) of
        None \<Rightarrow> []
      | Some clientStage \<Rightarrow>
          concat (map (\<lambda>dep. case stageClients dep of
              None \<Rightarrow> []
            | Some depStage \<Rightarrow>
                issue (clientStage = depStage) (Err (DepMsg (DependencySameStage (pl_Name p) (cl_Name c) dep
                    (sg_Name (sh_Stages (pl_Shutdown p) ! clientStage))))) @
                issue (clientStage > depStage)
                  (Err (DepMsg (DependencyBeforeDependent (pl_Name p) (cl_Name c) clientStage dep depStage))))
            (cl_DependsOn c)) @
          concat (map (\<lambda>after. case stageClients after of
              None \<Rightarrow> []
            | Some afterStage \<Rightarrow>
                issue (clientStage < afterStage)
                  (Warn (DepMsg (AfterContradicted (pl_Name p) (cl_Name c) clientStage after afterStage))))
            (cl_After c)))"

definition stage_order_diags :: "Config \<Rightarrow> PlanConfig \<Rightarrow> diag list" where
  "stage_order_diags cfg p =
     (case place_stages cfg (pl_Name p) 0 (sh_Stages (pl_Shutdown p)) Map.empty of
        (ds, stageClients) \<Rightarrow> ds @ concat (map (order_diags p stageClients) (cf_Clients cfg)))"

definition validateDependencies :: "Config \<Rightarrow> string list \<Rightarrow> diag list" where
  "validateDependencies cfg order =
     cycle_diags cfg order @ concat (map (stage_order_diags cfg) (cf_Plans cfg))"

end
