(* ===== verification/Condition_Safety.thy ===== *)
theory Condition_Safety
  imports Explain
begin

text \<open>
  What the evaluation of conditions promises to the engine: the read-only account agrees with the
  real evaluation, a fact that is lost never decides anything, a \<open>for:\<close> requirement means
  "continuously true for", and a restart credits no time the daemon did not observe.
\<close>

section \<open>Explain and Evaluate\<close>

text \<open>
  C27. What \<open>Explain\<close> reports as the result of a condition is what \<open>Evaluate\<close>, called by the
  policy loop at the same instant, returns.
\<close>

theorem Explain_predicts_Evaluate:
  assumes "collision_free rt S" and "c \<in> S" and "ev_inv rt ev"
  shows "ex_Result (fst (Explain rt st now c ev)) = Trilean_String (fst (Evaluate rt st now c ev))"
  using Explain_sem_all(1) [OF assms(3)] Evaluate_sem [OF assms] by simp

text \<open>
  \<open>Explain\<close> changes no timer and writes nothing to the dwell store.
\<close>

theorem Explain_read_only:
  "ev_dwell (snd (Explain rt st now c ev)) = ev_dwell ev \<and>
   ev_store (snd (Explain rt st now c ev)) = ev_store ev"
  by (simp add: Explain_frame)

section \<open>Lost facts decide nothing\<close>

function template_free :: "ConditionConfig \<Rightarrow> bool" where
  "template_free c \<longleftrightarrow> inferConditionType c \<noteq> ''template'' \<and> list_all template_free (c_Conditions c)"
  by pat_completeness auto
termination
  by (relation "measure size") (auto intro: size_in_Conditions)

declare template_free.simps [simp del]

text \<open>\<open>st'\<close> knows no fact that \<open>st\<close> does not know: some of them became stale or unknown.\<close>

definition lost :: "Store \<Rightarrow> Store \<Rightarrow> bool" where
  "lost st st' \<longleftrightarrow> (\<forall>k. FactValue st' k = GNil \<or> FactValue st' k = FactValue st k)"

definition tri_le :: "Trilean \<Rightarrow> Trilean \<Rightarrow> bool" where
  "tri_le a b \<longleftrightarrow> a = Unavailable \<or> a = b"

lemma tri_le_refl [simp]: "tri_le a a"
  by (simp add: tri_le_def)

lemma tri_le_ops:
  "tri_le a b \<Longrightarrow> tri_le c d \<Longrightarrow> tri_le (TriAnd a c) (TriAnd b d)"
  "tri_le a b \<Longrightarrow> tri_le c d \<Longrightarrow> tri_le (TriOr a c) (TriOr b d)"
  "tri_le a b \<Longrightarrow> tri_le (TriNot a) (TriNot b)"
  by (auto simp: tri_le_def TriAnd_def TriOr_def)

lemma tri_le_foldl:
  assumes "\<And>a b c d. tri_le a b \<Longrightarrow> tri_le c d \<Longrightarrow> tri_le (f a c) (f b d)"
    and "list_all2 tri_le xs ys"
  shows "tri_le a b \<Longrightarrow> tri_le (foldl f a xs) (foldl f b ys)"
  using assms(2) by (induction xs ys arbitrary: a b rule: list_all2_induct) (auto intro: assms(1))

lemma usable_FactValue:
  "Store_Get st k = (v, q, t) \<Longrightarrow> usable q v \<longleftrightarrow> FactValue st k \<noteq> GNil"
  "Store_Get st k = (v, q, t) \<Longrightarrow> usable q v \<Longrightarrow> FactValue st k = v"
  by (auto simp: usable_def FactValue_def)

lemma lost_same:
  assumes "lost st st'" and "FactValue st' k \<noteq> GNil"
    and g: "Store_Get st k = (v, q, t)" "Store_Get st' k = (v', q', t')"
  shows "usable q v" and "usable q' v'" and "v' = v"
proof -
  have "FactValue st' k = FactValue st k" using assms(1,2) by (auto simp: lost_def)
  with assms(2) g show "usable q v" "usable q' v'" "v' = v" using usable_FactValue by metis+
qed

lemma evaluateNumeric_lost:
  assumes "lost st st'"
  shows "tri_le (evaluateNumeric st' c) (evaluateNumeric st c)"
proof (cases "FactValue st' (c_Fact c) = GNil")
  case True
  then show ?thesis
    by (auto simp: evaluateNumeric_def tri_le_def usable_FactValue split: prod.splits)
next
  case False
  obtain v q t v' q' t' where g: "Store_Get st (c_Fact c) = (v, q, t)"
      "Store_Get st' (c_Fact c) = (v', q', t')" by (metis prod_cases3)
  from lost_same [OF assms False g] show ?thesis by (simp add: evaluateNumeric_def g)
qed

lemma evaluateState_lost:
  assumes "lost st st'"
  shows "tri_le (evaluateState rt st' c) (evaluateState rt st c)"
proof (cases "FactValue st' (c_Fact c) = GNil")
  case True
  then show ?thesis
    by (auto simp: evaluateState_def tri_le_def usable_FactValue split: prod.splits)
next
  case False
  obtain v q t v' q' t' where g: "Store_Get st (c_Fact c) = (v, q, t)"
      "Store_Get st' (c_Fact c) = (v', q', t')" by (metis prod_cases3)
  from lost_same [OF assms False g] show ?thesis by (simp add: evaluateState_def g)
qed

lemma leaf_lost:
  assumes "lost st st'" and "inferConditionType c \<noteq> ''template''"
  shows "tri_le (leaf_val rt st' now c) (leaf_val rt st now c)"
  using evaluateNumeric_lost [OF assms(1), of c] evaluateState_lost [OF assms(1), of rt c] assms(2)
  by (simp add: leaf_val_def evaluate_leaf_def Let_def)

lemma dwell_view_mono: "tri_le r r' \<Longrightarrow> tri_le (dwell_view rt now D c r) (dwell_view rt now D c r')"
  by (auto simp: tri_le_def dwell_view_def split: option.splits)

lemma inst_lost:
  assumes st: "lost st st'" and c: "template_free c"
    and IH: "\<And>x. x \<in> set (c_Conditions c) \<Longrightarrow> tri_le (sem rt st' now D x) (sem rt st now D x)"
  shows "tri_le (inst rt st' now D c) (inst rt st now D c)"
proof -
  have kids: "list_all2 tri_le (map (sem rt st' now D) (c_Conditions c)) (map (sem rt st now D) (c_Conditions c))"
    using IH by (simp add: list.rel_map list.rel_refl_strong)
  have "inferConditionType c \<noteq> ''template''"
    using c by (simp add: template_free.simps [of c])
  moreover have "tri_le (foldl TriAnd TTrue (map (sem rt st' now D) (c_Conditions c)))
      (foldl TriAnd TTrue (map (sem rt st now D) (c_Conditions c)))"
    and "tri_le (foldl TriOr TFalse (map (sem rt st' now D) (c_Conditions c)))
      (foldl TriOr TFalse (map (sem rt st now D) (c_Conditions c)))"
    by (rule tri_le_foldl [OF _ kids], erule (1) tri_le_ops, simp)+
  moreover have "c_Conditions c = x # xs \<Longrightarrow> tri_le (TriNot (sem rt st' now D x)) (TriNot (sem rt st now D x))"
    for x xs using IH by (simp add: tri_le_ops)
  ultimately show ?thesis
    using leaf_lost [OF st] by (auto simp: inst_def split: list.split)
qed

lemma sem_lost:
  assumes "lost st st'" and "template_free c"
  shows "tri_le (sem rt st' now D c) (sem rt st now D c)"
  using assms(2)
proof (induction "size c" arbitrary: c rule: less_induct)
  case less
  have "tri_le (inst rt st' now D c) (inst rt st now D c)"
  proof (rule inst_lost [OF assms(1) less.prems])
    fix x
    assume x: "x \<in> set (c_Conditions c)"
    then have "template_free x"
      using less.prems by (simp add: template_free.simps [of c] list_all_iff)
    with x show "tri_le (sem rt st' now D x) (sem rt st now D x)"
      by (intro less.hyps size_in_Conditions)
  qed
  then show ?case by (simp add: sem_inst dwell_view_mono)
qed

text \<open>
  C26. Losing contact with sources decides nothing: if some facts become stale or unknown, a
  condition without templates either becomes unavailable or keeps the value it had. So a trigger,
  gate or abort condition that a loss of facts makes true was true before the loss.
\<close>

theorem lost_facts_decide_nothing:
  assumes "collision_free rt S" and "c \<in> S" and "ev_inv rt ev"
    and "lost st st'" and "template_free c"
    and "fst (Evaluate rt st' now c ev) \<noteq> Unavailable"
  shows "fst (Evaluate rt st' now c ev) = fst (Evaluate rt st now c ev)"
  using sem_lost [OF assms(4,5), of rt now "ev_dwell ev"] assms(6)
  by (simp add: Evaluate_sem [OF assms(1-3)] tri_le_def)

text \<open>
  A template that asks \<open>fact()\<close> for a stale, unknown or undeclared fact is unavailable,
  whatever the expression makes of the nil it got.
\<close>

theorem template_with_lost_fact_unavailable:
  assumes "inferConditionType c = ''template''" and "c_For c = []"
    and "rt_ExprRun rt (c_Value c) (buildExprEnv st now) = (r, asked)"
    and "k \<in> set asked" and "FactValue st k = GNil"
  shows "fst (Evaluate rt st now c ev) = Unavailable"
  using assms
  by (auto simp: Evaluate.simps evaluateInner.simps apply_for_def evaluate_leaf_def
      evaluateTemplate_def evaluateExpr_def Let_def split: prod.splits option.splits bool.splits)

text \<open>
  A numeric condition is true for a not-a-number reading, whatever its bounds: a source that
  reports NaN satisfies \<open>above\<close> and \<open>below\<close> at once.
\<close>

theorem nan_satisfies_every_bound:
  assumes "Store_Get st (c_Fact c) = (GFloat64 NaN, QualityGood, t)" and "c_Equals c = GNil"
  shows "evaluateNumeric st c = TTrue"
proof -
  have "\<not> f_le NaN x" and "\<not> f_le x NaN" for x by (cases x; simp)+
  with assms show ?thesis by (simp add: evaluateNumeric_def usable_def split: option.splits)
qed

section \<open>A dwell requirement means continuously true\<close>

text \<open>
  The observations of one condition: at each instant its value before the requirement. The
  answers are those of \<open>applyDwell\<close>.
\<close>

fun dwell_run ::
  "rt \<Rightarrow> ConditionConfig \<Rightarrow> duration \<Rightarrow> (instant \<times> Trilean) list \<Rightarrow> Evaluator \<Rightarrow> Trilean list \<times> Evaluator" where
  "dwell_run rt c d [] ev = ([], ev)"
| "dwell_run rt c d ((now, r) # obs) ev =
     (case applyDwell rt c r d now ev of (v, ev') \<Rightarrow>
        (case dwell_run rt c d obs ev' of (vs, ev'') \<Rightarrow> (v # vs, ev'')))"

text \<open>Since when the observations have been true without a break.\<close>

definition true_step :: "instant option \<Rightarrow> instant \<times> Trilean \<Rightarrow> instant option" where
  "true_step s o' = (if snd o' = TTrue then (case s of None \<Rightarrow> Some (fst o') | Some t \<Rightarrow> Some t) else None)"

definition timer_shows :: "rt \<Rightarrow> ConditionConfig \<Rightarrow> Evaluator \<Rightarrow> instant option \<Rightarrow> bool" where
  "timer_shows rt c ev s \<longleftrightarrow>
     (case ev_dwell ev (rt_Digest rt c) of
        None \<Rightarrow> s = None
      | Some t \<Rightarrow> t_StartedAt t = s \<and> t_Credited t = 0)"

lemma timer_shows_step:
  assumes "timer_shows rt c ev s" and "applyDwell rt c r d now ev = (v, ev')"
  shows "timer_shows rt c ev' (true_step s (now, r)) \<and>
    (v = TTrue \<longleftrightarrow> (\<exists>t. true_step s (now, r) = Some t \<and> max 0 (now - t) \<ge> d))"
proof (cases "r = TTrue")
  case False
  with applyDwell_false [OF False, of rt c d now ev] assms show ?thesis
    by (auto simp: timer_shows_def true_step_def)
next
  case True
  from applyDwell_true [of rt c d now ev] assms(2) True
  obtain p where v: "v = (if credit (ev_dwell ev) (rt_Digest rt c) now \<ge> d then TTrue else TFalse)"
    and e: "ev_dwell ev' = (ev_dwell ev)(rt_Digest rt c \<mapsto> (started now (touched rt c d now ev))
      \<lparr>t_Satisfied := (credit (ev_dwell ev) (rt_Digest rt c) now \<ge> d), t_lastPersisted := p\<rparr>)"
    by auto
  have "credit (ev_dwell ev) (rt_Digest rt c) now =
      (case s of None \<Rightarrow> 0 | Some t \<Rightarrow> max 0 (now - t))"
    using assms(1)
    by (auto simp: timer_shows_def credit_def Elapsed_def Let_def max_def split: option.splits)
  moreover have "t_StartedAt (started now (touched rt c d now ev)) = true_step s (now, r)"
    and "t_Credited (started now (touched rt c d now ev)) = 0"
    using assms(1) True
    by (auto simp: timer_shows_def started_def touched_def fresh_tracker_def true_step_def
        split: option.splits)
  ultimately show ?thesis
    using v True by (auto simp: timer_shows_def e true_step_def split: option.splits)
qed

lemma dwell_run_shows:
  "timer_shows rt c ev s \<Longrightarrow> timer_shows rt c (snd (dwell_run rt c d obs ev)) (foldl true_step s obs)"
proof (induction obs arbitrary: ev s)
  case Nil
  then show ?case by simp
next
  case (Cons o' obs)
  obtain now r where o': "o' = (now, r)" by force
  obtain v ev' where a: "applyDwell rt c r d now ev = (v, ev')" by force
  have "timer_shows rt c ev' (true_step s (now, r))"
    using timer_shows_step [OF Cons.prems a] by blast
  from Cons.IH [OF this] show ?case
    by (cases "dwell_run rt c d obs ev'") (simp add: o' a)
qed

lemma dwell_run_snoc:
  "dwell_run rt c d (obs @ [(now, r)]) ev =
     (case dwell_run rt c d obs ev of (vs, ev') \<Rightarrow>
        (case applyDwell rt c r d now ev' of (v, ev'') \<Rightarrow> (vs @ [v], ev'')))"
  by (induction rt c d obs ev rule: dwell_run.induct) (auto split: prod.splits)

lemma true_suffix_start:
  "\<forall>o' \<in> set post. snd o' = TTrue \<Longrightarrow> post \<noteq> [] \<Longrightarrow>
   foldl true_step s post = Some (case s of None \<Rightarrow> fst (hd post) | Some t \<Rightarrow> t)"
proof (induction post arbitrary: s)
  case Nil
  then show ?case by simp
next
  case (Cons o' post)
  then show ?case
    by (cases "post = []") (auto simp: true_step_def split: option.splits)
qed

lemma true_since_suffix:
  "foldl true_step None obs = Some t \<Longrightarrow>
   \<exists>pre post. obs = pre @ post \<and> post \<noteq> [] \<and> fst (hd post) = t \<and> (\<forall>o' \<in> set post. snd o' = TTrue)"
proof (induction obs arbitrary: t rule: rev_induct)
  case Nil
  then show ?case by simp
next
  case (snoc o' obs)
  then have o': "snd o' = TTrue" by (simp add: true_step_def split: if_splits)
  show ?case
  proof (cases "foldl true_step None obs")
    case None
    with snoc.prems have "true_step None o' = Some t" by simp
    with o' have "obs @ [o'] = obs @ [o'] \<and> [o'] \<noteq> [] \<and> fst (hd [o']) = t \<and>
        (\<forall>x \<in> set [o']. snd x = TTrue)" by (simp add: true_step_def)
    then show ?thesis by blast
  next
    case (Some s)
    with snoc.prems have "true_step (Some s) o' = Some t" by simp
    with o' have s: "s = t" by (simp add: true_step_def)
    from snoc.IH [OF Some] obtain pre post where p: "obs = pre @ post" "post \<noteq> []"
        "fst (hd post) = s" "\<forall>o' \<in> set post. snd o' = TTrue" by blast
    then have "obs @ [o'] = pre @ (post @ [o']) \<and> post @ [o'] \<noteq> [] \<and> fst (hd (post @ [o'])) = t \<and>
        (\<forall>x \<in> set (post @ [o']). snd x = TTrue)" using o' s by auto
    then show ?thesis by blast
  qed
qed

text \<open>
  C25. A condition with \<open>for: d\<close> that had no timer answers true at an observation exactly when it
  has been observed true at every observation of a stretch that ends there and lasts at least
  \<open>d\<close>: a single observation that is false or unavailable starts the wait again.
\<close>

theorem dwell_true_iff_continuously_true:
  assumes "0 < d" and "ev_dwell ev (rt_Digest rt c) = None"
    and times: "sorted (map fst (obs @ [(now, r)]))"
  shows "last (fst (dwell_run rt c d (obs @ [(now, r)]) ev)) = TTrue \<longleftrightarrow>
    (\<exists>pre post. obs @ [(now, r)] = pre @ post \<and> post \<noteq> [] \<and> (\<forall>x \<in> set post. snd x = TTrue) \<and>
       now - fst (hd post) \<ge> d)" (is "?L \<longleftrightarrow> ?R")
proof -
  let ?obs = "obs @ [(now, r)]"
  obtain vs ev1 where run: "dwell_run rt c d obs ev = (vs, ev1)" by force
  obtain v ev2 where app: "applyDwell rt c r d now ev1 = (v, ev2)" by force
  have "timer_shows rt c ev None" using assms(2) by (simp add: timer_shows_def)
  from dwell_run_shows [OF this, of d obs] have "timer_shows rt c ev1 (foldl true_step None obs)"
    by (simp add: run)
  from timer_shows_step [OF this app]
  have L: "?L \<longleftrightarrow> (\<exists>t. foldl true_step None ?obs = Some t \<and> max 0 (now - t) \<ge> d)"
    by (simp add: dwell_run_snoc run app)
  show ?thesis
  proof
    assume ?L
    then obtain t where t: "foldl true_step None ?obs = Some t" "max 0 (now - t) \<ge> d" using L by blast
    from true_since_suffix [OF t(1)] obtain pre post where "?obs = pre @ post" "post \<noteq> []"
        "fst (hd post) = t" "\<forall>x \<in> set post. snd x = TTrue" by blast
    with t(2) \<open>0 < d\<close> show ?R by (intro exI [of _ pre] exI [of _ post]) simp
  next
    assume ?R
    then obtain pre post where p: "?obs = pre @ post" "post \<noteq> []" "\<forall>x \<in> set post. snd x = TTrue"
        "now - fst (hd post) \<ge> d" by blast
    obtain t where t: "foldl true_step None ?obs = Some t"
        "t = (case foldl true_step None pre of None \<Rightarrow> fst (hd post) | Some s \<Rightarrow> s)"
      using true_suffix_start [OF p(3,2)] unfolding p(1) by simp
    have "t \<le> fst (hd post)"
    proof (cases "foldl true_step None pre")
      case None
      with t show ?thesis by simp
    next
      case (Some s)
      from true_since_suffix [OF this] have "s \<in> fst ` set pre"
        by (metis UnCI hd_in_set imageI set_append)
      moreover have "\<forall>a \<in> fst ` set pre. a \<le> fst (hd post)"
        using times p(2) unfolding p(1) by (auto simp: sorted_append)
      ultimately show ?thesis using Some t(2) by auto
    qed
    with t p(4) show ?L unfolding L by auto
  qed
qed

section \<open>A restart\<close>

text \<open>Observations of several conditions, each with its value and its requirement.\<close>

fun observe :: "rt \<Rightarrow> (ConditionConfig \<times> Trilean \<times> duration \<times> instant) list \<Rightarrow> Evaluator \<Rightarrow> Evaluator" where
  "observe rt [] ev = ev"
| "observe rt ((c, r, d, now) # os) ev = observe rt os (snd (applyDwell rt c r d now ev))"

text \<open>The progress a table holds for a timer.\<close>

definition saved :: "dwell_table \<Rightarrow> string \<Rightarrow> duration" where
  "saved tbl k = (case tbl k of None \<Rightarrow> 0 | Some row \<Rightarrow> row_elapsed_ns row)"

text \<open>
  The table is at most one persisting interval behind the timer: what it holds is the credit of
  the timer at \<open>t_lastPersisted\<close>.
\<close>

definition saved_for :: "instant \<Rightarrow> dwell_table \<Rightarrow> string \<Rightarrow> DwellTracker \<Rightarrow> bool" where
  "saved_for T tbl k t \<longleftrightarrow>
     (case t_lastPersisted t of None \<Rightarrow> True | Some p \<Rightarrow> p \<le> T) \<and>
     (case t_StartedAt t of
        None \<Rightarrow> saved tbl k = t_Credited t
      | Some s \<Rightarrow> (\<exists>p l. t_lastPersisted t = Some p \<and> t_LastSeen t = Some l \<and> s \<le> l \<and> p \<le> l \<and> l \<le> T \<and>
          l - p < dwellPersistInterval \<and> saved tbl k = t_Credited t + max 0 (p - s)))"

definition durable :: "instant \<Rightarrow> Evaluator \<Rightarrow> bool" where
  "durable T ev \<longleftrightarrow> ev_faults ev = [] \<and>
     (\<exists>tbl. ev_store ev = Some tbl \<and>
        (\<forall>k. case ev_dwell ev k of None \<Rightarrow> saved tbl k = 0 | Some t \<Rightarrow> saved_for T tbl k t))"

lemma saved_Save [simp]:
  "saved (SaveDwellTracker k r tbl) k' = (if k' = k then r_ElapsedNS r else saved tbl k')"
  by (simp add: saved_def SaveDwellTracker_def)

lemma saved_for_Save_other [simp]:
  "k' \<noteq> k \<Longrightarrow> saved_for T (SaveDwellTracker k r tbl) k' t = saved_for T tbl k' t"
  by (simp add: saved_for_def cong: option.case_cong)

lemma saved_for_later: "saved_for T tbl k t \<Longrightarrow> T \<le> T' \<Longrightarrow> saved_for T' tbl k t"
  by (fastforce simp: saved_for_def split: option.splits)

lemma durableI:
  assumes "ev_faults ev = []" and "ev_store ev = Some tbl"
    and "\<And>k. ev_dwell ev k = None \<Longrightarrow> saved tbl k = 0"
    and "\<And>k t. ev_dwell ev k = Some t \<Longrightarrow> saved_for T tbl k t"
  shows "durable T ev"
  using assms by (simp add: durable_def split: option.splits)

lemma durableD:
  assumes "durable T ev" and "ev_store ev = Some tbl"
  shows "ev_faults ev = []" and "ev_dwell ev k = None \<Longrightarrow> saved tbl k = 0"
    and "ev_dwell ev k = Some t \<Longrightarrow> saved_for T tbl k t"
  using assms unfolding durable_def by (simp, metis option.simps(4,5) option.inject)+

lemma durable_put:
  assumes "durable T ev" and "ev_store ev = Some tbl" and "T \<le> now" and "saved_for now tbl k t"
  shows "durable now (ev\<lparr>ev_dwell := (ev_dwell ev)(k \<mapsto> t)\<rparr>)"
  using assms durableD [OF assms(1,2)]
  by (intro durableI [of _ tbl]) (auto intro: saved_for_later split: if_splits)

lemma durable_persist:
  assumes "durable T ev" and "ev_store ev = Some tbl" and "T \<le> now"
    and "saved_for now (SaveDwellTracker k (dwell_record t) tbl) k (t\<lparr>t_lastPersisted := t_LastSeen t\<rparr>)"
  shows "durable now (persistLocked k t ev)"
  using assms durableD [OF assms(1,2)]
  by (intro durableI [of _ "SaveDwellTracker k (dwell_record t) tbl"])
    (auto simp: persistLocked_def store_write_def Let_def intro: saved_for_later split: if_splits)

lemma dwell_record_at:
  "t_LastSeen t = Some now \<Longrightarrow> r_ElapsedNS (dwell_record t) = Elapsed t now"
  by (simp add: dwell_record_def basis_instant_def lastPersistBasis_def)

lemma persisted_saved_for:
  assumes "t_LastSeen t = Some now" and "\<forall>s. t_StartedAt t = Some s \<longrightarrow> s \<le> now"
  shows "saved_for now (SaveDwellTracker k (dwell_record t) tbl) k (t\<lparr>t_lastPersisted := t_LastSeen t\<rparr>)"
  using assms
  by (auto simp: saved_for_def dwell_record_at Elapsed_def Let_def dwellPersistInterval_def max_def
      split: option.splits)

lemma applyDwell_durable:
  assumes dur: "durable T ev" and "T \<le> now"
  shows "durable now (snd (applyDwell rt c r d now ev))"
proof -
  let ?k = "rt_Digest rt c"
  obtain tbl where tbl: "ev_store ev = Some tbl" using dur by (auto simp: durable_def)
  define t where "t = (case ev_dwell ev ?k of None \<Rightarrow> fresh_tracker d | Some t \<Rightarrow> t)"
  have t: "saved_for T tbl ?k t"
  proof (cases "ev_dwell ev ?k")
    case None
    then show ?thesis using durableD(2) [OF dur tbl] by (simp add: t_def saved_for_def fresh_tracker_def)
  next
    case (Some t')
    then show ?thesis using durableD(3) [OF dur tbl] by (simp add: t_def)
  qed
  define u where "u = t\<lparr>t_Required := d, t_LastSeen := Some now\<rparr>"
  note put = durable_put [OF dur tbl \<open>T \<le> now\<close>] and persist = durable_persist [OF dur tbl \<open>T \<le> now\<close>]
  show ?thesis
  proof (cases "r = TTrue")
    case False
    let ?u = "u\<lparr>t_StartedAt := None, t_Credited := 0, t_Satisfied := False\<rparr>"
    have "durable now (persistLocked ?k ?u ev)"
      by (rule persist, rule persisted_saved_for) (simp_all add: u_def)
    moreover have "t_StartedAt t = None \<Longrightarrow> t_Credited t = 0 \<Longrightarrow>
        durable now (ev\<lparr>ev_dwell := (ev_dwell ev)(?k \<mapsto> ?u)\<rparr>)"
      using t \<open>T \<le> now\<close> by (intro put) (auto simp: u_def saved_for_def split: option.splits)
    ultimately show ?thesis using False
      by (simp add: applyDwell_def Let_def flip: t_def u_def)
  next
    case True
    define w where "w = (if t_StartedAt u = None then u\<lparr>t_StartedAt := Some now\<rparr> else u)"
    have w: "t_LastSeen w = Some now" "\<exists>s. t_StartedAt w = Some s \<and> s \<le> now"
      "t_lastPersisted w = t_lastPersisted t" "t_Credited w = t_Credited t"
      using t \<open>T \<le> now\<close> by (auto simp: w_def u_def saved_for_def split: option.splits)
    have per: "durable now (persistLocked ?k (w\<lparr>t_Satisfied := b\<rparr>) ev)" for b
      using w by (intro persist persisted_saved_for) auto
    have keep: "durable now (ev\<lparr>ev_dwell := (ev_dwell ev)(?k \<mapsto> w)\<rparr>)"
      if "t_lastPersisted w = Some p" and "now - p < dwellPersistInterval" for p
    proof (rule put, cases "t_StartedAt t")
      case None
      then show "saved_for now tbl ?k w"
        using t that \<open>T \<le> now\<close> by (simp add: w_def u_def saved_for_def)
    next
      case (Some s)
      then show "saved_for now tbl ?k w"
        using t that \<open>T \<le> now\<close> by (auto simp: w_def u_def saved_for_def)
    qed
    have "durable now (persistThrottledLocked ?k w now ev)"
      using per [of "t_Satisfied w"] keep w(2) tbl
      by (auto simp: persistThrottledLocked_def split: option.splits)
    with per have "durable now (if (Elapsed w now \<ge> d) \<noteq> t_Satisfied w
        then persistLocked ?k (w\<lparr>t_Satisfied := (Elapsed w now \<ge> d)\<rparr>) ev
        else persistThrottledLocked ?k w now ev)" by simp
    with True show ?thesis unfolding applyDwell_def Let_def t_def u_def w_def by (simp only: if_False snd_conv refl not_True_eq_False)
  qed
qed

lemma observe_durable:
  assumes "durable T ev" and "sorted (T # map (\<lambda>(c, r, d, now). now) os)"
  shows "durable (last (T # map (\<lambda>(c, r, d, now). now) os)) (observe rt os ev)"
  using assms
proof (induction rt os ev arbitrary: T rule: observe.induct)
  case (2 rt c r d now os ev)
  then have "durable now (snd (applyDwell rt c r d now ev))" by (intro applyDwell_durable) auto
  with 2 show ?case by (auto split: if_splits)
qed simp

lemma restored_durable: "durable T (SetDwellStore tbl NewEvaluator)"
  by (auto simp: durable_def SetDwellStore_def NewEvaluator_def LoadDwellTrackers_def saved_def
      saved_for_def Let_def split: option.splits)

text \<open>
  A restart credits no time that was not observed and loses less than one persisting interval:
  a daemon that restores its timers, observes conditions at non-decreasing instants with a working
  database and is stopped, restores every timer with a credit that is at most the one it had at its
  last observation and less than thirty seconds short of it, however long it was down.
\<close>

theorem restart_credit:
  assumes "sorted (map (\<lambda>(c, r, d, now). now) os)"
    and ev: "ev = observe rt os (SetDwellStore tbl NewEvaluator)"
    and "ev_dwell ev k = Some t" and "t_LastSeen t = Some l" and "ev_store ev = Some tbl'"
  shows "\<forall>later. credit (ev_dwell (SetDwellStore tbl' NewEvaluator)) k later \<le> Elapsed t l \<and>
    Elapsed t l - credit (ev_dwell (SetDwellStore tbl' NewEvaluator)) k later < dwellPersistInterval"
proof -
  define T where "T = (case os of [] \<Rightarrow> 0 | (c, r, d, now) # _ \<Rightarrow> now)"
  have "sorted (T # map (\<lambda>(c, r, d, now). now) os)"
    using assms(1) by (cases os) (auto simp: T_def)
  from observe_durable [OF restored_durable this, of rt tbl]
  obtain T' where "saved_for T' tbl' k t"
    using assms durableD(3) by metis
  moreover have "credit (ev_dwell (SetDwellStore tbl' NewEvaluator)) k later = saved tbl' k" for later
    by (simp add: credit_def SetDwellStore_def NewEvaluator_def LoadDwellTrackers_def saved_def
        Elapsed_def Let_def split: option.splits)
  ultimately show ?thesis using assms(4)
    by (auto simp: saved_for_def Elapsed_def Let_def dwellPersistInterval_def max_def split: option.splits if_splits)
qed

end
