(* ===== verification/Validation_Correct.thy ===== *)
theory Validation_Correct
  imports Validation Condition_Safety
begin

text \<open>
  What a configuration without errors is known to have: an acyclic dependency graph (and a cycle
  is reported in every order Go may range over the map), stages that shut a dependency down after
  its dependents, conditions that decide once their facts are known, and references that resolve.
\<close>

section \<open>The search for cycles\<close>

definition edges :: "graph \<Rightarrow> (string \<times> string) set" where
  "edges g = {(x, y). y \<in> set (deps g x)}"

definition black :: "dfs_state \<Rightarrow> string set" where
  "black s = df_visited s - df_path s"

text \<open>The nodes that are finished point to finished nodes only, and lie on no cycle.\<close>

definition dfs_inv :: "graph \<Rightarrow> dfs_state \<Rightarrow> bool" where
  "dfs_inv g s \<longleftrightarrow> df_path s \<subseteq> df_visited s \<and>
     (\<forall>x \<in> black s. set (deps g x) \<subseteq> black s) \<and> acyclic (edges g \<inter> black s \<times> UNIV)"

lemma acyclic_add_source:
  assumes "acyclic R" and "R \<subseteq> B \<times> B" and "n \<notin> B" and "D \<subseteq> B"
  shows "acyclic (R \<union> {n} \<times> D)"
proof -
  have "(x, y) \<in> R\<^sup>+ \<or> (x = n \<and> y \<in> B)" if "(x, y) \<in> (R \<union> {n} \<times> D)\<^sup>+" for x y
    using that
  proof (induction rule: trancl_induct)
    case (base y)
    then show ?case using assms(4) by auto
  next
    case (step y z)
    have "y \<in> B" using step.IH trancl_subset_Sigma [OF assms(2)] assms(4) by blast
    with step assms(2,3) show ?case by (auto intro: trancl_into_trancl)
  qed
  with assms(1,3) show ?thesis unfolding acyclic_def by blast
qed

lemma dfs_inv_finish:
  assumes inv: "dfs_inv g s" and "node \<in> df_visited s" and "node \<in> df_path s"
    and "set (deps g node) \<subseteq> black s"
  shows "dfs_inv g (s\<lparr>df_path := df_path s - {node}\<rparr>)"
proof -
  have b: "black (s\<lparr>df_path := df_path s - {node}\<rparr>) = insert node (black s)"
    using assms(2) by (auto simp: black_def)
  have "edges g \<inter> insert node (black s) \<times> UNIV =
      (edges g \<inter> black s \<times> UNIV) \<union> {node} \<times> set (deps g node)"
    by (auto simp: edges_def)
  moreover have "acyclic ((edges g \<inter> black s \<times> UNIV) \<union> {node} \<times> set (deps g node))"
    using inv assms(3,4)
    by (intro acyclic_add_source [of _ "black s"]) (auto simp: dfs_inv_def black_def edges_def)
  ultimately show ?thesis
    using inv assms(4) by (auto simp: dfs_inv_def b)
qed

lemma dfs_inv_start:
  assumes "dfs_inv g s" and "node \<notin> df_visited s"
  shows "dfs_inv g (s\<lparr>df_visited := insert node (df_visited s), df_path := insert node (df_path s)\<rparr>)"
proof -
  have "black (s\<lparr>df_visited := insert node (df_visited s), df_path := insert node (df_path s)\<rparr>) = black s"
    using assms by (auto simp: black_def dfs_inv_def)
  with assms show ?thesis by (auto simp: dfs_inv_def)
qed

definition dfs_answer :: "graph \<Rightarrow> string \<Rightarrow> dfs_state \<Rightarrow> bool \<Rightarrow> dfs_state \<Rightarrow> string set \<Rightarrow> bool" where
  "dfs_answer g node s b s' path \<longleftrightarrow>
     (if b then \<not> acyclic (edges g) \<and> has_err (df_diags s')
      else dfs_inv g s' \<and> df_path s' = path \<and> df_diags s' = df_diags s \<and>
           insert node (df_visited s) \<subseteq> df_visited s')"

lemma back_edge_cycle:
  "(dep, node) \<in> (edges g)\<^sup>* \<Longrightarrow> dep \<in> set (deps g node) \<Longrightarrow> \<not> acyclic (edges g)"
  by (auto simp: acyclic_def edges_def intro: rtrancl_into_trancl1)

lemma dfs_correct:
  "dfs_inv g s \<Longrightarrow> node \<notin> df_visited s \<Longrightarrow> \<forall>p \<in> df_path s. (p, node) \<in> (edges g)\<^sup>* \<Longrightarrow>
   hasCycle n g node s = Some (b, s') \<Longrightarrow> dfs_answer g node s b s' (df_path s)"
  "dfs_inv g s \<Longrightarrow> node \<in> df_visited s \<Longrightarrow> node \<in> df_path s \<Longrightarrow> \<forall>p \<in> df_path s. (p, node) \<in> (edges g)\<^sup>* \<Longrightarrow>
   set ds \<subseteq> set (deps g node) \<Longrightarrow> set (deps g node) \<subseteq> set ds \<union> black s \<Longrightarrow>
   cycle_loop n g node ds s = Some (b, s') \<Longrightarrow> dfs_answer g node s b s' (df_path s - {node})"
proof (induction n g node s and n g node ds s arbitrary: b s' and b s' rule: hasCycle_cycle_loop.induct)
  case (1 g node s)
  then show ?case by simp
next
  case (2 n g node s)
  let ?s = "s\<lparr>df_visited := insert node (df_visited s), df_path := insert node (df_path s)\<rparr>"
  have "df_path s \<subseteq> df_visited s" using 2 by (simp add: dfs_inv_def)
  then have p: "insert node (df_path s) - {node} = df_path s" using 2 by auto
  have "dfs_answer g node ?s b s' (df_path ?s - {node})"
    using 2 by (intro "2.IH") (auto intro: dfs_inv_start)
  then show ?case by (auto simp: dfs_answer_def p split: if_splits)
next
  case (3 n g node s)
  then show ?case by (auto simp: dfs_answer_def dfs_inv_finish)
next
  case (4 n g node dep ds s)
  have e: "(node, dep) \<in> edges g" using "4.prems"(5) by (auto simp: edges_def)
  show ?case
  proof (cases "dep \<in> df_visited s")
    case False
    with "4.prems"(7) obtain b1 s1 where h: "hasCycle n g dep s = Some (b1, s1)"
      by (auto split: option.splits)
    have a: "dfs_answer g dep s b1 s1 (df_path s)"
      using 4 False h e by (intro "4.IH"(1)) (auto intro: rtrancl_into_rtrancl)
    show ?thesis
    proof (cases b1)
      case True
      with "4.prems"(7) False h a show ?thesis by (simp add: dfs_answer_def)
    next
      case b1: False
      have "dep \<in> black s1" and "black s \<subseteq> black s1"
        using a b1 False "4.prems"(1) by (auto simp: dfs_answer_def black_def dfs_inv_def)
      moreover have s1: "dfs_inv g s1" "df_path s1 = df_path s" "df_visited s \<subseteq> df_visited s1"
        using a b1 by (simp_all add: dfs_answer_def)
      moreover have "cycle_loop n g node ds s1 = Some (b, s')" using "4.prems"(7) False h b1 by simp
      ultimately have "dfs_answer g node s1 b s' (df_path s1 - {node})"
        using "4.prems" by (intro "4.IH"(2) [OF False h]) (use b1 in auto)
      with a b1 show ?thesis by (auto simp: dfs_answer_def split: if_splits)
    qed
  next
    case vis: True
    show ?thesis
    proof (cases "dep \<in> df_path s")
      case True
      then have "\<not> acyclic (edges g)" using "4.prems"(4,5) back_edge_cycle by auto
      with "4.prems"(7) vis True show ?thesis by (auto simp: dfs_answer_def)
    next
      case False
      with vis have "dep \<in> black s" by (simp add: black_def)
      with 4 vis False show ?thesis by (intro "4.IH"(3)) auto
    qed
  qed
qed

lemma visits:
  "hasCycle n g node s = Some (b, s') \<Longrightarrow> insert node (df_visited s) \<subseteq> df_visited s'"
  "cycle_loop n g node ds s = Some (b, s') \<Longrightarrow> df_visited s \<subseteq> df_visited s'"
  by (induction n g node s and n g node ds s arbitrary: b s' and b s' rule: hasCycle_cycle_loop.induct)
    (fastforce split: if_splits option.splits prod.splits bool.splits)+

lemma dfs_total:
  "finite U \<Longrightarrow> \<forall>x \<in> U. set (deps g x) \<subseteq> U \<Longrightarrow> node \<in> U \<Longrightarrow> node \<notin> df_visited s \<Longrightarrow>
   card (U - df_visited s) \<le> n \<Longrightarrow>
   \<exists>b s'. hasCycle n g node s = Some (b, s') \<and> df_visited s \<subseteq> df_visited s' \<and> set (df_diags s) \<subseteq> set (df_diags s')"
  "finite U \<Longrightarrow> \<forall>x \<in> U. set (deps g x) \<subseteq> U \<Longrightarrow> set ds \<subseteq> U \<Longrightarrow> card (U - df_visited s) \<le> n \<Longrightarrow>
   \<exists>b s'. cycle_loop n g node ds s = Some (b, s') \<and> df_visited s \<subseteq> df_visited s' \<and> set (df_diags s) \<subseteq> set (df_diags s')"
proof (induction n g node s and n g node ds s rule: hasCycle_cycle_loop.induct)
  case (1 g node s)
  then show ?case by auto
next
  case (2 n g node s)
  have "card (U - insert node (df_visited s)) < card (U - df_visited s)"
    using 2 by (intro psubset_card_mono) auto
  with 2 show ?case by fastforce
next
  case (3 n g node s)
  then show ?case by auto
next
  case (4 n g node dep ds s)
  show ?case
  proof (cases "dep \<in> df_visited s")
    case False
    then obtain b1 s1 where h: "hasCycle n g dep s = Some (b1, s1)" "df_visited s \<subseteq> df_visited s1"
        "set (df_diags s) \<subseteq> set (df_diags s1)"
      using 4 by fastforce
    show ?thesis
    proof (cases b1)
      case True
      with False h show ?thesis by auto
    next
      case b1: False
      have "card (U - df_visited s1) \<le> card (U - df_visited s)"
        using h "4.prems"(1) by (intro card_mono) auto
      then have "\<exists>b s'. cycle_loop n g node ds s1 = Some (b, s') \<and> df_visited s1 \<subseteq> df_visited s' \<and>
          set (df_diags s1) \<subseteq> set (df_diags s')"
        using "4.prems" by (intro "4.IH"(2) [OF False h(1)]) (use b1 in auto)
      with False h b1 show ?thesis by fastforce
    qed
  next
    case True
    with 4 show ?thesis by (cases "dep \<in> df_path s") auto
  qed
qed

lemma dep_fold_Some:
  "foldl (\<lambda>g c. g(cl_Name c \<mapsto> cl_DependsOn c)) g0 cs n = Some ds \<Longrightarrow>
   g0 n = Some ds \<or> (\<exists>c \<in> set cs. cl_Name c = n \<and> cl_DependsOn c = ds)"
  by (induction cs arbitrary: g0) (fastforce split: if_splits)+

lemma dep_fold_dom:
  "dom (foldl (\<lambda>g c. g(cl_Name c \<mapsto> cl_DependsOn c)) g0 cs) = dom g0 \<union> cl_Name ` set cs"
  by (induction cs arbitrary: g0) auto

lemma dep_graph_dom: "dom (dep_graph cfg) = cl_Name ` set (cf_Clients cfg)"
  by (simp add: dep_graph_def dep_fold_dom)

lemma dep_graph_Some: "dep_graph cfg n = Some ds \<Longrightarrow> \<exists>c \<in> set (cf_Clients cfg). cl_Name c = n \<and> cl_DependsOn c = ds"
  unfolding dep_graph_def by (auto dest: dep_fold_Some)

lemma deps_in_nodes: "set (deps (dep_graph cfg) x) \<subseteq> set (graph_nodes cfg)"
proof (cases "dep_graph cfg x")
  case None
  then show ?thesis by (simp add: deps_def)
next
  case (Some ds)
  from dep_graph_Some [OF this] Some show ?thesis by (fastforce simp: deps_def graph_nodes_def)
qed

text \<open>A search so far: it has found a cycle and said so, or every node it visited is finished.\<close>

definition search_inv :: "graph \<Rightarrow> dfs_state \<Rightarrow> bool" where
  "search_inv g s \<longleftrightarrow> (\<not> acyclic (edges g) \<and> has_err (df_diags s)) \<or>
     (dfs_inv g s \<and> df_path s = {} \<and> df_diags s = [])"

lemma has_err_mono: "set ds \<subseteq> set es \<Longrightarrow> has_err ds \<Longrightarrow> has_err es"
  by (auto simp: has_err_def)

lemma search_step:
  assumes "search_inv g s" and "name \<notin> df_visited s"
    and h: "hasCycle n g name s = Some (b, s')" and m: "set (df_diags s) \<subseteq> set (df_diags s')"
    and v: "df_visited s \<subseteq> df_visited s'"
  shows "search_inv g s'"
proof (cases "\<not> acyclic (edges g) \<and> has_err (df_diags s)")
  case True
  with m show ?thesis by (auto simp: search_inv_def intro: has_err_mono)
next
  case False
  then have s: "dfs_inv g s" "df_path s = {}" "df_diags s = []" using assms(1) by (auto simp: search_inv_def)
  have "dfs_answer g name s b s' (df_path s)" using s h assms(2) by (intro dfs_correct(1)) auto
  with s show ?thesis by (auto simp: search_inv_def dfs_answer_def split: if_splits)
qed

lemma search_correct:
  assumes "finite U" and "\<forall>x \<in> U. set (deps g x) \<subseteq> U" and "card U < n"
  shows "set order \<subseteq> U \<Longrightarrow> search_inv g s \<Longrightarrow>
    \<exists>s'. cycle_search n g order s = Some s' \<and> search_inv g s' \<and> df_visited s \<subseteq> df_visited s' \<and>
      (df_diags s' = [] \<longrightarrow> set order \<subseteq> df_visited s')"
proof (induction order arbitrary: s)
  case Nil
  then show ?case by auto
next
  case (Cons name order)
  show ?case
  proof (cases "name \<in> df_visited s")
    case True
    with Cons show ?thesis by fastforce
  next
    case False
    have "card (U - df_visited s) \<le> n" using assms by (meson Diff_subset card_mono le_trans less_imp_le)
    with dfs_total(1) [OF assms(1,2) _ False] Cons.prems obtain b s1 where
      h: "hasCycle n g name s = Some (b, s1)" "df_visited s \<subseteq> df_visited s1" "set (df_diags s) \<subseteq> set (df_diags s1)"
      by (metis list.set_intros(1) subsetD)
    have i: "search_inv g s1" by (rule search_step [OF Cons.prems(2) False h(1,3,2)])
    from Cons.IH [OF _ i] Cons.prems obtain s' where s': "cycle_search n g order s1 = Some s'" "search_inv g s'"
      "df_visited s1 \<subseteq> df_visited s'" "df_diags s' = [] \<longrightarrow> set order \<subseteq> df_visited s'"
      by auto
    have "name \<in> df_visited s1"
      using visits(1) [OF h(1)] by blast
    with s' h False show ?thesis by (intro exI [of _ s']) auto
  qed
qed

lemma only_cycle_diags:
  "hasCycle n g node s = Some (b, s') \<Longrightarrow> set (df_diags s') \<subseteq> set (df_diags s) \<union> {Err (DepMsg (DependencyCycle x y)) | x y. True}"
  "cycle_loop n g node ds s = Some (b, s') \<Longrightarrow> set (df_diags s') \<subseteq> set (df_diags s) \<union> {Err (DepMsg (DependencyCycle x y)) | x y. True}"
  by (induction n g node s and n g node ds s arbitrary: b s' and b s' rule: hasCycle_cycle_loop.induct)
    (fastforce split: if_splits option.splits prod.splits bool.splits)+

lemma only_cycle_search:
  "cycle_search n g order s = Some s' \<Longrightarrow>
   set (df_diags s') \<subseteq> set (df_diags s) \<union> {Err (DepMsg (DependencyCycle x y)) | x y. True}"
  by (induction n g order s rule: cycle_search.induct)
    (fastforce split: if_splits option.splits prod.splits dest: only_cycle_diags)+

lemma no_other_cycle_diags: "Err (DepMsg (DependencyCycle x y)) \<notin> set (stage_order_diags cfg p)"
proof -
  have "Err (DepMsg (DependencyCycle x y)) \<notin> set (fst (place plan i names m))" for plan i names m
    by (induction plan i names m rule: place.induct)
      (simp_all add: case_prod_beta del: fun_upd_apply split: option.split)
  then have "Err (DepMsg (DependencyCycle x y)) \<notin> set (fst (place_stages cfg plan i ss m))" for plan i ss m
    by (induction ss arbitrary: i m) (simp_all add: case_prod_beta)
  then have "place_stages cfg plan i ss m = (ds, m') \<Longrightarrow> Err (DepMsg (DependencyCycle x y)) \<notin> set ds" for plan i ss m ds m'
    by (metis fst_conv)
  moreover have "Err (DepMsg (DependencyCycle x y)) \<notin> set (order_diags p m c)" for m c
    by (auto simp: order_diags_def issue_def split: option.splits if_splits)
  ultimately show ?thesis
    by (cases "place_stages cfg (pl_Name p) 0 (sh_Stages (pl_Shutdown p)) Map.empty")
      (simp add: stage_order_diags_def)
qed

text \<open>
  C29. A cycle of \<open>depends_on\<close> is reported exactly when there is one, whatever the order in which Go
  ranges over the map of clients, although a search that has found a cycle leaves its path marked.
\<close>

theorem dependency_cycle_reported_iff:
  assumes "set order = set (map cl_Name (cf_Clients cfg))"
  shows "(\<exists>x y. Err (DepMsg (DependencyCycle x y)) \<in> set (validateDependencies cfg order)) \<longleftrightarrow>
    \<not> acyclic {(a, b). b \<in> set (deps (dep_graph cfg) a)}"
proof -
  let ?s0 = "\<lparr>df_visited = {}, df_path = {}, df_diags = []\<rparr>"
  have "search_inv (dep_graph cfg) ?s0"
    by (simp add: search_inv_def dfs_inv_def black_def acyclic_def)
  moreover have "set order \<subseteq> set (graph_nodes cfg)" using assms by (auto simp: graph_nodes_def)
  ultimately obtain s where s: "cycle_search (Suc (length (graph_nodes cfg))) (dep_graph cfg) order ?s0 = Some s"
      "search_inv (dep_graph cfg) s" "df_diags s = [] \<Longrightarrow> set order \<subseteq> df_visited s"
    using search_correct [of "set (graph_nodes cfg)" "dep_graph cfg" "Suc (length (graph_nodes cfg))"]
      deps_in_nodes by (metis List.finite_set card_length le_imp_less_Suc)
  have cyc: "df_diags s \<noteq> [] \<longleftrightarrow> \<not> acyclic (edges (dep_graph cfg))"
  proof
    assume "df_diags s \<noteq> []"
    then show "\<not> acyclic (edges (dep_graph cfg))" using s(2) by (auto simp: search_inv_def)
  next
    assume cyclic: "\<not> acyclic (edges (dep_graph cfg))"
    show "df_diags s \<noteq> []"
    proof
      assume e: "df_diags s = []"
      then have inv: "acyclic (edges (dep_graph cfg) \<inter> df_visited s \<times> UNIV)"
        using s(2) by (auto simp: search_inv_def dfs_inv_def black_def)
      have "edges (dep_graph cfg) \<subseteq> df_visited s \<times> UNIV"
        using s(3) [OF e] assms dep_graph_dom [of cfg]
        by (auto simp: edges_def deps_def split: option.splits) (metis domI subsetD)
      with inv cyclic show False by (simp add: inf_absorb1)
    qed
  qed
  have "(\<exists>x y. Err (DepMsg (DependencyCycle x y)) \<in> set (df_diags s)) \<longleftrightarrow> df_diags s \<noteq> []"
    using only_cycle_search [OF s(1)] by (cases "df_diags s") auto
  with cyc show ?thesis
    by (auto simp: validateDependencies_def cycle_diags_def s(1) no_other_cycle_diags edges_def)
qed

section \<open>The order of the stages\<close>

lemma place_no_err:
  assumes "place plan i names m = (ds, m')" and "\<not> has_err ds"
  shows "m' = (\<lambda>n. if n \<in> set names then Some i else m n) \<and> distinct names \<and> (\<forall>n \<in> set names. m n = None)"
  using assms
  by (induction plan i names m arbitrary: ds rule: place.induct)
    (fastforce split: prod.splits option.splits if_splits)+

definition in_stage :: "Config \<Rightarrow> StageConfig list \<Rightarrow> nat \<Rightarrow> string \<Rightarrow> bool" where
  "in_stage cfg ss i name \<longleftrightarrow> i < length ss \<and> name \<in> set (ResolveClientRefs (sg_Clients (ss ! i)) cfg)"

lemma in_stage_Cons:
  "in_stage cfg (s # ss) i name \<longleftrightarrow>
     (i = 0 \<and> name \<in> set (ResolveClientRefs (sg_Clients s) cfg)) \<or> (\<exists>j. i = Suc j \<and> in_stage cfg ss j name)"
  by (cases i) (auto simp: in_stage_def)

lemma place_stages_no_err:
  assumes "place_stages cfg plan k ss m = (ds, m')" and "\<not> has_err ds"
  shows "(\<forall>n i. in_stage cfg ss i n \<longrightarrow> m' n = Some (k + i) \<and> m n = None) \<and>
    (\<forall>n. m n \<noteq> None \<longrightarrow> m' n = m n)"
  using assms
proof (induction cfg plan k ss m arbitrary: ds rule: place_stages.induct)
  case (1 cfg plan i m)
  then show ?case by (simp add: in_stage_def)
next
  case (2 cfg plan k s ss m)
  obtain ds1 m1 where p1: "place plan k (ResolveClientRefs (sg_Clients s) cfg) m = (ds1, m1)" by force
  obtain ds2 m2 where p2: "place_stages cfg plan (Suc k) ss m1 = (ds2, m2)" by force
  have ok: "\<not> has_err ds1" "\<not> has_err ds2" "m2 = m'" using "2.prems" by (auto simp: p1 p2)
  note m1 = place_no_err [OF p1 ok(1)]
  from "2.IH" [OF p1 [symmetric]] p2 ok(2,3) show ?case
    using m1 by (fastforce simp: in_stage_Cons split: if_splits)
qed

lemma accepted_stages:
  assumes ok: "\<not> has_err (validateDependencies cfg order)" and "p \<in> set (cf_Plans cfg)"
    and ss: "ss = sh_Stages (pl_Shutdown p)"
  shows "(\<forall>name i j. in_stage cfg ss i name \<and> in_stage cfg ss j name \<longrightarrow> i = j) \<and>
    (\<forall>c \<in> set (cf_Clients cfg). \<forall>dep \<in> set (cl_DependsOn c). \<forall>i j.
       in_stage cfg ss i (cl_Name c) \<and> in_stage cfg ss j dep \<longrightarrow> i < j)"
proof -
  obtain ds m where pl: "place_stages cfg (pl_Name p) 0 ss Map.empty = (ds, m)" by force
  have no: "\<not> has_err ds" "\<forall>c \<in> set (cf_Clients cfg). \<not> has_err (order_diags p m c)"
    using ok assms(2) pl by (auto simp: validateDependencies_def stage_order_diags_def ss)
  have st: "in_stage cfg ss i n \<Longrightarrow> m n = Some i" for i n using place_stages_no_err [OF pl no(1)] by simp
  have "i < j" if "c \<in> set (cf_Clients cfg)" "dep \<in> set (cl_DependsOn c)"
      "in_stage cfg ss i (cl_Name c)" "in_stage cfg ss j dep" for c dep i j
    using no(2) that(1,2) st [OF that(3)] st [OF that(4)] by (fastforce simp: order_diags_def)
  moreover have "i = j" if "in_stage cfg ss i n" "in_stage cfg ss j n" for n i j
    using st [OF that(1)] st [OF that(2)] by simp
  ultimately show ?thesis by blast
qed

text \<open>
  C30. In a configuration whose dependencies are accepted, every plan shuts a client down in one
  stage at most, and a client strictly before everything it depends on.
\<close>

theorem validated_stages_respect_dependencies:
  assumes ok: "\<not> has_err (validateDependencies cfg order)" and "p \<in> set (cf_Plans cfg)"
    and ss: "ss = sh_Stages (pl_Shutdown p)"
  shows "(\<forall>name i j. in_stage cfg ss i name \<and> in_stage cfg ss j name \<longrightarrow> i = j) \<and>
    (\<forall>c \<in> set (cf_Clients cfg). \<forall>dep \<in> set (cl_DependsOn c). \<forall>i j.
       in_stage cfg ss i (cl_Name c) \<and> in_stage cfg ss j dep \<longrightarrow> i < j)"
  using accepted_stages [OF assms] .

section \<open>Conditions that decide\<close>

text \<open>
  The leaves \<open>validateConditionConfig\<close> accepts: a literal, a numeric test of a number against
  numeric bounds, a test of a state that is printable, and no \<open>for\<close> that cannot be read.
\<close>

lemma cond_type_infer:
  "cond_type c = (if inferConditionType c = ''true'' \<and> c_Condition c = [] then [] else inferConditionType c)"
  by (auto simp: cond_type_def inferConditionType_def Let_def)

text \<open>The facts a condition asks for are good, and those of a numeric test are numbers.\<close>

function facts_known :: "Store \<Rightarrow> ConditionConfig \<Rightarrow> bool" where
  "facts_known st c \<longleftrightarrow>
     (inferConditionType c = ''numeric'' \<longrightarrow>
        toFloat64 (FactValue st (c_Fact c)) \<noteq> None \<and> (c_Equals c \<noteq> GNil \<longrightarrow> toFloat64 (c_Equals c) \<noteq> None)) \<and>
     (inferConditionType c = ''state'' \<longrightarrow>
        (if c_Contains c = [] then FactValue st (c_Fact c) \<noteq> GNil
         else case FactValue st (c_Fact c) of GStrings _ \<Rightarrow> True | GAnys _ \<Rightarrow> True | GString _ \<Rightarrow> True | _ \<Rightarrow> False)) \<and>
     list_all (facts_known st) (c_Conditions c)"
  by pat_completeness auto
termination
  by (relation "measure (\<lambda>(_, c). size c)") (auto intro: size_in_Conditions)

declare facts_known.simps [simp del]

definition no_warn :: "diag list \<Rightarrow> bool" where
  "no_warn ds \<longleftrightarrow> (\<forall>m. Warn m \<notin> set ds)"

lemma no_warn_code [code]: "no_warn ds = (\<not> list_ex (\<lambda>d. case d of Warn _ \<Rightarrow> True | _ \<Rightarrow> False) ds)"
proof (induction ds)
  case (Cons d ds)
  then show ?case by (cases d) (auto simp: no_warn_def)
qed (simp add: no_warn_def)

lemma no_warn_simps [simp]:
  "no_warn []"
  "no_warn (ds @ es) \<longleftrightarrow> no_warn ds \<and> no_warn es"
  "no_warn (issue b (Err m))"
  "no_warn (issue b (Warn m)) \<longleftrightarrow> \<not> b"
  "no_warn (concat dss) \<longleftrightarrow> (\<forall>ds \<in> set dss. no_warn ds)"
  by (auto simp: no_warn_def issue_def)

lemma toFloat64_usable:
  "toFloat64 (FactValue st k) = Some x \<Longrightarrow> \<exists>v t. Store_Get st k = (v, QualityGood, t) \<and> v \<noteq> GNil \<and> toFloat64 v = Some x"
  by (cases "Store_Get st k") (auto simp: FactValue_def split: if_splits)

lemma FactValue_usable:
  "FactValue st k \<noteq> GNil \<Longrightarrow> \<exists>t. Store_Get st k = (FactValue st k, QualityGood, t)"
  by (cases "Store_Get st k") (auto simp: FactValue_def split: if_splits)

lemma numeric_decides:
  assumes "toFloat64 (FactValue st (c_Fact c)) \<noteq> None"
    and "c_Equals c \<noteq> GNil \<longrightarrow> toFloat64 (c_Equals c) \<noteq> None"
  shows "evaluateNumeric st c \<noteq> Unavailable"
proof -
  obtain x where x: "toFloat64 (FactValue st (c_Fact c)) = Some x" using assms(1) by blast
  from toFloat64_usable [OF this] obtain v t where
    "Store_Get st (c_Fact c) = (v, QualityGood, t)" "v \<noteq> GNil" "toFloat64 v = Some x" by blast
  with assms(2) show ?thesis
    by (cases "c_Equals c = GNil") (auto simp: evaluateNumeric_def usable_def split: option.split)
qed

lemma state_decides:
  assumes "if c_Contains c = [] then FactValue st (c_Fact c) \<noteq> GNil
      else case FactValue st (c_Fact c) of GStrings _ \<Rightarrow> True | GAnys _ \<Rightarrow> True | GString _ \<Rightarrow> True | _ \<Rightarrow> False"
    and "\<not> (c_Is c = [] \<and> c_IsNot c = [] \<and> c_In c = [] \<and> c_Contains c = [])"
  shows "evaluateState rt st c \<noteq> Unavailable"
proof -
  have v: "FactValue st (c_Fact c) \<noteq> GNil" using assms(1) by (auto split: if_splits goval.splits)
  from FactValue_usable [OF this] obtain t where
    "Store_Get st (c_Fact c) = (FactValue st (c_Fact c), QualityGood, t)" by blast
  note get = this
  show ?thesis
  proof (cases "c_Contains c = []")
    case True
    then show ?thesis using get v assms(2) by (simp add: evaluateState_def usable_def BoolToTrilean_def Let_def)
  next
    case False
    then show ?thesis using get v assms(1)
      by (cases "FactValue st (c_Fact c)") (simp_all add: evaluateState_def usable_def BoolToTrilean_def)
  qed
qed

lemma foldl_TriAnd_known: "Unavailable \<notin> set vs \<Longrightarrow> a \<noteq> Unavailable \<Longrightarrow> foldl TriAnd a vs \<noteq> Unavailable"
  by (induction vs arbitrary: a) (auto simp: TriAnd_def)

lemma foldl_TriOr_known: "Unavailable \<notin> set vs \<Longrightarrow> a \<noteq> Unavailable \<Longrightarrow> foldl TriOr a vs \<noteq> Unavailable"
  by (induction vs arbitrary: a) (auto simp: TriOr_def)

lemma dwell_view_known: "r \<noteq> Unavailable \<Longrightarrow> dwell_view rt now D c r \<noteq> Unavailable"
  by (auto simp: dwell_view_def split: option.splits)

lemma infer_nonempty: "inferConditionType c \<noteq> []"
  by (simp add: inferConditionType_def)

lemma TriNot_known: "TriNot v = Unavailable \<longleftrightarrow> v = Unavailable"
  by (cases v) auto

lemma sem_decides:
  assumes "\<not> has_err (validateConditionConfig rt reg cx c)"
    and "no_warn (validateConditionConfig rt reg cx c)"
    and "template_free c" and "facts_known st c"
  shows "sem rt st now D c \<noteq> Unavailable"
  using assms
proof (induction "size c" arbitrary: c cx rule: less_induct)
  case less
  note v = less.prems(1,2) [unfolded validateConditionConfig.simps [of rt reg cx c]]
  note k = less.prems(4) [unfolded facts_known.simps [of st c]]
  have kids: "sem rt st now D x \<noteq> Unavailable" if x: "x \<in> set (checked_kids c)" for x
  proof -
    obtain i where "i < length (checked_kids c)" "checked_kids c ! i = x"
      using x by (auto simp: in_set_conv_nth)
    then have i: "(i, x) \<in> set (enumerate 0 (checked_kids c))" by (auto simp: in_set_enumerate_eq)
    have "x \<in> set (c_Conditions c)"
      using x by (auto simp: checked_kids_def split: if_splits dest: in_set_takeD)
    then have "template_free x" and "facts_known st x"
      using less.prems(3,4) by (auto simp: template_free.simps [of c] facts_known.simps [of st c] list_all_iff)
    then show ?thesis using v i by (intro less.hyps [of _ "CtxKid cx i"] size_checked_kids [OF i]) auto
  qed
  have lf: "\<not> has_err (leaf_diags rt cx c)" "no_warn (leaf_diags rt cx c)" using v by auto
  have "inst rt st now D c \<noteq> Unavailable"
  proof (cases "inferConditionType c \<in> {''and'', ''or'', ''not''}")
    case True
    then consider (logic) "inferConditionType c \<in> {''and'', ''or''}" | (neg) "inferConditionType c = ''not''"
      by blast
    then show ?thesis
    proof cases
      case logic
      then have "Unavailable \<notin> set (map (sem rt st now D) (c_Conditions c))"
        using kids by (fastforce simp: checked_kids_def cond_type_infer)
      then show ?thesis using logic foldl_TriAnd_known foldl_TriOr_known by (auto simp: inst_def)
    next
      case neg
      then show ?thesis using kids lf
        by (auto simp: inst_def leaf_diags_def checked_kids_def cond_type_infer Let_def TriNot_known split: list.splits)
    qed
  next
    case False
    then have "inst rt st now D c = leaf_val rt st now c" by (auto simp: inst_def)
    moreover have "inferConditionType c \<noteq> ''template''"
      using less.prems(3) by (simp add: template_free.simps [of c])
    ultimately show ?thesis using False lf k infer_nonempty [of c] numeric_decides [of st c] state_decides [of c st rt]
      by (auto simp: leaf_val_def evaluate_leaf_def leaf_diags_def cond_type_infer Let_def split: if_splits)
  qed
  then show ?case by (simp add: sem_inst dwell_view_known)
qed

text \<open>
  A condition that validation accepts without a complaint, whose facts are known and of the
  right kind, decides: it is true or false, never unavailable.
\<close>

theorem validated_condition_decides:
  assumes "collision_free rt S" and "c \<in> S" and "ev_inv rt ev"
    and "\<not> has_err (validateConditionConfig rt reg cx c)" and "no_warn (validateConditionConfig rt reg cx c)"
    and "template_free c" and "facts_known st c"
  shows "fst (Evaluate rt st now c ev) \<noteq> Unavailable"
  using sem_decides [OF assms(4-7)] by (simp add: Evaluate_sem [OF assms(1-3)])

text \<open>
  A condition that names neither a type nor a fact nor a template is always true, whatever
  conditions are nested in it, and validation reports neither an error nor a warning: a trigger
  that lists conditions and forgets \<open>condition: and\<close> fires at once.
\<close>

theorem untyped_condition_always_true:
  assumes "c_Condition c = []" and "c_Fact c = []" and "c_Value c = []" and "c_For c = []"
  shows "fst (Evaluate rt st now c ev) = TTrue \<and>
    validateConditionConfig rt reg cx c = []"
  using assms
  by (simp add: Evaluate.simps evaluateInner.simps apply_for_def evaluate_leaf_def inferConditionType_def
      validateConditionConfig.simps leaf_diags_def cond_type_def checked_kids_def common_diags_def issue_def Let_def)

end
