(* ===== verification/State_DB.thy ===== *)
theory State_DB
  imports Config
begin

text \<open>
  The state database (\<open>internal/state\<close>): the tables the executor keeps, as lists of rows in
  insertion order or maps by primary key, and the statements of \<open>db.go\<close>, \<open>intents.go\<close>,
  \<open>retention.go\<close> and \<open>macs.go\<close> on them. SQLite compares the timestamps as the text
  \<open>time.RFC3339Nano\<close> gives them in the host's zone, so the order of timestamps is an argument
  \<open>lt\<close> of the statements that use it. The table of dwell timers is the one of \<open>Dwell_Store\<close>.
\<close>

section \<open>Rows (db.go)\<close>

record ResolvedAddr =
  ra_IP :: string
  ra_MAC :: string
  ra_Hostname :: string
  ra_ResolvedAt :: instant

record Sequence =
  sq_ID :: string
  sq_PlanName :: string
  sq_State :: string
  sq_CurrentStage :: nat
  sq_PonrCrossed :: bool
  sq_Aborted :: bool
  sq_PostShutdownRun :: bool
  sq_StartedAt :: instant
  sq_CompletedAt :: "instant option"
  sq_ConfigSnapshot :: "string option"
  sq_PreSequenceState :: "string \<rightharpoonup> string"
  sq_ResolvedAddrs :: "string \<rightharpoonup> ResolvedAddr"

record DBActionResult =
  dr_Success :: bool
  dr_Message :: string

record Intent =
  it_ID :: string
  it_SequenceID :: string
  it_ClientName :: string
  it_Action :: string
  it_Timestamp :: instant
  it_Status :: string
  it_Result :: "DBActionResult option"

record ClientResult =
  cr_State :: string
  cr_StartedAt :: instant
  cr_CompletedAt :: "instant option"
  cr_Error :: string

record StageRecord =
  sr_SequenceID :: string
  sr_StageIndex :: nat
  sr_StageName :: string
  sr_StartedAt :: instant
  sr_CompletedAt :: "instant option"
  sr_Clients :: "string \<rightharpoonup> ClientResult"

record client_state_row =
  cs_state :: string
  cs_updated_at :: instant
  cs_sequence_id :: "string option"

record LearnedMAC =
  lm_Client :: string
  lm_MAC :: string
  lm_Source :: string
  lm_LearnedAt :: instant
  lm_ConfirmedAt :: instant

record DB =
  db_sequences :: "Sequence list"
  db_client_states :: "string \<rightharpoonup> client_state_row"
  db_intents :: "Intent list"
  db_stage_records :: "StageRecord list"
  db_client_locks :: "string \<rightharpoonup> string \<times> instant"
  db_kv :: "string \<rightharpoonup> string"
  db_auth :: "string option"
  db_learned_macs :: "string \<rightharpoonup> LearnedMAC"

definition empty_db :: DB where
  "empty_db = \<lparr>db_sequences = [], db_client_states = Map.empty, db_intents = [], db_stage_records = [],
     db_client_locks = Map.empty, db_kv = Map.empty, db_auth = None, db_learned_macs = Map.empty\<rparr>"

text \<open>
  \<open>INSERT ... ON CONFLICT(key) DO UPDATE\<close> on a list of rows: the row with the same key is
  updated in place, otherwise the new row is appended.
\<close>

fun upsert :: "('a \<Rightarrow> 'k) \<Rightarrow> ('a \<Rightarrow> 'a \<Rightarrow> 'a) \<Rightarrow> 'a \<Rightarrow> 'a list \<Rightarrow> 'a list" where
  "upsert key upd row [] = [row]"
| "upsert key upd row (r # rs) =
     (if key r = key row then upd r row # rs else r # upsert key upd row rs)"

section \<open>Sequences\<close>

definition update_sequence :: "Sequence \<Rightarrow> Sequence \<Rightarrow> Sequence" where
  "update_sequence old new =
     old\<lparr>sq_State := sq_State new, sq_CurrentStage := sq_CurrentStage new,
         sq_PonrCrossed := sq_PonrCrossed new, sq_CompletedAt := sq_CompletedAt new,
         sq_Aborted := sq_Aborted new, sq_PostShutdownRun := sq_PostShutdownRun new\<rparr>"

definition SaveSequence :: "Sequence \<Rightarrow> DB \<Rightarrow> DB" where
  "SaveSequence seq db = db\<lparr>db_sequences := upsert sq_ID update_sequence seq (db_sequences db)\<rparr>"

definition terminal_states :: "string set" where
  "terminal_states = {''completed'', ''failed'', ''aborted'', ''idle''}"

definition later :: "(instant \<Rightarrow> instant \<Rightarrow> bool) \<Rightarrow> Sequence option \<Rightarrow> Sequence \<Rightarrow> Sequence option" where
  "later lt best r =
     (case best of
        None \<Rightarrow> Some r
      | Some b \<Rightarrow> (if lt (sq_StartedAt b) (sq_StartedAt r) then Some r else Some b))"

definition GetActiveSequence :: "(instant \<Rightarrow> instant \<Rightarrow> bool) \<Rightarrow> DB \<Rightarrow> Sequence option" where
  "GetActiveSequence lt db =
     foldl (later lt) None (filter (\<lambda>s. sq_State s \<notin> terminal_states) (db_sequences db))"

definition GetSequenceByID :: "string \<Rightarrow> DB \<Rightarrow> Sequence option" where
  "GetSequenceByID sid db = find (\<lambda>s. sq_ID s = sid) (db_sequences db)"

definition LastSequence :: "(instant \<Rightarrow> instant \<Rightarrow> bool) \<Rightarrow> DB \<Rightarrow> Sequence option" where
  "LastSequence lt db = foldl (later lt) None (db_sequences db)"

section \<open>Client states, intents, stage records\<close>

definition SaveClientState :: "instant \<Rightarrow> string \<Rightarrow> string \<Rightarrow> string option \<Rightarrow> DB \<Rightarrow> DB" where
  "SaveClientState now name st seq db =
     db\<lparr>db_client_states := (db_client_states db)(name \<mapsto>
        \<lparr>cs_state = st, cs_updated_at = now, cs_sequence_id = seq\<rparr>)\<rparr>"

definition GetClientState :: "string \<Rightarrow> DB \<Rightarrow> string" where
  "GetClientState name db = (case db_client_states db name of None \<Rightarrow> ''unknown'' | Some r \<Rightarrow> cs_state r)"

definition GetAllClientStates :: "DB \<Rightarrow> (string \<rightharpoonup> string)" where
  "GetAllClientStates db = (\<lambda>n. map_option cs_state (db_client_states db n))"

definition update_intent :: "Intent \<Rightarrow> Intent \<Rightarrow> Intent" where
  "update_intent old new = old\<lparr>it_Status := it_Status new, it_Result := it_Result new\<rparr>"

definition SaveIntent :: "Intent \<Rightarrow> DB \<Rightarrow> DB" where
  "SaveIntent it db = db\<lparr>db_intents := upsert it_ID update_intent it (db_intents db)\<rparr>"

definition stage_key :: "StageRecord \<Rightarrow> string \<times> nat" where
  "stage_key r = (sr_SequenceID r, sr_StageIndex r)"

definition update_stage :: "StageRecord \<Rightarrow> StageRecord \<Rightarrow> StageRecord" where
  "update_stage old new = old\<lparr>sr_CompletedAt := sr_CompletedAt new, sr_Clients := sr_Clients new\<rparr>"

definition SaveStageRecord :: "StageRecord \<Rightarrow> DB \<Rightarrow> DB" where
  "SaveStageRecord r db = db\<lparr>db_stage_records := upsert stage_key update_stage r (db_stage_records db)\<rparr>"

definition StageRecords :: "string \<Rightarrow> DB \<Rightarrow> StageRecord list" where
  "StageRecords sid db = sort_key sr_StageIndex (filter (\<lambda>r. sr_SequenceID r = sid) (db_stage_records db))"

definition GetCompletedStages :: "string \<Rightarrow> DB \<Rightarrow> nat list" where
  "GetCompletedStages sid db =
     sort (map sr_StageIndex (filter (\<lambda>r. sr_SequenceID r = sid \<and> sr_CompletedAt r \<noteq> None) (db_stage_records db)))"

definition IntentDispatching :: string where "IntentDispatching = ''dispatching''"
definition IntentDispatched :: string where "IntentDispatched = ''dispatched''"
definition IntentReconciled :: string where "IntentReconciled = ''reconciled''"

text \<open>\<open>ORDER BY timestamp\<close>.\<close>

fun insert_intent :: "(instant \<Rightarrow> instant \<Rightarrow> bool) \<Rightarrow> Intent \<Rightarrow> Intent list \<Rightarrow> Intent list" where
  "insert_intent lt x [] = [x]"
| "insert_intent lt x (y # ys) =
     (if lt (it_Timestamp y) (it_Timestamp x) then y # insert_intent lt x ys else x # y # ys)"

definition by_timestamp :: "(instant \<Rightarrow> instant \<Rightarrow> bool) \<Rightarrow> Intent list \<Rightarrow> Intent list" where
  "by_timestamp lt xs = foldr (insert_intent lt) xs []"

text \<open>Neither query reads the column \<open>result\<close>.\<close>

definition PendingIntents :: "(instant \<Rightarrow> instant \<Rightarrow> bool) \<Rightarrow> string \<Rightarrow> DB \<Rightarrow> Intent list" where
  "PendingIntents lt sid db =
     map (\<lambda>i. i\<lparr>it_Result := None\<rparr>)
       (by_timestamp lt (filter (\<lambda>i. it_SequenceID i = sid \<and> it_Status i = IntentDispatching) (db_intents db)))"

definition SequenceIntents :: "(instant \<Rightarrow> instant \<Rightarrow> bool) \<Rightarrow> string \<Rightarrow> DB \<Rightarrow> Intent list" where
  "SequenceIntents lt sid db =
     map (\<lambda>i. i\<lparr>it_Result := None\<rparr>) (by_timestamp lt (filter (\<lambda>i. it_SequenceID i = sid) (db_intents db)))"

section \<open>Locks\<close>

definition AcquireClientLock :: "instant \<Rightarrow> string \<Rightarrow> string \<Rightarrow> DB \<Rightarrow> bool \<times> DB" where
  "AcquireClientLock now client seq db =
     (case db_client_locks db client of
        None \<Rightarrow> (True, db\<lparr>db_client_locks := (db_client_locks db)(client \<mapsto> (seq, now))\<rparr>)
      | Some (holder, t0) \<Rightarrow>
          (if holder = seq
           then (True, db\<lparr>db_client_locks := (db_client_locks db)(client \<mapsto> (holder, now))\<rparr>)
           else (False, db)))"

definition ClientLockHolder :: "string \<Rightarrow> DB \<Rightarrow> string" where
  "ClientLockHolder client db = (case db_client_locks db client of None \<Rightarrow> [] | Some (s, _) \<Rightarrow> s)"

definition ReleaseClientLock :: "string \<Rightarrow> DB \<Rightarrow> DB" where
  "ReleaseClientLock client db = db\<lparr>db_client_locks := (db_client_locks db)(client := None)\<rparr>"

text \<open>\<open>DELETE FROM client_locks WHERE sequence_id = ?\<close>.\<close>

definition unlock_all :: "string \<Rightarrow> (string \<rightharpoonup> string \<times> instant) \<Rightarrow> (string \<rightharpoonup> string \<times> instant)" where
  "unlock_all seq locks = (\<lambda>c. case locks c of None \<Rightarrow> None | Some (s, t0) \<Rightarrow> (if s = seq then None else Some (s, t0)))"

definition ReleaseSequenceLocks :: "string \<Rightarrow> DB \<Rightarrow> DB" where
  "ReleaseSequenceLocks seq db = db\<lparr>db_client_locks := unlock_all seq (db_client_locks db)\<rparr>"

section \<open>Orphans and retention\<close>

definition FailOrphanedSequence :: "instant \<Rightarrow> string \<Rightarrow> string \<Rightarrow> DB \<Rightarrow> DB" where
  "FailOrphanedSequence now sid reason db =
     db\<lparr>db_sequences := map (\<lambda>s. if sq_ID s = sid then s\<lparr>sq_State := ''failed'', sq_CompletedAt := Some now\<rparr> else s)
          (db_sequences db),
        db_client_locks := unlock_all sid (db_client_locks db),
        db_intents := map (\<lambda>i. if it_SequenceID i = sid \<and> it_Status i = IntentDispatching
            then i\<lparr>it_Status := IntentReconciled, it_Result := Some \<lparr>dr_Success = False, dr_Message = reason\<rparr>\<rparr>
            else i) (db_intents db)\<rparr>"

record PruneResult =
  pn_Sequences :: nat
  pn_Intents :: nat
  pn_StageRecords :: nat

definition PruneResult_Total :: "PruneResult \<Rightarrow> nat" where
  "PruneResult_Total p = pn_Sequences p + pn_Intents p + pn_StageRecords p"

definition expired :: "(instant \<Rightarrow> instant \<Rightarrow> bool) \<Rightarrow> instant \<Rightarrow> Sequence \<Rightarrow> bool" where
  "expired lt before s \<longleftrightarrow>
     lt (sq_StartedAt s) before \<and> sq_State s \<in> {''completed'', ''failed'', ''aborted''}"

definition PruneJournal :: "(instant \<Rightarrow> instant \<Rightarrow> bool) \<Rightarrow> instant \<Rightarrow> DB \<Rightarrow> PruneResult \<times> DB" where
  "PruneJournal lt before db =
     (let ids = set (map sq_ID (filter (expired lt before) (db_sequences db)));
          intents = filter (\<lambda>i. it_SequenceID i \<notin> ids) (db_intents db);
          stages = filter (\<lambda>r. sr_SequenceID r \<notin> ids) (db_stage_records db);
          seqs = filter (\<lambda>s. \<not> expired lt before s) (db_sequences db)
      in (\<lparr>pn_Sequences = length (db_sequences db) - length seqs,
           pn_Intents = length (db_intents db) - length intents,
           pn_StageRecords = length (db_stage_records db) - length stages\<rparr>,
          db\<lparr>db_intents := intents, db_stage_records := stages, db_sequences := seqs\<rparr>))"

definition CountJournalRows :: "DB \<Rightarrow> PruneResult" where
  "CountJournalRows db = \<lparr>pn_Sequences = length (db_sequences db), pn_Intents = length (db_intents db),
     pn_StageRecords = length (db_stage_records db)\<rparr>"

section \<open>Settings, password, learned addresses\<close>

definition SetKV :: "string \<Rightarrow> string \<Rightarrow> DB \<Rightarrow> DB" where
  "SetKV k v db = db\<lparr>db_kv := (db_kv db)(k \<mapsto> v)\<rparr>"

definition GetKV :: "string \<Rightarrow> DB \<Rightarrow> string" where
  "GetKV k db = (case db_kv db k of None \<Rightarrow> [] | Some v \<Rightarrow> v)"

definition ClaimInitialPassword :: "string \<Rightarrow> DB \<Rightarrow> bool \<times> DB" where
  "ClaimInitialPassword hash db =
     (case db_auth db of None \<Rightarrow> (True, db\<lparr>db_auth := Some hash\<rparr>) | Some _ \<Rightarrow> (False, db))"

definition SetPasswordHash :: "string \<Rightarrow> DB \<Rightarrow> DB" where
  "SetPasswordHash hash db = db\<lparr>db_auth := Some hash\<rparr>"

definition GetPasswordHash :: "DB \<Rightarrow> string" where
  "GetPasswordHash db = (case db_auth db of None \<Rightarrow> [] | Some h \<Rightarrow> h)"

definition SaveLearnedMAC :: "LearnedMAC \<Rightarrow> DB \<Rightarrow> DB" where
  "SaveLearnedMAC m db =
     db\<lparr>db_learned_macs := (db_learned_macs db)(lm_Client m \<mapsto>
        (case db_learned_macs db (lm_Client m) of
           None \<Rightarrow> m
         | Some old \<Rightarrow> (if lm_MAC old = lm_MAC m then m\<lparr>lm_LearnedAt := lm_LearnedAt old\<rparr> else m)))\<rparr>"

definition LearnedMACs :: "DB \<Rightarrow> (string \<rightharpoonup> LearnedMAC)" where
  "LearnedMACs db = db_learned_macs db"

definition ForgetLearnedMAC :: "string \<Rightarrow> DB \<Rightarrow> DB" where
  "ForgetLearnedMAC client db = db\<lparr>db_learned_macs := (db_learned_macs db)(client := None)\<rparr>"

section \<open>Rows written are rows read\<close>

lemma upsert_keys: "map key (upsert key upd row rs) =
    (if key row \<in> set (map key rs) then map key rs else map key rs @ [key row])"
  if "\<And>a b. key (upd a b) = key a"
  by (induction rs) (auto simp: that)

lemma upsert_in: "x \<in> set (upsert key upd row rs) \<Longrightarrow> x = row \<or> x \<in> set rs \<or> (\<exists>r \<in> set rs. key r = key row \<and> x = upd r row)"
  by (induction rs) (auto split: if_splits)

lemma upsert_keeps: "x \<in> set rs \<Longrightarrow> key x \<noteq> key row \<Longrightarrow> x \<in> set (upsert key upd row rs)"
  by (induction rs) auto

lemma upsert_find:
  assumes "\<And>a b. key (upd a b) = key a"
  shows "find (\<lambda>r. key r = k) (upsert key upd row rs) =
    (if k = key row then Some (case find (\<lambda>r. key r = k) rs of None \<Rightarrow> row | Some r \<Rightarrow> upd r row)
     else find (\<lambda>r. key r = k) rs)"
  by (induction rs) (auto simp: assms)

lemma key_update [simp]:
  "sq_ID (update_sequence a b) = sq_ID a"
  "it_ID (update_intent i j) = it_ID i"
  "stage_key (update_stage r u) = stage_key r"
  by (simp_all add: update_sequence_def update_intent_def stage_key_def update_stage_def)

lemma SaveSequence_get:
  "GetSequenceByID sid (SaveSequence seq db) =
     (if sid = sq_ID seq
      then Some (case GetSequenceByID sid db of None \<Rightarrow> seq | Some old \<Rightarrow> update_sequence old seq)
      else GetSequenceByID sid db)"
  unfolding GetSequenceByID_def SaveSequence_def by (simp add: upsert_find [where key = sq_ID])

section \<open>The lock table\<close>

text \<open>
  What the executor expects of the client locks: an attempt succeeds exactly when no other holder
  is there, the winner is the holder afterwards, a lost attempt and a release of other locks
  change nothing.
\<close>

locale lock_table =
  fixes holder :: "'s \<Rightarrow> string \<Rightarrow> string option"
    and acquire :: "instant \<Rightarrow> string \<Rightarrow> string \<Rightarrow> 's \<Rightarrow> bool \<times> 's"
    and release :: "string \<Rightarrow> 's \<Rightarrow> 's"
  assumes acquire_iff: "fst (acquire now c q s) \<longleftrightarrow> holder s c = None \<or> holder s c = Some q"
    and acquire_holder: "holder (snd (acquire now c q s)) =
      (if fst (acquire now c q s) then (holder s)(c \<mapsto> q) else holder s)"
    and release_holder: "holder (release q s) c = (if holder s c = Some q then None else holder s c)"
begin

text \<open>While the holder does not release it, no sequence of attempts takes a lock away.\<close>

lemma lock_kept:
  assumes "holder s c = Some q"
  shows "holder (fold (\<lambda>(now, c', q') s. snd (acquire now c' q' s)) attempts s) c = Some q"
  using assms
proof (induction attempts arbitrary: s)
  case (Cons a attempts)
  obtain now c' q' where a: "a = (now, c', q')" by (cases a)
  have "holder (snd (acquire now c' q' s)) c = Some q"
    using Cons.prems acquire_iff [of now c' q' s] by (auto simp: acquire_holder)
  from Cons.IH [OF this] show ?case by (simp add: a)
qed simp

lemma others_refused:
  assumes "holder s c = Some q" and "q' \<noteq> q"
  shows "\<not> fst (acquire now c q' (fold (\<lambda>(now, c', q') s. snd (acquire now c' q' s)) attempts s))"
  using lock_kept [OF assms(1), of attempts] assms(2) by (simp add: acquire_iff)

lemma acquired_is_held: "fst (acquire now c q s) \<Longrightarrow> holder (snd (acquire now c q s)) c = Some q"
  by (simp add: acquire_holder)

lemma released_frees: "holder (release q s) c \<noteq> Some q"
  by (simp add: release_holder)

lemma release_spares: "holder s c = Some q' \<Longrightarrow> q' \<noteq> q \<Longrightarrow> holder (release q s) c = Some q'"
  by (simp add: release_holder)

end

definition lock_holder :: "DB \<Rightarrow> string \<Rightarrow> string option" where
  "lock_holder db c = map_option fst (db_client_locks db c)"

interpretation locks: lock_table lock_holder AcquireClientLock ReleaseSequenceLocks
  by unfold_locales
    (auto simp: AcquireClientLock_def lock_holder_def ReleaseSequenceLocks_def unlock_all_def fun_eq_iff
      split: option.splits prod.splits)

text \<open>
  The client locks exclude one another: once a sequence has acquired a client, every attempt of
  another sequence fails, whatever attempts on whatever clients come between, until the holder's
  locks are released; and an attempt of the holder itself always succeeds again.
\<close>

theorem client_lock_exclusive:
  assumes "fst (AcquireClientLock now c q db)"
    and db': "db' = fold (\<lambda>(now, c', q') s. snd (AcquireClientLock now c' q' s)) attempts
        (snd (AcquireClientLock now c q db))"
  shows "(\<forall>t q'. fst (AcquireClientLock t c q' db') \<longleftrightarrow> q' = q) \<and>
    (\<forall>t q'. fst (AcquireClientLock t c q' (ReleaseSequenceLocks q db')))"
proof -
  have h: "lock_holder db' c = Some q"
    unfolding db' by (rule locks.lock_kept) (rule locks.acquired_is_held [OF assms(1)])
  then have "lock_holder (ReleaseSequenceLocks q db') c = None" by (simp add: locks.release_holder)
  with h show ?thesis by (auto simp: locks.acquire_iff)
qed

section \<open>Retention and orphans\<close>

lemma later_cases: "later lt b r = b \<or> later lt b r = Some r"
  by (simp add: later_def split: option.split)

lemma latest_in: "foldl (later lt) b xs = Some s \<Longrightarrow> b = Some s \<or> s \<in> set xs"
proof (induction xs arbitrary: b)
  case (Cons x xs)
  from Cons.IH [of "later lt b x"] Cons.prems later_cases [of lt b x] show ?case by auto
qed simp

lemma GetActiveSequence_in:
  "GetActiveSequence lt db = Some s \<Longrightarrow> s \<in> set (db_sequences db) \<and> sq_State s \<notin> terminal_states"
  unfolding GetActiveSequence_def by (drule latest_in) simp

lemma PruneJournal_in:
  "s \<in> set (db_sequences (snd (PruneJournal lt before db))) \<longleftrightarrow> s \<in> set (db_sequences db) \<and> \<not> expired lt before s"
  by (simp add: PruneJournal_def Let_def)

text \<open>Every intent and stage record belongs to a sequence, and no two sequences share an ID.\<close>

definition db_inv :: "DB \<Rightarrow> bool" where
  "db_inv db \<longleftrightarrow> distinct (map sq_ID (db_sequences db)) \<and>
     it_SequenceID ` set (db_intents db) \<union> sr_SequenceID ` set (db_stage_records db) \<subseteq> sq_ID ` set (db_sequences db)"

text \<open>
  Pruning the journal keeps every sequence that is not finished, whatever its age, with all its
  intents and stage records; it keeps the foreign keys valid; and the counts it reports are the
  numbers of rows that went.
\<close>

theorem prune_keeps_unfinished:
  assumes inv: "db_inv db" and p: "PruneJournal lt before db = (r, db')"
  shows "db_inv db' \<and>
    (\<forall>s \<in> set (db_sequences db). sq_State s \<notin> {''completed'', ''failed'', ''aborted''} \<longrightarrow>
       s \<in> set (db_sequences db') \<and>
       filter (\<lambda>i. it_SequenceID i = sq_ID s) (db_intents db') = filter (\<lambda>i. it_SequenceID i = sq_ID s) (db_intents db) \<and>
       filter (\<lambda>i. sr_SequenceID i = sq_ID s) (db_stage_records db') = filter (\<lambda>i. sr_SequenceID i = sq_ID s) (db_stage_records db)) \<and>
    PruneResult_Total r + PruneResult_Total (CountJournalRows db') = PruneResult_Total (CountJournalRows db)"
proof -
  let ?ids = "set (map sq_ID (filter (expired lt before) (db_sequences db)))"
  have db': "db_intents db' = filter (\<lambda>i. it_SequenceID i \<notin> ?ids) (db_intents db)"
      "db_stage_records db' = filter (\<lambda>i. sr_SequenceID i \<notin> ?ids) (db_stage_records db)"
      "db_sequences db' = filter (\<lambda>s. \<not> expired lt before s) (db_sequences db)"
    and r: "r = \<lparr>pn_Sequences = length (db_sequences db) - length (db_sequences db'),
       pn_Intents = length (db_intents db) - length (db_intents db'),
       pn_StageRecords = length (db_stage_records db) - length (db_stage_records db')\<rparr>"
    using p by (auto simp: PruneJournal_def Let_def)
  have d: "distinct (map sq_ID (db_sequences db))" using inv by (simp add: db_inv_def)
  have ids: "sq_ID s \<notin> ?ids" if "s \<in> set (db_sequences db)" "\<not> expired lt before s" for s
    using d that by (auto simp: distinct_map dest: inj_onD)
  have "sid \<in> sq_ID ` set (db_sequences db')" if "sid \<in> sq_ID ` set (db_sequences db)" "sid \<notin> ?ids" for sid
    using that by (auto simp: db')
  moreover have "distinct (map sq_ID (db_sequences db'))" unfolding db' using d by (rule distinct_map_filter)
  ultimately have "db_inv db'" using inv unfolding db_inv_def by (auto simp: db'(1,2))
  moreover have "PruneResult_Total r + PruneResult_Total (CountJournalRows db') = PruneResult_Total (CountJournalRows db)"
  proof -
    have "length (db_sequences db') \<le> length (db_sequences db)" "length (db_intents db') \<le> length (db_intents db)"
      "length (db_stage_records db') \<le> length (db_stage_records db)"
      unfolding db' by (rule length_filter_le)+
    then show ?thesis by (simp add: r PruneResult_Total_def CountJournalRows_def)
  qed
  moreover have "s \<in> set (db_sequences db') \<and>
       filter (\<lambda>i. it_SequenceID i = sq_ID s) (db_intents db') = filter (\<lambda>i. it_SequenceID i = sq_ID s) (db_intents db) \<and>
       filter (\<lambda>i. sr_SequenceID i = sq_ID s) (db_stage_records db') = filter (\<lambda>i. sr_SequenceID i = sq_ID s) (db_stage_records db)"
    if s: "s \<in> set (db_sequences db)" "sq_State s \<notin> {''completed'', ''failed'', ''aborted''}" for s
  proof -
    have "\<not> expired lt before s" using s by (auto simp: expired_def)
    moreover from ids [OF s(1) this] have "sq_ID s \<notin> ?ids" .
    moreover from this have "filter (\<lambda>i. it_SequenceID i = sq_ID s) (db_intents db') = filter (\<lambda>i. it_SequenceID i = sq_ID s) (db_intents db)"
      and "filter (\<lambda>i. sr_SequenceID i = sq_ID s) (db_stage_records db') = filter (\<lambda>i. sr_SequenceID i = sq_ID s) (db_stage_records db)"
      unfolding db' filter_filter by (metis (mono_tags, lifting) filter_cong)+
    ultimately show ?thesis using s(1) by (simp add: db'(3))
  qed
  ultimately show ?thesis by blast
qed

text \<open>
  Failing an orphaned sequence leaves nothing behind: it is no longer the active sequence, it
  holds no lock (while every lock of another sequence stays), and none of its intents is pending.
\<close>

theorem orphan_released:
  assumes "db' = FailOrphanedSequence now sid reason db"
  shows "(\<forall>s. GetActiveSequence lt db' = Some s \<longrightarrow> sq_ID s \<noteq> sid) \<and>
    (\<forall>c. lock_holder db' c = (if lock_holder db c = Some sid then None else lock_holder db c)) \<and>
    PendingIntents lt sid db' = []"
proof -
  have failed: "sq_State s = ''failed''" if "s \<in> set (db_sequences db')" "sq_ID s = sid" for s
  proof -
    have "(\<exists>x \<in> set (db_sequences db) \<inter> {s. sq_ID s = sid}.
        s = x\<lparr>sq_State := ''failed'', sq_CompletedAt := Some now\<rparr>) \<or> s \<in> set (db_sequences db) \<and> sq_ID s \<noteq> sid"
      using that(1) unfolding assms FailOrphanedSequence_def by (simp add: image_iff)
    with that(2) show ?thesis by (elim disjE bexE) simp_all
  qed
  have "sq_ID s \<noteq> sid" if "GetActiveSequence lt db' = Some s" for s
    using GetActiveSequence_in [OF that] failed [of s] by (auto simp: terminal_states_def)
  moreover have "lock_holder db' c = (if lock_holder db c = Some sid then None else lock_holder db c)" for c
    by (cases "db_client_locks db c") (auto simp: assms lock_holder_def FailOrphanedSequence_def unlock_all_def)
  moreover have "filter (\<lambda>i. it_SequenceID i = sid \<and> it_Status i = IntentDispatching) (db_intents db') = []"
    unfolding assms FailOrphanedSequence_def filter_empty_conv
    by (simp add: IntentDispatching_def IntentReconciled_def, intro ballI, elim UnE imageE) simp_all
  ultimately show ?thesis by (auto simp: PendingIntents_def by_timestamp_def)
qed

end
