(* ===== verification/Engine_Types.thy ===== *)
theory Engine_Types
  imports State_DB
begin

text \<open>
  The engine's own types (\<open>internal/engine/types.go\<close>) and the handle of the running sequence
  (\<open>active_sequence.go\<close>). The handle's mutex makes each of its operations one atomic step; the
  operations are functions on the record.
\<close>

section \<open>Client states, actions, modes (types.go)\<close>

datatype ClientState =
  StateUnknown | StateUp | StateShuttingDown | StateDown | StateDownUnverified | StateWaking | StateFailed

fun ClientState_String :: "ClientState \<Rightarrow> string" where
  "ClientState_String StateUp = ''up''"
| "ClientState_String StateShuttingDown = ''shutting_down''"
| "ClientState_String StateDown = ''down''"
| "ClientState_String StateDownUnverified = ''down_unverified''"
| "ClientState_String StateWaking = ''waking''"
| "ClientState_String StateFailed = ''failed''"
| "ClientState_String StateUnknown = ''unknown''"

definition ParseClientState :: "string \<Rightarrow> ClientState" where
  "ParseClientState s =
     (if s = ''up'' then StateUp
      else if s = ''shutting_down'' then StateShuttingDown
      else if s = ''down'' then StateDown
      else if s = ''down_unverified'' then StateDownUnverified
      else if s = ''waking'' then StateWaking
      else if s = ''failed'' then StateFailed
      else StateUnknown)"

datatype ActionType =
  ActionShutdown | ActionWake | ActionProbe | ActionPoeOff | ActionPoeOn | ActionOutletOff | ActionOutletOn

fun ActionType_String :: "ActionType \<Rightarrow> string" where
  "ActionType_String ActionShutdown = ''shutdown''"
| "ActionType_String ActionWake = ''wake''"
| "ActionType_String ActionProbe = ''probe''"
| "ActionType_String ActionPoeOff = ''poe_off''"
| "ActionType_String ActionPoeOn = ''poe_on''"
| "ActionType_String ActionOutletOff = ''outlet_off''"
| "ActionType_String ActionOutletOn = ''outlet_on''"

datatype FeedPolicy = FeedPolicyAny | FeedPolicyAll

datatype WakePolicy = WakePolicyPowerState | WakePolicyRetainState

datatype Mode = ModeDisarmed | ModeDryRun | ModeArmed

fun Mode_String :: "Mode \<Rightarrow> string" where
  "Mode_String ModeDryRun = ''dry-run''"
| "Mode_String ModeArmed = ''armed''"
| "Mode_String ModeDisarmed = ''disarmed''"

definition ParseModeStrict :: "string \<Rightarrow> Mode \<times> bool" where
  "ParseModeStrict s =
     (let t = ToLower (TrimSpace s)
      in if t = ''disarmed'' then (ModeDisarmed, True)
         else if t \<in> {''dry-run'', ''dryrun'', ''dry_run''} then (ModeDryRun, True)
         else if t = ''armed'' then (ModeArmed, True)
         else (ModeDisarmed, False))"

definition ParseMode :: "string \<Rightarrow> Mode" where
  "ParseMode s = fst (ParseModeStrict s)"

text \<open>
  A transport as the engine sees it: the actions it advertises, the remapping of actions
  (\<open>ActionRemapper\<close>; the identity for a transport without one) and whether it can be asked for a
  hardware address (\<open>MACDiscoverer\<close>). What a call answers is an input of the step that makes it.
\<close>

record Transport =
  tr_Capabilities :: "ActionType list"
  tr_Remap :: "ActionType \<Rightarrow> ActionType"
  tr_Discovers :: bool

definition transportCan :: "Transport \<Rightarrow> ActionType \<Rightarrow> bool" where
  "transportCan t a \<longleftrightarrow> a \<in> set (tr_Capabilities t)"

definition remapAction :: "Transport \<Rightarrow> ActionType \<Rightarrow> ActionType" where
  "remapAction t a = tr_Remap t a"

record EngineProbe =
  ep_Method :: string
  ep_Port :: int
  ep_Timeout :: duration

record Client =
  ec_Name :: string
  ec_Description :: string
  ec_Transport :: string
  ec_Address :: string
  ec_MAC :: string
  ec_Credentials :: string
  ec_Tags :: "string list"
  ec_Feeds :: "string list"
  ec_FeedPolicy :: FeedPolicy
  ec_ShutdownBudget :: duration
  ec_WakePolicy :: WakePolicy
  ec_DependsOn :: "string list"
  ec_After :: "string list"
  ec_Before :: "string list"
  ec_ProbeConfig :: EngineProbe
  ec_WakeConfig :: "WakeConfig option"
  ec_TransportConfig :: "string \<rightharpoonup> goval"
  ec_GuardPeriod :: duration

lemma Parse_ClientState_String [simp]: "ParseClientState (ClientState_String s) = s"
  by (cases s) (simp_all add: ParseClientState_def)

lemma ClientState_String_inj: "ClientState_String a = ClientState_String b \<longleftrightarrow> a = b"
  by (metis Parse_ClientState_String)

section \<open>The running sequence (active_sequence.go)\<close>

definition SeqStateShuttingDown :: string where "SeqStateShuttingDown = ''shutting_down''"
definition SeqStateAborting :: string where "SeqStateAborting = ''aborting''"
definition SeqStateAborted :: string where "SeqStateAborted = ''aborted''"
definition SeqStateWakeGate :: string where "SeqStateWakeGate = ''wake_gate''"
definition SeqStateWaking :: string where "SeqStateWaking = ''waking''"
definition SeqStateCompleted :: string where "SeqStateCompleted = ''completed''"
definition SeqStateFailed :: string where "SeqStateFailed = ''failed''"

lemmas seq_state_defs =
  SeqStateShuttingDown_def SeqStateAborting_def SeqStateAborted_def SeqStateWakeGate_def
  SeqStateWaking_def SeqStateCompleted_def SeqStateFailed_def

record ActiveSequence =
  as_seq :: Sequence
  as_plan :: PlanConfig
  as_abortRequested :: bool
  as_abortReason :: string
  as_proceedRequested :: bool
  as_proceedReason :: string
  as_heldStage :: string

definition newActiveSequence :: "Sequence \<Rightarrow> PlanConfig \<Rightarrow> ActiveSequence" where
  "newActiveSequence seq plan =
     \<lparr>as_seq = seq, as_plan = plan, as_abortRequested = False, as_abortReason = [],
      as_proceedRequested = False, as_proceedReason = [], as_heldStage = []\<rparr>"

definition on_seq :: "(Sequence \<Rightarrow> Sequence) \<Rightarrow> ActiveSequence \<Rightarrow> ActiveSequence" where
  "on_seq f a = a\<lparr>as_seq := f (as_seq a)\<rparr>"

definition SetResolvedAddrs :: "(string \<rightharpoonup> ResolvedAddr) \<Rightarrow> ActiveSequence \<Rightarrow> ActiveSequence" where
  "SetResolvedAddrs addrs = on_seq (\<lambda>s. s\<lparr>sq_ResolvedAddrs := addrs\<rparr>)"

definition SetConfigSnapshot :: "string option \<Rightarrow> ActiveSequence \<Rightarrow> ActiveSequence" where
  "SetConfigSnapshot snapshot = on_seq (\<lambda>s. s\<lparr>sq_ConfigSnapshot := snapshot\<rparr>)"

definition MarkAborted :: "ActiveSequence \<Rightarrow> ActiveSequence" where
  "MarkAborted = on_seq (\<lambda>s. s\<lparr>sq_Aborted := True\<rparr>)"

definition MarkPostShutdownRun :: "ActiveSequence \<Rightarrow> bool \<times> ActiveSequence" where
  "MarkPostShutdownRun a =
     (if sq_PostShutdownRun (as_seq a) then (False, a)
      else (True, on_seq (\<lambda>s. s\<lparr>sq_PostShutdownRun := True\<rparr>) a))"

definition RequestProceed :: "string \<Rightarrow> ActiveSequence \<Rightarrow> ActiveSequence" where
  "RequestProceed reason a = a\<lparr>as_proceedRequested := True, as_proceedReason := reason\<rparr>"

definition ConsumeProceed :: "ActiveSequence \<Rightarrow> bool \<times> string \<times> ActiveSequence" where
  "ConsumeProceed a =
     (if \<not> as_proceedRequested a then (False, [], a)
      else (True, as_proceedReason a, a\<lparr>as_proceedRequested := False, as_proceedReason := []\<rparr>))"

definition SetHeldStage :: "string \<Rightarrow> ActiveSequence \<Rightarrow> ActiveSequence" where
  "SetHeldStage name a = a\<lparr>as_heldStage := name\<rparr>"

definition SetCurrentStage :: "nat \<Rightarrow> ActiveSequence \<Rightarrow> ActiveSequence" where
  "SetCurrentStage i = on_seq (\<lambda>s. s\<lparr>sq_CurrentStage := i\<rparr>)"

definition SetState :: "string \<Rightarrow> ActiveSequence \<Rightarrow> ActiveSequence" where
  "SetState st = on_seq (\<lambda>s. s\<lparr>sq_State := st\<rparr>)"

definition MarkCompleted :: "string \<Rightarrow> instant \<Rightarrow> ActiveSequence \<Rightarrow> ActiveSequence" where
  "MarkCompleted st t = on_seq (\<lambda>s. s\<lparr>sq_State := st, sq_CompletedAt := Some t\<rparr>)"

definition CrossPonr :: "ActiveSequence \<Rightarrow> bool \<times> ActiveSequence" where
  "CrossPonr a =
     (if sq_PonrCrossed (as_seq a) then (False, a)
      else (True, on_seq (\<lambda>s. s\<lparr>sq_PonrCrossed := True\<rparr>) a))"

definition RequestAbort :: "string \<Rightarrow> ActiveSequence \<Rightarrow> bool \<times> ActiveSequence" where
  "RequestAbort reason a =
     (if sq_PonrCrossed (as_seq a) then (False, a)
      else (True, a\<lparr>as_abortRequested := True, as_abortReason := reason\<rparr>))"

text \<open>\<open>persistable\<close> copies the record; values have no identity here, so the copy is the record.\<close>

definition persistable :: "ActiveSequence \<Rightarrow> Sequence" where
  "persistable a = as_seq a"

record SequenceSnapshot =
  sp_ID :: string
  sp_Plan :: string
  sp_State :: string
  sp_CurrentStage :: nat
  sp_StageName :: string
  sp_TotalStages :: nat
  sp_PonrCrossed :: bool
  sp_Abortable :: bool
  sp_Aborted :: bool
  sp_AbortRequested :: bool
  sp_AbortReason :: string
  sp_HeldStage :: string
  sp_StartedAt :: instant
  sp_CompletedAt :: "instant option"

definition Snapshot :: "ActiveSequence \<Rightarrow> SequenceSnapshot" where
  "Snapshot a =
     (let s = as_seq a; stages = sh_Stages (pl_Shutdown (as_plan a))
      in \<lparr>sp_ID = sq_ID s, sp_Plan = sq_PlanName s, sp_State = sq_State s,
          sp_CurrentStage = sq_CurrentStage s,
          sp_StageName = (if sq_CurrentStage s < length stages then sg_Name (stages ! sq_CurrentStage s) else []),
          sp_TotalStages = length stages, sp_PonrCrossed = sq_PonrCrossed s,
          sp_Abortable = (\<not> sq_PonrCrossed s), sp_Aborted = sq_Aborted s,
          sp_AbortRequested = as_abortRequested a, sp_AbortReason = as_abortReason a,
          sp_HeldStage = as_heldStage a, sp_StartedAt = sq_StartedAt s, sp_CompletedAt = sq_CompletedAt s\<rparr>)"

lemmas active_defs [simp] =
  on_seq_def SetResolvedAddrs_def SetConfigSnapshot_def MarkAborted_def RequestProceed_def
  SetHeldStage_def SetCurrentStage_def SetState_def MarkCompleted_def persistable_def

end
