(* ===== verification/Derived.thy ===== *)
theory Derived
  imports Engine_Types Condition_Safety
begin

text \<open>
  The facts the engine derives itself (\<open>internal/engine/derived.go\<close>): whether the feeds of a client
  are threatened. The short-circuiting loops over the feeds are folds of the three-valued
  connectives, so the facts of the locale \<open>kleene3\<close> apply.
\<close>

section \<open>Definitions\<close>

definition derivedSource :: string where "derivedSource = ''client''"
definition threatenedFact :: string where "threatenedFact = ''threatened''"

definition threatFlags :: "string list" where
  "threatFlags = [''OB'', ''LB'', ''DISCHRG'', ''ALARM'', ''RB'']"

definition derived_key :: "string \<Rightarrow> string" where
  "derived_key name = derivedSource @ ''.'' @ name @ ''.'' @ threatenedFact"

definition registerDerivedFacts :: "Config \<Rightarrow> duration \<Rightarrow> Store \<Rightarrow> Store" where
  "registerDerivedFacts cfg policy st =
     RegisterSource derivedSource policy
       (map (\<lambda>c. \<lparr>d_Name = cl_Name c @ ''.'' @ threatenedFact, d_Type = ''bool'', d_Range = [], d_Values = [],
          d_Description = ''Whether '' @ cl_Name c @ [CHR 0x27] @
            ''s power feeds are threatened, per its feeds and feed_policy'', d_Unit = []\<rparr>)
        (cf_Clients cfg)) st"

definition is_threat :: "string \<Rightarrow> bool" where
  "is_threat flag \<longleftrightarrow> flag \<in> set threatFlags"

fun any_threat :: "goval list \<Rightarrow> bool" where
  "any_threat [] = False"
| "any_threat (GString s # vs) = (is_threat s \<or> any_threat vs)"
| "any_threat (_ # vs) = any_threat vs"

definition feedThreatened :: "Store \<Rightarrow> string \<Rightarrow> Trilean" where
  "feedThreatened st feed =
     (case Store_Get st (feed @ ''.status'') of (value, quality, _) \<Rightarrow>
        if quality \<noteq> QualityGood \<or> value = GNil then Unavailable
        else case value of
               GStrings flags \<Rightarrow> (if list_ex is_threat flags then TTrue else TFalse)
             | GAnys items \<Rightarrow> (if any_threat items then TTrue else TFalse)
             | GString s \<Rightarrow> (if list_ex is_threat (Fields s) then TTrue else TFalse)
             | _ \<Rightarrow> Unavailable)"

text \<open>\<open>keys\<close>: the keys of \<open>AllDeclarations\<close>, in the order Go ranges over them.\<close>

definition ups_instance :: "string \<Rightarrow> string option" where
  "ups_instance key =
     (case Cut key (CHR ''.'') of
        None \<Rightarrow> None
      | Some (src, rest) \<Rightarrow> (if rest \<noteq> ''status'' \<or> src = derivedSource then None else Some src))"

definition upsSources :: "string list \<Rightarrow> string list" where
  "upsSources keys = sort_strings (add_unseen [] (List.map_filter ups_instance keys))"

definition clientFeeds :: "string list \<Rightarrow> ClientConfig \<Rightarrow> string list" where
  "clientFeeds ups c = (if cl_Feeds c \<noteq> [] then cl_Feeds c else ups)"

definition clientThreatened :: "Store \<Rightarrow> string list \<Rightarrow> ClientConfig \<Rightarrow> bool" where
  "clientThreatened st ups c =
     (let feeds = clientFeeds ups c
      in if feeds = [] then False
         else let result =
                (if cl_FeedPolicy c = ''all''
                 then fold_until TFalse TriAnd TTrue (map (feedThreatened st) feeds)
                 else fold_until TTrue TriOr TFalse (map (feedThreatened st) feeds))
              in case result of
                   TTrue \<Rightarrow> True
                 | TFalse \<Rightarrow> False
                 | Unavailable \<Rightarrow> cl_CommsLossAssumes c = CommsLossThreatened)"

definition updateDerivedFacts :: "Config \<Rightarrow> string list \<Rightarrow> instant \<Rightarrow> Store \<Rightarrow> Store" where
  "updateDerivedFacts cfg ups now st =
     foldl (\<lambda>st c. Store_Update (derived_key (cl_Name c)) (GBool (clientThreatened st ups c)) now st) st (cf_Clients cfg)"

definition DerivedFactKeys :: "Config \<Rightarrow> string list" where
  "DerivedFactKeys cfg = sort_strings (map (derived_key \<circ> cl_Name) (cf_Clients cfg))"

definition refreshFacts :: "Config \<Rightarrow> string list \<Rightarrow> instant \<Rightarrow> Store \<Rightarrow> Store" where
  "refreshFacts cfg ups now st =
     RefreshQuality now (updateDerivedFacts cfg ups now (RefreshQuality now st))"

section \<open>What makes a client threatened\<close>

lemma clientThreatened_fold:
  "clientThreatened st ups c \<longleftrightarrow>
     (let vs = map (feedThreatened st) (clientFeeds ups c);
          r = (if cl_FeedPolicy c = ''all'' then foldl TriAnd TTrue vs else foldl TriOr TFalse vs)
      in clientFeeds ups c \<noteq> [] \<and> (r = TTrue \<or> r = Unavailable \<and> cl_CommsLossAssumes c = CommsLossThreatened))"
  by (simp add: clientThreatened_def tri.conj_loop tri.disj_loop Let_def split: Trilean.split)

lemma not_Unavailable_split: "r = Unavailable \<longleftrightarrow> r \<noteq> TTrue \<and> r \<noteq> TFalse"
  by (cases r) auto

text \<open>
  A client is threatened as its feed policy says. With \<open>any\<close>: some feed is known to fail, or the
  client opts into assuming the worst and some feed is unknown. With \<open>all\<close>: it has a feed, none is
  known to hold, and all are known to fail unless the client assumes the worst of the unknown ones.
\<close>

theorem clientThreatened_iff:
  "clientThreatened st ups c \<longleftrightarrow>
     (let feeds = set (clientFeeds ups c); pessimist = (cl_CommsLossAssumes c = CommsLossThreatened)
      in if cl_FeedPolicy c = ''all''
         then feeds \<noteq> {} \<and> (\<forall>f \<in> feeds. feedThreatened st f = TTrue \<or> pessimist \<and> feedThreatened st f = Unavailable)
         else (\<exists>f \<in> feeds. feedThreatened st f = TTrue \<or> pessimist \<and> feedThreatened st f = Unavailable))"
proof -
  let ?feeds = "clientFeeds ups c" and ?v = "feedThreatened st"
  have cases3: "?v f \<noteq> TFalse \<longleftrightarrow> ?v f = TTrue \<or> ?v f = Unavailable" for f by (cases "?v f") auto
  have known: "r = TTrue \<or> r = Unavailable \<and> P \<longleftrightarrow> (if P then r \<noteq> TFalse else r = TTrue)" for r P
    by (cases r) auto
  have all: "foldl TriAnd TTrue (map ?v ?feeds) = TTrue \<longleftrightarrow> (\<forall>f \<in> set ?feeds. ?v f = TTrue)"
    "foldl TriAnd TTrue (map ?v ?feeds) \<noteq> TFalse \<longleftrightarrow> (\<forall>f \<in> set ?feeds. ?v f \<noteq> TFalse)"
    by (simp_all add: tri.foldl_conj_tt tri.foldl_conj_ff image_iff image_subset_iff) metis
  have any: "foldl TriOr TFalse (map ?v ?feeds) = TTrue \<longleftrightarrow> (\<exists>f \<in> set ?feeds. ?v f = TTrue)"
    "foldl TriOr TFalse (map ?v ?feeds) \<noteq> TFalse \<longleftrightarrow> (\<exists>f \<in> set ?feeds. ?v f \<noteq> TFalse)"
    by (simp_all add: tri.foldl_disj_tt tri.foldl_disj_ff image_iff image_subset_iff) metis
  show ?thesis
    unfolding clientThreatened_fold Let_def known
    by (cases "cl_FeedPolicy c = ''all''"; cases "cl_CommsLossAssumes c = CommsLossThreatened")
      (auto simp: all any cases3)
qed

lemma feedThreatened_lost:
  assumes "lost st st'" and "feedThreatened st' f \<noteq> Unavailable"
  shows "feedThreatened st' f = feedThreatened st f"
proof -
  obtain v q t v' q' t' where g: "Store_Get st (f @ ''.status'') = (v, q, t)"
      "Store_Get st' (f @ ''.status'') = (v', q', t')" by (metis prod_cases3)
  have "FactValue st' (f @ ''.status'') \<noteq> GNil"
    using assms(2) g(2) by (auto simp: feedThreatened_def FactValue_def split: if_splits)
  from lost_same [OF assms(1) this g] show ?thesis by (simp add: feedThreatened_def g usable_def)
qed

text \<open>
  Losing contact with a UPS never threatens a client that did not ask for it: if a client that
  does not set \<open>comms_loss_assumes: threatened\<close> is threatened after some facts became stale or
  unknown, it was threatened before.
\<close>

theorem comms_loss_never_threatens:
  assumes "lost st st'" and "cl_CommsLossAssumes c \<noteq> CommsLossThreatened"
    and "clientThreatened st' ups c"
  shows "clientThreatened st ups c"
proof -
  have "feedThreatened st' f = TTrue \<Longrightarrow> feedThreatened st f = TTrue" for f
    using feedThreatened_lost [OF assms(1), of f] by simp
  with assms(2,3) show ?thesis unfolding clientThreatened_iff Let_def by (auto split: if_splits)
qed

end
