(* ===== verification/Executor.thy ===== *)
theory Executor
  imports Derived Netutil Validation
begin

text \<open>
  The executor (\<open>internal/engine/executor.go\<close>, \<open>resolve.go\<close>, \<open>macs.go\<close>): its state and the
  operations that are not part of running a sequence. Each operation takes the answers of the
  outside world as arguments: the time, whether the database accepts writes in this step (\<open>ok\<close>),
  and what a transport, the resolver or the kernel's neighbour table says. What leaves the process
  is appended to a log: the events emitted, the transport calls made, the writes the database
  refused, and the journal files written and pruned (\<open>Journal\<close> says what these do to the directory).
\<close>

section \<open>Environment and state\<close>

record Timings =
  tm_Probe :: duration
  tm_Policy :: duration
  tm_QualityRefresh :: duration
  tm_StagePoll :: duration
  tm_ShutdownProbe :: duration
  tm_WakeGatePoll :: duration
  tm_DryRunStep :: duration

definition DefaultTimings :: Timings where
  "DefaultTimings = \<lparr>tm_Probe = 30 * Second, tm_Policy = 5 * Second, tm_QualityRefresh = 5 * Second,
     tm_StagePoll = 2 * Second, tm_ShutdownProbe = 5 * Second, tm_WakeGatePoll = 10 * Second,
     tm_DryRunStep = Second\<rparr>"

definition dwellRetention :: duration where "dwellRetention = 24 * Hour"
definition retentionInterval :: duration where "retentionInterval = Hour"
definition modeKey :: string where "modeKey = ''mode''"

text \<open>
  What is fixed while the daemon runs: the configuration, the registered transports, the timings,
  the runtime, the order SQLite gives timestamps, and the serialisation of the configuration
  (\<open>yaml.Marshal\<close>).
\<close>

record engine_env =
  en_cfg :: Config
  en_transports :: "string \<rightharpoonup> Transport"
  en_timings :: Timings
  en_rt :: rt
  en_lt :: "instant \<Rightarrow> instant \<Rightarrow> bool"
  en_snapshot :: "Config \<Rightarrow> string option"

datatype effect =
    Emit string "string list"
  | Dispatch string string Client ActionType
  | DBError
  | Export string
  | PruneFiles instant

record Executor =
  e_store :: Store
  e_evaluator :: Evaluator
  e_db :: DB
  e_disk :: "DB list"
  e_mode :: Mode
  e_active :: "ActiveSequence option"
  e_clientStates :: "string \<rightharpoonup> ClientState"
  e_clientStateSince :: "string \<rightharpoonup> instant"
  e_upsSources :: "string list option"
  e_wouldTrigger :: "string set"
  e_learnedMACs :: "string \<rightharpoonup> LearnedMAC"
  e_macAttempts :: "string \<rightharpoonup> instant"
  e_cancelled :: bool
  e_log :: "effect list"

text \<open>\<open>NewExecutor\<close>, for a store, an evaluator and an open database.\<close>

definition NewExecutor :: "engine_env \<Rightarrow> Store \<Rightarrow> Evaluator \<Rightarrow> DB \<Rightarrow> Executor" where
  "NewExecutor en st ev db =
     \<lparr>e_store = st, e_evaluator = ev, e_db = db, e_disk = [db], e_mode = ParseMode (ca_Mode (cf_Canarium (en_cfg en))),
      e_active = None, e_clientStates = Map.empty, e_clientStateSince = Map.empty, e_upsSources = None,
      e_wouldTrigger = {}, e_learnedMACs = Map.empty, e_macAttempts = Map.empty, e_cancelled = False,
      e_log = []\<rparr>"

definition emit :: "effect \<Rightarrow> Executor \<Rightarrow> Executor" where
  "emit x e = e\<lparr>e_log := e_log e @ [x]\<rparr>"

text \<open>
  A write under \<open>e.ctx\<close>: it fails when the database refuses it and once the context is cancelled.
  \<open>e_disk\<close> holds the databases the disk may come back with after a power cut: in WAL mode with
  \<open>synchronous = NORMAL\<close> a committed write may be lost with all that follow it, so a plain write adds
  a possibility and a durable one (\<open>state.Durably\<close>) leaves only itself.
\<close>

definition db_write :: "bool \<Rightarrow> (DB \<Rightarrow> DB) \<Rightarrow> Executor \<Rightarrow> Executor" where
  "db_write ok f e =
     (if ok \<and> \<not> e_cancelled e then e\<lparr>e_db := f (e_db e), e_disk := e_disk e @ [f (e_db e)]\<rparr> else emit DBError e)"

definition db_write_durable :: "bool \<Rightarrow> (DB \<Rightarrow> DB) \<Rightarrow> Executor \<Rightarrow> Executor" where
  "db_write_durable ok f e =
     (if ok \<and> \<not> e_cancelled e then e\<lparr>e_db := f (e_db e), e_disk := [f (e_db e)]\<rparr> else emit DBError e)"

section \<open>Mode and client states\<close>

definition SetMode :: "engine_env \<Rightarrow> Mode \<Rightarrow> Executor \<Rightarrow> Executor" where
  "SetMode en m e =
     (let previous = e_mode e;
          e1 = e\<lparr>e_mode := m, e_wouldTrigger := (if m \<noteq> ModeDisarmed then {} else e_wouldTrigger e)\<rparr>;
          e2 = (if previous = ModeDisarmed \<and> m \<noteq> ModeDisarmed
                then e1\<lparr>e_evaluator := foldl (\<lambda>ev p. ResetDwell (en_rt en) (pl_Trigger p) ev)
                       (e_evaluator e1) (cf_Plans (en_cfg en))\<rparr>
                else e1)
      in emit (Emit ''mode_changed'' [Mode_String m]) e2)"

definition clientState :: "Executor \<Rightarrow> string \<Rightarrow> ClientState" where
  "clientState e name = (case e_clientStates e name of None \<Rightarrow> StateUnknown | Some s \<Rightarrow> s)"

definition setClientState ::
  "bool \<Rightarrow> instant \<Rightarrow> string \<Rightarrow> ClientState \<Rightarrow> string option \<Rightarrow> Executor \<Rightarrow> Executor" where
  "setClientState ok now name s seq e =
     (let e1 = e\<lparr>e_clientStates := (e_clientStates e)(name \<mapsto> s),
                 e_clientStateSince := (if e_clientStates e name \<noteq> Some s
                    then (e_clientStateSince e)(name \<mapsto> now) else e_clientStateSince e)\<rparr>;
          e2 = db_write ok (SaveClientState now name (ClientState_String s) seq) e1
      in emit (Emit ''client_state_changed'' [name, ClientState_String s]) e2)"

definition timeSinceSettled :: "Executor \<Rightarrow> instant \<Rightarrow> string \<Rightarrow> duration" where
  "timeSinceSettled e now name = (case e_clientStateSince e name of None \<Rightarrow> 0 | Some since \<Rightarrow> now - since)"

section \<open>The slot of the running sequence\<close>

definition setActiveSequence :: "ActiveSequence \<Rightarrow> Executor \<Rightarrow> bool \<times> Executor" where
  "setActiveSequence a e = (if e_active e \<noteq> None then (False, e) else (True, e\<lparr>e_active := Some a\<rparr>))"

definition clearActiveSequence :: "Executor \<Rightarrow> Executor" where
  "clearActiveSequence e = e\<lparr>e_active := None\<rparr>"

definition on_active :: "(ActiveSequence \<Rightarrow> ActiveSequence) \<Rightarrow> Executor \<Rightarrow> Executor" where
  "on_active f e = e\<lparr>e_active := map_option f (e_active e)\<rparr>"

definition saveSequence :: "bool \<Rightarrow> Executor \<Rightarrow> Executor" where
  "saveSequence ok e =
     (case e_active e of None \<Rightarrow> e | Some a \<Rightarrow> db_write ok (SaveSequence (persistable a)) e)"

definition saveSequenceDurable :: "bool \<Rightarrow> Executor \<Rightarrow> Executor" where
  "saveSequenceDurable ok e =
     (case e_active e of None \<Rightarrow> e | Some a \<Rightarrow> db_write_durable ok (SaveSequence (persistable a)) e)"

definition saveIntentDurable :: "bool \<Rightarrow> Intent \<Rightarrow> Executor \<Rightarrow> Executor" where
  "saveIntentDurable ok it = db_write_durable ok (SaveIntent it)"

definition saveIntent :: "bool \<Rightarrow> Intent \<Rightarrow> Executor \<Rightarrow> Executor" where
  "saveIntent ok it = db_write ok (SaveIntent it)"

text \<open>The operator's requests (\<open>sequence_run.go\<close>): \<open>Inl\<close> is the error returned.\<close>

definition ForceStage :: "string \<Rightarrow> Executor \<Rightarrow> string + Executor" where
  "ForceStage reason e =
     (case e_active e of
        None \<Rightarrow> Inl ''no active sequence''
      | Some a \<Rightarrow> Inr (e\<lparr>e_active := Some (RequestProceed reason a)\<rparr>))"

definition AbortSequence :: "string \<Rightarrow> Executor \<Rightarrow> string + Executor" where
  "AbortSequence reason e =
     (case e_active e of
        None \<Rightarrow> Inl ''no active sequence''
      | Some a \<Rightarrow>
          (case RequestAbort reason a of
             (False, _) \<Rightarrow> Inl (''sequence '' @ sq_ID (as_seq a) @
                '' has passed the point of no return and cannot be aborted'')
           | (True, a') \<Rightarrow> Inr (e\<lparr>e_active := Some a'\<rparr>)))"

definition findPlan :: "Config \<Rightarrow> string \<Rightarrow> PlanConfig option" where
  "findPlan cfg name = find (\<lambda>p. pl_Name p = name) (cf_Plans cfg)"

definition findClientConfig :: "Config \<Rightarrow> string \<Rightarrow> ClientConfig option" where
  "findClientConfig cfg name = find (\<lambda>c. cl_Name c = name) (cf_Clients cfg)"

section \<open>Addresses (resolve.go, macs.go)\<close>

definition clientMAC :: "ClientConfig \<Rightarrow> string" where
  "clientMAC c =
     (case cl_Wake c of None \<Rightarrow> cl_MAC c | Some w \<Rightarrow> (if wc_MAC w \<noteq> [] then wc_MAC w else cl_MAC c))"

definition pinned_addr :: "ActiveSequence option \<Rightarrow> string \<Rightarrow> ResolvedAddr option" where
  "pinned_addr a name = (case a of None \<Rightarrow> None | Some a \<Rightarrow> sq_ResolvedAddrs (as_seq a) name)"

definition macFor :: "Executor \<Rightarrow> ActiveSequence option \<Rightarrow> ClientConfig \<Rightarrow> string" where
  "macFor e a c =
     (if clientMAC c \<noteq> [] then clientMAC c
      else case pinned_addr a (cl_Name c) of
             Some p \<Rightarrow> (if ra_MAC p \<noteq> [] then ra_MAC p
                        else case e_learnedMACs e (cl_Name c) of None \<Rightarrow> [] | Some m \<Rightarrow> lm_MAC m)
           | None \<Rightarrow> (case e_learnedMACs e (cl_Name c) of None \<Rightarrow> [] | Some m \<Rightarrow> lm_MAC m))"

definition addressFor :: "ActiveSequence option \<Rightarrow> ClientConfig \<Rightarrow> string" where
  "addressFor a c =
     (case pinned_addr a (cl_Name c) of
        None \<Rightarrow> cl_Address c
      | Some p \<Rightarrow> (if ra_IP p = [] then cl_Address c else ra_IP p))"

definition buildClient :: "engine_env \<Rightarrow> ClientConfig \<Rightarrow> Client" where
  "buildClient en c =
     \<lparr>ec_Name = cl_Name c, ec_Description = cl_Description c, ec_Transport = cl_Transport c,
      ec_Address = cl_Address c, ec_MAC = cl_MAC c, ec_Credentials = cl_Credentials c,
      ec_Tags = cl_Tags c, ec_Feeds = cl_Feeds c,
      ec_FeedPolicy = (if cl_FeedPolicy c = ''all'' then FeedPolicyAll else FeedPolicyAny),
      ec_ShutdownBudget = duration_or (en_rt en) (cl_ShutdownBudget c) DefaultShutdownBudget,
      ec_WakePolicy = (if cl_WakePolicy c = ''retain_state'' then WakePolicyRetainState else WakePolicyPowerState),
      ec_DependsOn = cl_DependsOn c, ec_After = cl_After c, ec_Before = cl_Before c,
      ec_ProbeConfig = (case cl_Probe c of
          None \<Rightarrow> \<lparr>ep_Method = [], ep_Port = 0, ep_Timeout = 0\<rparr>
        | Some p \<Rightarrow> \<lparr>ep_Method = pr_Method p, ep_Port = pr_Port p, ep_Timeout = duration_or (en_rt en) (pr_Timeout p) 0\<rparr>),
      ec_WakeConfig = cl_Wake c, ec_TransportConfig = cl_Config c,
      ec_GuardPeriod = duration_or (en_rt en) (cl_GuardPeriod c) DefaultGuardPeriod\<rparr>"

definition buildClientFor :: "engine_env \<Rightarrow> Executor \<Rightarrow> ActiveSequence option \<Rightarrow> ClientConfig \<Rightarrow> Client" where
  "buildClientFor en e a c =
     (buildClient en c)\<lparr>ec_Address := addressFor a c, ec_MAC := macFor e a c\<rparr>"

definition macRefreshInterval :: duration where "macRefreshInterval = 6 * Hour"
definition macRetryInterval :: duration where "macRetryInterval = 5 * Minute"

definition shouldLookUpMAC :: "instant \<Rightarrow> string \<Rightarrow> Executor \<Rightarrow> bool" where
  "shouldLookUpMAC now name e =
     (let interval = (if e_learnedMACs e name \<noteq> None then macRefreshInterval else macRetryInterval)
      in case e_macAttempts e name of None \<Rightarrow> True | Some tried \<Rightarrow> now - tried \<ge> interval)"

definition noteMACAttempt :: "instant \<Rightarrow> string \<Rightarrow> Executor \<Rightarrow> Executor" where
  "noteMACAttempt now name e = e\<lparr>e_macAttempts := (e_macAttempts e)(name \<mapsto> now)\<rparr>"

text \<open>
  What the world answers when a hardware address is looked up: \<open>mw_device\<close> is the answer of the
  transport (\<open>None\<close> on an error), \<open>mw_neighbour\<close> the neighbour table.
\<close>

record mac_world =
  mw_device :: "string \<Rightarrow> string option"
  mw_neighbour :: "string \<Rightarrow> string"
  mw_literal :: "string \<Rightarrow> bool"
  mw_resolve :: "string \<Rightarrow> string list"

definition lookUpMAC :: "engine_env \<Rightarrow> mac_world \<Rightarrow> ClientConfig \<Rightarrow> string \<Rightarrow> string \<times> string" where
  "lookUpMAC en w c ip =
     (let neighbour = (if ip = [] then ([], [])
            else case NormaliseMAC (mw_neighbour w ip) of
                   Some m \<Rightarrow> if mw_neighbour w ip \<noteq> [] then (m, ''the neighbour table'') else ([], [])
                 | None \<Rightarrow> ([], []))
      in case en_transports en (cl_Transport c) of
           None \<Rightarrow> neighbour
         | Some t \<Rightarrow>
             (if \<not> tr_Discovers t then neighbour
              else case mw_device w (cl_Name c) of
                     None \<Rightarrow> neighbour
                   | Some found \<Rightarrow>
                       (if found = [] then neighbour
                        else case NormaliseMAC found of
                               Some m \<Rightarrow> (m, ''the '' @ cl_Transport c @ '' API'')
                             | None \<Rightarrow> neighbour)))"

definition recordLearnedMAC :: "bool \<Rightarrow> instant \<Rightarrow> string \<Rightarrow> string \<Rightarrow> string \<Rightarrow> Executor \<Rightarrow> Executor" where
  "recordLearnedMAC ok now client mac source e =
     (let entry = \<lparr>lm_Client = client, lm_MAC = mac, lm_Source = source,
            lm_LearnedAt = (case e_learnedMACs e client of
                None \<Rightarrow> now | Some p \<Rightarrow> (if lm_MAC p = mac then lm_LearnedAt p else now)),
            lm_ConfirmedAt = now\<rparr>
      in db_write ok (SaveLearnedMAC entry) (e\<lparr>e_learnedMACs := (e_learnedMACs e)(client \<mapsto> entry)\<rparr>))"

definition discoverMAC ::
  "engine_env \<Rightarrow> bool \<Rightarrow> instant \<Rightarrow> mac_world \<Rightarrow> ClientConfig \<Rightarrow> string \<Rightarrow> Executor \<Rightarrow> string \<times> Executor" where
  "discoverMAC en ok now w c ip e =
     (case e_learnedMACs e (cl_Name c) of
        Some m \<Rightarrow> (lm_MAC m, e)
      | None \<Rightarrow>
          (case lookUpMAC en w c ip of (mac, source) \<Rightarrow>
             if mac = [] then ([], e) else (mac, recordLearnedMAC ok now (cl_Name c) mac source e)))"

text \<open>One round of the loop of \<open>resolveClientAddresses\<close>.\<close>

definition resolve_client ::
  "engine_env \<Rightarrow> bool \<Rightarrow> instant \<Rightarrow> mac_world \<Rightarrow> (string \<rightharpoonup> ResolvedAddr) \<times> Executor \<Rightarrow> ClientConfig \<Rightarrow>
   (string \<rightharpoonup> ResolvedAddr) \<times> Executor" where
  "resolve_client en ok now w acc c =
     (case acc of (resolved, e) \<Rightarrow>
        if cl_Address c = [] then (resolved, e)
        else let ip = (if mw_literal w (cl_Address c) then cl_Address c
                       else case mw_resolve w (cl_Address c) of [] \<Rightarrow> [] | a # _ \<Rightarrow> a);
                 (mac, e') = (if clientMAC c = [] then discoverMAC en ok now w c ip e else (clientMAC c, e))
             in (resolved(cl_Name c \<mapsto> \<lparr>ra_IP = ip, ra_MAC = mac, ra_Hostname = cl_Address c, ra_ResolvedAt = now\<rparr>), e'))"

definition resolveClientAddresses ::
  "engine_env \<Rightarrow> bool \<Rightarrow> instant \<Rightarrow> mac_world \<Rightarrow> Executor \<Rightarrow> (string \<rightharpoonup> ResolvedAddr) \<times> Executor" where
  "resolveClientAddresses en ok now w e = foldl (resolve_client en ok now w) (Map.empty, e) (cf_Clients (en_cfg en))"

definition learn_client ::
  "engine_env \<Rightarrow> bool \<Rightarrow> instant \<Rightarrow> mac_world \<Rightarrow> Executor \<Rightarrow> ClientConfig \<Rightarrow> Executor" where
  "learn_client en ok now w e c =
     (if clientMAC c \<noteq> [] \<or> \<not> shouldLookUpMAC now (cl_Name c) e \<or> clientState e (cl_Name c) \<noteq> StateUp then e
      else let e1 = noteMACAttempt now (cl_Name c) e
           in case lookUpMAC en w c (addressFor None c) of (mac, source) \<Rightarrow>
                if mac = [] then e1 else recordLearnedMAC ok now (cl_Name c) mac source e1)"

definition learnMACs :: "engine_env \<Rightarrow> bool \<Rightarrow> instant \<Rightarrow> mac_world \<Rightarrow> Executor \<Rightarrow> Executor" where
  "learnMACs en ok now w e =
     (if e_active e \<noteq> None then e else foldl (learn_client en ok now w) e (cf_Clients (en_cfg en)))"

definition restoreLearnedMACs :: "engine_env \<Rightarrow> Executor \<Rightarrow> Executor" where
  "restoreLearnedMACs en e =
     e\<lparr>e_learnedMACs := (\<lambda>n. case LearnedMACs (e_db e) n of
          None \<Rightarrow> e_learnedMACs e n
        | Some m \<Rightarrow> (if n \<in> buildClientNameSet (en_cfg en) \<and> NormaliseMAC (lm_MAC m) \<noteq> None
                     then Some m else e_learnedMACs e n))\<rparr>"

section \<open>The loops (executor.go)\<close>

text \<open>
  \<open>probeAllClients\<close>: \<open>probe\<close> is the answer of a client's transport, \<open>None\<close> for an inconclusive
  probe.
\<close>

definition probe_client ::
  "engine_env \<Rightarrow> bool \<Rightarrow> instant \<Rightarrow> (string \<Rightarrow> ClientState option) \<Rightarrow> Executor \<Rightarrow> ClientConfig \<Rightarrow> Executor" where
  "probe_client en ok now probe e c =
     (case en_transports en (cl_Transport c) of
        None \<Rightarrow> e
      | Some t \<Rightarrow>
          if \<not> transportCan t ActionProbe then e
          else case probe (cl_Name c) of
                 None \<Rightarrow> e
               | Some probeState \<Rightarrow>
                   (let current = clientState e (cl_Name c)
                    in if current = StateShuttingDown \<or> current = StateWaking then
                         (if probeState = StateUp \<and> current = StateWaking
                          then setClientState ok now (cl_Name c) StateUp None e
                          else if probeState = StateDown \<and> current = StateShuttingDown
                          then setClientState ok now (cl_Name c) StateDown None e
                          else e)
                       else if probeState \<noteq> current
                       then setClientState ok now (cl_Name c) probeState None e
                       else e))"

definition probeAllClients ::
  "engine_env \<Rightarrow> bool \<Rightarrow> instant \<Rightarrow> (string \<Rightarrow> ClientState option) \<Rightarrow> Executor \<Rightarrow> Executor" where
  "probeAllClients en ok now probe e = foldl (probe_client en ok now probe) e (cf_Clients (en_cfg en))"

definition noteWouldTrigger :: "string \<Rightarrow> bool \<Rightarrow> Executor \<Rightarrow> Executor" where
  "noteWouldTrigger plan triggered e =
     (let was = plan \<in> e_wouldTrigger e;
          e1 = e\<lparr>e_wouldTrigger := (if triggered then insert plan (e_wouldTrigger e) else e_wouldTrigger e - {plan})\<rparr>
      in if triggered \<and> \<not> was then emit (Emit ''would_trigger'' [plan]) e1 else e1)"

definition newSequenceFor :: "engine_env \<Rightarrow> instant \<Rightarrow> PlanConfig \<Rightarrow> Executor \<Rightarrow> ActiveSequence" where
  "newSequenceFor en now plan e =
     newActiveSequence
       \<lparr>sq_ID = ''seq_'' @ show_int now, sq_PlanName = pl_Name plan, sq_State = SeqStateShuttingDown,
        sq_CurrentStage = 0, sq_PonrCrossed = False, sq_Aborted = False, sq_PostShutdownRun = False,
        sq_StartedAt = now, sq_CompletedAt = None, sq_ConfigSnapshot = None,
        sq_PreSequenceState = (\<lambda>n. if n \<in> buildClientNameSet (en_cfg en)
           then Some (ClientState_String (clientState e n)) else None),
        sq_ResolvedAddrs = Map.empty\<rparr> plan"

text \<open>
  \<open>evaluatePolicies\<close>: the loop over the plans, which a running sequence ends. The result says
  whether a sequence was started, whose goroutine begins at \<open>executeSequence\<close>.
\<close>

fun evaluate_plans ::
  "engine_env \<Rightarrow> instant \<Rightarrow> Mode \<Rightarrow> PlanConfig list \<Rightarrow> Executor \<Rightarrow> bool \<times> Executor" where
  "evaluate_plans en now mode [] e = (False, e)"
| "evaluate_plans en now mode (plan # plans) e =
     (if e_active e \<noteq> None then (False, e)
      else case Evaluate (en_rt en) (e_store e) now (pl_Trigger plan) (e_evaluator e) of (v, ev) \<Rightarrow>
        let triggered = (v = TTrue); e1 = e\<lparr>e_evaluator := ev\<rparr>
        in if mode = ModeDisarmed
           then evaluate_plans en now mode plans (noteWouldTrigger (pl_Name plan) triggered e1)
           else if \<not> triggered then evaluate_plans en now mode plans e1
           else case setActiveSequence (newSequenceFor en now plan e1) e1 of
                  (False, e2) \<Rightarrow> evaluate_plans en now mode plans e2
                | (True, e2) \<Rightarrow>
                    (case evaluate_plans en now mode plans (emit (Emit ''trigger'' [pl_Name plan]) e2) of
                       (_, e3) \<Rightarrow> (True, e3)))"

definition evaluatePolicies :: "engine_env \<Rightarrow> instant \<Rightarrow> Executor \<Rightarrow> bool \<times> Executor" where
  "evaluatePolicies en now e = evaluate_plans en now (e_mode e) (cf_Plans (en_cfg en)) e"

text \<open>\<open>upsSources\<close> under its \<open>sync.Once\<close>: the list of the first call is kept.\<close>

definition cached_ups :: "string list \<Rightarrow> Executor \<Rightarrow> string list \<times> Executor" where
  "cached_ups keys e =
     (case e_upsSources e of
        Some u \<Rightarrow> (u, e)
      | None \<Rightarrow> (upsSources keys, e\<lparr>e_upsSources := Some (upsSources keys)\<rparr>))"

definition quality_tick :: "engine_env \<Rightarrow> string list \<Rightarrow> instant \<Rightarrow> Executor \<Rightarrow> Executor" where
  "quality_tick en keys now e =
     (case cached_ups keys e of (ups, e1) \<Rightarrow> e1\<lparr>e_store := refreshFacts (en_cfg en) ups now (e_store e1)\<rparr>)"

definition pruneJournal :: "engine_env \<Rightarrow> bool \<Rightarrow> instant \<Rightarrow> duration \<Rightarrow> Executor \<Rightarrow> Executor" where
  "pruneJournal en ok now retain e =
     (if e_active e \<noteq> None then e
      else if \<not> ok \<or> e_cancelled e then emit DBError e
      else let e1 = db_write ok (\<lambda>db. snd (PruneJournal (en_lt en) (now - retain) db)) e
           in (emit (PruneFiles (now - retain)) e1)\<lparr>e_evaluator :=
                 store_write (PruneDwellTrackers (now - dwellRetention)) (e_evaluator e1)\<rparr>)"

definition retention_tick :: "engine_env \<Rightarrow> bool \<Rightarrow> instant \<Rightarrow> Executor \<Rightarrow> Executor" where
  "retention_tick en ok now e =
     (let retain = duration_or (en_rt en) (ca_JournalRetain (cf_Canarium (en_cfg en))) DefaultJournalRetain
      in if retain \<le> 0 then e else pruneJournal en ok now retain e)"

section \<open>Starting\<close>

definition restoreMode :: "engine_env \<Rightarrow> Executor \<Rightarrow> Executor" where
  "restoreMode en e =
     (let can = cf_Canarium (en_cfg en); stored = GetKV modeKey (e_db e)
      in if ca_ConfigReadonly can \<or> stored = [] then e
         else case ParseModeStrict stored of
                (_, False) \<Rightarrow> e
              | (mode, True) \<Rightarrow> (if mode = ParseMode (ca_Mode can) then e else e\<lparr>e_mode := mode\<rparr>))"

text \<open>
  \<open>restoreState\<close>; the result says whether a sequence was restored, whose goroutine begins at
  \<open>resumeSequence\<close>.
\<close>

definition restore_clients :: "engine_env \<Rightarrow> Executor \<Rightarrow> Executor" where
  "restore_clients en e =
     e\<lparr>e_clientStates := (\<lambda>n. case GetAllClientStates (e_db e) n of
          None \<Rightarrow> e_clientStates e n
        | Some s \<Rightarrow> (if n \<in> buildClientNameSet (en_cfg en) then Some (ParseClientState s) else e_clientStates e n))\<rparr>"

definition restoreState :: "engine_env \<Rightarrow> bool \<Rightarrow> instant \<Rightarrow> Executor \<Rightarrow> bool \<times> Executor" where
  "restoreState en ok now e =
     (let e1 = restoreLearnedMACs en (restore_clients en e)
      in case GetActiveSequence (en_lt en) (e_db e1) of
           None \<Rightarrow> (False, e1)
         | Some seq \<Rightarrow>
             (case findPlan (en_cfg en) (sq_PlanName seq) of
                None \<Rightarrow> (False, db_write ok (FailOrphanedSequence now (sq_ID seq)
                    (''plan '' @ sq_PlanName seq @ '' is no longer in the configuration'')) e1)
              | Some plan \<Rightarrow>
                  (case setActiveSequence (newActiveSequence seq plan) e1 of (_, e2) \<Rightarrow> (True, e2))))"

definition start_executor :: "engine_env \<Rightarrow> string list \<Rightarrow> bool \<Rightarrow> instant \<Rightarrow> Executor \<Rightarrow> bool \<times> Executor" where
  "start_executor en keys ok now e =
     (let e1 = restoreMode en e;
          e2 = e1\<lparr>e_store := registerDerivedFacts (en_cfg en) (tm_Policy (en_timings en)) (e_store e1)\<rparr>
      in case cached_ups keys e2 of (ups, e3) \<Rightarrow>
           restoreState en ok now (e3\<lparr>e_store := updateDerivedFacts (en_cfg en) ups now (e_store e3)\<rparr>))"

end
