(* ===== verification/Sequence_Run.thy ===== *)
theory Sequence_Run
  imports Executor
begin

text \<open>
  Running a sequence (\<open>internal/engine/sequence_run.go\<close>). The goroutine of a sequence is a state
  machine: \<open>pc\<close> names the place in the code it waits at, and a step runs the code from there to the
  next wait, with the answers of the world as its input. The goroutines \<open>executeStage\<close> starts, one
  per client, have program counters of their own, and a step of the stage advances one of them.
  Between two steps anything else the daemon does may happen (\<open>daemon_step\<close>).
\<close>

section \<open>Program counters and inputs\<close>

text \<open>
  \<open>CStart\<close>, \<open>CLocked\<close> (the lock is taken), \<open>CClaimed\<close> (the intent is written), \<open>CDry\<close> (the pause of a dry run), \<open>CExec\<close> (the
  transport has been called; with the deadline of the context), \<open>CAwait\<close> (the loop of
  \<open>awaitClientDown\<close>, with its deadline), \<open>CSelect\<close> (its \<open>select\<close>) and \<open>CDone\<close>. The instant is the
  start of \<open>shutdownClient\<close>.
\<close>

datatype client_pc =
    CStart
  | CLocked instant
  | CClaimed instant Intent
  | CDry instant instant
  | CExec instant Intent instant
  | CAwait instant instant instant
  | CSelect instant instant instant
  | CDone ClientResult

datatype pc =
    Idle
  | Executing
  | Resuming
  | StageLoop nat
  | StageWait nat instant
  | StageRun nat StageRecord duration "(string \<times> client_pc) list"
  | PostExec
  | Settle "ClientConfig list" "instant option"
  | Gate
  | WakeNext "string list" nat
  | WakeGuard "string list" nat instant
  | WakeStart "string list" nat
  | WakeDry "string list" nat instant
  | WakeSend "string list" nat nat
  | WakeSent "string list" nat nat
  | WakeProbe "string list" nat nat instant
  | WakeWait "string list" nat nat instant instant
  | WakeStagger "string list" nat instant

datatype exec_answer = ExecError string | ExecAnswer bool string | ExecNothing

text \<open>
  The input of a step: the time, whether the database works, what the transport's \<open>Execute\<close> and
  \<open>Probe\<close> answer (\<open>None\<close>: an error), the answers to address lookups, which goroutine of a stage
  moves, and which case a \<open>select\<close> takes when both are ready.
\<close>

record tick =
  tk_now :: instant
  tk_ok :: bool
  tk_exec :: exec_answer
  tk_probe :: "string \<Rightarrow> ClientState option"
  tk_mac :: mac_world
  tk_who :: nat
  tk_timer :: bool

text \<open>
  \<open>e.sleep\<close> until an instant: it answers true when the time has come and false when the context
  is cancelled first; \<open>None\<close> while it sleeps.
\<close>

definition slept :: "tick \<Rightarrow> instant \<Rightarrow> Executor \<Rightarrow> bool option" where
  "slept tk until e =
     (if until \<le> tk_now tk \<and> (\<not> e_cancelled e \<or> tk_timer tk) then Some True
      else if e_cancelled e then Some False
      else None)"

definition eval_cond :: "engine_env \<Rightarrow> tick \<Rightarrow> ConditionConfig \<Rightarrow> Executor \<Rightarrow> bool \<times> Executor" where
  "eval_cond en tk c e =
     (case Evaluate (en_rt en) (e_store e) (tk_now tk) c (e_evaluator e) of (v, ev) \<Rightarrow>
        (v = TTrue, e\<lparr>e_evaluator := ev\<rparr>))"

definition seq_id :: "Executor \<Rightarrow> string" where
  "seq_id e = (case e_active e of None \<Rightarrow> [] | Some a \<Rightarrow> sq_ID (as_seq a))"

section \<open>Shutting a client down\<close>

definition client_result :: "instant \<Rightarrow> instant \<Rightarrow> ClientState \<Rightarrow> string \<Rightarrow> client_pc" where
  "client_result t0 now s err =
     CDone \<lparr>cr_State = ClientState_String s, cr_StartedAt = t0, cr_CompletedAt = Some now, cr_Error = err\<rparr>"

text \<open>\<open>shutdownClient\<close> up to the lock.\<close>

definition claim_client :: "engine_env \<Rightarrow> tick \<Rightarrow> string \<Rightarrow> Executor \<Rightarrow> client_pc \<times> Executor" where
  "claim_client en tk name e =
     (let now = tk_now tk; sid = seq_id e
      in case findClientConfig (en_cfg en) name of
           None \<Rightarrow> (client_result now now StateUnknown ''client not found in config'', e)
         | Some c \<Rightarrow>
             (case en_transports en (cl_Transport c) of
                None \<Rightarrow> (client_result now now StateFailed (''unknown transport '' @ cl_Transport c),
                         setClientState (tk_ok tk) now name StateFailed (Some sid) e)
              | Some _ \<Rightarrow>
                  if \<not> tk_ok tk \<or> e_cancelled e
                  then (client_result now now StateFailed ''could not acquire client lock'', emit DBError e)
                  else case AcquireClientLock now name sid (e_db e) of
                         (False, _) \<Rightarrow>
                           (client_result now now (clientState e name)
                              (''locked by sequence '' @ ClientLockHolder name (e_db e)), e)
                       | (True, _) \<Rightarrow>
                           (CLocked now, db_write True (\<lambda>db. snd (AcquireClientLock now name sid db)) e)))"

text \<open>The intent and the client's state, which say what is about to be done.\<close>

definition record_intent :: "tick \<Rightarrow> string \<Rightarrow> instant \<Rightarrow> Executor \<Rightarrow> client_pc \<times> Executor" where
  "record_intent tk name t0 e =
     (let it = \<lparr>it_ID = ''int_'' @ name @ ''_'' @ show_int (tk_now tk), it_SequenceID = seq_id e,
                it_ClientName = name, it_Action = ''shutdown'', it_Timestamp = tk_now tk,
                it_Status = IntentDispatching, it_Result = None\<rparr>
      in (CClaimed t0 it,
          setClientState (tk_ok tk) (tk_now tk) name StateShuttingDown (Some (seq_id e))
            (saveIntentDurable (tk_ok tk) it e)))"

text \<open>The dry run, or the call of the transport under a context with the stage's budget.\<close>

definition dispatch_client ::
  "engine_env \<Rightarrow> tick \<Rightarrow> duration \<Rightarrow> string \<Rightarrow> instant \<Rightarrow> Intent \<Rightarrow> Executor \<Rightarrow> client_pc \<times> Executor" where
  "dispatch_client en tk budget name t0 it e =
     (if e_mode e = ModeDryRun then
        (CDry t0 (tk_now tk + tm_DryRunStep (en_timings en)),
         saveIntent (tk_ok tk) (it\<lparr>it_Status := IntentDispatched,
            it_Result := Some \<lparr>dr_Success = True, dr_Message = ''dry-run''\<rparr>\<rparr>) e)
      else case findClientConfig (en_cfg en) name of
             None \<Rightarrow> (client_result t0 (tk_now tk) StateUnknown ''client not found in config'', e)
           | Some c \<Rightarrow>
               (case en_transports en (cl_Transport c) of
                  None \<Rightarrow> (client_result t0 (tk_now tk) StateFailed (''unknown transport '' @ cl_Transport c), e)
                | Some t \<Rightarrow>
                    (CExec t0 it (tk_now tk + budget),
                     emit (Dispatch (seq_id e) (cl_Transport c) (buildClientFor en e (e_active e) c)
                            (remapAction t ActionShutdown)) e)))"

text \<open>The transport has answered; \<open>awaitClientDown\<close> begins.\<close>

definition exec_result :: "exec_answer \<Rightarrow> DBActionResult" where
  "exec_result a =
     (case a of
        ExecError err \<Rightarrow> \<lparr>dr_Success = False, dr_Message = err\<rparr>
      | ExecAnswer ok m \<Rightarrow> \<lparr>dr_Success = ok, dr_Message = m\<rparr>
      | ExecNothing \<Rightarrow> \<lparr>dr_Success = False, dr_Message = ''transport returned no result''\<rparr>)"

definition answered_client ::
  "engine_env \<Rightarrow> tick \<Rightarrow> duration \<Rightarrow> string \<Rightarrow> instant \<Rightarrow> Intent \<Rightarrow> instant \<Rightarrow> Executor \<Rightarrow> client_pc \<times> Executor" where
  "answered_client en tk budget name t0 it ctx e =
     (let shutdown_budget = (case findClientConfig (en_cfg en) name of None \<Rightarrow> [] | Some c \<Rightarrow> cl_ShutdownBudget c);
          clientBudget = min (duration_or (en_rt en) shutdown_budget budget) budget
      in (CAwait t0 (tk_now tk + clientBudget) ctx,
          saveIntent (tk_ok tk) (it\<lparr>it_Status := IntentDispatched, it_Result := Some (exec_result (tk_exec tk))\<rparr>) e))"

definition unverified :: "tick \<Rightarrow> string \<Rightarrow> instant \<Rightarrow> Executor \<Rightarrow> client_pc \<times> Executor" where
  "unverified tk name t0 e =
     (client_result t0 (tk_now tk) StateDownUnverified ''budget expired before the host was confirmed down'',
      setClientState (tk_ok tk) (tk_now tk) name StateDownUnverified (Some (seq_id e)) e)"

definition awaitClientDown ::
  "tick \<Rightarrow> string \<Rightarrow> instant \<Rightarrow> instant \<Rightarrow> instant \<Rightarrow> Executor \<Rightarrow> client_pc \<times> Executor" where
  "awaitClientDown tk name t0 deadline ctx e =
     (if \<not> tk_now tk < deadline then unverified tk name t0 e
      else if tk_probe tk name = Some StateDown then
        (client_result t0 (tk_now tk) StateDown [],
         setClientState (tk_ok tk) (tk_now tk) name StateDown (Some (seq_id e)) e)
      else (CSelect t0 deadline ctx, e))"

definition await_select ::
  "tick \<Rightarrow> string \<Rightarrow> instant \<Rightarrow> instant \<Rightarrow> instant \<Rightarrow> Executor \<Rightarrow> client_pc \<times> Executor" where
  "await_select tk name t0 deadline ctx e =
     (if tk_timer tk then (CAwait t0 deadline ctx, e)
      else if ctx \<le> tk_now tk \<or> e_cancelled e then unverified tk name t0 e
      else (CSelect t0 deadline ctx, e))"

text \<open>One step of the goroutine of a client.\<close>

fun shutdownClient ::
  "engine_env \<Rightarrow> tick \<Rightarrow> duration \<Rightarrow> string \<Rightarrow> client_pc \<Rightarrow> Executor \<Rightarrow> client_pc \<times> Executor" where
  "shutdownClient en tk budget name CStart e = claim_client en tk name e"
| "shutdownClient en tk budget name (CLocked t0) e = record_intent tk name t0 e"
| "shutdownClient en tk budget name (CClaimed t0 it) e = dispatch_client en tk budget name t0 it e"
| "shutdownClient en tk budget name (CDry t0 until) e =
     (case slept tk until e of
        None \<Rightarrow> (CDry t0 until, e)
      | Some _ \<Rightarrow> (client_result t0 (tk_now tk) StateDown [],
                   setClientState (tk_ok tk) (tk_now tk) name StateDown (Some (seq_id e)) e))"
| "shutdownClient en tk budget name (CExec t0 it ctx) e = answered_client en tk budget name t0 it ctx e"
| "shutdownClient en tk budget name (CAwait t0 deadline ctx) e = awaitClientDown tk name t0 deadline ctx e"
| "shutdownClient en tk budget name (CSelect t0 deadline ctx) e = await_select tk name t0 deadline ctx e"
| "shutdownClient en tk budget name (CDone r) e = (CDone r, e)"

section \<open>A stage\<close>

text \<open>\<open>executeStage\<close> up to the start of its goroutines.\<close>

definition start_stage :: "engine_env \<Rightarrow> tick \<Rightarrow> StageConfig \<Rightarrow> nat \<Rightarrow> Executor \<Rightarrow> pc \<times> Executor" where
  "start_stage en tk stage i e =
     (let clients = ResolveClientRefs (sg_Clients stage) (en_cfg en);
          budget = duration_or (en_rt en) (sg_Budget stage) DefaultShutdownBudget;
          rec = \<lparr>sr_SequenceID = seq_id e, sr_StageIndex = i, sr_StageName = sg_Name stage,
                 sr_StartedAt = tk_now tk, sr_CompletedAt = None, sr_Clients = Map.empty\<rparr>
      in (StageRun i rec budget (map (\<lambda>n. (n, CStart)) clients), db_write (tk_ok tk) (SaveStageRecord rec) e))"

fun results_of :: "(string \<times> client_pc) list \<Rightarrow> (string \<rightharpoonup> ClientResult)" where
  "results_of [] = Map.empty"
| "results_of ((n, CDone r) # cs) = (results_of cs)(n \<mapsto> r)"
| "results_of (_ # cs) = results_of cs"

fun is_done :: "client_pc \<Rightarrow> bool" where
  "is_done (CDone _) = True"
| "is_done _ = False"

text \<open>
  A step of \<open>executeStage\<close>: the goroutine the input names moves; when all have ended (\<open>wg.Wait\<close>),
  the record is completed.
\<close>

definition executeStage ::
  "engine_env \<Rightarrow> tick \<Rightarrow> nat \<Rightarrow> StageRecord \<Rightarrow> duration \<Rightarrow> (string \<times> client_pc) list \<Rightarrow> Executor \<Rightarrow> pc \<times> Executor" where
  "executeStage en tk i rec budget cs e =
     (if list_all (\<lambda>(_, p). is_done p) cs then
        (StageLoop (Suc i),
         emit (Emit ''stage_complete'' [sr_StageName rec])
           (db_write (tk_ok tk) (SaveStageRecord (rec\<lparr>sr_CompletedAt := Some (tk_now tk), sr_Clients := results_of cs\<rparr>)) e))
      else if tk_who tk < length cs then
        (case cs ! tk_who tk of (name, p) \<Rightarrow>
           (case shutdownClient en tk budget name p e of (p', e') \<Rightarrow>
              (StageRun i rec budget (cs[tk_who tk := (name, p')]), e')))
      else (StageRun i rec budget cs, e))"

definition shouldAbort :: "engine_env \<Rightarrow> tick \<Rightarrow> ActiveSequence \<Rightarrow> Executor \<Rightarrow> bool \<times> Executor" where
  "shouldAbort en tk a e =
     (if sq_PonrCrossed (as_seq a) then (False, e)
      else if as_abortRequested a then (True, e)
      else case pl_Abort (as_plan a) of
             None \<Rightarrow> (False, e)
           | Some c \<Rightarrow> eval_cond en tk c e)"

definition handleAbort :: "engine_env \<Rightarrow> tick \<Rightarrow> ActiveSequence \<Rightarrow> Executor \<Rightarrow> pc \<times> Executor" where
  "handleAbort en tk a e =
     (let e1 = saveSequence (tk_ok tk) (on_active (MarkAborted \<circ> SetState SeqStateAborting) e)
      in (Settle (cf_Clients (en_cfg en)) None, emit (Emit ''abort'' [sq_PlanName (as_seq a)]) e1))"

text \<open>The end of \<open>handleAbort\<close>, \<open>resumeAbort\<close> and \<open>runShutdownStages\<close>: on to the wake gate.\<close>

definition to_gate :: "tick \<Rightarrow> Executor \<Rightarrow> pc \<times> Executor" where
  "to_gate tk e = (Gate, saveSequence (tk_ok tk) (on_active (SetState SeqStateWakeGate) e))"

text \<open>
  \<open>waitForShuttingDown\<close>: the clients still to look at and, while the first of them is waited for,
  its deadline.
\<close>

definition waitForShuttingDown ::
  "engine_env \<Rightarrow> tick \<Rightarrow> ClientConfig list \<Rightarrow> instant option \<Rightarrow> Executor \<Rightarrow> pc \<times> Executor" where
  "waitForShuttingDown en tk cs dl e =
     (case cs of
        [] \<Rightarrow> to_gate tk e
      | c # rest \<Rightarrow>
          (case dl of
             None \<Rightarrow>
               (if clientState e (cl_Name c) \<noteq> StateShuttingDown then (Settle rest None, e)
                else (Settle cs (Some (tk_now tk + duration_or (en_rt en) (cl_ShutdownBudget c) DefaultShutdownBudget)), e))
           | Some d \<Rightarrow>
               (if tk_now tk < d \<and> clientState e (cl_Name c) \<notin> {StateDown, StateDownUnverified, StateFailed}
                then (if e_cancelled e then to_gate tk e else (Settle cs dl, e))
                else (Settle rest None,
                      if clientState e (cl_Name c) = StateShuttingDown
                      then setClientState (tk_ok tk) (tk_now tk) (cl_Name c) StateDownUnverified (Some (seq_id e)) e
                      else e))))"

definition skip_result :: "instant \<Rightarrow> ClientState \<Rightarrow> ClientResult" where
  "skip_result now s =
     \<lparr>cr_State = ClientState_String s, cr_StartedAt = now, cr_CompletedAt = Some now,
      cr_Error = ''stage skipped: entry condition not met within wait_timeout''\<rparr>"

definition handleStageTimeout ::
  "engine_env \<Rightarrow> tick \<Rightarrow> ActiveSequence \<Rightarrow> StageConfig \<Rightarrow> nat \<Rightarrow> Executor \<Rightarrow> bool \<times> Executor" where
  "handleStageTimeout en tk a stage i e =
     (let policy = (if sg_WaitPolicy stage = [] then WaitPolicySkip else sg_WaitPolicy stage)
      in if policy = WaitPolicyHold then
           (let e1 = (if as_heldStage a \<noteq> sg_Name stage
                      then emit (Emit ''stage_held'' [sg_Name stage]) (on_active (SetHeldStage (sg_Name stage)) e)
                      else e)
            in (True, on_active (SetCurrentStage i) e1))
         else
           (let clients = ResolveClientRefs (sg_Clients stage) (en_cfg en);
                e1 = (if policy = WaitPolicyEscalate then emit (Emit ''stage_timeout'' [sg_Name stage]) e else e);
                e2 = emit (Emit ''stage_skipped'' (sg_Name stage # policy # clients)) e1;
                rec = \<lparr>sr_SequenceID = seq_id e, sr_StageIndex = i, sr_StageName = sg_Name stage,
                       sr_StartedAt = tk_now tk, sr_CompletedAt = Some (tk_now tk),
                       sr_Clients = (\<lambda>n. if n \<in> set clients then Some (skip_result (tk_now tk) (clientState e n)) else None)\<rparr>
            in (False, db_write (tk_ok tk) (SaveStageRecord rec) e2)))"

text \<open>A stage whose entry condition holds, or that is forced: the point of no return, then the stage.\<close>

definition enter_stage :: "engine_env \<Rightarrow> tick \<Rightarrow> StageConfig \<Rightarrow> nat \<Rightarrow> Executor \<Rightarrow> pc \<times> Executor" where
  "enter_stage en tk stage i e =
     (let e1 = on_active (SetHeldStage []) e;
          crossed = (case e_active e1 of None \<Rightarrow> False | Some a \<Rightarrow> fst (CrossPonr a));
          e2 = (if sg_PointOfNoReturn stage \<and> crossed
                then emit (Emit ''ponr_crossed'' [sg_Name stage])
                       (saveSequenceDurable (tk_ok tk) (on_active (snd \<circ> CrossPonr) e1))
                else e1)
      in start_stage en tk stage i (emit (Emit ''stage_start'' [sg_Name stage]) e2))"

text \<open>
  A round of the loop of \<open>waitForStage\<close>, with what \<open>runShutdownStages\<close> does with its outcome. A
  stage that times out under \<open>hold\<close>, and the next stage otherwise, is entered at the top of the loop.
\<close>

definition waitForStage ::
  "engine_env \<Rightarrow> tick \<Rightarrow> ActiveSequence \<Rightarrow> StageConfig \<Rightarrow> nat \<Rightarrow> instant \<Rightarrow> Executor \<Rightarrow> pc \<times> Executor" where
  "waitForStage en tk a stage i deadline e =
     (case eval_cond en tk (sg_When stage) e of
        (True, e1) \<Rightarrow> enter_stage en tk stage i e1
      | (False, e1) \<Rightarrow>
          (case ConsumeProceed a of
             (True, reason, a') \<Rightarrow>
               enter_stage en tk stage i (emit (Emit ''stage_forced'' [sg_Name stage, reason]) (e1\<lparr>e_active := Some a'\<rparr>))
           | (False, _) \<Rightarrow>
               (case shouldAbort en tk a e1 of
                  (True, e2) \<Rightarrow> handleAbort en tk a e2
                | (False, e2) \<Rightarrow>
                    if \<not> tk_now tk < deadline then
                      (case handleStageTimeout en tk a stage i e2 of
                         (True, e3) \<Rightarrow> (StageLoop i, e3)
                       | (False, e3) \<Rightarrow> (StageLoop (Suc i), e3))
                    else if e_cancelled e2 then (Idle, clearActiveSequence e2)
                    else (StageWait i deadline, e2))))"

section \<open>After the last stage\<close>

text \<open>\<open>executePostShutdown\<close> up to the answer of the transport; \<open>None\<close> when no call is made.\<close>

definition post_action :: "string \<Rightarrow> ActionType" where
  "post_action action =
     (if ToLower (TrimSpace action) \<in> {''outlet_on'', ''load_on''} then ActionOutletOn else ActionOutletOff)"

definition post_client :: "PostShutdownConfig \<Rightarrow> Client" where
  "post_client ps =
     \<lparr>ec_Name = ps_UPS ps, ec_Description = [], ec_Transport = [], ec_Address = ps_Host ps, ec_MAC = [],
      ec_Credentials = [], ec_Tags = [], ec_Feeds = [], ec_FeedPolicy = FeedPolicyAny, ec_ShutdownBudget = 0,
      ec_WakePolicy = WakePolicyPowerState, ec_DependsOn = [], ec_After = [], ec_Before = [],
      ec_ProbeConfig = \<lparr>ep_Method = [], ep_Port = 0, ep_Timeout = 0\<rparr>, ec_WakeConfig = None,
      ec_TransportConfig = [''command'' \<mapsto> GString (ps_Command ps), ''delay'' \<mapsto> GInt (ps_Delay ps),
        ''ups'' \<mapsto> GString (ps_UPS ps), ''port'' \<mapsto> GInt (ps_Port ps),
        ''username'' \<mapsto> GString (ps_Username ps), ''password'' \<mapsto> GString (ps_Password ps)],
      ec_GuardPeriod = 0\<rparr>"

definition executePostShutdown :: "engine_env \<Rightarrow> PostShutdownConfig \<Rightarrow> Executor \<Rightarrow> Executor option" where
  "executePostShutdown en ps e =
     (if e_mode e = ModeDryRun then None
      else case en_transports en ''nut'' of
             None \<Rightarrow> None
           | Some _ \<Rightarrow> Some (emit (Dispatch (seq_id e) ''nut'' (post_client ps) (post_action (ps_Action ps))) e))"

definition finish_post :: "tick \<Rightarrow> Executor \<Rightarrow> pc \<times> Executor" where
  "finish_post tk e = to_gate tk (saveSequence (tk_ok tk) e)"

definition after_stages :: "engine_env \<Rightarrow> tick \<Rightarrow> ActiveSequence \<Rightarrow> Executor \<Rightarrow> pc \<times> Executor" where
  "after_stages en tk a e =
     (case sh_PostShutdown (pl_Shutdown (as_plan a)) of
        None \<Rightarrow> to_gate tk e
      | Some ps \<Rightarrow>
          (case MarkPostShutdownRun a of
             (False, _) \<Rightarrow> to_gate tk e
           | (True, a') \<Rightarrow>
               (case executePostShutdown en ps (e\<lparr>e_active := Some a'\<rparr>) of
                  None \<Rightarrow> finish_post tk (e\<lparr>e_active := Some a'\<rparr>)
                | Some e1 \<Rightarrow> (PostExec, e1))))"

text \<open>The top of the loop of \<open>runShutdownStages\<close>, and what follows the loop.\<close>

definition runShutdownStages :: "engine_env \<Rightarrow> tick \<Rightarrow> ActiveSequence \<Rightarrow> nat \<Rightarrow> Executor \<Rightarrow> pc \<times> Executor" where
  "runShutdownStages en tk a i e =
     (let stages = sh_Stages (pl_Shutdown (as_plan a))
      in if i < length stages then
           (let e1 = saveSequence (tk_ok tk) (on_active (SetCurrentStage i) e)
            in case shouldAbort en tk a e1 of
                 (True, e2) \<Rightarrow> handleAbort en tk a e2
               | (False, e2) \<Rightarrow>
                   (StageWait i (tk_now tk + duration_or (en_rt en) (sg_WaitTimeout (stages ! i)) DefaultWaitTimeout), e2))
         else after_stages en tk a e)"

section \<open>Waking\<close>

definition computeWakeOrder :: "Config \<Rightarrow> PlanConfig \<Rightarrow> string list" where
  "computeWakeOrder cfg plan =
     (if wk_Stages (pl_Wake plan) \<noteq> []
      then foldl (\<lambda>order s. add_unseen order (ResolveClientRefs (sg_Clients s) cfg)) [] (wk_Stages (pl_Wake plan))
      else foldl (\<lambda>order s. add_unseen order (ResolveClientRefs (sg_Clients s) cfg)) []
             (rev (sh_Stages (pl_Shutdown plan))))"

definition dependenciesMet :: "engine_env \<Rightarrow> Executor \<Rightarrow> string \<Rightarrow> bool" where
  "dependenciesMet en e name =
     (case findClientConfig (en_cfg en) name of
        None \<Rightarrow> True
      | Some c \<Rightarrow> list_all (\<lambda>dep. clientState e dep = StateUp) (cl_DependsOn c))"

text \<open>
  \<open>completeSequence\<close> with \<open>exportJournal\<close> (the journal file itself is not modelled: the log says
  that it was written) and \<open>releaseSequence\<close>.
\<close>

definition releaseSequence :: "tick \<Rightarrow> Executor \<Rightarrow> Executor" where
  "releaseSequence tk e = clearActiveSequence (db_write (tk_ok tk) (ReleaseSequenceLocks (seq_id e)) e)"

definition completeSequence :: "tick \<Rightarrow> ActiveSequence \<Rightarrow> Executor \<Rightarrow> pc \<times> Executor" where
  "completeSequence tk a e =
     (let final = (if sq_Aborted (as_seq a) then SeqStateAborted else SeqStateCompleted);
          e1 = saveSequence (tk_ok tk) (e\<lparr>e_active := Some (MarkCompleted final (tk_now tk) a)\<rparr>);
          e2 = emit (if tk_ok tk \<and> \<not> e_cancelled e1 then Export (seq_id e1) else DBError) e1;
          e3 = releaseSequence tk e2
      in (Idle, emit (Emit ''sequence_completed'' [sq_PlanName (as_seq a), final]) e3))"

text \<open>The loop of \<open>runWake\<close> at the gate.\<close>

definition runWake :: "engine_env \<Rightarrow> tick \<Rightarrow> ActiveSequence \<Rightarrow> Executor \<Rightarrow> pc \<times> Executor" where
  "runWake en tk a e =
     (case eval_cond en tk (wk_Gate (pl_Wake (as_plan a))) e of
        (True, e1) \<Rightarrow>
          (WakeNext (computeWakeOrder (en_cfg en) (as_plan a)) 0,
           saveSequence (tk_ok tk) (on_active (SetState SeqStateWaking)
             (emit (Emit ''wake_gate_satisfied'' [pl_Name (as_plan a)]) e1)))
      | (False, e1) \<Rightarrow>
          if as_abortRequested a then completeSequence tk (MarkAborted a) e1
          else if e_cancelled e1 then (Idle, clearActiveSequence e1)
          else (Gate, e1))"

text \<open>A client of the wake order, up to the wait of its guard period or \<open>wakeClient\<close>.\<close>

definition wake_next :: "engine_env \<Rightarrow> tick \<Rightarrow> ActiveSequence \<Rightarrow> string list \<Rightarrow> nat \<Rightarrow> Executor \<Rightarrow> pc \<times> Executor" where
  "wake_next en tk a order i e =
     (if \<not> i < length order then completeSequence tk a e
      else if as_abortRequested a then completeSequence tk (MarkAborted a) e
      else let name = order ! i
           in case findClientConfig (en_cfg en) name of
                None \<Rightarrow> (WakeNext order (Suc i), e)
              | Some c \<Rightarrow>
                  if clientState e name = StateUp then (WakeNext order (Suc i), e)
                  else if cl_WakePolicy c = ''retain_state'' \<and>
                    (case sq_PreSequenceState (as_seq a) name of None \<Rightarrow> False | Some pre \<Rightarrow> pre \<noteq> ClientState_String StateUp)
                  then (WakeNext order (Suc i), e)
                  else if \<not> dependenciesMet en e name
                  then (WakeNext order (Suc i), setClientState (tk_ok tk) (tk_now tk) name StateFailed (Some (seq_id e)) e)
                  else if clientState e name = StateDownUnverified then
                    (let guard = duration_or (en_rt en) (cl_GuardPeriod c) DefaultGuardPeriod;
                         remaining = guard - timeSinceSettled e (tk_now tk) name
                     in if remaining > 0 then (WakeGuard order i (tk_now tk + remaining), e)
                        else (WakeStart order i, e))
                  else (WakeStart order i, e))"

definition wake_transport :: "ClientConfig \<Rightarrow> string" where
  "wake_transport c =
     (case cl_Wake c of
        None \<Rightarrow> cl_Transport c
      | Some w \<Rightarrow> (if wc_Transport w \<noteq> [] then wc_Transport w else cl_Transport c))"

text \<open>\<open>wakeProbe\<close> is nil when neither the transport nor an address can confirm the wake.\<close>

definition wakeProbe :: "engine_env \<Rightarrow> ClientConfig \<Rightarrow> bool" where
  "wakeProbe en c \<longleftrightarrow>
     (case en_transports en (cl_Transport c) of None \<Rightarrow> False | Some t \<Rightarrow> transportCan t ActionProbe) \<or> cl_Address c \<noteq> []"

text \<open>The end of the loop's body: the stagger before the next client.\<close>

definition after_wake :: "engine_env \<Rightarrow> tick \<Rightarrow> ActiveSequence \<Rightarrow> string list \<Rightarrow> nat \<Rightarrow> Executor \<Rightarrow> pc \<times> Executor" where
  "after_wake en tk a order i e =
     (let stagger = duration_or (en_rt en) (wk_Stagger (pl_Wake (as_plan a))) DefaultStagger
      in if stagger > 0 \<and> Suc i < length order then (WakeStagger order i (tk_now tk + stagger), e)
         else (WakeNext order (Suc i), e))"

text \<open>\<open>wakeClient\<close>, from its start to its first attempt.\<close>

definition wakeClient :: "engine_env \<Rightarrow> tick \<Rightarrow> ActiveSequence \<Rightarrow> string list \<Rightarrow> nat \<Rightarrow> Executor \<Rightarrow> pc \<times> Executor" where
  "wakeClient en tk a order i e =
     (let name = order ! i
      in case findClientConfig (en_cfg en) name of
           None \<Rightarrow> after_wake en tk a order i e
         | Some c \<Rightarrow>
             (case en_transports en (wake_transport c) of
                None \<Rightarrow> after_wake en tk a order i
                   (setClientState (tk_ok tk) (tk_now tk) name StateFailed (Some (seq_id e)) e)
              | Some _ \<Rightarrow>
                  (let e1 = setClientState (tk_ok tk) (tk_now tk) name StateWaking (Some (seq_id e)) e
                   in if e_mode e1 = ModeDryRun
                      then (WakeDry order i (tk_now tk + tm_DryRunStep (en_timings en)), e1)
                      else (WakeSend order i 0, e1))))"

definition wake_send ::
  "engine_env \<Rightarrow> tick \<Rightarrow> ActiveSequence \<Rightarrow> string list \<Rightarrow> nat \<Rightarrow> nat \<Rightarrow> Executor \<Rightarrow> pc \<times> Executor" where
  "wake_send en tk a order i attempt e =
     (let name = order ! i; retries = max 0 (wk_Retries (pl_Wake (as_plan a)))
      in if int attempt > retries then
           after_wake en tk a order i (emit (Emit ''client_wake_failed'' [name])
             (setClientState (tk_ok tk) (tk_now tk) name StateFailed (Some (seq_id e)) e))
         else case findClientConfig (en_cfg en) name of
                None \<Rightarrow> after_wake en tk a order i e
              | Some c \<Rightarrow>
                  (case en_transports en (wake_transport c) of
                     None \<Rightarrow> after_wake en tk a order i e
                   | Some t \<Rightarrow>
                       (WakeSent order i attempt,
                        emit (Dispatch (seq_id e) (wake_transport c) (buildClientFor en e (Some a) c) (remapAction t ActionWake)) e)))"

definition wake_sent ::
  "engine_env \<Rightarrow> tick \<Rightarrow> ActiveSequence \<Rightarrow> string list \<Rightarrow> nat \<Rightarrow> nat \<Rightarrow> Executor \<Rightarrow> pc \<times> Executor" where
  "wake_sent en tk a order i attempt e =
     (let name = order ! i
      in case findClientConfig (en_cfg en) name of
           None \<Rightarrow> after_wake en tk a order i e
         | Some c \<Rightarrow>
             if \<not> wakeProbe en c
             then after_wake en tk a order i (setClientState (tk_ok tk) (tk_now tk) name StateUp (Some (seq_id e)) e)
             else (WakeProbe order i attempt
                     (tk_now tk + duration_or (en_rt en) (wk_BootDeadline (pl_Wake (as_plan a))) DefaultBootDeadline), e))"

definition probe_interval :: "engine_env \<Rightarrow> ActiveSequence \<Rightarrow> duration" where
  "probe_interval en a =
     (let d = duration_or (en_rt en) (wk_ProbeInterval (pl_Wake (as_plan a))) DefaultProbeInterval
      in if d \<le> 0 then DefaultProbeInterval else d)"

definition wake_probe ::
  "engine_env \<Rightarrow> tick \<Rightarrow> ActiveSequence \<Rightarrow> string list \<Rightarrow> nat \<Rightarrow> nat \<Rightarrow> instant \<Rightarrow> Executor \<Rightarrow> pc \<times> Executor" where
  "wake_probe en tk a order i attempt deadline e =
     (let name = order ! i
      in if \<not> tk_now tk < deadline then (WakeSend order i (Suc attempt), e)
         else if as_abortRequested a then after_wake en tk a order i e
         else if tk_probe tk name = Some StateUp then
           after_wake en tk a order i (emit (Emit ''client_wake_success'' [name])
             (setClientState (tk_ok tk) (tk_now tk) name StateUp (Some (seq_id e)) e))
         else (WakeWait order i attempt deadline (tk_now tk + probe_interval en a), e))"

section \<open>The beginning of a sequence, new or resumed\<close>

definition executeSequence :: "engine_env \<Rightarrow> tick \<Rightarrow> ActiveSequence \<Rightarrow> Executor \<Rightarrow> pc \<times> Executor" where
  "executeSequence en tk a e =
     (case resolveClientAddresses en (tk_ok tk) (tk_now tk) (tk_mac tk) e of (addrs, e1) \<Rightarrow>
        (StageLoop (sq_CurrentStage (as_seq a)),
         saveSequence (tk_ok tk)
           (on_active (SetConfigSnapshot (en_snapshot en (en_cfg en)) \<circ> SetResolvedAddrs addrs) e1)))"

text \<open>\<open>reconcileIntents\<close>, one intent.\<close>

definition reconcile :: "engine_env \<Rightarrow> tick \<Rightarrow> Executor \<Rightarrow> Intent \<Rightarrow> Executor" where
  "reconcile en tk e it =
     (case findClientConfig (en_cfg en) (it_ClientName it) of
        None \<Rightarrow> e
      | Some c \<Rightarrow>
          (case en_transports en (cl_Transport c) of
             None \<Rightarrow> e
           | Some _ \<Rightarrow>
               (let set = (\<lambda>s. setClientState (tk_ok tk) (tk_now tk) (it_ClientName it) s (Some (seq_id e)) e);
                    (outcome, e1) =
                      (case tk_probe tk (it_ClientName it) of
                         None \<Rightarrow> (''indeterminate'', set StateDownUnverified)
                       | Some StateDown \<Rightarrow> (''took effect'', set StateDown)
                       | Some StateUp \<Rightarrow> (''did not take effect'', set StateUp)
                       | Some _ \<Rightarrow> (''unknown'', e))
                in saveIntent (tk_ok tk)
                     (it\<lparr>it_Status := IntentReconciled, it_Result := Some
                        \<lparr>dr_Success = (tk_probe tk (it_ClientName it) = Some StateDown),
                         dr_Message = ''reconciled after restart: '' @ outcome\<rparr>\<rparr>) e1)))"

definition reconcileIntents :: "engine_env \<Rightarrow> tick \<Rightarrow> Executor \<Rightarrow> Executor" where
  "reconcileIntents en tk e =
     (if \<not> tk_ok tk \<or> e_cancelled e then emit DBError e
      else foldl (reconcile en tk) e (PendingIntents (en_lt en) (seq_id e) (e_db e)))"

definition resume_stage :: "nat list \<Rightarrow> nat \<Rightarrow> nat" where
  "resume_stage completed n = (case find (\<lambda>i. i \<notin> set completed) [0..<n] of None \<Rightarrow> n | Some i \<Rightarrow> i)"

definition resumeSequence :: "engine_env \<Rightarrow> tick \<Rightarrow> ActiveSequence \<Rightarrow> Executor \<Rightarrow> pc \<times> Executor" where
  "resumeSequence en tk a e =
     (let st = sq_State (as_seq a)
      in if st \<in> {SeqStateAborting, SeqStateAborted} then (Settle (cf_Clients (en_cfg en)) None, e)
         else if st \<in> {SeqStateWakeGate, SeqStateWaking} then (Gate, e)
         else let completed = (if tk_ok tk \<and> \<not> e_cancelled e then GetCompletedStages (seq_id e) (e_db e) else []);
                  i = resume_stage completed (length (sh_Stages (pl_Shutdown (as_plan a))))
              in (StageLoop i, reconcileIntents en tk (on_active (SetCurrentStage i) e)))"

section \<open>The machine\<close>

definition stage_at :: "ActiveSequence \<Rightarrow> nat \<Rightarrow> StageConfig" where
  "stage_at a i = sh_Stages (pl_Shutdown (as_plan a)) ! i"

fun seq_step :: "engine_env \<Rightarrow> tick \<Rightarrow> ActiveSequence \<Rightarrow> pc \<Rightarrow> Executor \<Rightarrow> pc \<times> Executor" where
  "seq_step en tk a Idle e = (Idle, e)"
| "seq_step en tk a Executing e = executeSequence en tk a e"
| "seq_step en tk a Resuming e = resumeSequence en tk a e"
| "seq_step en tk a (StageLoop i) e = runShutdownStages en tk a i e"
| "seq_step en tk a (StageWait i dl) e = waitForStage en tk a (stage_at a i) i dl e"
| "seq_step en tk a (StageRun i rec budget cs) e = executeStage en tk i rec budget cs e"
| "seq_step en tk a PostExec e = finish_post tk e"
| "seq_step en tk a (Settle cs dl) e = waitForShuttingDown en tk cs dl e"
| "seq_step en tk a Gate e = runWake en tk a e"
| "seq_step en tk a (WakeNext order i) e = wake_next en tk a order i e"
| "seq_step en tk a (WakeGuard order i until) e =
     (case slept tk until e of
        None \<Rightarrow> (WakeGuard order i until, e)
      | Some True \<Rightarrow> (WakeStart order i, e)
      | Some False \<Rightarrow> (Idle, clearActiveSequence e))"
| "seq_step en tk a (WakeStart order i) e = wakeClient en tk a order i e"
| "seq_step en tk a (WakeDry order i until) e =
     (case slept tk until e of
        None \<Rightarrow> (WakeDry order i until, e)
      | Some _ \<Rightarrow> after_wake en tk a order i
          (setClientState (tk_ok tk) (tk_now tk) (order ! i) StateUp (Some (seq_id e)) e))"
| "seq_step en tk a (WakeSend order i n) e = wake_send en tk a order i n e"
| "seq_step en tk a (WakeSent order i n) e = wake_sent en tk a order i n e"
| "seq_step en tk a (WakeProbe order i n dl) e = wake_probe en tk a order i n dl e"
| "seq_step en tk a (WakeWait order i n dl until) e =
     (case slept tk until e of
        None \<Rightarrow> (WakeWait order i n dl until, e)
      | Some True \<Rightarrow> (WakeProbe order i n dl, e)
      | Some False \<Rightarrow> after_wake en tk a order i e)"
| "seq_step en tk a (WakeStagger order i until) e =
     (case slept tk until e of
        None \<Rightarrow> (WakeStagger order i until, e)
      | Some True \<Rightarrow> (WakeNext order (Suc i), e)
      | Some False \<Rightarrow> (Idle, clearActiveSequence e))"

end
