(* ===== verification/Daemon.thy ===== *)
theory Daemon
  imports Sequence_Run
begin

text \<open>
  The daemon: the sequence goroutine, the loops of the executor, the requests of the operator, the
  updates of the sources, a stop, and a restart after a crash or a power cut, as the events of one
  machine. \<open>reachable\<close> are the states some sequence of events leads to from a start on some database.
\<close>

type_synonym daemon = "pc \<times> Executor"

text \<open>
  \<open>Restart k tbl st keys ok now\<close>: the daemon goes down and starts again with the database the disk
  comes back with (the \<open>k\<close>-th of \<open>e_disk\<close>), a table of dwell timers and a fact store with the
  declarations \<open>keys\<close>.
\<close>

datatype event =
    SeqTick tick
  | PolicyTick instant
  | QualityTick "string list" instant
  | ProbeTick bool instant "string \<Rightarrow> ClientState option" mac_world
  | RetentionTick bool instant
  | SetModeRequest bool string
  | AbortRequest string
  | ForceRequest string
  | FactUpdate string goval instant
  | Stop
  | Restart nat dwell_table Store "string list" bool instant

text \<open>\<open>handleSetMode\<close> of \<open>internal/api/server.go\<close>: the status of the answer and the new state.\<close>

definition handleSetMode :: "engine_env \<Rightarrow> bool \<Rightarrow> string \<Rightarrow> Executor \<Rightarrow> nat \<times> Executor" where
  "handleSetMode en ok req e =
     (if ca_ConfigReadonly (cf_Canarium (en_cfg en)) then (409, e)
      else case ParseModeStrict req of
             (_, False) \<Rightarrow> (400, e)
           | (mode, True) \<Rightarrow>
               (let e1 = SetMode en mode e
                in (200, if ok then e1\<lparr>e_db := SetKV modeKey (Mode_String mode) (e_db e1),
                                       e_disk := e_disk e1 @ [SetKV modeKey (Mode_String mode) (e_db e1)]\<rparr>
                         else emit DBError e1)))"

definition boot :: "engine_env \<Rightarrow> DB \<Rightarrow> dwell_table \<Rightarrow> Store \<Rightarrow> string list \<Rightarrow> bool \<Rightarrow> instant \<Rightarrow> daemon" where
  "boot en db tbl st keys ok now =
     (case start_executor en keys ok now (NewExecutor en st (SetDwellStore tbl NewEvaluator) db) of
        (resumed, e) \<Rightarrow> (if resumed then Resuming else Idle, e))"

fun daemon_step :: "engine_env \<Rightarrow> event \<Rightarrow> daemon \<Rightarrow> daemon" where
  "daemon_step en (SeqTick tk) (pc, e) =
     (case e_active e of None \<Rightarrow> (pc, e) | Some a \<Rightarrow> seq_step en tk a pc e)"
| "daemon_step en (PolicyTick now) (pc, e) =
     (if e_cancelled e then (pc, e)
      else case evaluatePolicies en now e of (fired, e') \<Rightarrow> (if fired then Executing else pc, e'))"
| "daemon_step en (QualityTick keys now) (pc, e) =
     (pc, if e_cancelled e then e else quality_tick en keys now e)"
| "daemon_step en (ProbeTick ok now probe w) (pc, e) =
     (pc, if e_cancelled e then e else learnMACs en ok now w (probeAllClients en ok now probe e))"
| "daemon_step en (RetentionTick ok now) (pc, e) =
     (pc, if e_cancelled e then e else retention_tick en ok now e)"
| "daemon_step en (SetModeRequest ok req) (pc, e) = (pc, snd (handleSetMode en ok req e))"
| "daemon_step en (AbortRequest reason) (pc, e) =
     (pc, case AbortSequence reason e of Inl _ \<Rightarrow> e | Inr e' \<Rightarrow> e')"
| "daemon_step en (ForceRequest reason) (pc, e) =
     (pc, case ForceStage reason e of Inl _ \<Rightarrow> e | Inr e' \<Rightarrow> e')"
| "daemon_step en (FactUpdate key v t) (pc, e) = (pc, e\<lparr>e_store := Store_Update key v t (e_store e)\<rparr>)"
| "daemon_step en Stop (pc, e) = (pc, e\<lparr>e_cancelled := True\<rparr>)"
| "daemon_step en (Restart k tbl st keys ok now) (pc, e) =
     (if k < length (e_disk e) then
        (case boot en (e_disk e ! k) tbl st keys ok now of (pc', e') \<Rightarrow> (pc', e'\<lparr>e_log := e_log e @ e_log e'\<rparr>))
      else (pc, e))"

inductive reachable :: "engine_env \<Rightarrow> daemon \<Rightarrow> bool" for en where
  boot: "reachable en (boot en db tbl st keys ok now)"
| step: "reachable en d \<Longrightarrow> reachable en (daemon_step en ev d)"

inductive_cases reachableE: "reachable en d"

definition run :: "engine_env \<Rightarrow> event list \<Rightarrow> daemon \<Rightarrow> daemon" where
  "run en evs d = foldl (\<lambda>d ev. daemon_step en ev d) d evs"

lemma run_reachable: "reachable en d \<Longrightarrow> reachable en (run en evs d)"
  unfolding run_def by (induction evs arbitrary: d) (simp_all add: reachable.step)

section \<open>Frames\<close>

text \<open>What the building blocks leave alone.\<close>

lemma emit_frame [simp, frame_simps]:
  "e_active (emit x e) = e_active e" "e_mode (emit x e) = e_mode e" "e_db (emit x e) = e_db e"
  "e_disk (emit x e) = e_disk e" "e_clientStates (emit x e) = e_clientStates e"
  "e_cancelled (emit x e) = e_cancelled e" "e_log (emit x e) = e_log e @ [x]"
  "e_evaluator (emit x e) = e_evaluator e" "e_store (emit x e) = e_store e"
  "e_clientStateSince (emit x e) = e_clientStateSince e" "e_learnedMACs (emit x e) = e_learnedMACs e"
  by (simp_all add: emit_def)

lemma db_write_frame [simp, frame_simps]:
  "e_active (db_write ok f e) = e_active e" "e_mode (db_write ok f e) = e_mode e"
  "e_clientStates (db_write ok f e) = e_clientStates e" "e_cancelled (db_write ok f e) = e_cancelled e"
  "e_evaluator (db_write ok f e) = e_evaluator e" "e_store (db_write ok f e) = e_store e"
  "e_learnedMACs (db_write ok f e) = e_learnedMACs e"
  by (simp_all add: db_write_def)

lemma db_write_durable_frame [simp, frame_simps]:
  "e_active (db_write_durable ok f e) = e_active e" "e_mode (db_write_durable ok f e) = e_mode e"
  "e_clientStates (db_write_durable ok f e) = e_clientStates e" "e_cancelled (db_write_durable ok f e) = e_cancelled e"
  "e_evaluator (db_write_durable ok f e) = e_evaluator e" "e_store (db_write_durable ok f e) = e_store e"
  "e_learnedMACs (db_write_durable ok f e) = e_learnedMACs e"
  by (simp_all add: db_write_durable_def)

lemma setClientState_frame [simp, frame_simps]:
  "e_active (setClientState ok now n s q e) = e_active e" "e_mode (setClientState ok now n s q e) = e_mode e"
  "e_cancelled (setClientState ok now n s q e) = e_cancelled e"
  "e_evaluator (setClientState ok now n s q e) = e_evaluator e" "e_store (setClientState ok now n s q e) = e_store e"
  "e_clientStates (setClientState ok now n s q e) = (e_clientStates e)(n \<mapsto> s)"
  by (simp_all add: setClientState_def Let_def)

lemma saveSequence_frame [simp, frame_simps]:
  "e_active (saveSequence ok e) = e_active e" "e_mode (saveSequence ok e) = e_mode e"
  "e_cancelled (saveSequence ok e) = e_cancelled e" "e_clientStates (saveSequence ok e) = e_clientStates e"
  "e_evaluator (saveSequence ok e) = e_evaluator e"
  by (simp_all add: saveSequence_def split: option.split)

lemma saveSequenceDurable_frame [simp, frame_simps]:
  "e_active (saveSequenceDurable ok e) = e_active e" "e_mode (saveSequenceDurable ok e) = e_mode e"
  "e_cancelled (saveSequenceDurable ok e) = e_cancelled e" "e_clientStates (saveSequenceDurable ok e) = e_clientStates e"
  "e_evaluator (saveSequenceDurable ok e) = e_evaluator e"
  by (simp_all add: saveSequenceDurable_def split: option.split)

lemma saveIntent_frame [simp, frame_simps]:
  "e_active (saveIntent ok it e) = e_active e" "e_mode (saveIntent ok it e) = e_mode e"
  "e_cancelled (saveIntent ok it e) = e_cancelled e" "e_clientStates (saveIntent ok it e) = e_clientStates e"
  "e_active (saveIntentDurable ok it e) = e_active e" "e_mode (saveIntentDurable ok it e) = e_mode e"
  "e_cancelled (saveIntentDurable ok it e) = e_cancelled e" "e_clientStates (saveIntentDurable ok it e) = e_clientStates e"
  by (simp_all add: saveIntent_def saveIntentDurable_def)

lemma on_active_frame [simp, frame_simps]:
  "e_active (on_active f e) = map_option f (e_active e)" "e_mode (on_active f e) = e_mode e"
  "e_db (on_active f e) = e_db e" "e_disk (on_active f e) = e_disk e" "e_log (on_active f e) = e_log e"
  "e_cancelled (on_active f e) = e_cancelled e" "e_clientStates (on_active f e) = e_clientStates e"
  "e_evaluator (on_active f e) = e_evaluator e"
  by (simp_all add: on_active_def)

lemma clear_frame [simp, frame_simps]:
  "e_active (clearActiveSequence e) = None" "e_mode (clearActiveSequence e) = e_mode e"
  "e_db (clearActiveSequence e) = e_db e" "e_disk (clearActiveSequence e) = e_disk e"
  "e_log (clearActiveSequence e) = e_log e" "e_cancelled (clearActiveSequence e) = e_cancelled e"
  by (simp_all add: clearActiveSequence_def)

lemma eval_cond_frame:
  "eval_cond en tk c e = (b, e') \<Longrightarrow> e' = e\<lparr>e_evaluator := e_evaluator e'\<rparr>"
  by (auto simp: eval_cond_def split: prod.splits)

section \<open>The handle of the running sequence\<close>

lemma eval_cond_active: "eval_cond en tk c e = (b, e') \<Longrightarrow> e_active e' = e_active e \<and> e_mode e' = e_mode e \<and>
    e_db e' = e_db e \<and> e_disk e' = e_disk e \<and> e_log e' = e_log e \<and> e_cancelled e' = e_cancelled e \<and>
    e_clientStates e' = e_clientStates e"
  by (auto simp: eval_cond_def split: prod.splits)

lemma shouldAbort_frame: "shouldAbort en tk a e = (b, e') \<Longrightarrow> e_active e' = e_active e \<and> e_mode e' = e_mode e \<and>
    e_db e' = e_db e \<and> e_disk e' = e_disk e \<and> e_log e' = e_log e \<and> e_cancelled e' = e_cancelled e \<and>
    e_clientStates e' = e_clientStates e"
  by (auto simp: shouldAbort_def split: if_splits option.splits dest: eval_cond_active)

lemma recordLearnedMAC_frame [simp]:
  "e_active (recordLearnedMAC ok now c m s e) = e_active e" "e_mode (recordLearnedMAC ok now c m s e) = e_mode e"
  "e_cancelled (recordLearnedMAC ok now c m s e) = e_cancelled e"
  "e_clientStates (recordLearnedMAC ok now c m s e) = e_clientStates e"
  by (simp_all add: recordLearnedMAC_def Let_def)

lemma discoverMAC_frame:
  "discoverMAC en ok now w c ip e = (m, e') \<Longrightarrow> e_active e' = e_active e \<and> e_mode e' = e_mode e"
  by (auto simp: discoverMAC_def split: option.splits prod.splits if_splits)

lemma resolve_frame:
  "resolveClientAddresses en ok now w e = (r, e') \<Longrightarrow> e_active e' = e_active e \<and> e_mode e' = e_mode e"
proof -
  have step: "resolve_client en ok now w (r0, e0) c = (r1, e1) \<Longrightarrow> e_active e1 = e_active e0 \<and> e_mode e1 = e_mode e0" for r0 e0 c r1 e1
    by (auto simp: resolve_client_def Let_def split: if_splits prod.splits dest: discoverMAC_frame)
  have "foldl (resolve_client en ok now w) (r0, e0) cs = (r1, e1) \<Longrightarrow> e_active e1 = e_active e0 \<and> e_mode e1 = e_mode e0" for cs r0 e0 r1 e1
  proof (induction cs arbitrary: r0 e0)
    case (Cons c cs)
    obtain r2 e2 where r2: "resolve_client en ok now w (r0, e0) c = (r2, e2)" by force
    with Cons step [OF r2] show ?case by simp
  qed simp
  then show "resolveClientAddresses en ok now w e = (r, e') \<Longrightarrow> e_active e' = e_active e \<and> e_mode e' = e_mode e"
    by (simp add: resolveClientAddresses_def)
qed

lemma shutdownClient_frame:
  "shutdownClient en tk budget name p e = (p', e') \<Longrightarrow> e_active e' = e_active e \<and> e_mode e' = e_mode e"
  by (cases p) (auto simp: claim_client_def record_intent_def dispatch_client_def answered_client_def awaitClientDown_def
      await_select_def unverified_def Let_def split: option.splits if_splits prod.splits bool.splits)

text \<open>
  A property of the handle that the goroutine keeps. It is enough that the setters the goroutine
  uses keep it, and \<open>MarkAborted\<close> where the goroutine can reach it: before the point of no return,
  or when an abort was requested. \<open>holds e\<close> says that a sequence with the property runs, \<open>kept\<close> that
  a step ended it or left one that has it.
\<close>

locale handle_invariant =
  fixes Q :: "ActiveSequence \<Rightarrow> bool"
  assumes SetState: "Q x \<Longrightarrow> Q (SetState st x)"
    and SetCurrentStage: "Q x \<Longrightarrow> Q (SetCurrentStage i x)"
    and SetHeldStage: "Q x \<Longrightarrow> Q (SetHeldStage h x)"
    and SetConfigSnapshot: "Q x \<Longrightarrow> Q (SetConfigSnapshot sn x)"
    and SetResolvedAddrs: "Q x \<Longrightarrow> Q (SetResolvedAddrs r x)"
    and MarkPostShutdownRun: "Q x \<Longrightarrow> Q (snd (MarkPostShutdownRun x))"
    and CrossPonr: "Q x \<Longrightarrow> Q (snd (CrossPonr x))"
    and ConsumeProceed: "Q x \<Longrightarrow> Q (snd (snd (ConsumeProceed x)))"
    and MarkAborted: "Q x \<Longrightarrow> \<not> sq_PonrCrossed (as_seq x) \<Longrightarrow> Q (MarkAborted x)"
begin

definition holds :: "Executor \<Rightarrow> bool" where
  "holds e \<longleftrightarrow> (\<exists>x. e_active e = Some x \<and> Q x)"

definition kept :: "pc \<times> Executor \<Rightarrow> bool" where
  "kept r \<longleftrightarrow> (case r of (pc, e) \<Rightarrow> if pc = Idle then e_active e = None else holds e)"

lemma holdsI: "e_active e = Some x \<Longrightarrow> Q x \<Longrightarrow> holds e"
  by (auto simp: holds_def)

lemma kept_pc [simp]: "pc \<noteq> Idle \<Longrightarrow> kept (pc, e) = holds e" "kept (Idle, e) \<longleftrightarrow> e_active e = None"
  by (simp_all add: kept_def)

lemma holds_on_active: "holds e \<Longrightarrow> (\<And>x. Q x \<Longrightarrow> Q (f x)) \<Longrightarrow> holds (on_active f e)"
  by (auto simp: holds_def)

lemma holds_frames [simp]:
  "holds (emit ef e) = holds e" "holds (db_write ok f e) = holds e"
  "holds (db_write_durable ok f e) = holds e" "holds (saveSequence ok e) = holds e"
  "holds (saveSequenceDurable ok e) = holds e" "holds (setClientState ok now n st q e) = holds e"
  "holds (saveIntent ok it e) = holds e" "holds (saveIntentDurable ok it e) = holds e"
  by (simp_all add: holds_def)

lemma handleAbort_kept:
  assumes "e_active e = Some x" and "Q x" and "\<not> sq_PonrCrossed (as_seq x)"
  shows "kept (handleAbort en tk b e)"
proof -
  have "Q (MarkAborted (SetState SeqStateAborting x))"
    by (rule MarkAborted [OF SetState [OF assms(2)]]) (simp add: assms(3))
  then show ?thesis using assms(1) by (simp add: handleAbort_def Let_def holds_def del: active_defs)
qed

lemma to_gate_kept: "holds e \<Longrightarrow> kept (to_gate tk e)"
  by (simp add: to_gate_def holds_on_active SetState del: active_defs)

lemma complete_kept: "kept (completeSequence tk b e)"
  by (simp add: completeSequence_def releaseSequence_def Let_def)

lemma after_wake_kept: "holds e \<Longrightarrow> kept (after_wake en tk b order i e)"
  by (simp add: after_wake_def Let_def)

lemma enter_stage_kept: "holds e \<Longrightarrow> kept (enter_stage en tk stage i e)"
  by (simp add: enter_stage_def start_stage_def Let_def holds_on_active SetHeldStage CrossPonr del: active_defs)

lemma handleStageTimeout_kept:
  "holds e \<Longrightarrow> handleStageTimeout en tk b stage i e = (h, e') \<Longrightarrow> holds e'"
  by (auto simp: handleStageTimeout_def Let_def holds_on_active SetHeldStage SetCurrentStage simp del: active_defs
      split: if_splits)

lemma shouldAbort_true: "shouldAbort en tk x e = (True, e') \<Longrightarrow> \<not> sq_PonrCrossed (as_seq x)"
  by (auto simp: shouldAbort_def)

lemma waitForStage_kept:
  assumes "e_active e = Some x" and "Q x"
  shows "kept (waitForStage en tk x stage i dl e)"
proof -
  obtain b e1 where e1: "eval_cond en tk (sg_When stage) e = (b, e1)" by force
  then have a1: "e_active e1 = Some x" using eval_cond_active assms by auto
  obtain f r x' where cp: "ConsumeProceed x = (f, r, x')" by (metis prod_cases3)
  then have "Q x'" using ConsumeProceed [OF assms(2)] by simp
  then have sa: "holds (e1\<lparr>e_active := Some x'\<rparr>)" by (simp add: holds_def)
  obtain c e2 where e2: "shouldAbort en tk x e1 = (c, e2)" by force
  then have a2: "e_active e2 = Some x" using shouldAbort_frame a1 by auto
  obtain h e3 where e3: "handleStageTimeout en tk x stage i e2 = (h, e3)" by force
  have s3: "holds e3" by (rule handleStageTimeout_kept [OF holdsI [OF a2 assms(2)] e3])
  have ab: "c \<Longrightarrow> kept (handleAbort en tk x e2)"
    using handleAbort_kept [OF a2 assms(2)] shouldAbort_true e2 by auto
  show ?thesis
    using ab s3 sa holdsI [OF a1 assms(2)] holdsI [OF a2 assms(2)]
    by (simp add: waitForStage_def e1 cp e2 e3 enter_stage_kept split: bool.split)
qed

lemma runShutdownStages_kept:
  assumes "e_active e = Some x" and "Q x"
  shows "kept (runShutdownStages en tk x i e)"
proof -
  let ?e1 = "saveSequence (tk_ok tk) (on_active (SetCurrentStage i) e)"
  obtain c e2 where e2: "shouldAbort en tk x ?e1 = (c, e2)" by force
  have a2: "e_active e2 = Some (SetCurrentStage i x)" using shouldAbort_frame [OF e2] assms(1) by simp
  note q2 = SetCurrentStage [OF assms(2), of i]
  have ab: "c \<Longrightarrow> kept (handleAbort en tk x e2)"
    using handleAbort_kept [OF a2 q2] shouldAbort_true e2 by auto
  have "holds (e\<lparr>e_active := Some (snd (MarkPostShutdownRun x))\<rparr>)"
    using MarkPostShutdownRun [OF assms(2)] by (simp add: holds_def)
  then have "kept (after_stages en tk x e)"
    using holdsI [OF assms]
    by (auto simp: after_stages_def to_gate_kept finish_post_def executePostShutdown_def MarkPostShutdownRun_def
        split: option.splits)
  then show ?thesis
    using ab holdsI [OF a2 q2]
    by (simp add: runShutdownStages_def Let_def e2 split: bool.split del: active_defs)
qed

lemma resume_kept:
  assumes "holds e"
  shows "kept (resumeSequence en tk b e)"
proof -
  have rec: "holds x \<Longrightarrow> holds (reconcile en tk x it)" for x it
    by (simp add: reconcile_def Let_def split: option.split ClientState.split)
  have "holds x \<Longrightarrow> holds (foldl (reconcile en tk) x its)" for x its
    by (induction its arbitrary: x) (simp_all add: rec)
  then have "holds x \<Longrightarrow> holds (reconcileIntents en tk x)" for x
    by (simp add: reconcileIntents_def)
  with assms show ?thesis
    by (simp add: resumeSequence_def Let_def holds_on_active SetCurrentStage del: active_defs)
qed

lemma seq_step_kept:
  assumes "e_active e = Some x" and "Q x" and "pc \<noteq> Idle"
  shows "kept (seq_step en tk x pc e)"
proof -
  note h = holdsI [OF assms(1,2)]
  show ?thesis
  proof (cases pc)
    case Executing
    obtain addrs e1 where r: "resolveClientAddresses en (tk_ok tk) (tk_now tk) (tk_mac tk) e = (addrs, e1)" by force
    then have "holds e1" using resolve_frame [OF r] assms(1,2) by (auto simp: holds_def)
    then show ?thesis
      by (simp add: Executing executeSequence_def r holds_on_active SetConfigSnapshot SetResolvedAddrs del: active_defs)
  next
    case (StageRun i rec budget cs)
    obtain name p where np: "cs ! tk_who tk = (name, p)" by force
    obtain p' e' where p': "shutdownClient en tk budget name p e = (p', e')" by force
    have "holds e'" using shutdownClient_frame [OF p'] assms(1,2) by (auto simp: holds_def)
    then show ?thesis using h by (simp add: StageRun executeStage_def np p')
  next
    case (Settle cs dl)
    then show ?thesis using h
      by (auto simp: waitForShuttingDown_def to_gate_kept split: list.split option.split)
  next
    case Gate
    obtain b e1 where e1: "eval_cond en tk (wk_Gate (pl_Wake (as_plan x))) e = (b, e1)" by force
    then have "holds e1" using eval_cond_active assms by (auto simp: holds_def)
    then show ?thesis
      by (cases b) (simp_all add: Gate runWake_def e1 complete_kept holds_on_active SetState del: active_defs)
  next
    case (WakeNext order i)
    then show ?thesis using h
      by (simp add: wake_next_def complete_kept Let_def split: option.split)
  next
    case (WakeStart order i)
    then show ?thesis using h by (simp add: wakeClient_def after_wake_kept Let_def split: option.split)
  next
    case (WakeSend order i n)
    then show ?thesis using h by (simp add: wake_send_def after_wake_kept Let_def split: option.split)
  next
    case (WakeSent order i n)
    then show ?thesis using h by (simp add: wake_sent_def after_wake_kept Let_def split: option.split)
  next
    case (WakeProbe order i n dl)
    then show ?thesis using h by (simp add: wake_probe_def after_wake_kept Let_def)
  qed (use h assms in \<open>simp_all add: runShutdownStages_kept waitForStage_kept resume_kept to_gate_kept finish_post_def
      after_wake_kept split: option.split bool.split\<close>)
qed

end

text \<open>The identity of the sequence, its plan, the states of the clients at its start and a request to abort it stay.\<close>

definition same_as :: "ActiveSequence \<Rightarrow> ActiveSequence \<Rightarrow> bool" where
  "same_as a a' \<longleftrightarrow> sq_ID (as_seq a') = sq_ID (as_seq a) \<and>
     as_plan a' = as_plan a \<and> sq_PreSequenceState (as_seq a') = sq_PreSequenceState (as_seq a) \<and>
     as_abortRequested a' = as_abortRequested a \<and> (sq_PonrCrossed (as_seq a) \<longrightarrow> sq_PonrCrossed (as_seq a'))"

interpretation same: handle_invariant "same_as a" for a
  by unfold_locales (simp_all add: same_as_def MarkPostShutdownRun_def CrossPonr_def ConsumeProceed_def)

lemma seq_step_same:
  assumes "e_active e = Some a" and "pc \<noteq> Idle" and "seq_step en tk a pc e = (pc', e')"
  shows "(pc' = Idle \<and> e_active e' = None) \<or> (pc' \<noteq> Idle \<and> (\<exists>a'. e_active e' = Some a' \<and> same_as a a'))"
  using same.seq_step_kept [OF assms(1) _ assms(2), of a en tk] assms(3)
  by (cases "pc' = Idle") (auto simp: same.holds_def same_as_def)

end
