(* ===== verification/Examples.thy ===== *)
theory Examples
  imports Validation_Correct Daemon
begin

text \<open>
  A small installation, on which the theorems of the other theories are applied: one UPS whose
  charge is a fact, a server that depends on a storage box, and a plan that shuts both down when
  the charge is low. Each \<open>_witness\<close> instantiates the theorem it is named after and evaluates what
  the definitions give there.
\<close>

section \<open>The installation\<close>

definition demo_rt :: rt where
  "demo_rt = \<lparr>rt_ParseFloat = (\<lambda>_. None), rt_FormatFloat = (\<lambda>_. ''0''), rt_FormatFloat32 = (\<lambda>_. ''0''),
     rt_FloatToInt = (\<lambda>_. 0), rt_ExprCompile = (\<lambda>_. True),
     rt_ExprRun = (\<lambda>_ env. (Some (GBool (env_fact env ''ups.charge'' \<noteq> GNil)), [''ups.charge''])),
     rt_Digest = c_Fact\<rparr>"

definition demo_decl :: FactDeclaration where
  "demo_decl = \<lparr>d_Name = ''charge'', d_Type = ''percent'', d_Range = [], d_Values = [], d_Description = [], d_Unit = []\<rparr>"

definition demo_registered :: Store where
  "demo_registered = RegisterSource ''ups'' (30 * Second) [demo_decl, demo_decl\<lparr>d_Name := ''runtime''\<rparr>] NewStore"

definition demo_store :: Store where
  "demo_store = Store_Update ''ups.charge'' (GFloat64 (Finite 15)) 0 demo_registered"

definition low_battery :: ConditionConfig where
  "low_battery = Cond ''numeric'' ''ups.charge'' None (Some (Finite 20)) GNil [] [] [] [] [] [] []"

definition low_runtime :: ConditionConfig where
  "low_runtime = Cond ''numeric'' ''ups.runtime'' None (Some (Finite 300)) GNil [] [] [] [] [] [] []"

definition either_low :: ConditionConfig where
  "either_low = Cond ''or'' [] None None GNil [] [] [] [] [] [] [low_runtime, low_battery]"

definition low_for :: ConditionConfig where
  "low_for = Cond ''numeric'' ''ups.charge'' None (Some (Finite 20)) GNil [] [] [] [] ''1m'' [] []"

definition demo_template :: ConditionConfig where
  "demo_template = conditionFromString ''fact('' "

lemma low_battery_simps [simp]:
  "c_Condition low_battery = ''numeric''" "c_Fact low_battery = ''ups.charge''" "c_Equals low_battery = GNil"
  "c_For low_battery = []" "c_Conditions low_battery = []" "c_Value low_battery = []"
  "inferConditionType low_battery = ''numeric''"
  by (simp_all add: low_battery_def inferConditionType_def)

lemma demo_free: "collision_free demo_rt {low_battery}" "ev_inv demo_rt NewEvaluator" "template_free low_battery"
  by (simp_all add: collision_free_def ev_inv_New template_free.simps)

section \<open>Conditions\<close>

theorem Explain_predicts_Evaluate_witness:
  "ex_Result (fst (Explain demo_rt demo_store 5 low_battery NewEvaluator)) = ''true''"
proof -
  have "fst (Evaluate demo_rt demo_store 5 low_battery NewEvaluator) = TTrue" by code_simp
  then show ?thesis
    by (simp add: Explain_predicts_Evaluate [OF demo_free(1) singletonI demo_free(2)])
qed

lemma either_low_free: "collision_free demo_rt {either_low, low_runtime, low_battery}" "template_free either_low"
  by (simp_all add: collision_free_def template_free.simps either_low_def low_runtime_def low_battery_def demo_rt_def
      inferConditionType_def)

definition demo_full :: Store where
  "demo_full = Store_Update ''ups.runtime'' (GFloat64 (Finite 600)) 0 demo_store"

lemma FactValue_demo:
  "FactValue demo_store k = (if k = ''ups.charge'' then GFloat64 (Finite 15) else GNil)"
  "FactValue demo_full k = (if k = ''ups.runtime'' then GFloat64 (Finite 600) else FactValue demo_store k)"
  by (simp_all add: demo_full_def demo_store_def demo_registered_def RegisterSource_def register_decl_def NewStore_def
      FactValue_def Store_Get_def Store_Update_def Fact_Get_def Fact_Set_def fact_key_def demo_decl_def Let_def)

theorem lost_facts_decide_nothing_witness:
  "FactValue demo_store ''ups.runtime'' = GNil \<and> FactValue demo_full ''ups.runtime'' \<noteq> GNil \<and>
   fst (Evaluate demo_rt demo_full 5 either_low NewEvaluator) = TTrue"
proof -
  have t: "fst (Evaluate demo_rt demo_store 5 either_low NewEvaluator) = TTrue" by code_simp
  have "lost demo_full demo_store" by (simp add: lost_def FactValue_demo)
  from lost_facts_decide_nothing [OF either_low_free(1) _ demo_free(2) this either_low_free(2)] t show ?thesis
    by (simp add: FactValue_demo)
qed

theorem template_with_lost_fact_unavailable_witness:
  "fst (Evaluate demo_rt demo_registered 5 demo_template NewEvaluator) = Unavailable"
  by (rule template_with_lost_fact_unavailable [of _ _ _ _ "Some (GBool False)" "[''ups.charge'']" "''ups.charge''"])
    (code_simp | simp add: demo_rt_def demo_template_def)+

theorem nan_satisfies_every_bound_witness:
  "evaluateNumeric (Store_Update ''ups.charge'' (GFloat64 NaN) 0 demo_registered) low_battery = TTrue"
proof (rule nan_satisfies_every_bound)
  show "Store_Get (Store_Update ''ups.charge'' (GFloat64 NaN) 0 demo_registered) (c_Fact low_battery) =
      (GFloat64 NaN, QualityGood, Some 0)" by code_simp
qed simp

theorem dwell_true_iff_continuously_true_witness:
  "last (fst (dwell_run demo_rt low_for Minute
      [(0, TFalse), (10 * Second, TTrue), (40 * Second, TTrue), (70 * Second, TTrue)] NewEvaluator)) = TTrue"
proof -
  let ?pre = "[(0, TFalse)]" and ?post = "[(10 * Second, TTrue), (40 * Second, TTrue), (70 * Second, TTrue)]"
  have "\<exists>pre post. ?pre @ ?post = pre @ post \<and> post \<noteq> [] \<and> (\<forall>x \<in> set post. snd x = TTrue) \<and>
      70 * Second - fst (hd post) \<ge> Minute"
    by (rule exI [of _ ?pre], rule exI [of _ ?post]) simp
  then show ?thesis
    using dwell_true_iff_continuously_true [of Minute NewEvaluator demo_rt low_for
        "[(0, TFalse), (10 * Second, TTrue), (40 * Second, TTrue)]" "70 * Second" TTrue]
    by (simp add: NewEvaluator_def)
qed

definition demo_observed :: Evaluator where
  "demo_observed = observe demo_rt [(low_for, TTrue, Minute, 0), (low_for, TTrue, Minute, 20 * Second)]
     (SetDwellStore Map.empty NewEvaluator)"

lemma demo_observed_timer:
  "ev_dwell demo_observed ''ups.charge'' = Some \<lparr>t_Required = Minute, t_StartedAt = Some 0, t_Credited = 0,
     t_Satisfied = False, t_LastSeen = Some (20 * Second), t_lastPersisted = Some 0\<rparr> \<and>
   \<not> Option.is_none (ev_store demo_observed)"
  by code_simp

theorem restart_credit_witness:
  "\<exists>tbl. ev_store demo_observed = Some tbl \<and>
     credit (ev_dwell (SetDwellStore tbl NewEvaluator)) ''ups.charge'' (3 * Minute) \<le> 20 * Second"
proof -
  obtain tbl where "ev_store demo_observed = Some tbl" using demo_observed_timer by (auto simp: Option.is_none_def)
  with restart_credit [OF _ demo_observed_def conjunct1 [OF demo_observed_timer]] show ?thesis
    by (auto simp: Elapsed_def)
qed

section \<open>Configuration\<close>

definition demo_client :: "string \<Rightarrow> string list \<Rightarrow> ClientConfig" where
  "demo_client name needs =
     \<lparr>cl_Name = name, cl_Description = [], cl_Transport = ''ssh'', cl_Address = ''10.0.0.1'', cl_MAC = [],
      cl_Credentials = [], cl_Tags = [''rack''], cl_Feeds = [''ups''], cl_FeedPolicy = ''any'',
      cl_ShutdownBudget = ''3m'', cl_WakePolicy = ''power_state'', cl_GuardPeriod = ''60s'',
      cl_CommsLossAssumes = [], cl_DependsOn = needs, cl_After = [], cl_Before = [], cl_Probe = None,
      cl_Wake = None, cl_Config = Map.empty\<rparr>"

definition demo_stage :: "string \<Rightarrow> bool \<Rightarrow> StageConfig" where
  "demo_stage name ponr =
     \<lparr>sg_Name = name, sg_When = literal_cond ''true'', sg_Clients = [name], sg_Budget = ''5m'', sg_WaitTimeout = ''1h'',
      sg_WaitPolicy = ''skip'', sg_PointOfNoReturn = ponr\<rparr>"

definition demo_plan :: PlanConfig where
  "demo_plan =
     \<lparr>pl_Name = ''outage'', pl_Trigger = low_battery, pl_Abort = None,
      pl_Shutdown = \<lparr>sh_PostShutdown = None, sh_Stages = [demo_stage ''server'' False, demo_stage ''storage'' True]\<rparr>,
      pl_Wake = \<lparr>wk_Gate = literal_cond ''true'', wk_Stagger = ''0s'', wk_Order = ''reverse'', wk_Stages = [],
        wk_ProbeInterval = ''30s'', wk_BootDeadline = ''5m'', wk_Retries = 3\<rparr>\<rparr>"

definition demo_cfg :: Config where
  "demo_cfg =
     \<lparr>cf_Canarium = \<lparr>ca_Mode = ''armed'', ca_Host = [], ca_DataDir = [], ca_JournalRetain = ''30d'',
        ca_ConfigReadonly = False,
        ca_Auth = \<lparr>au_PasswordHash = [], au_TrustProxyHeaders = False, au_TrustedProxies = [], au_AllowedOrigins = []\<rparr>,
        ca_Webhooks = []\<rparr>,
      cf_SSH = \<lparr>ssh_User = [], ssh_Port = 22, ssh_Command = [], ssh_KeyPath = [], ssh_KeyPassphrase = [],
        ssh_KnownHosts = [], ssh_HostKeyPolicy = [], ssh_ConnectTimeout = [], ssh_CommandTimeout = []\<rparr>,
      cf_WOL = \<lparr>wol_RepeatCount = 3, wol_RepeatDelay = [], wol_Port = 9\<rparr>,
      cf_Sources = [], cf_Clients = [demo_client ''server'' [''storage''], demo_client ''storage'' []],
      cf_Plans = [demo_plan]\<rparr>"

theorem dependency_cycle_reported_iff_witness:
  "acyclic {(a, b). b \<in> set (deps (dep_graph demo_cfg) a)}"
proof -
  have "filter (\<lambda>d. case d of Err (DepMsg (DependencyCycle _ _)) \<Rightarrow> True | _ \<Rightarrow> False)
      (validateDependencies demo_cfg [''server'', ''storage'']) = []" by code_simp
  then have "\<nexists>x y. Err (DepMsg (DependencyCycle x y)) \<in> set (validateDependencies demo_cfg [''server'', ''storage''])"
    by (fastforce simp: filter_empty_conv)
  moreover have "set [''server'', ''storage''] = set (map cl_Name (cf_Clients demo_cfg))" by code_simp
  ultimately show ?thesis using dependency_cycle_reported_iff by blast
qed

theorem validated_stages_respect_dependencies_witness:
  "in_stage demo_cfg (sh_Stages (pl_Shutdown demo_plan)) 0 ''server'' \<and>
   in_stage demo_cfg (sh_Stages (pl_Shutdown demo_plan)) 1 ''storage'' \<and>
   \<not> in_stage demo_cfg (sh_Stages (pl_Shutdown demo_plan)) 1 ''server''"
proof -
  have "\<not> has_err (validateDependencies demo_cfg [''server'', ''storage''])" by code_simp
  moreover have "demo_plan \<in> set (cf_Plans demo_cfg)" by (simp add: demo_cfg_def)
  moreover have "in_stage demo_cfg (sh_Stages (pl_Shutdown demo_plan)) 0 ''server'' \<and>
      in_stage demo_cfg (sh_Stages (pl_Shutdown demo_plan)) 1 ''storage''" by code_simp
  ultimately show ?thesis using validated_stages_respect_dependencies by (metis zero_neq_one)
qed

theorem validated_condition_decides_witness:
  "fst (Evaluate demo_rt demo_store 5 low_battery NewEvaluator) \<noteq> Unavailable"
proof -
  have "validateConditionConfig demo_rt None (CtxTrigger ''outage'') low_battery = []" by code_simp
  moreover have "facts_known demo_store low_battery" by (simp add: facts_known.simps FactValue_demo)
  ultimately show ?thesis
    using validated_condition_decides [OF demo_free(1) singletonI demo_free(2), of None "CtxTrigger ''outage''" demo_store 5]
      demo_free(3) by (simp add: has_err_def no_warn_def)
qed

theorem untyped_condition_always_true_witness:
  "fst (Evaluate demo_rt NewStore 5 (Cond [] [] None None GNil [] [] [] [] [] [] [literal_cond ''false'']) NewEvaluator) = TTrue"
  by (simp add: untyped_condition_always_true)

section \<open>The database\<close>

theorem client_lock_exclusive_witness:
  "\<not> fst (AcquireClientLock 5 ''server'' ''seq_2'' (snd (AcquireClientLock 2 ''server'' ''seq_2''
      (snd (AcquireClientLock 1 ''server'' ''seq_1'' empty_db)))))"
proof -
  have "fst (AcquireClientLock 1 ''server'' ''seq_1'' empty_db)" by code_simp
  from client_lock_exclusive [OF this refl, of "[(2, ''server'', ''seq_2'')]"] show ?thesis by simp
qed

definition demo_sequence :: "string \<Rightarrow> string \<Rightarrow> instant \<Rightarrow> Sequence" where
  "demo_sequence sid st t =
     \<lparr>sq_ID = sid, sq_PlanName = ''outage'', sq_State = st, sq_CurrentStage = 0, sq_PonrCrossed = False,
      sq_Aborted = False, sq_PostShutdownRun = False, sq_StartedAt = t, sq_CompletedAt = None,
      sq_ConfigSnapshot = None, sq_PreSequenceState = Map.empty, sq_ResolvedAddrs = Map.empty\<rparr>"

definition demo_db :: DB where
  "demo_db = empty_db\<lparr>db_sequences := [demo_sequence ''seq_1'' ''completed'' 1, demo_sequence ''seq_2'' ''shutting_down'' 2]\<rparr>"

theorem prune_keeps_unfinished_witness:
  "demo_sequence ''seq_2'' ''shutting_down'' 2 \<in> set (db_sequences (snd (PruneJournal (<) 100 demo_db))) \<and>
   length (db_sequences (snd (PruneJournal (<) 100 demo_db))) = 1"
proof -
  obtain r db' where p: "PruneJournal (<) 100 demo_db = (r, db')" by force
  have inv: "db_inv demo_db" by (simp add: db_inv_def demo_db_def demo_sequence_def empty_db_def)
  have "length (db_sequences (snd (PruneJournal (<) 100 demo_db))) = 1" by code_simp
  with prune_keeps_unfinished [OF inv p] p show ?thesis
    by (simp add: demo_db_def demo_sequence_def)
qed

theorem orphan_released_witness:
  "\<not> (\<exists>s. GetActiveSequence (<) (FailOrphanedSequence 9 ''seq_2'' ''plan gone'' demo_db) = Some s \<and> sq_ID s = ''seq_2'')"
  using orphan_released [OF refl, of "(<)" 9 "''seq_2''" "''plan gone''" demo_db] by blast

section \<open>Derived facts, addresses and durations\<close>

definition demo_feeds :: "(string \<times> string) list \<Rightarrow> Store" where
  "demo_feeds readings = fold (\<lambda>(ups, status). Store_Update (ups @ ''.status'') (GString status) 0) readings
     (RegisterSource ''b'' Second [demo_decl\<lparr>d_Name := ''status''\<rparr>]
       (RegisterSource ''a'' Second [demo_decl\<lparr>d_Name := ''status''\<rparr>] NewStore))"

theorem comms_loss_never_threatens_witness:
  "clientThreatened (demo_feeds [(''a'', ''OB''), (''b'', ''OL'')]) [''a'', ''b''] ((demo_client ''server'' [])\<lparr>cl_Feeds := []\<rparr>) \<and>
   feedThreatened (demo_feeds [(''a'', ''OB'')]) ''b'' = Unavailable"
proof -
  let ?c = "(demo_client ''server'' [])\<lparr>cl_Feeds := []\<rparr>"
  have "lost (demo_feeds [(''a'', ''OB''), (''b'', ''OL'')]) (demo_feeds [(''a'', ''OB'')])"
    by (simp add: lost_def demo_feeds_def RegisterSource_def register_decl_def NewStore_def
        FactValue_def Store_Get_def Store_Update_def Fact_Get_def Fact_Set_def fact_key_def demo_decl_def Let_def)
  moreover have "cl_CommsLossAssumes ?c \<noteq> CommsLossThreatened" by code_simp
  moreover have "clientThreatened (demo_feeds [(''a'', ''OB'')]) [''a'', ''b''] ?c" by code_simp
  moreover have "feedThreatened (demo_feeds [(''a'', ''OB'')]) ''b'' = Unavailable" by code_simp
  ultimately show ?thesis using comms_loss_never_threatens by blast
qed

theorem clientThreatened_iff_witness:
  "\<not> clientThreatened (demo_feeds [(''a'', ''OB'')]) [''a'', ''b'']
     ((demo_client ''server'' [])\<lparr>cl_Feeds := [''a'', ''b''], cl_FeedPolicy := ''all''\<rparr>)"
proof -
  let ?c = "(demo_client ''server'' [])\<lparr>cl_Feeds := [''a'', ''b''], cl_FeedPolicy := ''all''\<rparr>"
  have "feedThreatened (demo_feeds [(''a'', ''OB'')]) ''b'' = Unavailable" by code_simp
  moreover have "set (clientFeeds [''a'', ''b''] ?c) = {''a'', ''b''}" by (simp add: clientFeeds_def)
  moreover have "cl_CommsLossAssumes ?c \<noteq> CommsLossThreatened" by code_simp
  ultimately show ?thesis
    using clientThreatened_iff [of "demo_feeds [(''a'', ''OB'')]" "[''a'', ''b'']" ?c] by (simp add: Let_def)
qed

theorem NormaliseMAC_normal_form_witness:
  "NormaliseMAC ''AA-bb-cc-00-11-22'' = Some ''aa:bb:cc:00:11:22'' \<and>
   NormaliseMAC ''aa:bb:cc:00:11:22'' = Some ''aa:bb:cc:00:11:22''"
proof -
  have "NormaliseMAC ''AA-bb-cc-00-11-22'' = Some ''aa:bb:cc:00:11:22''" by code_simp
  with NormaliseMAC_normal_form [OF this] show ?thesis by simp
qed

theorem ParseDuration_print_witness: "ParseDuration demo_rt ''90s'' = Some (90 * Second)"
proof -
  have "show_nat 90 @ ''s'' = ''90s''" by code_simp
  moreover have "unitMap ''s'' = Some 1000000000" by (simp add: unitMap_def)
  ultimately show ?thesis using ParseDuration_print [of "''s''" 1000000000 90 demo_rt] by simp
qed

theorem time_ParseDuration_int64_witness:
  "time_ParseDuration ''-2h'' = Some (- 7200 * Second) \<and> - (2 ^ 63) \<le> - 7200 * Second"
proof -
  have "time_ParseDuration ''-2h'' = Some (- 7200 * Second)"
    by (simp add: time_ParseDuration_def parse_components.simps parse_component_def parse_number_def parse_fraction_def
        scale_number_def unitMap_def not_unit_end_def is_digit_def digit_val_def Let_def)
  with time_ParseDuration_int64 [OF this] show ?thesis by simp
qed

end
