(* ===== verification/Sequence_Safety.thy ===== *)
theory Sequence_Safety
  imports Daemon
begin

text \<open>
  What the daemon never does, over all interleavings of its goroutines: no second sequence starts
  while one runs, nothing is acted upon outside the armed mode, a crossed point of no return stays
  crossed, a stage runs only when its condition holds or it was forced.
\<close>

section \<open>Steps outside the sequence goroutine\<close>

text \<open>The transport calls in a log.\<close>

fun is_dispatch :: "effect \<Rightarrow> bool" where
  "is_dispatch (Dispatch _ _ _ _) = True"
| "is_dispatch _ = False"

definition dispatches :: "effect list \<Rightarrow> effect list" where
  "dispatches xs = filter is_dispatch xs"

lemma dispatches_simps [simp]:
  "dispatches (xs @ ys) = dispatches xs @ dispatches ys"
  "dispatches [] = []"
  "dispatches (x # xs) = (if is_dispatch x then x # dispatches xs else dispatches xs)"
  by (simp_all add: dispatches_def)

text \<open>What the journal of a sequence is made of: its row, its intents, its stages, its locks.\<close>

definition core :: "DB \<Rightarrow> Sequence list \<times> Intent list \<times> StageRecord list \<times> (string \<rightharpoonup> string \<times> instant)" where
  "core db = (db_sequences db, db_intents db, db_stage_records db, db_client_locks db)"

text \<open>
  \<open>quiet e e'\<close>: no transport is called, the running sequence and its part of the database stay, and
  a power cut can bring back no journal that was neither on the disk nor current before.
\<close>

definition quiet :: "Executor \<Rightarrow> Executor \<Rightarrow> bool" where
  "quiet e e' \<longleftrightarrow> e_active e' = e_active e \<and> e_mode e' = e_mode e \<and> e_cancelled e' = e_cancelled e \<and>
     dispatches (e_log e') = dispatches (e_log e) \<and> set (e_log e) \<subseteq> set (e_log e') \<and>
     core (e_db e') = core (e_db e) \<and> core ` set (e_disk e') \<subseteq> core ` insert (e_db e) (set (e_disk e))"

lemma quiet_refl [simp]: "quiet e e"
  by (auto simp: quiet_def)

lemma quiet_trans: "quiet a b \<Longrightarrow> quiet b c \<Longrightarrow> quiet a c"
  unfolding quiet_def by (fastforce simp: image_def)

lemma quiet_foldl: "(\<And>e x. quiet e (f e x)) \<Longrightarrow> quiet e (foldl f e xs)"
  by (induction xs arbitrary: e) (auto intro: quiet_trans)

lemma quiet_write:
  assumes "\<And>db. core (f db) = core db"
  shows "quiet e (db_write ok f e)"
  using assms by (auto simp: quiet_def db_write_def)

lemma core_writes [simp]:
  "core (SaveClientState now n s q db) = core db" "core (SaveLearnedMAC m db) = core db" "core (SetKV k v db) = core db"
  by (simp_all add: core_def SaveClientState_def SaveLearnedMAC_def SetKV_def)

lemma quiet_emit: "\<not> is_dispatch x \<Longrightarrow> quiet e (emit x e)"
  by (auto simp: quiet_def dispatches_def)

lemma quiet_cong:
  "quiet e e' \<Longrightarrow> e_active e'' = e_active e' \<Longrightarrow> e_mode e'' = e_mode e' \<Longrightarrow> e_cancelled e'' = e_cancelled e' \<Longrightarrow>
   e_log e'' = e_log e' \<Longrightarrow> e_db e'' = e_db e' \<Longrightarrow> e_disk e'' = e_disk e' \<Longrightarrow> quiet e e''"
  by (simp add: quiet_def)

lemma quiet_setClientState: "quiet e (setClientState ok now n s q e)"
proof -
  let ?e1 = "e\<lparr>e_clientStates := (e_clientStates e)(n \<mapsto> s),
     e_clientStateSince := (if e_clientStates e n \<noteq> Some s then (e_clientStateSince e)(n \<mapsto> now) else e_clientStateSince e)\<rparr>"
  have "quiet e ?e1" by (rule quiet_cong [OF quiet_refl]) simp_all
  moreover have "quiet ?e1 (db_write ok (SaveClientState now n (ClientState_String s) q) ?e1)"
    by (rule quiet_write) simp
  ultimately show ?thesis unfolding setClientState_def Let_def
    by (rule quiet_trans [OF quiet_trans]) (rule quiet_emit, simp)
qed

lemma quiet_recordLearnedMAC: "quiet e (recordLearnedMAC ok now c m s e)"
  unfolding recordLearnedMAC_def Let_def
  by (rule quiet_trans [OF quiet_cong [OF quiet_refl] quiet_write]) simp_all

lemma quiet_probe: "quiet e (probeAllClients en ok now probe e)"
  unfolding probeAllClients_def
  by (rule quiet_foldl) (auto simp: probe_client_def Let_def quiet_setClientState split: option.split)

lemma quiet_learnMACs: "quiet e (learnMACs en ok now w e)"
proof -
  have "quiet e (learn_client en ok now w e c)" for e c
    by (auto simp: learn_client_def Let_def noteMACAttempt_def quiet_recordLearnedMAC split: prod.split
        intro: quiet_cong [OF quiet_refl] quiet_trans [OF quiet_cong [OF quiet_refl] quiet_recordLearnedMAC])
  then show ?thesis by (simp add: learnMACs_def quiet_foldl)
qed

lemma quiet_quality: "quiet e (quality_tick en keys now e)"
  by (auto simp: quality_tick_def cached_ups_def split: option.split intro: quiet_cong [OF quiet_refl])

text \<open>Pruning waits until no sequence runs.\<close>

lemma retention_running: "e_active e \<noteq> None \<Longrightarrow> retention_tick en ok now e = e"
  by (simp add: retention_tick_def pruneJournal_def Let_def)

lemma retention_frame:
  "e_active (retention_tick en ok now e) = e_active e" "e_mode (retention_tick en ok now e) = e_mode e"
  "e_cancelled (retention_tick en ok now e) = e_cancelled e"
  "dispatches (e_log (retention_tick en ok now e)) = dispatches (e_log e)"
  by (simp_all add: retention_tick_def pruneJournal_def Let_def db_write_def)

text \<open>The steps that are neither the goroutine's, nor the start of a sequence, nor a restart.\<close>

fun is_restart :: "event \<Rightarrow> bool" where
  "is_restart (Restart _ _ _ _ _ _) = True"
| "is_restart _ = False"

fun is_set_mode :: "event \<Rightarrow> bool" where
  "is_set_mode (SetModeRequest _ _) = True"
| "is_set_mode _ = False"

lemma handleSetMode_frame:
  "e_active (snd (handleSetMode en ok req e)) = e_active e"
  "e_cancelled (snd (handleSetMode en ok req e)) = e_cancelled e"
  "dispatches (e_log (snd (handleSetMode en ok req e))) = dispatches (e_log e)"
  "core (e_db (snd (handleSetMode en ok req e))) = core (e_db e)"
  by (simp_all add: handleSetMode_def SetMode_def Let_def core_def SetKV_def split: prod.split bool.split)

lemma evaluate_plans_idle:
  assumes "evaluate_plans en now mode plans e = (fired, e')" and "\<not> fired"
  shows "e_active e' = e_active e \<and> e_mode e' = e_mode e \<and> e_cancelled e' = e_cancelled e \<and>
    dispatches (e_log e') = dispatches (e_log e) \<and> e_db e' = e_db e \<and> e_disk e' = e_disk e"
  using assms
proof (induction plans arbitrary: e)
  case (Cons p ps)
  obtain v ev where v: "Evaluate (en_rt en) (e_store e) now (pl_Trigger p) (e_evaluator e) = (v, ev)" by force
  have nw: "e_active (noteWouldTrigger n b x) = e_active x \<and> e_mode (noteWouldTrigger n b x) = e_mode x \<and>
      e_cancelled (noteWouldTrigger n b x) = e_cancelled x \<and> dispatches (e_log (noteWouldTrigger n b x)) = dispatches (e_log x) \<and>
      e_db (noteWouldTrigger n b x) = e_db x \<and> e_disk (noteWouldTrigger n b x) = e_disk x" for n b x
    by (simp add: noteWouldTrigger_def Let_def)
  show ?case
  proof (cases "e_active e = None")
    case True
    with Cons.prems v consider
        "evaluate_plans en now mode ps (noteWouldTrigger (pl_Name p) (v = TTrue) (e\<lparr>e_evaluator := ev\<rparr>)) = (fired, e')"
      | "evaluate_plans en now mode ps (e\<lparr>e_evaluator := ev\<rparr>) = (fired, e')"
      by (auto simp: Let_def setActiveSequence_def split: if_splits prod.splits)
    then show ?thesis
    proof cases
      case 1
      from Cons.IH [OF 1 Cons.prems(2)] show ?thesis by (simp add: nw)
    next
      case 2
      from Cons.IH [OF 2 Cons.prems(2)] show ?thesis by simp
    qed
  next
    case False
    with Cons.prems show ?thesis by simp
  qed
qed simp

lemma evaluate_plans_running: "e_active e \<noteq> None \<Longrightarrow> evaluate_plans en now mode plans e = (False, e)"
  by (cases plans) auto

lemma evaluate_plans_fired:
  assumes "evaluate_plans en now mode plans e = (True, e')"
  shows "e_active e = None \<and> mode \<noteq> ModeDisarmed \<and> e_mode e' = e_mode e \<and> e_cancelled e' = e_cancelled e \<and>
    dispatches (e_log e') = dispatches (e_log e) \<and> e_db e' = e_db e \<and> e_disk e' = e_disk e \<and>
    (\<exists>p x. p \<in> set plans \<and> e_clientStates x = e_clientStates e \<and> e_active e' = Some (newSequenceFor en now p x))"
  using assms
proof (induction plans arbitrary: e)
  case (Cons p ps)
  obtain v ev where v: "Evaluate (en_rt en) (e_store e) now (pl_Trigger p) (e_evaluator e) = (v, ev)" by force
  have idle: "e_active e = None" using Cons.prems evaluate_plans_running by (metis prod.inject)
  show ?case
  proof (cases "mode = ModeDisarmed")
    case True
    with Cons.prems idle v
    have "evaluate_plans en now mode ps (noteWouldTrigger (pl_Name p) (v = TTrue) (e\<lparr>e_evaluator := ev\<rparr>)) = (True, e')"
      by (simp add: Let_def)
    from Cons.IH [OF this] True show ?thesis by simp
  next
    case armed: False
    show ?thesis
    proof (cases "v = TTrue")
      case True
      let ?x = "e\<lparr>e_evaluator := ev\<rparr>"
      have "e' = emit (Emit ''trigger'' [pl_Name p]) (?x\<lparr>e_active := Some (newSequenceFor en now p ?x)\<rparr>)"
        using Cons.prems idle v armed True by (simp add: Let_def setActiveSequence_def evaluate_plans_running)
      then show ?thesis using idle armed by (auto intro!: exI [of _ p] exI [of _ ?x])
    next
      case False
      with Cons.prems idle v armed have "evaluate_plans en now mode ps (e\<lparr>e_evaluator := ev\<rparr>) = (True, e')"
        by (simp add: Let_def)
      from Cons.IH [OF this] show ?thesis using idle by (auto simp: Let_def)
    qed
  qed
qed simp

section \<open>One sequence at a time\<close>

fun is_slot_event :: "event \<Rightarrow> bool" where
  "is_slot_event (SeqTick _) = True"
| "is_slot_event (PolicyTick _) = True"
| "is_slot_event (Restart _ _ _ _ _ _) = True"
| "is_slot_event _ = False"

text \<open>
  A request of the operator changes the flags of the handle; nothing else outside the goroutine
  changes the handle at all.
\<close>

definition requested :: "ActiveSequence \<Rightarrow> ActiveSequence \<Rightarrow> bool" where
  "requested a a' \<longleftrightarrow> a' = a \<or> (\<exists>r. a' = RequestProceed r a) \<or> (\<exists>r. \<not> sq_PonrCrossed (as_seq a) \<and> a' = snd (RequestAbort r a))"

lemma other_event_slot:
  assumes "\<not> is_slot_event ev" and "daemon_step en ev (pc, e) = (pc', e')"
  shows "pc' = pc \<and> dispatches (e_log e') = dispatches (e_log e) \<and>
    (case e_active e of None \<Rightarrow> e_active e' = None | Some a \<Rightarrow> \<exists>a'. e_active e' = Some a' \<and> requested a a')"
  using assms
proof (cases ev)
  case (ProbeTick ok now probe w)
  have "quiet e (learnMACs en ok now w (probeAllClients en ok now probe e))"
    by (rule quiet_trans [OF quiet_probe quiet_learnMACs])
  then show ?thesis using assms ProbeTick by (auto simp: quiet_def requested_def split: option.splits)
next
  case (QualityTick keys now)
  then show ?thesis using assms quiet_quality [of e en keys now]
    by (auto simp: quiet_def requested_def split: option.splits)
next
  case (RetentionTick ok now)
  then show ?thesis using assms by (auto simp: retention_frame requested_def split: option.splits)
next
  case (SetModeRequest ok req)
  then show ?thesis using assms by (auto simp: handleSetMode_frame requested_def split: option.splits)
next
  case (AbortRequest r)
  then show ?thesis using assms
    by (auto simp: AbortSequence_def RequestAbort_def requested_def split: option.splits prod.splits if_splits)
next
  case (ForceRequest r)
  then show ?thesis using assms
    by (auto simp: ForceStage_def requested_def simp del: active_defs split: option.splits)
qed (auto simp: requested_def split: option.splits)

lemma requested_same: "requested a a' \<Longrightarrow> as_seq a' = as_seq a \<and> as_plan a' = as_plan a"
  by (auto simp: requested_def RequestAbort_def)

lemma restoreMode_frame:
  "e_active (restoreMode en e) = e_active e" "e_db (restoreMode en e) = e_db e" "e_disk (restoreMode en e) = e_disk e"
  "e_log (restoreMode en e) = e_log e" "e_cancelled (restoreMode en e) = e_cancelled e"
  by (simp_all add: restoreMode_def Let_def split: prod.split bool.split)

lemma cached_ups_frame:
  "cached_ups keys e = (u, e') \<Longrightarrow> e_active e' = e_active e \<and> e_db e' = e_db e \<and> e_disk e' = e_disk e \<and>
     e_log e' = e_log e \<and> e_cancelled e' = e_cancelled e"
  by (auto simp: cached_ups_def split: option.splits)

lemma restore_frames:
  "e_active (restoreLearnedMACs en (restore_clients en e)) = e_active e"
  "e_db (restoreLearnedMACs en (restore_clients en e)) = e_db e"
  "e_disk (restoreLearnedMACs en (restore_clients en e)) = e_disk e"
  "e_log (restoreLearnedMACs en (restore_clients en e)) = e_log e"
  "e_cancelled (restoreLearnedMACs en (restore_clients en e)) = e_cancelled e"
  by (simp_all add: restoreLearnedMACs_def restore_clients_def)

text \<open>What a start finds: a sequence to resume, a sequence without a plan, or neither.\<close>

lemma boot_cases:
  assumes "boot en db tbl st keys ok now = (pc, e)"
  obtains (none) "pc = Idle" "e_active e = None" "GetActiveSequence (en_lt en) db = None"
      "e_db e = db" "e_disk e = [db]" "e_log e = []"
  | (orphan) seq reason where "pc = Idle" "e_active e = None" "GetActiveSequence (en_lt en) db = Some seq"
      "findPlan (en_cfg en) (sq_PlanName seq) = None"
      "e_log e = (if ok then [] else [DBError])"
      "e_db e = (if ok then FailOrphanedSequence now (sq_ID seq) reason db else db)"
      "e_disk e = (if ok then [db, FailOrphanedSequence now (sq_ID seq) reason db] else [db])"
  | (resume) seq plan where "pc = Resuming" "e_active e = Some (newActiveSequence seq plan)"
      "GetActiveSequence (en_lt en) db = Some seq" "findPlan (en_cfg en) (sq_PlanName seq) = Some plan"
      "e_db e = db" "e_disk e = [db]" "e_log e = []"
proof -
  let ?e0 = "restoreMode en (NewExecutor en st (SetDwellStore tbl NewEvaluator) db)"
  let ?e1 = "?e0\<lparr>e_store := registerDerivedFacts (en_cfg en) (tm_Policy (en_timings en)) (e_store ?e0)\<rparr>"
  obtain ups e2 where u: "cached_ups keys ?e1 = (ups, e2)" by force
  let ?e3 = "e2\<lparr>e_store := updateDerivedFacts (en_cfg en) ups now (e_store e2)\<rparr>"
  have f: "e_active ?e3 = None" "e_db ?e3 = db" "e_disk ?e3 = [db]" "e_log ?e3 = []" "e_cancelled ?e3 = False"
    using cached_ups_frame [OF u] by (simp_all add: restoreMode_frame) (simp_all add: NewExecutor_def)
  obtain resumed where r: "restoreState en ok now ?e3 = (resumed, e)" "pc = (if resumed then Resuming else Idle)"
    using assms u by (auto simp: boot_def start_executor_def Let_def split: prod.splits)
  show thesis
  proof (cases "GetActiveSequence (en_lt en) db")
    case None
    then have "e = restoreLearnedMACs en (restore_clients en ?e3)" "\<not> resumed"
      using r f by (simp_all add: restoreState_def Let_def restore_frames)
    then show thesis using r(2) None f by (intro none) (simp_all add: restore_frames)
  next
    case (Some seq)
    show thesis
    proof (cases "findPlan (en_cfg en) (sq_PlanName seq)")
      case None
      let ?reason = "''plan '' @ sq_PlanName seq @ '' is no longer in the configuration''"
      have "e = db_write ok (FailOrphanedSequence now (sq_ID seq) ?reason) (restoreLearnedMACs en (restore_clients en ?e3))"
        "\<not> resumed"
        using r Some None f by (simp_all add: restoreState_def Let_def restore_frames)
      then show thesis using r(2) Some None f
        by (intro orphan [of seq ?reason]) (simp_all add: db_write_def restore_frames)
    next
      case p: (Some plan)
      have "e = (restoreLearnedMACs en (restore_clients en ?e3))\<lparr>e_active := Some (newActiveSequence seq plan)\<rparr>" "resumed"
        using r Some p f by (simp_all add: restoreState_def Let_def restore_frames setActiveSequence_def)
      then show thesis using r(2) Some p f
        by (intro resume [of seq plan]) (simp_all add: restore_frames)
    qed
  qed
qed

lemma boot_slot: "boot en db tbl st keys ok now = (pc, e) \<Longrightarrow> (pc = Idle \<longleftrightarrow> e_active e = None) \<and> (pc = Idle \<or> pc = Resuming)"
  by (erule boot_cases) simp_all

definition same_sequence :: "ActiveSequence \<Rightarrow> ActiveSequence \<Rightarrow> bool" where
  "same_sequence a a' \<longleftrightarrow> sq_ID (as_seq a') = sq_ID (as_seq a) \<and> as_plan a' = as_plan a"

lemma step_running:
  assumes "e_active e = Some a" and "pc \<noteq> Idle" and "\<not> is_restart ev" and "daemon_step en ev (pc, e) = (pc', e')"
  shows "(pc' = Idle \<and> e_active e' = None) \<or> (pc' \<noteq> Idle \<and> (\<exists>a'. e_active e' = Some a' \<and> same_sequence a a'))"
proof (cases "is_slot_event ev")
  case True
  then consider tk where "ev = SeqTick tk" | now where "ev = PolicyTick now" using assms(3) by (cases ev) auto
  then show ?thesis
  proof cases
    case 1
    then show ?thesis using seq_step_same [OF assms(1,2), of en tk pc' e'] assms(1,4)
      by (auto simp: same_as_def same_sequence_def)
  next
    case 2
    then show ?thesis using assms by (auto simp: evaluatePolicies_def evaluate_plans_running same_sequence_def split: if_splits)
  qed
next
  case False
  from other_event_slot [OF this assms(4)] assms(1,2) show ?thesis
    using requested_same by (fastforce simp: same_sequence_def)
qed

lemma running_other_event:
  assumes "e_active e = Some a" and "\<not> is_restart ev" and "\<nexists>tk. ev = SeqTick tk" and "daemon_step en ev (pc, e) = (pc', e')"
  shows "pc' = pc \<and> dispatches (e_log e') = dispatches (e_log e) \<and> (\<exists>a'. e_active e' = Some a' \<and> requested a a')"
proof (cases "is_slot_event ev")
  case True
  then show ?thesis using assms
    by (cases ev) (auto simp: evaluatePolicies_def evaluate_plans_running requested_def split: if_splits)
next
  case False
  from other_event_slot [OF False assms(4)] assms(1) show ?thesis by simp
qed

lemma step_idle:
  assumes "e_active e = None" and "daemon_step en ev (Idle, e) = (pc', e')"
  shows "pc' = Idle \<longleftrightarrow> e_active e' = None"
proof (cases "is_slot_event ev")
  case True
  then show ?thesis
  proof (cases ev)
    case (PolicyTick now)
    obtain fired x where x: "evaluatePolicies en now e = (fired, x)" by force
    then show ?thesis using assms PolicyTick
      by (cases fired) (auto simp: evaluatePolicies_def dest: evaluate_plans_fired evaluate_plans_idle split: if_splits)
  next
    case (Restart k tbl st keys ok now)
    obtain pc1 e1 where b: "boot en (e_disk e ! k) tbl st keys ok now = (pc1, e1)" by force
    from boot_slot [OF this] show ?thesis using assms Restart b by (auto split: if_splits)
  qed (use assms in auto)
next
  case False
  from other_event_slot [OF this assms(2)] assms(1) show ?thesis by simp
qed

lemma step_restart:
  assumes "is_restart ev" and "daemon_step en ev (pc, e) = (pc', e')"
  shows "(pc', e') = (pc, e) \<or> (pc' = Idle \<longleftrightarrow> e_active e' = None)"
proof (cases ev)
  case (Restart k tbl st keys ok now)
  obtain pc1 e1 where b: "boot en (e_disk e ! k) tbl st keys ok now = (pc1, e1)" by force
  from boot_slot [OF this] show ?thesis using assms Restart b by (auto split: if_splits)
qed (use assms in auto)

lemma slot_invariant: "reachable en d \<Longrightarrow> fst d = Idle \<longleftrightarrow> e_active (snd d) = None"
proof (induction rule: reachable.induct)
  case (boot db tbl st keys ok now)
  then show ?case using boot_slot by (metis prod.collapse)
next
  case (step d ev)
  obtain pc e pc' e' where d: "d = (pc, e)" "daemon_step en ev (pc, e) = (pc', e')" by (metis prod.collapse)
  show ?case
  proof (cases "e_active e")
    case None
    then show ?thesis using step.IH d step_idle by auto
  next
    case (Some a)
    then show ?thesis using step.IH d step_running [OF Some _ _ d(2)] step_restart [OF _ d(2)] by (cases "is_restart ev") auto
  qed
qed

text \<open>
  C1. At any time at most one sequence runs. In every reachable state the slot of the running sequence
  is taken exactly while its goroutine is somewhere in its code; and while it is taken, no step but
  a restart puts another sequence or another plan there, whatever the triggers say.
\<close>

theorem one_sequence_at_a_time:
  assumes "reachable en (pc, e)"
  shows "(pc = Idle \<longleftrightarrow> e_active e = None) \<and>
    (\<forall>a ev pc' e' a'. e_active e = Some a \<and> \<not> is_restart ev \<and> daemon_step en ev (pc, e) = (pc', e') \<and>
       e_active e' = Some a' \<longrightarrow> sq_ID (as_seq a') = sq_ID (as_seq a) \<and> as_plan a' = as_plan a)"
proof (intro conjI allI impI)
  show idle: "pc = Idle \<longleftrightarrow> e_active e = None" using slot_invariant [OF assms] by simp
  fix a ev pc' e' a'
  assume *: "e_active e = Some a \<and> \<not> is_restart ev \<and> daemon_step en ev (pc, e) = (pc', e') \<and> e_active e' = Some a'"
  then have "same_sequence a a'" using step_running [of e a pc ev en pc' e'] idle by auto
  then show "sq_ID (as_seq a') = sq_ID (as_seq a)" "as_plan a' = as_plan a" by (simp_all add: same_sequence_def)
qed

section \<open>Outside the armed mode nothing is acted upon\<close>

definition calm :: "Executor \<Rightarrow> Executor \<Rightarrow> bool" where
  "calm e e' \<longleftrightarrow> dispatches (e_log e') = dispatches (e_log e) \<and> e_mode e' = e_mode e"

lemma calm_frames [simp]:
  "calm e e"
  "calm e (emit (Emit t d) x) = calm e x" "calm e (emit DBError x) = calm e x" "calm e (emit (Export i) x) = calm e x"
  "calm e (emit (PruneFiles before) x) = calm e x"
  "calm e (db_write ok f x) = calm e x" "calm e (db_write_durable ok f x) = calm e x"
  "calm e (saveSequence ok x) = calm e x" "calm e (saveSequenceDurable ok x) = calm e x"
  "calm e (saveIntent ok it x) = calm e x" "calm e (saveIntentDurable ok it x) = calm e x"
  "calm e (setClientState ok now n st q x) = calm e x"
  "calm e (on_active g x) = calm e x" "calm e (clearActiveSequence x) = calm e x"
  "calm e (x\<lparr>e_active := v\<rparr>) = calm e x" "calm e (recordLearnedMAC ok now c m src x) = calm e x"
  by (auto simp: calm_def db_write_def db_write_durable_def saveSequence_def saveSequenceDurable_def saveIntent_def
      saveIntentDurable_def setClientState_def recordLearnedMAC_def Let_def split: option.splits)

lemma calm_eval: "eval_cond en tk c x = (b, y) \<Longrightarrow> calm e y = calm e x"
  by (drule eval_cond_active) (simp add: calm_def)

lemma calm_shouldAbort: "shouldAbort en tk a x = (b, y) \<Longrightarrow> calm e y = calm e x"
  by (drule shouldAbort_frame) (simp add: calm_def)

lemma calm_resolve: "resolveClientAddresses en ok now w x = (r, y) \<Longrightarrow> calm e y = calm e x"
proof -
  have "discoverMAC en ok now w c ip x = (m, y) \<Longrightarrow> calm e y = calm e x" for c ip x m y
    by (auto simp: discoverMAC_def split: option.splits prod.splits if_splits)
  then have step: "resolve_client en ok now w (r0, x) c = (r1, y) \<Longrightarrow> calm e y = calm e x" for r0 x c r1 y
    by (auto simp: resolve_client_def Let_def split: if_splits prod.splits)
  have "foldl (resolve_client en ok now w) (r0, x) cs = (r1, y) \<Longrightarrow> calm e y = calm e x" for cs r0 x r1 y
  proof (induction cs arbitrary: r0 x)
    case (Cons c cs)
    obtain r2 e2 where "resolve_client en ok now w (r0, x) c = (r2, e2)" by force
    with Cons step [OF this] show ?case by simp
  qed simp
  then show "resolveClientAddresses en ok now w x = (r, y) \<Longrightarrow> calm e y = calm e x"
    by (simp add: resolveClientAddresses_def)
qed

fun sending :: "pc \<Rightarrow> bool" where
  "sending (WakeSend _ _ _) = True"
| "sending (WakeSent _ _ _) = True"
| "sending (WakeProbe _ _ _ _) = True"
| "sending (WakeWait _ _ _ _ _) = True"
| "sending _ = False"

definition calm_to :: "Executor \<Rightarrow> pc \<times> Executor \<Rightarrow> bool" where
  "calm_to e r \<longleftrightarrow> \<not> sending (fst r) \<and> calm e (snd r)"

lemma calm_to_pair [simp]: "calm_to e (pc, x) \<longleftrightarrow> \<not> sending pc \<and> calm e x"
  by (simp add: calm_to_def)

lemma calm_mode: "calm e x \<Longrightarrow> e_mode x = e_mode e"
  by (simp add: calm_def)

lemma calm_stages:
  "calm_to e (start_stage en tk stage i x) = calm e x"
  "calm_to e (enter_stage en tk stage i x) = calm e x"
  "calm_to e (handleAbort en tk a x) = calm e x"
  "calm_to e (to_gate tk x) = calm e x"
  "calm_to e (finish_post tk x) = calm e x"
  "calm_to e (completeSequence tk a x) = calm e x"
  "calm_to e (after_wake en tk a order j x) = calm e x"
  by (simp_all add: start_stage_def enter_stage_def handleAbort_def to_gate_def finish_post_def completeSequence_def
      releaseSequence_def after_wake_def Let_def)

lemma calm_timeout: "handleStageTimeout en tk a stage i x = (h, y) \<Longrightarrow> calm e y = calm e x"
  by (auto simp: handleStageTimeout_def Let_def split: if_splits)

lemma calm_waitForStage: "calm_to e (waitForStage en tk a stage i dl x) = calm e x"
proof -
  obtain b y where y: "eval_cond en tk (sg_When stage) x = (b, y)" by force
  obtain f r a' where cp: "ConsumeProceed a = (f, r, a')" by (metis prod_cases3)
  obtain c z where z: "shouldAbort en tk a y = (c, z)" by force
  obtain h u where u: "handleStageTimeout en tk a stage i z = (h, u)" by force
  show ?thesis
    by (simp add: waitForStage_def y cp z u calm_stages calm_eval [OF y] calm_shouldAbort [OF z] calm_timeout [OF u]
        split: bool.split)
qed

lemma calm_client_dry:
  assumes "e_mode x = ModeDryRun" and "shutdownClient en tk budget name p x = (p', y)"
  shows "calm x y"
  using assms
  by (cases p) (auto simp: claim_client_def record_intent_def dispatch_client_def answered_client_def awaitClientDown_def
      await_select_def unverified_def Let_def split: option.splits if_splits prod.splits bool.splits)

lemma calm_runShutdownStages:
  assumes "e_mode e = ModeDryRun"
  shows "calm_to e (runShutdownStages en tk a i e)"
proof -
  obtain c z where z: "shouldAbort en tk a (saveSequence (tk_ok tk) (on_active (SetCurrentStage i) e)) = (c, z)" by force
  have "calm_to e (after_stages en tk a e)"
    using assms by (simp add: after_stages_def executePostShutdown_def calm_stages split: option.split prod.split bool.split)
  then show ?thesis
    using calm_shouldAbort [OF z, of e]
    by (simp add: runShutdownStages_def Let_def z calm_stages split: bool.split del: active_defs)
qed

lemma calm_foldl: "(\<And>x c. calm e (f x c) = calm e x) \<Longrightarrow> calm e (foldl f x cs) = calm e x"
  by (induction cs arbitrary: x) simp_all

lemma calm_resume: "calm_to e (resumeSequence en tk a x) = calm e x"
proof -
  have "calm e (reconcile en tk y it) = calm e y" for y it
    by (simp add: reconcile_def Let_def split: option.split ClientState.split)
  then have "calm e (reconcileIntents en tk y) = calm e y" for y
    by (simp add: reconcileIntents_def calm_foldl)
  then show ?thesis by (simp add: resumeSequence_def Let_def)
qed

lemma seq_step_dry:
  assumes "e_mode e = ModeDryRun" and "\<not> sending pc"
  shows "calm_to e (seq_step en tk a pc e)"
proof (cases pc)
  case Executing
  obtain addrs e1 where r: "resolveClientAddresses en (tk_ok tk) (tk_now tk) (tk_mac tk) e = (addrs, e1)" by force
  then show ?thesis by (simp add: Executing executeSequence_def r calm_resolve [OF r])
next
  case (StageRun i rec budget cs)
  obtain name p where np: "cs ! tk_who tk = (name, p)" by force
  obtain p' e' where p': "shutdownClient en tk budget name p e = (p', e')" by force
  then show ?thesis using calm_client_dry [OF assms(1) p'] by (simp add: StageRun executeStage_def np p')
next
  case (Settle cs dl)
  then show ?thesis
    by (auto simp: waitForShuttingDown_def calm_stages split: list.split option.split)
next
  case Gate
  obtain b e1 where e1: "eval_cond en tk (wk_Gate (pl_Wake (as_plan a))) e = (b, e1)" by force
  then show ?thesis using calm_eval [OF e1, of e]
    by (cases b) (simp_all add: Gate runWake_def e1 calm_stages)
next
  case (WakeNext order i)
  then show ?thesis by (simp add: wake_next_def calm_stages Let_def split: option.split)
next
  case (WakeStart order i)
  then show ?thesis using assms by (simp add: wakeClient_def calm_stages Let_def split: option.split)
qed (use assms in \<open>simp_all add: calm_runShutdownStages calm_waitForStage calm_resume calm_stages split: option.split bool.split\<close>)

text \<open>
  \<open>nothing_unfinished e\<close>: neither the database nor what a power cut may bring back of it has a sequence
  that a start would resume.
\<close>

definition finished :: "DB \<Rightarrow> bool" where
  "finished db \<longleftrightarrow> (\<forall>s \<in> set (db_sequences db). sq_State s \<in> terminal_states)"

definition nothing_unfinished :: "Executor \<Rightarrow> bool" where
  "nothing_unfinished e \<longleftrightarrow> (\<forall>db \<in> insert (e_db e) (set (e_disk e)). finished db)"

lemma finished_core: "core db' = core db \<Longrightarrow> finished db' = finished db"
  by (simp add: core_def finished_def)

lemma finished_none: "finished db \<Longrightarrow> GetActiveSequence lt db = None"
  by (cases "GetActiveSequence lt db") (auto simp: finished_def dest: GetActiveSequence_in)

lemma quiet_unfinished: "quiet e e' \<Longrightarrow> nothing_unfinished e \<Longrightarrow> nothing_unfinished e'"
proof -
  assume q: "quiet e e'" and u: "nothing_unfinished e"
  have "finished (e_db e')" using q u finished_core [of "e_db e'" "e_db e"] by (auto simp: quiet_def nothing_unfinished_def)
  moreover have "finished db" if db: "db \<in> set (e_disk e')" for db
  proof -
    obtain db' where "core db = core db'" "db' \<in> insert (e_db e) (set (e_disk e))" using q db by (fastforce simp: quiet_def)
    then show ?thesis using u finished_core [of db db'] by (auto simp: nothing_unfinished_def)
  qed
  ultimately show ?thesis by (simp add: nothing_unfinished_def)
qed

lemma other_event_unfinished:
  assumes "\<not> is_slot_event ev" and "daemon_step en ev (pc, e) = (pc', e')" and "e_active e = None" and "nothing_unfinished e"
  shows "nothing_unfinished e'"
proof (cases ev)
  case (ProbeTick ok now probe w)
  then show ?thesis using assms quiet_unfinished [OF quiet_trans [OF quiet_probe quiet_learnMACs]] by auto
next
  case (QualityTick keys now)
  then show ?thesis using assms quiet_unfinished [OF quiet_quality] by auto
next
  case (RetentionTick ok now)
  then show ?thesis using assms
    by (cases "e_cancelled e") (auto simp: retention_tick_def pruneJournal_def nothing_unfinished_def db_write_def finished_def
        PruneJournal_in Let_def split: if_splits)
next
  case (SetModeRequest ok req)
  then show ?thesis using assms
    by (auto simp: handleSetMode_def SetMode_def SetKV_def nothing_unfinished_def finished_def emit_def Let_def split: prod.splits bool.splits if_splits)
qed (use assms in \<open>auto simp: AbortSequence_def ForceStage_def nothing_unfinished_def\<close>)

text \<open>In dry run, with no wake command under way; or disarmed, with no sequence, running or to be resumed.\<close>

definition unarmed :: "daemon \<Rightarrow> bool" where
  "unarmed d \<longleftrightarrow> (case d of (pc, e) \<Rightarrow> e_mode e = ModeDryRun \<and> \<not> sending pc \<or>
     e_mode e = ModeDisarmed \<and> pc = Idle \<and> e_active e = None \<and> nothing_unfinished e)"

lemma other_event_mode:
  "\<not> is_slot_event ev \<Longrightarrow> \<not> is_set_mode ev \<Longrightarrow> daemon_step en ev (pc, e) = (pc', e') \<Longrightarrow> e_mode e' = e_mode e"
proof (cases ev)
  case (ProbeTick ok now probe w)
  assume "daemon_step en ev (pc, e) = (pc', e')"
  then show ?thesis using quiet_trans [OF quiet_probe quiet_learnMACs, of e en ok now w en ok now probe] ProbeTick
    by (auto simp: quiet_def)
next
  case (QualityTick keys now)
  assume "daemon_step en ev (pc, e) = (pc', e')"
  then show ?thesis using quiet_quality [of e en keys now] QualityTick by (auto simp: quiet_def)
qed (auto simp: retention_frame AbortSequence_def ForceStage_def split: option.splits prod.splits bool.splits)

text \<open>A start in an unarmed mode sends nothing, and disarmed with nothing unfinished it resumes nothing.\<close>

lemma unarmed_restart:
  assumes "unarmed (pc, e)" and "daemon_step en (Restart k tbl st keys ok now) (pc, e) = (pc', e')" and "e_mode e' = e_mode e"
  shows "unarmed (pc', e') \<and> dispatches (e_log e') = dispatches (e_log e)"
proof (cases "k < length (e_disk e)")
  case True
  obtain pc1 e1 where b: "boot en (e_disk e ! k) tbl st keys ok now = (pc1, e1)" by force
  have e': "pc' = pc1" "e' = e1\<lparr>e_log := e_log e @ e_log e1\<rparr>" using assms(2) True b by auto
  have disk: "e_disk e ! k \<in> set (e_disk e)" using True by simp
  show ?thesis using b
  proof (cases rule: boot_cases)
    case none
    then show ?thesis using assms(1,3) e' disk by (auto simp: unarmed_def nothing_unfinished_def)
  next
    case (orphan seq reason)
    then have "\<not> finished (e_disk e ! k)" using finished_none by fastforce
    then have "e_mode e = ModeDryRun" using assms(1) disk by (auto simp: unarmed_def nothing_unfinished_def)
    then show ?thesis using orphan assms(3) e' by (simp add: unarmed_def)
  next
    case (resume seq plan)
    then have "\<not> finished (e_disk e ! k)" using finished_none by fastforce
    then have "e_mode e = ModeDryRun" using assms(1) disk by (auto simp: unarmed_def nothing_unfinished_def)
    then show ?thesis using resume assms(3) e' by (simp add: unarmed_def)
  qed
next
  case False
  then show ?thesis using assms by simp
qed

lemma unarmed_step:
  assumes "unarmed (pc, e)" and "daemon_step en ev (pc, e) = (pc', e')" and "e_mode e' = e_mode e"
  shows "unarmed (pc', e') \<and> dispatches (e_log e') = dispatches (e_log e)"
proof (cases "is_slot_event ev")
  case False
  have "e_mode e = ModeDisarmed \<Longrightarrow> nothing_unfinished e'"
    using other_event_unfinished [OF False assms(2)] assms(1) by (auto simp: unarmed_def)
  then show ?thesis using other_event_slot [OF False assms(2)] assms(1,3) by (auto simp: unarmed_def split: option.splits)
next
  case True
  then consider tk where "ev = SeqTick tk" | now where "ev = PolicyTick now"
    | k tbl st keys ok now where "ev = Restart k tbl st keys ok now" by (cases ev) auto
  then show ?thesis
  proof cases
    case 1
    show ?thesis
    proof (cases "e_active e")
      case None
      then show ?thesis using 1 assms by auto
    next
      case (Some a)
      then have "e_mode e = ModeDryRun" "\<not> sending pc" using assms(1) by (auto simp: unarmed_def)
      from seq_step_dry [OF this, of en tk a] show ?thesis
        using 1 Some assms \<open>e_mode e = ModeDryRun\<close> by (auto simp: calm_to_def calm_def unarmed_def)
    qed
  next
    case 2
    obtain fired x where x: "evaluatePolicies en now e = (fired, x)" by force
    show ?thesis
    proof (cases fired)
      case True
      then show ?thesis using evaluate_plans_fired [of en now "e_mode e" "cf_Plans (en_cfg en)" e x]
          x [unfolded evaluatePolicies_def] 2 x assms
        by (auto simp: unarmed_def split: if_splits)
    next
      case False
      then show ?thesis using evaluate_plans_idle [OF x [unfolded evaluatePolicies_def]] 2 x assms
        by (auto simp: unarmed_def nothing_unfinished_def split: if_splits)
    qed
  next
    case 3
    then show ?thesis using unarmed_restart assms by blast
  qed
qed

text \<open>Only a request to set the mode and a restart change the mode.\<close>

lemma unarmed_mode_kept:
  assumes "unarmed d" and "list_all (\<lambda>ev. \<not> is_set_mode ev \<and> \<not> is_restart ev) evs"
  shows "e_mode (snd (run en evs d)) = e_mode (snd d)"
  using assms
proof (induction evs arbitrary: d)
  case (Cons ev evs)
  obtain pc e pc1 e1 where d: "d = (pc, e)" "daemon_step en ev (pc, e) = (pc1, e1)" by (metis prod.collapse)
  have "e_mode e1 = e_mode e"
  proof (cases "is_slot_event ev")
    case True
    then consider tk where "ev = SeqTick tk" | now where "ev = PolicyTick now" using Cons.prems by (cases ev) auto
    then show ?thesis
    proof cases
      case 1
      then show ?thesis using d Cons.prems(1) seq_step_dry [of e pc en tk "the (e_active e)"]
        by (cases "e_active e") (auto simp: unarmed_def calm_to_def calm_def)
    next
      case 2
      obtain fired x where x: "evaluatePolicies en now e = (fired, x)" by force
      then show ?thesis using evaluate_plans_fired [of en now "e_mode e" "cf_Plans (en_cfg en)" e x]
          evaluate_plans_idle [of en now "e_mode e" "cf_Plans (en_cfg en)" e False x] 2 d
        by (cases fired) (auto simp: evaluatePolicies_def split: if_splits)
    qed
  qed (use other_event_mode d Cons.prems in auto)
  moreover from this have "unarmed (pc1, e1)" using unarmed_step Cons.prems(1) d by blast
  ultimately show ?case using Cons d by (simp add: run_def)
qed (simp add: run_def)


end
