(* ===== verification/Abort_Safety.thy ===== *)
theory Abort_Safety
  imports Sequence_Safety
begin

text \<open>
  Stages, aborts and the point of no return: when a stage is entered, what an abort request does
  before and after the point of no return, and which aborts wake the hosts again.
\<close>

section \<open>Entering a stage\<close>

fun in_stage_run :: "pc \<Rightarrow> bool" where
  "in_stage_run (StageRun _ _ _ _) = True"
| "in_stage_run _ = False"

lemma not_stage_run [simp]:
  "\<not> in_stage_run (fst (handleAbort en tk a x))" "\<not> in_stage_run (fst (to_gate tk x))"
  "\<not> in_stage_run (fst (finish_post tk x))" "\<not> in_stage_run (fst (completeSequence tk a x))"
  "\<not> in_stage_run (fst (after_wake en tk a order i x))" "\<not> in_stage_run (fst (after_stages en tk a x))"
  by (simp_all add: handleAbort_def to_gate_def finish_post_def completeSequence_def after_wake_def after_stages_def
      Let_def split: option.split prod.split bool.split)

lemma stage_run_from:
  assumes "in_stage_run (fst (seq_step en tk a pc e))"
  shows "in_stage_run pc \<or> (\<exists>i dl. pc = StageWait i dl \<and> in_stage_run (fst (waitForStage en tk a (stage_at a i) i dl e)))"
  using assms
proof (cases pc)
  case (Settle cs dl)
  then show ?thesis using assms
    by (auto simp: waitForShuttingDown_def split: list.splits option.splits if_splits)
next
  case Gate
  then show ?thesis using assms by (auto simp: runWake_def split: prod.splits bool.splits if_splits)
next
  case (WakeNext order i)
  then show ?thesis using assms by (auto simp: wake_next_def Let_def split: option.splits if_splits)
next
  case (StageLoop i)
  then show ?thesis using assms by (auto simp: runShutdownStages_def Let_def split: prod.splits bool.splits if_splits)
qed (auto simp: executeSequence_def resumeSequence_def wakeClient_def wake_send_def wake_sent_def wake_probe_def Let_def
    split: option.splits if_splits prod.splits bool.splits)

lemma enter_stage_cases:
  assumes "enter_stage en tk stage i x = (StageRun j rec budget cs, y)"
  shows "j = i \<and> sr_StageIndex rec = i \<and> map fst cs = ResolveClientRefs (sg_Clients stage) (en_cfg en) \<and>
    (\<forall>n p. (n, p) \<in> set cs \<longrightarrow> p = CStart) \<and>
    (sg_PointOfNoReturn stage \<longrightarrow> (\<forall>a. e_active x = Some a \<longrightarrow> (\<exists>a'. e_active y = Some a' \<and> sq_PonrCrossed (as_seq a'))))"
  using assms by (auto simp: enter_stage_def start_stage_def Let_def CrossPonr_def comp_def)

lemma waitForStage_enters:
  assumes "waitForStage en tk a stage i dl e = (StageRun j rec budget cs, e')" and "e_active e = Some a"
  shows "(fst (Evaluate (en_rt en) (e_store e) (tk_now tk) (sg_When stage) (e_evaluator e)) = TTrue \<or> as_proceedRequested a) \<and>
    (\<exists>x a'. enter_stage en tk stage i x = (StageRun j rec budget cs, e') \<and> e_active x = Some a')"
proof -
  obtain b y where y: "eval_cond en tk (sg_When stage) e = (b, y)" by force
  have b: "b = (fst (Evaluate (en_rt en) (e_store e) (tk_now tk) (sg_When stage) (e_evaluator e)) = TTrue)"
    using y by (auto simp: eval_cond_def split: prod.splits)
  have ya: "e_active y = Some a" using eval_cond_active [OF y] assms(2) by simp
  obtain f r a' where cp: "ConsumeProceed a = (f, r, a')" by (metis prod_cases3)
  have f: "f = as_proceedRequested a" using cp by (auto simp: ConsumeProceed_def split: if_splits)
  obtain c z where z: "shouldAbort en tk a y = (c, z)" by force
  obtain h u where u: "handleStageTimeout en tk a stage i z = (h, u)" by force
  show ?thesis
  proof (cases b)
    case True
    then show ?thesis using assms(1) y b ya by (auto simp: waitForStage_def)
  next
    case nb: False
    show ?thesis
    proof (cases f)
      case True
      then show ?thesis using assms(1) y nb cp f by (auto simp: waitForStage_def intro!: exI)
    next
      case False
      have False using assms(1) y nb cp False z u
        by (auto simp: waitForStage_def handleAbort_def Let_def split: bool.splits if_splits)
      then show ?thesis ..
    qed
  qed
qed

definition waits_in_plan :: "daemon \<Rightarrow> bool" where
  "waits_in_plan d \<longleftrightarrow> (case d of (StageWait i dl, e) \<Rightarrow>
       (\<forall>a. e_active e = Some a \<longrightarrow> i < length (sh_Stages (pl_Shutdown (as_plan a)))) | _ \<Rightarrow> True)"

lemma not_stage_wait [simp]:
  "fst (handleAbort en tk a x) \<noteq> StageWait i dl" "fst (to_gate tk x) \<noteq> StageWait i dl"
  "fst (finish_post tk x) \<noteq> StageWait i dl" "fst (completeSequence tk a x) \<noteq> StageWait i dl"
  "fst (after_wake en tk a order j x) \<noteq> StageWait i dl" "fst (after_stages en tk a x) \<noteq> StageWait i dl"
  "fst (enter_stage en tk stage j x) \<noteq> StageWait i dl"
  by (simp_all add: handleAbort_def to_gate_def finish_post_def completeSequence_def after_wake_def after_stages_def
      enter_stage_def start_stage_def Let_def split: option.split prod.split bool.split)

lemma fst_neqD: "fst r \<noteq> v \<Longrightarrow> r \<noteq> (v, x)"
  by auto

lemma stage_wait_from:
  assumes "seq_step en tk a pc e = (StageWait i dl, e')"
  shows "(\<exists>dl'. pc = StageWait i dl') \<or> pc = StageLoop i \<and> i < length (sh_Stages (pl_Shutdown (as_plan a)))"
  using assms
proof (cases pc)
  case (Settle cs d)
  then show ?thesis using assms
    by (auto simp: waitForShuttingDown_def fst_neqD split: list.splits option.splits if_splits)
next
  case Gate
  then show ?thesis using assms by (auto simp: runWake_def fst_neqD split: prod.splits bool.splits if_splits)
next
  case (WakeNext order j)
  then show ?thesis using assms by (auto simp: wake_next_def fst_neqD Let_def split: option.splits if_splits)
next
  case (StageLoop j)
  then show ?thesis using assms
    by (auto simp: runShutdownStages_def fst_neqD Let_def split: prod.splits bool.splits if_splits)
next
  case (StageWait j d)
  then show ?thesis using assms
    by (auto simp: waitForStage_def fst_neqD split: prod.splits bool.splits if_splits)
next
  case (StageRun j rec budget cs)
  then show ?thesis using assms by (auto simp: executeStage_def split: prod.splits if_splits)
qed (auto simp: executeSequence_def resumeSequence_def wakeClient_def wake_send_def wake_sent_def wake_probe_def Let_def
    fst_neqD split: option.splits if_splits prod.splits bool.splits)

lemma waits_in_plan_reachable: "reachable en d \<Longrightarrow> waits_in_plan d"
proof (induction rule: reachable.induct)
  case (boot db tbl st keys ok now)
  obtain pc e where b: "boot en db tbl st keys ok now = (pc, e)" by force
  then show ?case using boot_slot [OF b] by (auto simp: waits_in_plan_def)
next
  case (step d ev)
  obtain pc e pc' e' where d: "d = (pc, e)" "daemon_step en ev (pc, e) = (pc', e')" by (metis prod.collapse)
  have idle: "pc = Idle \<longleftrightarrow> e_active e = None" using slot_invariant [OF step.hyps(1)] d by simp
  have "i < length (sh_Stages (pl_Shutdown (as_plan a')))" if w: "pc' = StageWait i dl" "e_active e' = Some a'" for i dl a'
  proof (cases "is_restart ev")
    case True
    then show ?thesis using d w boot_slot step.IH
      by (cases ev) (fastforce simp: waits_in_plan_def split: if_splits prod.splits)+
  next
    case nr: False
    show ?thesis
    proof (cases "e_active e")
      case None
      then have "pc = Idle" using idle by simp
      then show ?thesis using d(2) None w nr other_event_slot [of ev en pc e pc' e']
        by (cases ev) (auto split: if_splits prod.splits)
    next
      case (Some a)
      have plan: "as_plan a' = as_plan a"
        using step_running [OF Some _ nr d(2)] idle Some w by (auto simp: same_sequence_def)
      show ?thesis
      proof (cases "\<exists>tk. ev = SeqTick tk")
        case True
        then obtain tk where "seq_step en tk a pc e = (StageWait i dl, e')" using d(2) Some w by auto
        from stage_wait_from [OF this] show ?thesis using step.IH d(1) Some plan by (auto simp: waits_in_plan_def)
      next
        case False
        then have "pc' = pc" using d(2) Some nr other_event_slot [of ev en pc e pc' e']
          by (cases ev) (auto simp: evaluatePolicies_def evaluate_plans_running split: if_splits)
        then show ?thesis using step.IH d(1) Some plan w by (auto simp: waits_in_plan_def)
      qed
    qed
  qed
  then show ?case using d by (auto simp: waits_in_plan_def split: pc.split)
qed

text \<open>
  C2. A stage begins only when it is due: whenever the goroutines of a stage start, the sequence was
  waiting for exactly that stage of its plan, and its entry condition held at that instant or the
  operator had asked to proceed. The clients it acts on are those its references resolve to, and a
  stage marked as the point of no return has it crossed before any of them moves.
\<close>

theorem stage_entered_only_when_due:
  assumes "reachable en (pc, e)" and "\<not> in_stage_run pc"
    and "daemon_step en ev (pc, e) = (StageRun i rec budget cs, e')"
  shows "\<exists>tk dl a. ev = SeqTick tk \<and> pc = StageWait i dl \<and> e_active e = Some a \<and>
    i < length (sh_Stages (pl_Shutdown (as_plan a))) \<and>
    (fst (Evaluate (en_rt en) (e_store e) (tk_now tk) (sg_When (stage_at a i)) (e_evaluator e)) = TTrue \<or> as_proceedRequested a) \<and>
    map fst cs = ResolveClientRefs (sg_Clients (stage_at a i)) (en_cfg en) \<and> (\<forall>n p. (n, p) \<in> set cs \<longrightarrow> p = CStart) \<and>
    (sg_PointOfNoReturn (stage_at a i) \<longrightarrow> (\<exists>a'. e_active e' = Some a' \<and> sq_PonrCrossed (as_seq a')))"
proof -
  have nr: "pc' \<noteq> StageRun i rec budget cs" if "boot en db tbl st keys ok now = (pc', x)" for db tbl st keys ok now pc' x
    using boot_slot [OF that] by auto
  have "\<exists>tk. ev = SeqTick tk"
  proof (cases "is_slot_event ev")
    case True
    then show ?thesis using assms(2,3) nr by (cases ev) (auto split: if_splits prod.splits)
  next
    case False
    from other_event_slot [OF this assms(3)] assms(2) show ?thesis by auto
  qed
  then obtain tk where tk: "ev = SeqTick tk" by blast
  obtain a where a: "e_active e = Some a" using assms(2,3) tk by (cases "e_active e") auto
  have s: "seq_step en tk a pc e = (StageRun i rec budget cs, e')" using assms(3) tk a by simp
  obtain j dl where w: "pc = StageWait j dl" using stage_run_from [of en tk a pc e] s assms(2) by auto
  have j: "j < length (sh_Stages (pl_Shutdown (as_plan a)))"
    using waits_in_plan_reachable [OF assms(1)] w a by (simp add: waits_in_plan_def)
  have wf: "waitForStage en tk a (stage_at a j) j dl e = (StageRun i rec budget cs, e')" using s w by simp
  note en1 = waitForStage_enters [OF wf a]
  then obtain x a' where x: "enter_stage en tk (stage_at a j) j x = (StageRun i rec budget cs, e')" "e_active x = Some a'"
    by blast
  from enter_stage_cases [OF x(1)] x(2) en1 j tk w a show ?thesis by auto
qed

section \<open>The point of no return\<close>

text \<open>
  Past the point of no return, with no abort carried out. \<open>on_course\<close> says more: none is asked for
  either. A request is only accepted before the crossing, so one that is on record was overtaken by it.
\<close>

definition committed :: "ActiveSequence \<Rightarrow> bool" where
  "committed a \<longleftrightarrow> sq_PonrCrossed (as_seq a) \<and> \<not> sq_Aborted (as_seq a)"

definition on_course :: "ActiveSequence \<Rightarrow> bool" where
  "on_course a \<longleftrightarrow> sq_PonrCrossed (as_seq a) \<and> \<not> as_abortRequested a \<and> \<not> sq_Aborted (as_seq a)"

interpretation commit: handle_invariant committed
  by unfold_locales (simp_all add: committed_def MarkPostShutdownRun_def CrossPonr_def ConsumeProceed_def)

interpretation course: handle_invariant on_course
  by unfold_locales (simp_all add: on_course_def MarkPostShutdownRun_def CrossPonr_def ConsumeProceed_def)

text \<open>Where a sequence settles its clients after an abort, or is taken up again to do so.\<close>

fun aborting :: "ActiveSequence \<Rightarrow> pc \<Rightarrow> bool" where
  "aborting a (Settle _ _) = True"
| "aborting a Resuming = (sq_State (as_seq a) \<in> {''aborting'', ''aborted''})"
| "aborting a _ = False"

fun before_waking :: "pc \<Rightarrow> bool" where
  "before_waking Gate = False"
| "before_waking (WakeNext _ _) = False"
| "before_waking _ = True"

text \<open>
  How a committed sequence ends: with the daemon, as completed, or, where an abort was asked for before
  the crossing, as aborted at the wake gate or between two clients that are woken.
\<close>

definition ended :: "ActiveSequence \<Rightarrow> pc \<Rightarrow> Executor \<Rightarrow> Executor \<Rightarrow> bool" where
  "ended a pc e e' \<longleftrightarrow> e_cancelled e \<or>
     last (e_log e') = Emit ''sequence_completed'' [sq_PlanName (as_seq a), SeqStateCompleted] \<or>
     as_abortRequested a \<and> \<not> before_waking pc \<and>
       last (e_log e') = Emit ''sequence_completed'' [sq_PlanName (as_seq a), SeqStateAborted]"

fun settles :: "pc \<Rightarrow> bool" where
  "settles (Settle _ _) = True"
| "settles Resuming = True"
| "settles _ = False"

definition course_ok :: "ActiveSequence \<Rightarrow> pc \<Rightarrow> Executor \<Rightarrow> pc \<times> Executor \<Rightarrow> bool" where
  "course_ok a pc e r \<longleftrightarrow> \<not> settles (fst r) \<and> (fst r = Idle \<longrightarrow> ended a pc e (snd r))"

lemma course_ok_pc [simp]:
  "pc' \<noteq> Idle \<Longrightarrow> course_ok a pc e (pc', x) = (\<not> settles pc')"
  "course_ok a pc e (Idle, x) = ended a pc e x"
  by (simp_all add: course_ok_def)

lemma course_ok_ops [simp]:
  "course_ok a pc e (to_gate tk x)" "course_ok a pc e (finish_post tk x)" "course_ok a pc e (after_wake en tk b order i x)"
  "course_ok a pc e (enter_stage en tk stage i x)" "course_ok a pc e (after_stages en tk b x)"
  by (simp_all add: to_gate_def finish_post_def after_wake_def after_stages_def enter_stage_def start_stage_def
      Let_def split: option.split prod.split bool.split)

lemma course_ok_complete:
  "committed a \<Longrightarrow> course_ok a pc e (completeSequence tk a x)"
  "as_abortRequested a \<Longrightarrow> \<not> before_waking pc \<Longrightarrow> course_ok a pc e (completeSequence tk (MarkAborted a) x)"
  by (simp_all add: completeSequence_def ended_def committed_def Let_def)

lemma no_abort_committed: "committed a \<Longrightarrow> shouldAbort en tk a x = (False, x)"
  by (simp add: shouldAbort_def committed_def)

lemma eval_cancelled: "eval_cond en tk c x = (b, y) \<Longrightarrow> e_cancelled y = e_cancelled x"
  by (drule eval_cond_active) simp

lemma seq_step_committed:
  assumes "e_active e = Some a" and "committed a" and "\<not> aborting a pc" and "pc \<noteq> Idle"
  shows "course_ok a pc e (seq_step en tk a pc e)"
  using assms(3,4)
proof (cases pc)
  case (StageWait i dl)
  obtain b y where y: "eval_cond en tk (sg_When (stage_at a i)) e = (b, y)" by force
  show ?thesis
    using eval_cancelled [OF y]
    by (auto simp: StageWait waitForStage_def y no_abort_committed [OF assms(2)] ended_def split: bool.split prod.split)
next
  case (StageLoop i)
  have "committed (SetCurrentStage i a)" by (rule commit.SetCurrentStage [OF assms(2)])
  then show ?thesis
    by (simp add: StageLoop runShutdownStages_def Let_def no_abort_committed [OF assms(2)])
next
  case Resuming
  then show ?thesis using assms(3) by (auto simp: resumeSequence_def seq_state_defs Let_def)
next
  case Gate
  obtain b y where y: "eval_cond en tk (wk_Gate (pl_Wake (as_plan a))) e = (b, y)" by force
  show ?thesis using eval_cancelled [OF y] course_ok_complete(2) [of a Gate e tk y]
    by (cases b) (simp_all add: Gate runWake_def y ended_def del: active_defs)
next
  case (WakeNext order i)
  then show ?thesis using course_ok_complete(2) [of a "WakeNext order i" e tk e]
    by (simp add: wake_next_def course_ok_complete(1) [OF assms(2)] Let_def del: active_defs split: option.split)
next
  case (WakeGuard order i until)
  then show ?thesis by (auto simp: slept_def ended_def)
next
  case (WakeStagger order i until)
  then show ?thesis by (auto simp: slept_def ended_def)
qed (auto simp: executeSequence_def executeStage_def wakeClient_def wake_send_def wake_sent_def wake_probe_def Let_def
    split: option.split prod.split bool.split)

text \<open>The goroutine does not touch the request to abort.\<close>

lemma requested_kept:
  assumes "e_active e = Some a" and "\<not> as_abortRequested a" and "committed a" and "pc \<noteq> Idle"
    and "seq_step en tk a pc e = (pc', e')" and "e_active e' = Some a'"
  shows "\<not> as_abortRequested a'"
proof -
  have "on_course a" using assms(2,3) by (simp add: on_course_def committed_def)
  from course.seq_step_kept [OF assms(1) this assms(4), of en tk] show ?thesis
    using assms(5,6) by (cases "pc' = Idle") (auto simp: course.holds_def on_course_def)
qed


section \<open>An abort by the operator\<close>

fun past_stages :: "pc \<Rightarrow> bool" where
  "past_stages (Settle _ _) = True"
| "past_stages Gate = True"
| "past_stages (WakeNext _ _) = True"
| "past_stages _ = False"

lemma complete_log: "dispatches (e_log (snd (completeSequence tk a x))) = dispatches (e_log x)"
  using calm_stages(6) [of x tk a x] by (simp add: calm_to_def calm_def)

lemma seq_step_operator_abort:
  assumes "as_abortRequested a" and "past_stages pc" and "seq_step en tk a pc e = (pc', e')"
  shows "(pc' = Idle \<or> past_stages pc') \<and> dispatches (e_log e') = dispatches (e_log e)"
proof (cases pc)
  case (Settle cs dl)
  have "calm_to e (pc', e')" using assms(3)
    by (auto simp: Settle waitForShuttingDown_def to_gate_def split: list.splits option.splits if_splits)
  moreover have "past_stages pc'" using assms(3)
    by (auto simp: Settle waitForShuttingDown_def to_gate_def split: list.splits option.splits if_splits)
  ultimately show ?thesis by (simp add: calm_def)
next
  case Gate
  obtain b y where y: "eval_cond en tk (wk_Gate (pl_Wake (as_plan a))) e = (b, y)" by force
  have "e_log y = e_log e" using eval_cond_active [OF y] by simp
  then show ?thesis using assms complete_log [of tk "MarkAborted a" y] y
    by (cases b) (auto simp: Gate runWake_def completeSequence_def saveSequence_def db_write_def Let_def split: option.splits if_splits simp del: active_defs)
next
  case (WakeNext order i)
  then show ?thesis using assms complete_log [of tk "MarkAborted a" e] complete_log [of tk a e]
    by (auto simp: wake_next_def completeSequence_def Let_def simp del: active_defs split: if_splits)
qed (use assms in auto)

text \<open>
  An abort requested by the operator wakes nothing. Once the stages of such a sequence are over, no
  transport is called any more: the goroutine waits for the hosts that are going down, passes or
  gives up the wake gate, and ends, so the hosts that it shut down stay down.
\<close>

theorem operator_abort_wakes_nothing:
  assumes "e_active e = Some a" and "as_abortRequested a" and "past_stages pc"
    and "\<not> is_restart ev" and "daemon_step en ev (pc, e) = (pc', e')"
  shows "filter is_dispatch (e_log e') = filter is_dispatch (e_log e) \<and>
    (if pc' = Idle then e_active e' = None
     else past_stages pc' \<and> (\<exists>a'. e_active e' = Some a' \<and> as_abortRequested a'))"
proof -
  have pc: "pc \<noteq> Idle" using assms(3) by auto
  show ?thesis
  proof (cases "\<exists>tk. ev = SeqTick tk")
    case True
    then obtain tk where s: "seq_step en tk a pc e = (pc', e')" using assms(1,5) by auto
    from seq_step_operator_abort [OF assms(2,3) this] seq_step_same [OF assms(1) pc s] assms(2) show ?thesis
      by (auto simp: same_as_def dispatches_def)
  next
    case False
    then show ?thesis using running_other_event [OF assms(1,4) _ assms(5)] assms(2,3) pc
      by (auto simp: requested_def RequestAbort_def dispatches_def split: if_splits)
  qed
qed

end
