(* ===== verification/Journal_Writes.thy ===== *)
theory Journal_Writes
  imports Abort_Safety
begin

text \<open>
  What the daemon writes. Every step writes to the database by a few statements; \<open>wrote\<close> says
  which, and a property those statements keep holds of the database and of every database the disk
  may come back with. The induction rule at the end is the one the invariants of a running sequence
  are proved by.
\<close>

section \<open>What a step writes\<close>

inductive wrote :: "(DB \<Rightarrow> DB) set \<Rightarrow> Executor \<Rightarrow> Executor \<Rightarrow> bool" for W where
  same: "e_db e' = e_db e \<Longrightarrow> e_disk e' = e_disk e \<Longrightarrow> set (e_log e) \<subseteq> set (e_log e') \<Longrightarrow> wrote W e e'"
| plain: "wrote W e x \<Longrightarrow> f \<in> W \<Longrightarrow> e_db e' = f (e_db x) \<Longrightarrow> e_disk e' = e_disk x @ [f (e_db x)] \<Longrightarrow>
    set (e_log x) \<subseteq> set (e_log e') \<Longrightarrow> wrote W e e'"
| flush: "wrote W e x \<Longrightarrow> f \<in> W \<Longrightarrow> e_db e' = f (e_db x) \<Longrightarrow> e_disk e' = [f (e_db x)] \<Longrightarrow>
    set (e_log x) \<subseteq> set (e_log e') \<Longrightarrow> wrote W e e'"

definition everywhere :: "(DB \<Rightarrow> bool) \<Rightarrow> Executor \<Rightarrow> bool" where
  "everywhere P e \<longleftrightarrow> P (e_db e) \<and> (\<forall>db \<in> set (e_disk e). P db)"

lemma wrote_keeps:
  assumes "wrote W e e'" and "\<And>f db. f \<in> W \<Longrightarrow> P db \<Longrightarrow> P (f db)"
  shows "(P (e_db e) \<longrightarrow> P (e_db e')) \<and> (everywhere P e \<longrightarrow> everywhere P e')"
  using assms(1)
proof (induction rule: wrote.induct)
  case (same e' e)
  then show ?case by (simp add: everywhere_def)
next
  case (plain e x f e')
  have "P (e_db x) \<Longrightarrow> P (f (e_db x))" by (rule assms(2) [OF plain.hyps(2)])
  moreover have "everywhere P e' \<longleftrightarrow> P (f (e_db x)) \<and> (\<forall>db \<in> set (e_disk x). P db)"
    unfolding everywhere_def plain.hyps(3,4) by auto
  ultimately show ?case using plain.IH unfolding everywhere_def [of P x] plain.hyps(3) by blast
next
  case (flush e x f e')
  have "P (e_db x) \<Longrightarrow> P (f (e_db x))" by (rule assms(2) [OF flush.hyps(2)])
  moreover have "everywhere P e' \<longleftrightarrow> P (f (e_db x))" unfolding everywhere_def flush.hyps(3,4) by simp
  ultimately show ?case using flush.IH unfolding everywhere_def [of P x] flush.hyps(3) by blast
qed

lemma wrote_log: "wrote W e e' \<Longrightarrow> set (e_log e) \<subseteq> set (e_log e')"
  by (induction rule: wrote.induct) auto

lemma wrote_refl [simp]: "wrote W e e"
  by (rule wrote.same) simp_all

lemma wrote_same: "wrote W e x \<Longrightarrow> e_db y = e_db x \<Longrightarrow> e_disk y = e_disk x \<Longrightarrow> set (e_log x) \<subseteq> set (e_log y) \<Longrightarrow> wrote W e y"
proof (induction rule: wrote.induct)
  case (same x e)
  then show ?case by (intro wrote.same) auto
next
  case (plain e x f x')
  then show ?case by (intro wrote.plain [OF plain.hyps(1,2)]) auto
next
  case (flush e x f x')
  then show ?case by (intro wrote.flush [OF flush.hyps(1,2)]) auto
qed

lemma wrote_emit [simp]: "wrote W e x \<Longrightarrow> wrote W e (emit ef x)"
  by (erule wrote_same) auto

lemma wrote_db_write [simp]: "wrote W e x \<Longrightarrow> f \<in> W \<Longrightarrow> wrote W e (db_write ok f x)"
  by (cases "ok \<and> \<not> e_cancelled x") (auto simp: db_write_def intro: wrote.plain)

lemma wrote_db_write_durable [simp]: "wrote W e x \<Longrightarrow> f \<in> W \<Longrightarrow> wrote W e (db_write_durable ok f x)"
  by (cases "ok \<and> \<not> e_cancelled x") (auto simp: db_write_durable_def intro: wrote.flush)

lemma wrote_fields [simp]:
  "wrote W e x \<Longrightarrow> wrote W e (on_active g x)" "wrote W e x \<Longrightarrow> wrote W e (x\<lparr>e_active := v\<rparr>)"
  "wrote W e x \<Longrightarrow> wrote W e (clearActiveSequence x)" "wrote W e x \<Longrightarrow> wrote W e (x\<lparr>e_learnedMACs := m\<rparr>)"
  "wrote W e x \<Longrightarrow> wrote W e (x\<lparr>e_clientStates := s, e_clientStateSince := t\<rparr>)"
  by (erule wrote_same; simp)+

lemma wrote_eval: "wrote W e x \<Longrightarrow> eval_cond en tk c x = (b, y) \<Longrightarrow> wrote W e y"
  by (erule wrote_same) (auto dest: eval_cond_active)

lemma wrote_shouldAbort: "wrote W e x \<Longrightarrow> shouldAbort en tk a x = (b, y) \<Longrightarrow> wrote W e y"
  by (erule wrote_same) (auto dest: shouldAbort_frame)

text \<open>
  The statements of a goroutine of a stage of the sequence \<open>a\<close>: states of clients, learned addresses,
  stage records, locks for the sequence, and intents in \<open>I\<close>. A step of the sequence also saves its
  own row, and its last step releases its locks.
\<close>

inductive_set work_writes :: "ActiveSequence \<Rightarrow> Intent set \<Rightarrow> (DB \<Rightarrow> DB) set" for a I where
  client_state: "SaveClientState now n s q \<in> work_writes a I"
| learned_mac: "SaveLearnedMAC m \<in> work_writes a I"
| stage_record: "SaveStageRecord r \<in> work_writes a I"
| lock: "(\<lambda>db. snd (AcquireClientLock now n (sq_ID (as_seq a)) db)) \<in> work_writes a I"
| intent: "it \<in> I \<Longrightarrow> SaveIntent it \<in> work_writes a I"

definition seq_like :: "ActiveSequence \<Rightarrow> Sequence \<Rightarrow> bool" where
  "seq_like a q \<longleftrightarrow> sq_ID q = sq_ID (as_seq a) \<and> (sq_PonrCrossed (as_seq a) \<longrightarrow> sq_PonrCrossed q)"

inductive_set step_writes :: "ActiveSequence \<Rightarrow> (DB \<Rightarrow> DB) set" for a where
  work: "f \<in> work_writes a UNIV \<Longrightarrow> f \<in> step_writes a"
| sequence: "seq_like a sq \<Longrightarrow> SaveSequence sq \<in> step_writes a"
| release: "ReleaseSequenceLocks (sq_ID (as_seq a)) \<in> step_writes a"

lemma writes_simps [simp]:
  "SaveClientState now n s q \<in> step_writes a" "SaveLearnedMAC m \<in> step_writes a" "SaveStageRecord r \<in> step_writes a"
  "(\<lambda>db. snd (AcquireClientLock now n (sq_ID (as_seq a)) db)) \<in> step_writes a" "SaveIntent it \<in> step_writes a"
  by (rule step_writes.work, simp add: work_writes.intros)+

declare work_writes.intros [simp] step_writes.sequence [simp] step_writes.release [simp]

lemma wrote_ops [simp]:
  "wrote W e x \<Longrightarrow> SaveClientState now n (ClientState_String s) q \<in> W \<Longrightarrow> wrote W e (setClientState ok now n s q x)"
  "wrote W e x \<Longrightarrow> (\<forall>m. SaveLearnedMAC m \<in> W) \<Longrightarrow> wrote W e (recordLearnedMAC ok now c mac src x)"
  "wrote W e x \<Longrightarrow> SaveIntent it \<in> W \<Longrightarrow> wrote W e (saveIntent ok it x)"
  "wrote W e x \<Longrightarrow> SaveIntent it \<in> W \<Longrightarrow> wrote W e (saveIntentDurable ok it x)"
  by (simp_all add: setClientState_def recordLearnedMAC_def saveIntent_def saveIntentDurable_def Let_def)

section \<open>What the goroutine writes\<close>

definition writes_to :: "ActiveSequence \<Rightarrow> Executor \<Rightarrow> pc \<times> Executor \<Rightarrow> bool" where
  "writes_to a e r \<longleftrightarrow> wrote (step_writes a) e (snd r)"

lemma writes_to_pair [simp]: "writes_to a e (pc, x) \<longleftrightarrow> wrote (step_writes a) e x"
  by (simp add: writes_to_def)

text \<open>The slot holds the sequence, as \<open>saveSequence\<close> needs it.\<close>

definition runs_like :: "ActiveSequence \<Rightarrow> Executor \<Rightarrow> bool" where
  "runs_like a x \<longleftrightarrow> (\<forall>y. e_active x = Some y \<longrightarrow> seq_like a (as_seq y))"

lemma runs_like_frames [simp]:
  "runs_like a (emit ef e) = runs_like a e" "runs_like a (db_write ok f e) = runs_like a e"
  "runs_like a (db_write_durable ok f e) = runs_like a e" "runs_like a (saveSequence ok e) = runs_like a e"
  "runs_like a (saveSequenceDurable ok e) = runs_like a e" "runs_like a (setClientState ok now n st q e) = runs_like a e"
  "runs_like a (saveIntent ok it e) = runs_like a e" "runs_like a (saveIntentDurable ok it e) = runs_like a e"
  by (simp_all add: runs_like_def)

lemma runs_like_on_active:
  "runs_like a e \<Longrightarrow> (\<And>x. seq_like a (as_seq x) \<Longrightarrow> seq_like a (as_seq (f x))) \<Longrightarrow> runs_like a (on_active f e)"
  by (auto simp: runs_like_def)

lemma seq_like_ops [simp]:
  "seq_like a (as_seq (SetState st x)) = seq_like a (as_seq x)"
  "seq_like a (as_seq (SetCurrentStage i x)) = seq_like a (as_seq x)"
  "seq_like a (as_seq (SetHeldStage h x)) = seq_like a (as_seq x)"
  "seq_like a (as_seq (MarkAborted x)) = seq_like a (as_seq x)"
  "seq_like a (as_seq (SetConfigSnapshot sn x)) = seq_like a (as_seq x)"
  "seq_like a (as_seq (SetResolvedAddrs r x)) = seq_like a (as_seq x)"
  "seq_like a (as_seq (MarkCompleted st t x)) = seq_like a (as_seq x)"
  by (simp_all add: seq_like_def)

lemma seq_like_cross: "seq_like a (as_seq x) \<Longrightarrow> seq_like a (as_seq (snd (CrossPonr x)))"
  by (simp add: seq_like_def CrossPonr_def)

lemma seq_like_consume: "seq_like a (as_seq x) \<Longrightarrow> ConsumeProceed x = (f, r, y) \<Longrightarrow> seq_like a (as_seq y)"
  by (auto simp: seq_like_def ConsumeProceed_def split: if_splits)

lemma seq_like_refl [simp]: "seq_like a (as_seq a)"
  by (simp add: seq_like_def)

abbreviation wrote_in :: "ActiveSequence \<Rightarrow> Executor \<Rightarrow> Executor \<Rightarrow> bool" where
  "wrote_in a e x \<equiv> wrote (step_writes a) e x \<and> runs_like a x"

lemma wrote_saveSequence:
  "wrote (step_writes a) e x \<Longrightarrow> runs_like a x \<Longrightarrow> wrote (step_writes a) e (saveSequence ok x)"
  "wrote (step_writes a) e x \<Longrightarrow> runs_like a x \<Longrightarrow> wrote (step_writes a) e (saveSequenceDurable ok x)"
  by (simp_all add: saveSequence_def saveSequenceDurable_def runs_like_def split: option.split)

lemmas write_rules = wrote_saveSequence runs_like_on_active seq_like_cross

lemma stage_writes:
  "wrote_in a e x \<Longrightarrow> writes_to a e (handleAbort en tk b x)"
  "wrote_in a e x \<Longrightarrow> writes_to a e (to_gate tk x)"
  "wrote_in a e x \<Longrightarrow> writes_to a e (finish_post tk x)"
  "wrote_in a e x \<Longrightarrow> writes_to a e (enter_stage en tk stage i x)"
  "wrote_in a e x \<Longrightarrow> writes_to a e (after_wake en tk b order i x)"
  by (simp_all add: handleAbort_def to_gate_def finish_post_def enter_stage_def start_stage_def after_wake_def Let_def
      write_rules del: active_defs)

lemma complete_writes:
  assumes "wrote_in a e x" and "seq_like a (as_seq b)"
  shows "writes_to a e (completeSequence tk b x)"
proof -
  have "seq_id (saveSequence ok (x\<lparr>e_active := Some (MarkCompleted st t b)\<rparr>)) = sq_ID (as_seq a)" for ok st t
    using assms(2) by (simp add: seq_id_def seq_like_def)
  moreover have "seq_id (emit ef y) = seq_id y" for ef y by (simp add: seq_id_def)
  ultimately show ?thesis using assms
    by (simp add: completeSequence_def releaseSequence_def Let_def wrote_saveSequence runs_like_def del: active_defs)
qed

lemma timeout_writes:
  "wrote_in a e x \<Longrightarrow> handleStageTimeout en tk b stage i x = (h, y) \<Longrightarrow> wrote_in a e y"
  by (auto simp: handleStageTimeout_def Let_def write_rules simp del: active_defs split: if_splits)

lemma eval_writes: "wrote_in a e x \<Longrightarrow> eval_cond en tk c x = (b, y) \<Longrightarrow> wrote_in a e y"
  using eval_cond_active by (fastforce simp: runs_like_def intro: wrote_eval)

lemma shouldAbort_writes: "wrote_in a e x \<Longrightarrow> shouldAbort en tk c x = (b, y) \<Longrightarrow> wrote_in a e y"
  using shouldAbort_frame by (fastforce simp: runs_like_def intro: wrote_shouldAbort)

lemma resolve_writes:
  assumes "wrote (step_writes a) e x" and "resolveClientAddresses en ok now w x = (r, y)"
  shows "wrote (step_writes a) e y"
proof -
  have disc: "wrote (step_writes a) e x \<Longrightarrow> discoverMAC en ok now w c ip x = (m, y) \<Longrightarrow> wrote (step_writes a) e y" for c ip x m y
    by (auto simp: discoverMAC_def split: option.splits prod.splits if_splits)
  have step: "wrote (step_writes a) e x \<Longrightarrow> resolve_client en ok now w (r0, x) c = (r1, y) \<Longrightarrow> wrote (step_writes a) e y" for r0 x c r1 y
    by (auto simp: resolve_client_def Let_def split: if_splits prod.splits dest: disc)
  have "wrote (step_writes a) e x \<Longrightarrow> foldl (resolve_client en ok now w) (r0, x) cs = (r1, y) \<Longrightarrow> wrote (step_writes a) e y" for cs r0 x r1 y
  proof (induction cs arbitrary: r0 x)
    case (Cons c cs)
    obtain r2 e2 where "resolve_client en ok now w (r0, x) c = (r2, e2)" by force
    with Cons step [OF Cons.prems(1) this] show ?case by simp
  qed simp
  with assms show ?thesis by (simp add: resolveClientAddresses_def)
qed

text \<open>One goroutine of a stage writes intents of its own client only.\<close>

definition intent_id :: "string \<Rightarrow> instant \<Rightarrow> string" where
  "intent_id n t = ''int_'' @ n @ ''_'' @ show_int t"

fun pc_intent :: "client_pc \<Rightarrow> Intent set" where
  "pc_intent (CClaimed _ it) = {it}"
| "pc_intent (CExec _ it _) = {it}"
| "pc_intent _ = {}"

definition own_intents :: "string \<Rightarrow> client_pc \<Rightarrow> Intent set" where
  "own_intents name p = {it. (\<exists>t. it_ID it = intent_id name t) \<or> (\<exists>it' \<in> pc_intent p. it_ID it = it_ID it')}"

lemma client_writes:
  assumes "e_active e = Some a" and "shutdownClient en tk budget name p e = (p', e')"
  shows "wrote (work_writes a (own_intents name p)) e e'"
proof -
  have id: "seq_id e = sq_ID (as_seq a)" using assms(1) by (simp add: seq_id_def)
  show ?thesis
  proof (cases p)
    case CStart
    then show ?thesis using assms(2) by (auto simp: claim_client_def id Let_def split: option.splits if_splits prod.splits bool.splits)
  next
    case (CLocked t)
    have "it_ID it = intent_id name t \<Longrightarrow> it \<in> own_intents name p" for it t by (auto simp: own_intents_def)
    then show ?thesis using assms(2) CLocked by (auto simp: record_intent_def intent_id_def Let_def)
  qed (use assms(2) in \<open>auto simp: own_intents_def dispatch_client_def answered_client_def awaitClientDown_def
      await_select_def unverified_def Let_def split: option.splits if_splits\<close>)
qed

lemma work_subset_step: "work_writes a I \<subseteq> step_writes a"
proof
  fix f
  assume "f \<in> work_writes a I"
  then show "f \<in> step_writes a" by (induction rule: work_writes.induct) simp_all
qed

lemma wrote_mono: "wrote V e x \<Longrightarrow> V \<subseteq> W \<Longrightarrow> wrote W e x"
proof (induction rule: wrote.induct)
  case (same e' e)
  then show ?case by (intro wrote.same)
next
  case (plain e x f e')
  then show ?case using wrote.plain [OF plain.IH [OF plain.prems] subsetD [OF plain.prems plain.hyps(2)] plain.hyps(3-5)] by blast
next
  case (flush e x f e')
  then show ?case using wrote.flush [OF flush.IH [OF flush.prems] subsetD [OF flush.prems flush.hyps(2)] flush.hyps(3-5)] by blast
qed

lemma waitForStage_writes:
  assumes "e_active e = Some a"
  shows "writes_to a e (waitForStage en tk a stage i dl e)"
proof -
  have w: "wrote_in a e e" using assms by (simp add: runs_like_def)
  obtain b y where y: "eval_cond en tk (sg_When stage) e = (b, y)" by force
  note wy = eval_writes [OF w y]
  obtain f r a' where cp: "ConsumeProceed a = (f, r, a')" by (metis prod_cases3)
  have wf: "wrote_in a e (emit ef (y\<lparr>e_active := Some a'\<rparr>))" for ef
    using wy seq_like_consume [OF seq_like_refl cp] by (simp add: runs_like_def)
  obtain c z where z: "shouldAbort en tk a y = (c, z)" by force
  note wz = shouldAbort_writes [OF wy z]
  obtain h u where u: "handleStageTimeout en tk a stage i z = (h, u)" by force
  show ?thesis
    using timeout_writes [OF wz u] wz wy wf
    by (simp add: waitForStage_def y cp z u stage_writes split: bool.split)
qed

lemma runShutdownStages_writes:
  assumes "e_active e = Some a"
  shows "writes_to a e (runShutdownStages en tk a i e)"
proof -
  have w: "wrote_in a e e" using assms by (simp add: runs_like_def)
  let ?e1 = "saveSequence (tk_ok tk) (on_active (SetCurrentStage i) e)"
  have w1: "wrote_in a e ?e1" using w by (simp add: write_rules del: active_defs)
  obtain c z where z: "shouldAbort en tk a ?e1 = (c, z)" by force
  note wz = shouldAbort_writes [OF w1 z]
  have "seq_like a (as_seq (snd (MarkPostShutdownRun a)))" by (simp add: seq_like_def MarkPostShutdownRun_def)
  then have "wrote_in a e (e\<lparr>e_active := Some (snd (MarkPostShutdownRun a))\<rparr>)" by (simp add: runs_like_def)
  then have "writes_to a e (after_stages en tk a e)"
    using w by (auto simp: after_stages_def stage_writes executePostShutdown_def MarkPostShutdownRun_def split: option.splits)
  then show ?thesis using wz
    by (simp add: runShutdownStages_def Let_def z stage_writes split: bool.split del: active_defs)
qed

lemma resume_writes:
  assumes "e_active e = Some a"
  shows "writes_to a e (resumeSequence en tk a e)"
proof -
  have rec: "wrote (step_writes a) e x \<Longrightarrow> wrote (step_writes a) e (reconcile en tk x it)" for x it
    by (simp add: reconcile_def Let_def split: option.split ClientState.split)
  have "wrote (step_writes a) e x \<Longrightarrow> wrote (step_writes a) e (foldl (reconcile en tk) x its)" for x its
    by (induction its arbitrary: x) (simp_all add: rec)
  then have "wrote (step_writes a) e x \<Longrightarrow> wrote (step_writes a) e (reconcileIntents en tk x)" for x
    by (simp add: reconcileIntents_def)
  then show ?thesis by (simp add: resumeSequence_def Let_def del: active_defs)
qed

lemma seq_step_writes:
  assumes "e_active e = Some a"
  shows "writes_to a e (seq_step en tk a pc e)"
proof -
  have w: "wrote_in a e e" using assms by (simp add: runs_like_def)
  show ?thesis
  proof (cases pc)
    case Executing
    obtain addrs x where r: "resolveClientAddresses en (tk_ok tk) (tk_now tk) (tk_mac tk) e = (addrs, x)" by force
    have "wrote_in a e x" using resolve_writes [OF _ r] w resolve_frame [OF r] by (simp add: runs_like_def)
    then show ?thesis by (simp add: Executing executeSequence_def r write_rules comp_def del: active_defs)
  next
    case (StageRun i rec budget cs)
    obtain name p where np: "cs ! tk_who tk = (name, p)" by force
    obtain p' x where p': "shutdownClient en tk budget name p e = (p', x)" by force
    have "wrote (step_writes a) e x"
      by (rule wrote_mono [OF client_writes [OF assms p'] work_subset_step])
    then show ?thesis by (simp add: StageRun executeStage_def np p')
  next
    case (Settle cs dl)
    then show ?thesis using w by (auto simp: waitForShuttingDown_def stage_writes split: list.split option.split)
  next
    case Gate
    obtain b y where y: "eval_cond en tk (wk_Gate (pl_Wake (as_plan a))) e = (b, y)" by force
    note wy = eval_writes [OF w y]
    then show ?thesis
      by (cases b) (simp_all add: Gate runWake_def y complete_writes write_rules del: active_defs)
  next
    case (WakeNext order i)
    then show ?thesis using w by (simp add: wake_next_def complete_writes Let_def del: active_defs split: option.split)
  next
    case (WakeStart order i)
    then show ?thesis using w by (simp add: wakeClient_def stage_writes Let_def split: option.split)
  next
    case (WakeSend order i n)
    then show ?thesis using w by (simp add: wake_send_def stage_writes Let_def split: option.split)
  next
    case (WakeSent order i n)
    then show ?thesis using w by (simp add: wake_sent_def stage_writes Let_def split: option.split)
  next
    case (WakeProbe order i n dl)
    then show ?thesis using w by (simp add: wake_probe_def stage_writes Let_def)
  qed (use w assms in \<open>simp_all add: runShutdownStages_writes waitForStage_writes resume_writes stage_writes
      split: option.split bool.split\<close>)
qed

text \<open>The other goroutines of a running daemon leave the journal of the sequence alone.\<close>

lemma running_other_core:
  assumes "e_active e = Some a" and "\<not> is_restart ev" and "\<nexists>tk. ev = SeqTick tk" and "daemon_step en ev (pc, e) = (pc', e')"
  shows "core (e_db e') = core (e_db e) \<and> core ` set (e_disk e') \<subseteq> core ` insert (e_db e) (set (e_disk e)) \<and>
    set (e_log e) \<subseteq> set (e_log e')"
proof (cases ev)
  case (ProbeTick ok now probe w)
  have "quiet e (learnMACs en ok now w (probeAllClients en ok now probe e))"
    by (rule quiet_trans [OF quiet_probe quiet_learnMACs])
  then have "quiet e e'" using assms(4) ProbeTick by (cases "e_cancelled e") simp_all
  then show ?thesis unfolding quiet_def by blast
next
  case (QualityTick keys now)
  then have "e' = e \<or> e' = quality_tick en keys now e" using assms(4) by auto
  then have "quiet e e'" using quiet_quality by auto
  then show ?thesis unfolding quiet_def by blast
next
  case (RetentionTick ok now)
  then have "e' = e" using assms retention_running [of e en ok now] by auto
  then show ?thesis by auto
next
  case (SetModeRequest ok req)
  then show ?thesis using assms
    by (auto simp: handleSetMode_def SetMode_def Let_def core_def SetKV_def split: prod.splits bool.splits if_splits)
next
  case (AbortRequest r)
  then show ?thesis using assms by (auto simp: AbortSequence_def split: option.splits prod.splits bool.splits)
next
  case (ForceRequest r)
  then show ?thesis using assms by (auto simp: ForceStage_def split: option.splits)
next
  case (PolicyTick now)
  then show ?thesis using assms by (auto simp: evaluatePolicies_def evaluate_plans_running split: if_splits)
qed (use assms in auto)

lemma everywhere_core:
  assumes "core (e_db e') = core (e_db e)" and "core ` set (e_disk e') \<subseteq> core ` insert (e_db e) (set (e_disk e))"
    and "\<And>d d'. core d = core d' \<Longrightarrow> P d = P d'" and "everywhere P e"
  shows "everywhere P e'"
proof -
  have "P d" if "d \<in> set (e_disk e')" for d
  proof -
    have "core d \<in> core ` insert (e_db e) (set (e_disk e))" by (rule subsetD [OF assms(2) imageI [OF that]])
    then obtain d' where "d' \<in> insert (e_db e) (set (e_disk e))" "core d = core d'" by (elim imageE)
    then show ?thesis using assms(3) [of d d'] assms(4) unfolding everywhere_def by blast
  qed
  then show ?thesis using assms(1,4) assms(3) [of "e_db e'" "e_db e"] by (simp add: everywhere_def)
qed

section \<open>Induction over the running daemon\<close>

text \<open>
  Invariants of a running sequence: a start of the daemon, the start of a sequence, a step of its
  goroutine, a step of the others while it runs, and any step that leaves the daemon idle.
\<close>

lemma running_induct [consumes 1, case_names boot start seq idle other]:
  assumes "reachable en d"
    and boot: "\<And>db tbl st keys ok now pc e es. boot en db tbl st keys ok now = (pc, e) \<Longrightarrow> P (pc, e\<lparr>e_log := es @ e_log e\<rparr>)"
    and start: "\<And>e now e'. e_active e = None \<Longrightarrow> P (Idle, e) \<Longrightarrow> evaluatePolicies en now e = (True, e') \<Longrightarrow> P (Executing, e')"
    and seq: "\<And>pc e a tk pc' e'. reachable en (pc, e) \<Longrightarrow> e_active e = Some a \<Longrightarrow> pc \<noteq> Idle \<Longrightarrow>
      seq_step en tk a pc e = (pc', e') \<Longrightarrow> P (pc, e) \<Longrightarrow> P (pc', e')"
    and idle: "\<And>e e'. e_active e = None \<Longrightarrow> e_active e' = None \<Longrightarrow> P (Idle, e) \<Longrightarrow> P (Idle, e')"
    and other: "\<And>pc e a e' a'. reachable en (pc, e) \<Longrightarrow> e_active e = Some a \<Longrightarrow> pc \<noteq> Idle \<Longrightarrow> e_active e' = Some a' \<Longrightarrow>
      requested a a' \<Longrightarrow> core (e_db e') = core (e_db e) \<Longrightarrow>
      core ` set (e_disk e') \<subseteq> core ` insert (e_db e) (set (e_disk e)) \<Longrightarrow> set (e_log e) \<subseteq> set (e_log e') \<Longrightarrow>
      P (pc, e) \<Longrightarrow> P (pc, e')"
  shows "P d"
  using assms(1)
proof (induction rule: reachable.induct)
  case (boot db tbl st keys ok now)
  obtain pc e where b: "boot en db tbl st keys ok now = (pc, e)" by force
  from assms(2) [OF b, of "[]"] show ?case by (simp add: b)
next
  case (step d ev)
  obtain pc e pc' e' where d: "d = (pc, e)" "daemon_step en ev (pc, e) = (pc', e')" by (metis prod.collapse)
  have slot: "pc = Idle \<longleftrightarrow> e_active e = None" using slot_invariant [OF step.hyps] d by simp
  have r: "reachable en (pc, e)" "P (pc, e)" using step d by simp_all
  have "P (pc', e')"
  proof (cases "is_restart ev")
    case True
    then obtain k tbl st keys ok now where ev: "ev = Restart k tbl st keys ok now" by (cases ev) auto
    obtain pc1 e1 where b: "boot en (e_disk e ! k) tbl st keys ok now = (pc1, e1)" by force
    from assms(2) [OF b, of "e_log e"] show ?thesis using d ev b r by (auto split: if_splits)
  next
    case nr: False
    show ?thesis
    proof (cases "e_active e")
      case None
      then have pc: "pc = Idle" using slot by simp
      show ?thesis
      proof (cases "e_active e'")
        case n': None
        then have "pc' = Idle" using step_idle [OF None] d(2) pc by simp
        then show ?thesis using assms(5) [OF None n'] r(2) pc by simp
      next
        case (Some a')
        then obtain now where ev: "ev = PolicyTick now"
          using d(2) None nr pc other_event_slot [of ev en pc e pc' e'] by (cases ev) auto
        obtain fired x where x: "evaluatePolicies en now e = (fired, x)" by force
        have fired "x = e'" "pc' = Executing"
          using d(2) ev x pc Some None evaluate_plans_idle [OF x [unfolded evaluatePolicies_def]]
          by (auto split: if_splits)
        then have "evaluatePolicies en now e = (True, e')" using x by simp
        from assms(3) [OF None _ this] show ?thesis using r(2) pc \<open>pc' = Executing\<close> by simp
      qed
    next
      case (Some a)
      then have pc: "pc \<noteq> Idle" using slot by simp
      show ?thesis
      proof (cases "\<exists>tk. ev = SeqTick tk")
        case True
        then show ?thesis using d(2) Some assms(4) [OF r(1) Some pc _ r(2)] by auto
      next
        case False
        from running_other_event [OF Some nr False d(2)] running_other_core [OF Some nr False d(2)]
        show ?thesis using assms(6) [OF r(1) Some pc _ _ _ _ _ r(2)] by blast
      qed
    qed
  qed
  then show ?case using d by simp
qed

end
