(* ===== verification/Recovery.thy ===== *)
theory Recovery
  imports Journal_Writes
begin

text \<open>
  What survives a crash or a power cut: the point of no return, the intents of the commands in
  flight and the locks of the clients they go to.
\<close>

section \<open>The point of no return survives\<close>

definition ponr_row :: "string \<Rightarrow> DB \<Rightarrow> bool" where
  "ponr_row sid db \<longleftrightarrow> (\<exists>s \<in> set (db_sequences db). sq_ID s = sid \<and> sq_PonrCrossed s)"

lemma upsert_mem: "x \<in> set rs \<Longrightarrow> x \<in> set (upsert key upd row rs) \<or> key x = key row \<and> upd x row \<in> set (upsert key upd row rs)"
  by (induction rs) auto

lemma upsert_written: "\<exists>x \<in> set (upsert key upd row rs). x = row \<or> (\<exists>r. key r = key row \<and> x = upd r row)"
  by (induction rs) auto

lemma ponr_update [simp]: "sq_PonrCrossed (update_sequence r q) = sq_PonrCrossed q"
  by (simp add: update_sequence_def)

lemma ponr_row_Save:
  assumes "ponr_row sid db" and "sq_ID q = sid \<longrightarrow> sq_PonrCrossed q"
  shows "ponr_row sid (SaveSequence q db)"
proof -
  obtain r where r: "r \<in> set (db_sequences db)" "sq_ID r = sid" "sq_PonrCrossed r" using assms(1) by (auto simp: ponr_row_def)
  from upsert_mem [OF this(1), of sq_ID update_sequence q] show ?thesis
  proof
    assume "r \<in> set (upsert sq_ID update_sequence q (db_sequences db))"
    with r show ?thesis by (auto simp: ponr_row_def SaveSequence_def)
  next
    assume u: "sq_ID r = sq_ID q \<and> update_sequence r q \<in> set (upsert sq_ID update_sequence q (db_sequences db))"
    with r assms(2) show ?thesis
      unfolding ponr_row_def SaveSequence_def by (intro bexI [of _ "update_sequence r q"]) simp_all
  qed
qed

lemma ponr_row_saved:
  assumes "sq_PonrCrossed q"
  shows "ponr_row (sq_ID q) (SaveSequence q db)"
proof -
  from upsert_written obtain x where x: "x \<in> set (upsert sq_ID update_sequence q (db_sequences db))"
      "x = q \<or> (\<exists>r. sq_ID r = sq_ID q \<and> x = update_sequence r q)"
    by (rule bexE)
  from x(2) have "sq_ID x = sq_ID q \<and> sq_PonrCrossed x"
    by (elim disjE exE conjE) (simp_all add: assms)
  with x(1) have "x \<in> set (db_sequences (SaveSequence q db)) \<and> sq_ID x = sq_ID q \<and> sq_PonrCrossed x"
    by (simp add: SaveSequence_def)
  then show ?thesis unfolding ponr_row_def by blast
qed

lemmas work_defs = SaveClientState_def SaveLearnedMAC_def SaveStageRecord_def AcquireClientLock_def SaveIntent_def

lemma ponr_row_keep:
  "f \<in> step_writes a \<Longrightarrow> sq_PonrCrossed (as_seq a) \<Longrightarrow> ponr_row (sq_ID (as_seq a)) db \<Longrightarrow> ponr_row (sq_ID (as_seq a)) (f db)"
proof (induction rule: step_writes.induct)
  case (work f)
  then show ?case
    by (induction rule: work_writes.induct) (auto simp: ponr_row_def work_defs split: option.splits if_splits)
next
  case (sequence q)
  then show ?case by (auto simp: seq_like_def intro!: ponr_row_Save)
qed (simp add: ponr_row_def ReleaseSequenceLocks_def)

lemma ponr_row_core: "core d = core d' \<Longrightarrow> ponr_row sid d = ponr_row sid d'"
  by (simp add: core_def ponr_row_def)

text \<open>Only entering a stage crosses it.\<close>

definition uncrossed :: "Executor \<Rightarrow> bool" where
  "uncrossed x \<longleftrightarrow> (\<forall>y. e_active x = Some y \<longrightarrow> \<not> sq_PonrCrossed (as_seq y))"

lemma uncrossed_frames [simp]:
  "uncrossed (emit ef e) = uncrossed e" "uncrossed (db_write ok f e) = uncrossed e"
  "uncrossed (saveSequence ok e) = uncrossed e" "uncrossed (setClientState ok now n cs q e) = uncrossed e"
  "uncrossed (saveIntent ok it e) = uncrossed e" "uncrossed (clearActiveSequence e)"
  "uncrossed (on_active (SetState st) e) = uncrossed e" "uncrossed (on_active (SetCurrentStage i) e) = uncrossed e"
  "uncrossed (on_active (SetHeldStage h) e) = uncrossed e"
  "uncrossed (on_active (MarkAborted \<circ> SetState st) e) = uncrossed e"
  "uncrossed (on_active (SetConfigSnapshot sn \<circ> SetResolvedAddrs r) e) = uncrossed e"
  by (auto simp: uncrossed_def)

lemma uncrossed_ops [simp]:
  "uncrossed (snd (completeSequence tk b x))"
  "uncrossed x \<Longrightarrow> uncrossed (snd (handleAbort en tk b x))"
  "uncrossed x \<Longrightarrow> uncrossed (snd (to_gate tk x))"
  "uncrossed x \<Longrightarrow> uncrossed (snd (finish_post tk x))"
  "uncrossed x \<Longrightarrow> uncrossed (snd (after_wake en tk b order i x))"
  by (simp_all add: completeSequence_def releaseSequence_def handleAbort_def to_gate_def finish_post_def after_wake_def
      Let_def del: active_defs)

lemma uncrossed_eval: "uncrossed x \<Longrightarrow> eval_cond en tk c x = (b, y) \<Longrightarrow> uncrossed y"
  by (drule eval_cond_active) (simp add: uncrossed_def)

lemma uncrossed_timeout: "uncrossed x \<Longrightarrow> handleStageTimeout en tk b stage i x = (h, y) \<Longrightarrow> uncrossed y"
  by (auto simp: handleStageTimeout_def Let_def simp del: active_defs split: if_splits)

lemma uncrossed_abort: "uncrossed x \<Longrightarrow> shouldAbort en tk a x = (b, y) \<Longrightarrow> uncrossed y"
  by (drule shouldAbort_frame) (simp add: uncrossed_def)

lemma uncrossed_stages:
  assumes "e_active e = Some a" and "\<not> sq_PonrCrossed (as_seq a)"
  shows "uncrossed (snd (runShutdownStages en tk a i e))"
proof -
  have u: "uncrossed e" using assms by (simp add: uncrossed_def)
  obtain c z where z: "shouldAbort en tk a (saveSequence (tk_ok tk) (on_active (SetCurrentStage i) e)) = (c, z)" by force
  have uz: "uncrossed z" by (rule uncrossed_abort [OF _ z]) (simp add: u del: active_defs)
  have "uncrossed (e\<lparr>e_active := Some (snd (MarkPostShutdownRun a))\<rparr>)"
    using assms by (simp add: uncrossed_def MarkPostShutdownRun_def)
  then have "uncrossed (snd (after_stages en tk a e))" using u
    by (auto simp: after_stages_def executePostShutdown_def MarkPostShutdownRun_def split: option.splits)
  then show ?thesis using uz
    by (simp add: runShutdownStages_def Let_def z split: bool.split del: active_defs)
qed

lemma seq_step_uncrossed:
  assumes "e_active e = Some a" and "\<not> sq_PonrCrossed (as_seq a)" and "\<nexists>i dl. pc = StageWait i dl"
  shows "uncrossed (snd (seq_step en tk a pc e))"
proof -
  have u: "uncrossed e" using assms by (simp add: uncrossed_def)
  show ?thesis
  proof (cases pc)
    case Executing
    obtain addrs x where r: "resolveClientAddresses en (tk_ok tk) (tk_now tk) (tk_mac tk) e = (addrs, x)" by force
    have "uncrossed x" using resolve_frame [OF r] u by (simp add: uncrossed_def)
    then show ?thesis by (simp add: Executing executeSequence_def r del: active_defs)
  next
    case Resuming
    have "uncrossed x \<Longrightarrow> uncrossed (reconcile en tk x it)" for x it
      by (simp add: reconcile_def Let_def split: option.split ClientState.split)
    then have "uncrossed x \<Longrightarrow> uncrossed (foldl (reconcile en tk) x its)" for x its
      by (induction its arbitrary: x) simp_all
    then show ?thesis using u
      by (simp add: Resuming resumeSequence_def reconcileIntents_def Let_def del: active_defs)
  next
    case (StageRun i rec budget cs)
    obtain name p where np: "cs ! tk_who tk = (name, p)" by force
    obtain p' x where p': "shutdownClient en tk budget name p e = (p', x)" by force
    have "uncrossed x" using shutdownClient_frame [OF p'] u by (simp add: uncrossed_def)
    then show ?thesis using u by (simp add: StageRun executeStage_def np p')
  next
    case (Settle cs dl)
    then show ?thesis using u by (auto simp: waitForShuttingDown_def split: list.split option.split)
  next
    case Gate
    obtain b y where y: "eval_cond en tk (wk_Gate (pl_Wake (as_plan a))) e = (b, y)" by force
    then show ?thesis using uncrossed_eval [OF u y]
      by (cases b) (simp_all add: Gate runWake_def y del: active_defs)
  next
    case (WakeNext order i)
    then show ?thesis using u by (simp add: wake_next_def Let_def del: active_defs split: option.split)
  next
    case (WakeStart order i)
    then show ?thesis using u by (simp add: wakeClient_def Let_def split: option.split)
  next
    case (WakeSend order i n)
    then show ?thesis using u by (simp add: wake_send_def Let_def split: option.split)
  next
    case (WakeSent order i n)
    then show ?thesis using u by (simp add: wake_sent_def Let_def split: option.split)
  next
    case (WakeProbe order i n dl)
    then show ?thesis using u by (simp add: wake_probe_def Let_def)
  qed (use u assms in \<open>simp_all add: uncrossed_stages split: option.split bool.split\<close>)
qed

definition ponr_safe :: "ActiveSequence \<Rightarrow> Executor \<Rightarrow> bool" where
  "ponr_safe a x \<longleftrightarrow> DBError \<in> set (e_log x) \<or> everywhere (ponr_row (sq_ID (as_seq a))) x"

lemma enter_stage_crosses:
  assumes "e_active x = Some b" and "\<not> sq_PonrCrossed (as_seq b)" and "enter_stage en tk stage i x = (pc', e')"
  shows "uncrossed e' \<or> ponr_safe b e'"
proof (cases "sg_PointOfNoReturn stage")
  case False
  then show ?thesis using assms by (auto simp: enter_stage_def start_stage_def Let_def uncrossed_def)
next
  case True
  let ?c = "snd (CrossPonr (SetHeldStage [] b))"
  let ?e1 = "on_active (snd \<circ> CrossPonr) (on_active (SetHeldStage []) x)"
  have c: "sq_PonrCrossed (as_seq ?c)" "sq_ID (as_seq ?c) = sq_ID (as_seq b)" by (simp_all add: CrossPonr_def)
  have cr: "fst (CrossPonr (SetHeldStage [] b))" using assms(2) by (simp add: CrossPonr_def)
  let ?e2 = "saveSequenceDurable (tk_ok tk) ?e1"
  have "ponr_safe b ?e2"
  proof (cases "tk_ok tk \<and> \<not> e_cancelled x")
    case True
    then show ?thesis using ponr_row_saved [OF c(1), of "e_db x"] c(2) assms(1)
      by (simp add: ponr_safe_def everywhere_def saveSequenceDurable_def db_write_durable_def del: active_defs)
        (simp add: persistable_def)
  next
    case False
    then have "?e2 = emit DBError ?e1" using assms(1) by (auto simp: saveSequenceDurable_def db_write_durable_def simp del: active_defs)
    then show ?thesis by (simp add: ponr_safe_def)
  qed
  moreover have "wrote (step_writes ?c) ?e2 e'"
    using assms True cr by (auto simp: enter_stage_def start_stage_def Let_def simp del: active_defs)
  ultimately show ?thesis
    using wrote_keeps [of "step_writes ?c" ?e2 e' "ponr_row (sq_ID (as_seq ?c))"] ponr_row_keep [OF _ c(1)] wrote_log c(2)
    unfolding ponr_safe_def by (metis subsetD)
qed

lemma waitForStage_crosses:
  assumes "e_active e = Some a" and "\<not> sq_PonrCrossed (as_seq a)" and "waitForStage en tk a stage i dl e = (pc', e')"
  shows "uncrossed e' \<or> ponr_safe a e'"
proof -
  obtain b y where y: "eval_cond en tk (sg_When stage) e = (b, y)" by force
  have ya: "e_active y = Some a" using eval_cond_active [OF y] assms(1) by simp
  have uy: "uncrossed y" using ya assms(2) by (simp add: uncrossed_def)
  obtain f r a' where cp: "ConsumeProceed a = (f, r, a')" by (metis prod_cases3)
  have a': "as_seq a' = as_seq a" using cp by (auto simp: ConsumeProceed_def split: if_splits)
  obtain c z where z: "shouldAbort en tk a y = (c, z)" by force
  have uz: "uncrossed z" by (rule uncrossed_abort [OF uy z])
  obtain h u where u: "handleStageTimeout en tk a stage i z = (h, u)" by force
  have uu: "uncrossed u" by (rule uncrossed_timeout [OF uz u])
  show ?thesis
  proof (cases b)
    case True
    then show ?thesis using enter_stage_crosses [OF ya assms(2)] assms(3) y by (simp add: waitForStage_def)
  next
    case nb: False
    show ?thesis
    proof (cases f)
      case True
      let ?x = "emit (Emit ''stage_forced'' [sg_Name stage, r]) (y\<lparr>e_active := Some a'\<rparr>)"
      have "enter_stage en tk stage i ?x = (pc', e')" using assms(3) y nb cp True by (simp add: waitForStage_def)
      from enter_stage_crosses [OF _ _ this, of a'] show ?thesis using assms(2) a' by (simp add: ponr_safe_def)
    next
      case False
      have "e' = snd (waitForStage en tk a stage i dl e)" using assms(3) by simp
      also have "uncrossed \<dots>" using y nb cp False z u uz uu
        by (simp add: waitForStage_def del: active_defs split: bool.split)
      finally show ?thesis by simp
    qed
  qed
qed

lemma ponr_invariant:
  "reachable en d \<Longrightarrow> \<forall>a. e_active (snd d) = Some a \<and> sq_PonrCrossed (as_seq a) \<longrightarrow> ponr_safe a (snd d)"
proof (induction rule: running_induct)
  case (boot db tbl st keys ok now pc e log)
  from boot.hyps show ?case
  proof (cases rule: boot_cases)
    case (resume seq plan)
    then have "seq \<in> set (db_sequences db)" using GetActiveSequence_in by blast
    with resume show ?thesis
      by (auto simp: ponr_safe_def everywhere_def ponr_row_def newActiveSequence_def)
  qed simp_all
next
  case (start e now e')
  then show ?case
    by (auto simp: evaluatePolicies_def newSequenceFor_def newActiveSequence_def dest!: evaluate_plans_fired)
next
  case (seq pc e a tk pc' e')
  show ?case
  proof (intro allI impI, elim conjE)
    fix a'
    assume a': "e_active (snd (pc', e')) = Some a'" "sq_PonrCrossed (as_seq a')"
    have s: "same_as a a'" using seq_step_same [OF seq.hyps(2,3,4)] a'(1) by auto
    have id: "sq_ID (as_seq a') = sq_ID (as_seq a)" using s by (simp add: same_as_def)
    have w: "wrote (step_writes a) e e'" using seq_step_writes [OF seq.hyps(2), of en tk pc] seq.hyps(4) by simp
    show "ponr_safe a' (snd (pc', e'))"
    proof (cases "sq_PonrCrossed (as_seq a)")
      case True
      then have "ponr_safe a e" using seq.IH seq.hyps(2) by simp
      moreover have "everywhere (ponr_row (sq_ID (as_seq a))) e \<longrightarrow> everywhere (ponr_row (sq_ID (as_seq a))) e'"
        using wrote_keeps [OF w] ponr_row_keep [OF _ True] by blast
      ultimately show ?thesis using wrote_log [OF w] unfolding ponr_safe_def id by auto
    next
      case False
      then have "\<not> uncrossed e'" using a' by (auto simp: uncrossed_def)
      then obtain i dl where "pc = StageWait i dl" using seq_step_uncrossed [OF seq.hyps(2) False, of pc en tk] seq.hyps(4) by auto
      then have "uncrossed e' \<or> ponr_safe a e'" using waitForStage_crosses [OF seq.hyps(2) False] seq.hyps(4) by simp
      with \<open>\<not> uncrossed e'\<close> show ?thesis unfolding ponr_safe_def id by simp
    qed
  qed
next
  case (idle e e')
  then show ?case by simp
next
  case (other pc e a e' a')
  have id: "as_seq a' = as_seq a" using requested_same [OF other.hyps(5)] by simp
  show ?case
  proof (intro allI impI, elim conjE)
    fix x
    assume "e_active (snd (pc, e')) = Some x" "sq_PonrCrossed (as_seq x)"
    then have x: "x = a'" "sq_PonrCrossed (as_seq a)" using other.hyps(4) id by auto
    then have "ponr_safe a e" using other.IH other.hyps(2) by simp
    moreover have "everywhere (ponr_row (sq_ID (as_seq a))) e \<Longrightarrow> everywhere (ponr_row (sq_ID (as_seq a))) e'"
      by (rule everywhere_core [OF other.hyps(6,7)]) (rule ponr_row_core)
    ultimately show "ponr_safe x (snd (pc, e'))"
      using other.hyps(8) unfolding ponr_safe_def x id snd_conv by blast
  qed
qed

text \<open>
  C5. A crossed point of no return survives a power cut. In every reachable state, if the running
  sequence is past its point of no return and the database has refused no write, every database the
  disk may come back with has the sequence on record as past it, so that no restart makes it
  abortable again.
\<close>

theorem ponr_survives_power_cut:
  assumes "reachable en (pc, e)" and "e_active e = Some a" and "sq_PonrCrossed (as_seq a)"
    and "DBError \<notin> set (e_log e)"
  shows "\<forall>db \<in> set (e_disk e). \<exists>s \<in> set (db_sequences db). sq_ID s = sq_ID (as_seq a) \<and> sq_PonrCrossed s"
  using ponr_invariant [OF assms(1)] assms(2-4) by (auto simp: ponr_safe_def everywhere_def ponr_row_def)

section \<open>Locks and intents of the commands in flight\<close>

lemma show_int_no_underscore: "CHR ''_'' \<notin> set (show_int t)"
proof -
  have "CHR ''_'' \<notin> set (show_nat n)" for n
  proof
    assume "CHR ''_'' \<in> set (show_nat n)"
    with show_nat_digits [of n] have "is_digit CHR ''_''" by blast
    then show False by (simp add: is_digit_def)
  qed
  then show ?thesis by (simp add: show_int_def)
qed

lemma intent_id_inj:
  assumes "intent_id n t = intent_id m u"
  shows "n = m"
proof -
  have split: "takeWhile (\<lambda>c. c \<noteq> CHR ''_'') (rev (show_int t) @ CHR ''_'' # rest) = rev (show_int t)" for t rest
    using show_int_no_underscore [of t] by (auto simp: takeWhile_append)
  have r: "rev (intent_id n t) = rev (show_int t) @ CHR ''_'' # rev n @ rev ''int_''" for n t
    by (simp add: intent_id_def)
  have eq: "rev (show_int t) @ CHR ''_'' # rev n @ rev ''int_'' = rev (show_int u) @ CHR ''_'' # rev m @ rev ''int_''"
    using assms by (metis r)
  then have "rev (show_int t) = rev (show_int u)" using split by metis
  with eq show ?thesis by simp
qed

definition pending :: "string \<Rightarrow> DB \<Rightarrow> bool" where
  "pending i db \<longleftrightarrow> (\<exists>r \<in> set (db_intents db). it_ID r = i \<and> it_Status r = IntentDispatching)"

definition held :: "string \<Rightarrow> string \<Rightarrow> DB \<Rightarrow> bool" where
  "held n sid db \<longleftrightarrow> lock_holder db n = Some sid"

lemma held_core: "core d = core d' \<Longrightarrow> held n sid d = held n sid d'"
  by (simp add: core_def held_def lock_holder_def)

lemma pending_core: "core d = core d' \<Longrightarrow> pending i d = pending i d'"
  by (simp add: core_def pending_def)

lemma held_keep: "f \<in> work_writes a I \<Longrightarrow> held n (sq_ID (as_seq a)) db \<Longrightarrow> held n (sq_ID (as_seq a)) (f db)"
proof (induction rule: work_writes.induct)
  case (lock now m)
  then show ?case unfolding held_def by (simp add: locks.acquire_holder)
qed (simp_all add: held_def lock_holder_def work_defs)

lemma pending_Save:
  assumes "pending i db" and "it_ID it \<noteq> i"
  shows "pending i (SaveIntent it db)"
proof -
  obtain r where r: "r \<in> set (db_intents db)" "it_ID r = i" "it_Status r = IntentDispatching"
    using assms(1) by (auto simp: pending_def)
  then have "r \<in> set (upsert it_ID update_intent it (db_intents db))" using upsert_keeps assms(2) by metis
  with r show ?thesis by (auto simp: pending_def SaveIntent_def)
qed

lemma pending_saved:
  assumes "it_Status it = IntentDispatching"
  shows "pending (it_ID it) (SaveIntent it db)"
proof -
  from upsert_written obtain x where x: "x \<in> set (upsert it_ID update_intent it (db_intents db))"
      "x = it \<or> (\<exists>r. it_ID r = it_ID it \<and> x = update_intent r it)"
    by (rule bexE)
  from x(2) have "it_ID x = it_ID it \<and> it_Status x = IntentDispatching"
    by (elim disjE exE conjE) (simp_all add: assms update_intent_def)
  with x(1) show ?thesis unfolding pending_def SaveIntent_def by auto
qed

lemma pending_keep:
  "f \<in> work_writes a I \<Longrightarrow> (\<forall>it \<in> I. it_ID it \<noteq> i) \<Longrightarrow> pending i db \<Longrightarrow> pending i (f db)"
proof (induction rule: work_writes.induct)
  case (intent it)
  then show ?case by (auto intro: pending_Save)
qed (auto simp: pending_def work_defs split: option.splits if_splits)

fun at_work :: "client_pc \<Rightarrow> bool" where
  "at_work CStart = False"
| "at_work (CDone _) = False"
| "at_work _ = True"

definition intent_safe :: "Executor \<Rightarrow> Intent \<Rightarrow> bool" where
  "intent_safe e it \<longleftrightarrow> DBError \<in> set (e_log e) \<or> everywhere (pending (it_ID it)) e"

text \<open>What holds of a client whose goroutine is at \<open>p\<close>.\<close>

definition client_ok :: "Executor \<Rightarrow> string \<Rightarrow> client_pc \<Rightarrow> bool" where
  "client_ok e n p \<longleftrightarrow> (at_work p \<longrightarrow> held n (seq_id e) (e_db e)) \<and>
     (\<forall>it \<in> pc_intent p. (\<exists>t. it_ID it = intent_id n t) \<and> it_ClientName it = n \<and> intent_safe e it)"

definition stage_ok :: "daemon \<Rightarrow> bool" where
  "stage_ok d \<longleftrightarrow> (case d of (StageRun i rec b cs, e) \<Rightarrow>
       distinct (map fst cs) \<and> (\<forall>(n, p) \<in> set cs. client_ok e n p) | _ \<Rightarrow> True)"

lemma stage_okI: "\<not> in_stage_run pc \<Longrightarrow> stage_ok (pc, e)"
  by (cases pc) (simp_all add: stage_ok_def)

text \<open>The goroutine of another client keeps it.\<close>

lemma client_ok_other:
  assumes "e_active e = Some a" and "shutdownClient en tk budget m q e = (q', e')" and "client_ok e m q" and "client_ok e n p"
    and "m \<noteq> n"
  shows "client_ok e' n p"
proof -
  note w = client_writes [OF assms(1,2)]
  have sid: "seq_id e = sq_ID (as_seq a)" "seq_id e' = sq_ID (as_seq a)"
    using shutdownClient_frame [OF assms(2)] assms(1) by (simp_all add: seq_id_def)
  have "held n (sq_ID (as_seq a)) (e_db e) \<longrightarrow> held n (sq_ID (as_seq a)) (e_db e')"
    using wrote_keeps [OF w, of "held n (sq_ID (as_seq a))"] held_keep by blast
  moreover have "intent_safe e' it" if it: "intent_safe e it" "it_ID it = intent_id n t" for it t
  proof -
    have "\<forall>x \<in> own_intents m q. \<exists>u. it_ID x = intent_id m u"
      using assms(3) unfolding own_intents_def client_ok_def by fastforce
    then have "\<forall>x \<in> own_intents m q. it_ID x \<noteq> it_ID it"
      using it(2) assms(5) intent_id_inj by metis
    then have "everywhere (pending (it_ID it)) e \<longrightarrow> everywhere (pending (it_ID it)) e'"
      using wrote_keeps [OF w, of "pending (it_ID it)"] pending_keep by blast
    then show ?thesis using it(1) wrote_log [OF w] unfolding intent_safe_def by blast
  qed
  ultimately show ?thesis using assms(4) unfolding client_ok_def sid by blast
qed

lemma claim_client_cases:
  assumes "claim_client en tk n e = (p', e')"
  shows "\<not> at_work p' \<and> pc_intent p' = {} \<or>
    p' = CLocked (tk_now tk) \<and> fst (AcquireClientLock (tk_now tk) n (seq_id e) (e_db e)) \<and>
    e_db e' = snd (AcquireClientLock (tk_now tk) n (seq_id e) (e_db e))"
proof -
  obtain got db where a: "AcquireClientLock (tk_now tk) n (seq_id e) (e_db e) = (got, db)" by force
  show ?thesis
  proof (cases "findClientConfig (en_cfg en) n")
    case None
    then show ?thesis using assms by (auto simp: claim_client_def client_result_def Let_def)
  next
    case (Some c)
    then show ?thesis using assms a
      by (cases "en_transports en (cl_Transport c)"; cases "\<not> tk_ok tk \<or> e_cancelled e"; cases got)
        (auto simp: claim_client_def client_result_def db_write_def Let_def)
  qed
qed

lemma client_ok_own:
  assumes "e_active e = Some a" and "shutdownClient en tk budget n p e = (p', e')" and "client_ok e n p"
  shows "client_ok e' n p'"
proof -
  note w = client_writes [OF assms(1,2)]
  have sid: "seq_id e = sq_ID (as_seq a)" "seq_id e' = sq_ID (as_seq a)"
    using shutdownClient_frame [OF assms(2)] assms(1) by (simp_all add: seq_id_def)
  have keep: "held n (sq_ID (as_seq a)) (e_db e) \<Longrightarrow> held n (sq_ID (as_seq a)) (e_db e')"
    using wrote_keeps [OF w, of "held n (sq_ID (as_seq a))"] held_keep by blast
  show ?thesis
  proof (cases p)
    case CStart
    consider "\<not> at_work p'" "pc_intent p' = {}"
      | "p' = CLocked (tk_now tk)" "fst (AcquireClientLock (tk_now tk) n (sq_ID (as_seq a)) (e_db e))"
        "e_db e' = snd (AcquireClientLock (tk_now tk) n (sq_ID (as_seq a)) (e_db e))"
      using claim_client_cases [of en tk n e p' e'] assms(2) CStart sid(1) by auto
    then show ?thesis
    proof cases
      case 2
      then have "held n (sq_ID (as_seq a)) (e_db e')" unfolding held_def by (simp add: locks.acquire_holder)
      then show ?thesis using 2(1) by (simp add: client_ok_def sid)
    qed (simp add: client_ok_def)
  next
    case (CLocked t0)
    let ?it = "\<lparr>it_ID = ''int_'' @ n @ ''_'' @ show_int (tk_now tk), it_SequenceID = seq_id e,
                it_ClientName = n, it_Action = ''shutdown'', it_Timestamp = tk_now tk,
                it_Status = IntentDispatching, it_Result = None\<rparr>"
    let ?x = "saveIntentDurable (tk_ok tk) ?it e"
    have p': "p' = CClaimed t0 ?it" and e': "e' = setClientState (tk_ok tk) (tk_now tk) n StateShuttingDown (Some (seq_id e)) ?x"
      using assms(2) CLocked by (auto simp: record_intent_def Let_def)
    have "intent_safe ?x ?it"
      using pending_saved [of ?it "e_db e"]
      by (auto simp: intent_safe_def everywhere_def saveIntentDurable_def db_write_durable_def)
    moreover have w2: "wrote (work_writes a {}) ?x e'" unfolding e' by simp
    ultimately have "intent_safe e' ?it"
      using wrote_keeps [OF w2, of "pending (it_ID ?it)"] pending_keep [of _ a "{}"] wrote_log [OF w2]
      unfolding intent_safe_def by blast
    then show ?thesis using keep assms(3) p' CLocked
      by (auto simp: client_ok_def sid intent_id_def)
  next
    case (CClaimed t0 it)
    have "e' = e \<or> (\<exists>ef. e' = emit ef e)" if "pc_intent p' \<noteq> {}"
      using assms(2) CClaimed that by (auto simp: dispatch_client_def client_result_def split: if_splits option.splits)
    then have "intent_safe e' it" if "pc_intent p' \<noteq> {}"
      using assms(3) CClaimed that by (auto simp: client_ok_def intent_safe_def everywhere_def)
    moreover have "pc_intent p' \<subseteq> {it}"
      using assms(2) CClaimed by (auto simp: dispatch_client_def client_result_def split: if_splits option.splits)
    ultimately show ?thesis using keep assms(3) CClaimed unfolding client_ok_def sid by auto
  next
    case (CDry t0 u)
    then have "pc_intent p' = {}" using assms(2) by (auto simp: client_result_def split: option.splits)
    then show ?thesis using keep assms(3) CDry by (simp add: client_ok_def sid)
  next
    case (CExec t0 it ctx)
    then have "pc_intent p' = {}" using assms(2) by (auto simp: answered_client_def Let_def)
    then show ?thesis using keep assms(3) CExec by (simp add: client_ok_def sid)
  next
    case (CAwait t0 dl ctx)
    then have "pc_intent p' = {}" using assms(2) by (auto simp: awaitClientDown_def unverified_def client_result_def split: if_splits)
    then show ?thesis using keep assms(3) CAwait by (simp add: client_ok_def sid)
  next
    case (CSelect t0 dl ctx)
    then have "pc_intent p' = {}" using assms(2) by (auto simp: await_select_def unverified_def client_result_def split: if_splits)
    then show ?thesis using keep assms(3) CSelect by (simp add: client_ok_def sid)
  next
    case (CDone r)
    then show ?thesis using assms(2) by (auto simp: client_ok_def)
  qed
qed

lemma client_ok_core:
  assumes "client_ok e n p" and "e_active e = Some a" and "e_active e' = Some a'" and "as_seq a' = as_seq a"
    and "core (e_db e') = core (e_db e)" and "core ` set (e_disk e') \<subseteq> core ` insert (e_db e) (set (e_disk e))"
    and "set (e_log e) \<subseteq> set (e_log e')"
  shows "client_ok e' n p"
proof -
  have sid: "seq_id e' = seq_id e" using assms(2-4) by (simp add: seq_id_def)
  have "intent_safe e' it" if "intent_safe e it" for it
    using that everywhere_core [OF assms(5,6), of "pending (it_ID it)"] pending_core assms(7)
    unfolding intent_safe_def by blast
  then show ?thesis using assms(1) held_core [OF assms(5)] unfolding client_ok_def sid by blast
qed

lemma stage_invariant: "reachable en d \<Longrightarrow> stage_ok d"
proof (induction rule: running_induct)
  case (boot db tbl st keys ok now pc e es)
  then show ?case using boot_slot [OF boot] by (intro stage_okI) auto
next
  case (seq pc e a tk pc' e')
  show ?case
  proof (cases "in_stage_run pc'")
    case True
    then obtain i rec b cs where pc': "pc' = StageRun i rec b cs" by (cases pc') auto
    show ?thesis
    proof (cases "in_stage_run pc")
      case False
      obtain j dl where "pc = StageWait j dl" "waitForStage en tk a (stage_at a j) j dl e = (StageRun i rec b cs, e')"
        using stage_run_from [of en tk a pc e] seq.hyps(4) False pc' by auto
      from waitForStage_enters [OF this(2) seq.hyps(2)] obtain x where
        "enter_stage en tk (stage_at a j) j x = (StageRun i rec b cs, e')" by blast
      from enter_stage_cases [OF this] have "distinct (map fst cs)" and st: "\<And>n p. (n, p) \<in> set cs \<Longrightarrow> p = CStart"
        using Resolve_distinct [of "sg_Clients (stage_at a j)" "en_cfg en"] by metis+
      moreover have "client_ok e' n p" if "(n, p) \<in> set cs" for n p
        using st [OF that] by (simp add: client_ok_def)
      ultimately show ?thesis unfolding pc' stage_ok_def by auto
    next
      case True
      then obtain j rec0 b0 cs0 where pc: "pc = StageRun j rec0 b0 cs0" by (cases pc) auto
      note ok = seq.IH [unfolded pc stage_ok_def, simplified]
      obtain n p where np: "cs0 ! tk_who tk = (n, p)" by force
      obtain p' x where p': "shutdownClient en tk b0 n p e = (p', x)" by force
      consider "cs = cs0" "e' = e" | "tk_who tk < length cs0" "cs = cs0[tk_who tk := (n, p')]" "e' = x"
        using seq.hyps(4) pc pc' np p' by (auto simp: executeStage_def split: if_splits)
      then show ?thesis
      proof cases
        case 1
        then show ?thesis using ok unfolding pc' stage_ok_def by simp
      next
        case 2
        have mem: "(n, p) \<in> set cs0" using 2(1) np by (metis nth_mem)
        have fst: "map fst cs = map fst cs0" using 2(1,2) np by (simp add: map_update list_update_same_conv)
        have "client_ok e' m q" if mq: "(m, q) \<in> set cs" for m q
        proof -
          obtain k where k: "k < length cs" "cs ! k = (m, q)" using mq unfolding in_set_conv_nth by blast
          show ?thesis
          proof (cases "k = tk_who tk")
            case True
            then show ?thesis using k 2 client_ok_own [OF seq.hyps(2) p'] ok mem by auto
          next
            case False
            then have q: "cs0 ! k = (m, q)" "k < length cs0" using k 2 by auto
            then have "m \<noteq> n" using ok False 2(1) np by (metis fst_conv length_map nth_eq_iff_index_eq nth_map)
            moreover have "client_ok e m q" "client_ok e n p" using ok q mem by (metis (no_types, lifting) case_prodD nth_mem)+
            ultimately show ?thesis using client_ok_other [OF seq.hyps(2) p'] 2(3) by simp
          qed
        qed
        then show ?thesis using ok fst unfolding pc' stage_ok_def by auto
      qed
    qed
  qed (rule stage_okI)
next
  case (other pc e a e' a')
  have id: "as_seq a' = as_seq a" using requested_same [OF other.hyps(5)] by simp
  have "client_ok e n p \<Longrightarrow> client_ok e' n p" for n p
    by (rule client_ok_core [OF _ other.hyps(2,4) id other.hyps(6-8)])
  then show ?case using other.IH unfolding stage_ok_def by (auto split: pc.splits)
qed (simp_all add: stage_okI)

text \<open>
  C6. Every command in flight can be accounted for after a power cut. In every reachable state, when
  the transport of a client has been called to shut it down and has not answered, every database
  the disk may come back with holds the intent with the status \<open>dispatching\<close>, provided the database
  has refused no write; so a restarted daemon knows which hosts it may already have told to stop.
\<close>

theorem command_has_durable_intent:
  assumes "reachable en (StageRun i rec budget cs, e)" and "(n, CExec t0 it ctx) \<in> set cs" and "DBError \<notin> set (e_log e)"
  shows "it_ClientName it = n \<and>
    (\<forall>db \<in> set (e_disk e). \<exists>r \<in> set (db_intents db). it_ID r = it_ID it \<and> it_Status r = ''dispatching'')"
proof -
  have "client_ok e n (CExec t0 it ctx)" using stage_invariant [OF assms(1)] assms(2) by (auto simp: stage_ok_def)
  then show ?thesis using assms(3)
    unfolding client_ok_def intent_safe_def everywhere_def pending_def IntentDispatching_def by auto
qed

text \<open>
  C7. A command goes out only under the client's lock. In every reachable state, from the moment the
  goroutine of a client has taken its lock to its end, the database has the client locked by the
  running sequence, so no other sequence can be acting on it.
\<close>

theorem client_locked_while_acted_upon:
  assumes "reachable en (StageRun i rec budget cs, e)" and "(n, p) \<in> set cs" and "at_work p"
  shows "ClientLockHolder n (e_db e) = seq_id e \<and> (\<forall>now q. fst (AcquireClientLock now n q (e_db e)) \<longrightarrow> q = seq_id e)"
proof -
  have "held n (seq_id e) (e_db e)" using stage_invariant [OF assms(1)] assms(2,3) by (auto simp: stage_ok_def client_ok_def)
  then show ?thesis unfolding held_def
    by (auto simp: ClientLockHolder_def lock_holder_def locks.acquire_iff split: option.splits)
qed

end
