(* ===== verification/Completion.thy ===== *)
theory Completion
  imports Journal_Writes
begin

text \<open>
  The ends of a sequence: the post-shutdown action, completion with the release of its locks, and
  where a restarted daemon takes it up again.
\<close>

section \<open>The post-shutdown action\<close>

interpretation post: handle_invariant "\<lambda>a. sq_PostShutdownRun (as_seq a)"
  by unfold_locales (simp_all add: MarkPostShutdownRun_def CrossPonr_def ConsumeProceed_def)

lemma not_post [simp]:
  "fst (handleAbort en tk a x) \<noteq> PostExec" "fst (to_gate tk x) \<noteq> PostExec" "fst (finish_post tk x) \<noteq> PostExec"
  "fst (completeSequence tk a x) \<noteq> PostExec" "fst (after_wake en tk a order i x) \<noteq> PostExec"
  "fst (enter_stage en tk stage i x) \<noteq> PostExec"
  by (simp_all add: handleAbort_def to_gate_def finish_post_def completeSequence_def after_wake_def
      enter_stage_def start_stage_def Let_def)

lemma after_stages_post:
  assumes "after_stages en tk a e = (PostExec, e')"
  shows "\<exists>ps. sh_PostShutdown (pl_Shutdown (as_plan a)) = Some ps \<and> \<not> sq_PostShutdownRun (as_seq a) \<and> e_mode e \<noteq> ModeDryRun \<and>
    e_active e' = Some (snd (MarkPostShutdownRun a)) \<and>
    e_log e' = e_log e @ [Dispatch (sq_ID (as_seq a)) ''nut'' (post_client ps) (post_action (ps_Action ps))]"
  using assms
  by (auto simp: after_stages_def executePostShutdown_def MarkPostShutdownRun_def seq_id_def to_gate_def finish_post_def
      split: option.splits if_splits)

lemma post_from:
  assumes "seq_step en tk a pc e = (PostExec, e')"
  shows "\<exists>i. pc = StageLoop i \<and> \<not> i < length (sh_Stages (pl_Shutdown (as_plan a))) \<and> after_stages en tk a e = (PostExec, e')"
  using assms
proof (cases pc)
  case (Settle cs d)
  then show ?thesis using assms
    by (auto simp: waitForShuttingDown_def fst_neqD split: list.splits option.splits if_splits)
next
  case Gate
  then show ?thesis using assms by (auto simp: runWake_def fst_neqD split: prod.splits bool.splits if_splits)
next
  case (WakeNext order j)
  then show ?thesis using assms by (auto simp: wake_next_def fst_neqD Let_def split: option.splits if_splits)
next
  case (StageLoop j)
  then show ?thesis using assms
    by (auto simp: runShutdownStages_def fst_neqD Let_def split: prod.splits bool.splits if_splits)
next
  case (StageWait j d)
  then show ?thesis using assms
    by (auto simp: waitForStage_def fst_neqD split: prod.splits bool.splits if_splits)
next
  case (StageRun j rec budget cs)
  then show ?thesis using assms by (auto simp: executeStage_def split: prod.splits if_splits)
qed (auto simp: executeSequence_def resumeSequence_def wakeClient_def wake_send_def wake_sent_def wake_probe_def Let_def
    fst_neqD split: option.splits if_splits prod.splits bool.splits)

text \<open>
  C9. The UPS is told to cut its outlets once. The goroutine reaches the post-shutdown action only after
  the last stage and outside dry run, and marks it as run before the transport is called; and once
  it is marked, no step but a restart reaches the action again or removes the mark.
\<close>

theorem post_shutdown_once:
  assumes "e_active e = Some a" and "pc \<noteq> Idle" and "\<not> is_restart ev" and "daemon_step en ev (pc, e) = (pc', e')"
  shows "(pc' = PostExec \<and> pc \<noteq> PostExec \<longrightarrow>
      \<not> sq_PostShutdownRun (as_seq a) \<and> e_mode e \<noteq> ModeDryRun \<and>
      (\<exists>i. pc = StageLoop i \<and> length (sh_Stages (pl_Shutdown (as_plan a))) \<le> i) \<and>
      (\<exists>a' ps. e_active e' = Some a' \<and> sq_PostShutdownRun (as_seq a') \<and>
         e_log e' = e_log e @ [Dispatch (sq_ID (as_seq a)) ''nut'' (post_client ps) (post_action (ps_Action ps))])) \<and>
    (sq_PostShutdownRun (as_seq a) \<longrightarrow> pc' = Idle \<or>
      (\<exists>a'. e_active e' = Some a' \<and> sq_PostShutdownRun (as_seq a')))"
proof (cases "\<exists>tk. ev = SeqTick tk")
  case True
  then obtain tk where s: "seq_step en tk a pc e = (pc', e')" using assms(1,4) by auto
  have "sq_PostShutdownRun (as_seq a) \<longrightarrow> pc' = Idle \<or> (\<exists>a'. e_active e' = Some a' \<and> sq_PostShutdownRun (as_seq a'))"
    using post.seq_step_kept [OF assms(1) _ assms(2), of en tk] s by (cases "pc' = Idle") (auto simp: post.holds_def)
  moreover have ?thesis if "pc' = PostExec" "pc \<noteq> PostExec"
  proof -
    obtain i where i: "pc = StageLoop i" "\<not> i < length (sh_Stages (pl_Shutdown (as_plan a)))"
        "after_stages en tk a e = (PostExec, e')"
      using post_from s \<open>pc' = PostExec\<close> by blast
    from after_stages_post [OF this(3)] i(1,2) show ?thesis by (auto simp: MarkPostShutdownRun_def)
  qed
  ultimately show ?thesis by blast
next
  case False
  from running_other_event [OF assms(1,3) False assms(4)] show ?thesis using requested_same by fastforce
qed

section \<open>The end of a sequence\<close>

lemma complete_ends:
  assumes "completeSequence tk b x = (Idle, e')" and "tk_ok tk" and "\<not> e_cancelled x" and "sq_ID (as_seq b) = sid"
  shows "(\<forall>c. lock_holder (e_db e') c \<noteq> Some sid) \<and>
    (\<exists>s. GetSequenceByID sid (e_db e') = Some s \<and> sq_CompletedAt s = Some (tk_now tk) \<and>
       sq_State s = (if sq_Aborted (as_seq b) then SeqStateAborted else SeqStateCompleted))"
proof -
  let ?b = "MarkCompleted (if sq_Aborted (as_seq b) then SeqStateAborted else SeqStateCompleted) (tk_now tk) b"
  have db: "e_db e' = ReleaseSequenceLocks sid (SaveSequence (as_seq ?b) (e_db x))"
    using assms by (auto simp: completeSequence_def releaseSequence_def saveSequence_def db_write_def seq_id_def Let_def)
  have "GetSequenceByID sid (e_db e') = GetSequenceByID sid (SaveSequence (as_seq ?b) (e_db x))"
    by (simp add: db GetSequenceByID_def ReleaseSequenceLocks_def)
  then show ?thesis
    using assms(4) locks.release_holder [of sid "SaveSequence (as_seq ?b) (e_db x)"]
    by (auto simp: db SaveSequence_get update_sequence_def split: option.split)
qed

lemma not_idle [simp]:
  "fst (handleAbort en tk a x) \<noteq> Idle" "fst (to_gate tk x) \<noteq> Idle" "fst (finish_post tk x) \<noteq> Idle"
  "fst (after_wake en tk a order i x) \<noteq> Idle" "fst (enter_stage en tk stage i x) \<noteq> Idle" "fst (after_stages en tk a x) \<noteq> Idle"
  by (simp_all add: handleAbort_def to_gate_def finish_post_def after_wake_def enter_stage_def start_stage_def
      after_stages_def Let_def split: option.split prod.split bool.split)

lemma idle_from:
  assumes "seq_step en tk a pc e = (Idle, e')" and "pc \<noteq> Idle" and "\<not> e_cancelled e"
  shows "\<exists>b x. completeSequence tk b x = (Idle, e') \<and> \<not> e_cancelled x \<and> sq_ID (as_seq b) = sq_ID (as_seq a) \<and>
    (b = a \<or> b = MarkAborted a \<and> as_abortRequested a)"
  using assms
proof (cases pc)
  case (Settle cs d)
  then show ?thesis using assms
    by (auto simp: waitForShuttingDown_def fst_neqD split: list.splits option.splits if_splits)
next
  case Gate
  obtain b y where y: "eval_cond en tk (wk_Gate (pl_Wake (as_plan a))) e = (b, y)" by force
  have "completeSequence tk (MarkAborted a) y = (Idle, e')" "as_abortRequested a" "\<not> e_cancelled y"
    using assms Gate y eval_cond_active [OF y] by (auto simp: runWake_def simp del: active_defs split: bool.splits if_splits)
  moreover have "sq_ID (as_seq (MarkAborted a)) = sq_ID (as_seq a)" by simp
  ultimately show ?thesis by blast
next
  case (WakeNext order j)
  then consider "completeSequence tk a e = (Idle, e')" | "as_abortRequested a" "completeSequence tk (MarkAborted a) e = (Idle, e')"
    using assms by (auto simp: wake_next_def Let_def simp del: active_defs split: option.splits if_splits)
  moreover have "sq_ID (as_seq (MarkAborted a)) = sq_ID (as_seq a)" by simp
  ultimately show ?thesis using assms(3) by cases blast+
next
  case (StageLoop j)
  then show ?thesis using assms
    by (auto simp: runShutdownStages_def fst_neqD Let_def split: prod.splits bool.splits if_splits)
next
  case (StageWait j d)
  then show ?thesis using assms
    by (auto simp: waitForStage_def fst_neqD dest: eval_cond_active shouldAbort_frame split: prod.splits bool.splits if_splits)
next
  case (StageRun j rec budget cs)
  then show ?thesis using assms by (auto simp: executeStage_def split: prod.splits if_splits)
qed (auto simp: executeSequence_def resumeSequence_def wakeClient_def wake_send_def wake_sent_def wake_probe_def slept_def Let_def
    fst_neqD split: option.splits if_splits prod.splits bool.splits)

text \<open>What a step that ends a sequence leaves in the database when it cannot write to it.\<close>

lemma unwritten [simp]:
  "\<not> ok \<or> e_cancelled e \<Longrightarrow> e_db (db_write ok f e) = e_db e"
  "\<not> ok \<or> e_cancelled e \<Longrightarrow> e_db (saveSequence ok e) = e_db e"
  by (auto simp: db_write_def saveSequence_def split: option.splits)

lemma complete_unwritten:
  "completeSequence tk b x = (Idle, e') \<Longrightarrow> \<not> tk_ok tk \<or> e_cancelled x \<Longrightarrow> e_db e' = e_db x"
  by (auto simp: completeSequence_def releaseSequence_def Let_def)

lemma idle_unwritten:
  assumes "seq_step en tk a pc e = (Idle, e')" and "pc \<noteq> Idle" and "\<not> tk_ok tk \<or> e_cancelled e"
  shows "e_db e' = e_db e"
  using assms
proof (cases pc)
  case (Settle cs d)
  then show ?thesis using assms
    by (auto simp: waitForShuttingDown_def fst_neqD split: list.splits option.splits if_splits)
next
  case Gate
  obtain b y where y: "eval_cond en tk (wk_Gate (pl_Wake (as_plan a))) e = (b, y)" by force
  then have "e_db y = e_db e" "e_cancelled y = e_cancelled e" using eval_cond_active by auto
  then show ?thesis using assms Gate y complete_unwritten [of tk "MarkAborted a" y e']
    by (auto simp: runWake_def simp del: active_defs split: bool.splits if_splits)
next
  case (WakeNext order j)
  then show ?thesis using assms complete_unwritten [of tk _ e e']
    by (auto simp: wake_next_def Let_def simp del: active_defs split: option.splits if_splits)
next
  case (StageLoop j)
  then show ?thesis using assms
    by (auto simp: runShutdownStages_def fst_neqD Let_def split: prod.splits bool.splits if_splits)
next
  case (StageWait j d)
  then show ?thesis using assms
    by (auto simp: waitForStage_def fst_neqD dest!: eval_cond_active shouldAbort_frame split: prod.splits bool.splits if_splits)
next
  case (StageRun j rec budget cs)
  then show ?thesis using assms by (auto simp: executeStage_def split: prod.splits if_splits)
qed (auto simp: executeSequence_def resumeSequence_def wakeClient_def wake_send_def wake_sent_def wake_probe_def slept_def Let_def
    fst_neqD split: option.splits if_splits prod.splits bool.splits)

text \<open>
  C10. A sequence that ends leaves nothing behind. The step that ends a sequence always frees the slot. If
  the daemon is not being stopped and the database accepts the writes of the step, no client is locked by
  the sequence any more and its row is in a terminal state, \<open>aborted\<close> if it was aborted and \<open>completed\<close> if
  no abort was asked for, with the time of the end; otherwise the database is as it was, with the row that
  a start takes the sequence up from.
\<close>

theorem ended_sequence_released:
  assumes "e_active e = Some a" and "pc \<noteq> Idle" and "daemon_step en (SeqTick tk) (pc, e) = (Idle, e')"
  shows "e_active e' = None \<and>
    (if tk_ok tk \<and> \<not> e_cancelled e then
       (\<forall>c. lock_holder (e_db e') c \<noteq> Some (sq_ID (as_seq a))) \<and>
       (\<exists>s. GetSequenceByID (sq_ID (as_seq a)) (e_db e') = Some s \<and> sq_CompletedAt s = Some (tk_now tk) \<and>
          sq_State s \<in> {''completed'', ''aborted''} \<and> (sq_Aborted (as_seq a) \<longrightarrow> sq_State s = ''aborted'') \<and>
          (\<not> sq_Aborted (as_seq a) \<and> \<not> as_abortRequested a \<longrightarrow> sq_State s = ''completed''))
     else e_db e' = e_db e)"
proof -
  have s: "seq_step en tk a pc e = (Idle, e')" using assms(1,3) by simp
  have idle: "e_active e' = None" using seq_step_same [OF assms(1,2) s] by auto
  show ?thesis
  proof (cases "tk_ok tk \<and> \<not> e_cancelled e")
    case True
    then obtain b x where b: "completeSequence tk b x = (Idle, e')" "\<not> e_cancelled x"
        "sq_ID (as_seq b) = sq_ID (as_seq a)" "b = a \<or> b = MarkAborted a \<and> as_abortRequested a"
      using idle_from [OF s assms(2)] by blast
    with complete_ends [OF b(1) _ b(2,3)] True idle show ?thesis by (auto simp: seq_state_defs)
  qed (use idle idle_unwritten [OF s assms(2)] in auto)
qed

section \<open>Taking a sequence up again\<close>

lemma resume_stage_least:
  "resume_stage completed n \<le> n \<and> (\<forall>j < resume_stage completed n. j \<in> set completed) \<and>
   (resume_stage completed n < n \<longrightarrow> resume_stage completed n \<notin> set completed)"
proof (cases "find (\<lambda>i. i \<notin> set completed) [0..<n]")
  case None
  then have "\<forall>j < n. j \<in> set completed" by (auto simp: find_None_iff)
  with None show ?thesis by (simp add: resume_stage_def)
next
  case (Some i)
  then have "i < n" "i \<notin> set completed" "\<forall>j < i. j \<in> set completed" by (auto simp: find_Some_iff)
  with Some show ?thesis by (simp add: resume_stage_def)
qed

text \<open>
  C11. A restarted daemon takes a sequence up where its record says. A sequence on record as aborting or
  aborted goes on to settle every client and never back to its stages, one at the wake gate or waking goes
  to the gate, and any other continues with the first stage that is not on record as completed: all stages
  before it are. Only if the record of the completed stages cannot be read it begins again with the first.
\<close>

theorem resume_at_first_incomplete_stage:
  assumes "resumeSequence en tk a e = (pc, e')" and "e_active e = Some a"
  shows "if sq_State (as_seq a) \<in> {''aborting'', ''aborted''} then pc = Settle (cf_Clients (en_cfg en)) None
    else if sq_State (as_seq a) \<in> {''wake_gate'', ''waking''} then pc = Gate
    else if tk_ok tk \<and> \<not> e_cancelled e then \<exists>i. pc = StageLoop i \<and> i \<le> length (sh_Stages (pl_Shutdown (as_plan a))) \<and>
      (\<forall>j < i. j \<in> set (GetCompletedStages (sq_ID (as_seq a)) (e_db e))) \<and>
      (i < length (sh_Stages (pl_Shutdown (as_plan a))) \<longrightarrow> i \<notin> set (GetCompletedStages (sq_ID (as_seq a)) (e_db e)))
    else pc = StageLoop 0"
proof -
  have sid: "seq_id e = sq_ID (as_seq a)" using assms(2) by (simp add: seq_id_def)
  have "resume_stage [] n = 0" for n by (cases n) (simp_all add: resume_stage_def upt_rec)
  then show ?thesis
    using assms resume_stage_least [of "GetCompletedStages (sq_ID (as_seq a)) (e_db e)" "length (sh_Stages (pl_Shutdown (as_plan a)))"]
    by (auto simp: resumeSequence_def sid seq_state_defs Let_def split: if_splits)
qed

end
