(* ===== verification/Policy.thy ===== *)
theory Policy
  imports Sequence_Safety
begin

text \<open>
  The policy loop: which plan a tick starts.
\<close>

text \<open>
  Evaluating the triggers of earlier plans does not change the meaning of the later ones, although
  it moves their timers.
\<close>

lemma evaluate_plans_first:
  assumes S: "collision_free (en_rt en) S" "\<forall>p \<in> set plans. pl_Trigger p \<in> S"
    and inv: "ev_inv (en_rt en) (e_evaluator e)" and same: "same_sem (en_rt en) (e_store e) now S ev0 (e_evaluator e)"
    and "e_active e = None" and "mode \<noteq> ModeDisarmed" and "evaluate_plans en now mode plans e = (fired, e')"
  shows "case find (\<lambda>p. sem (en_rt en) (e_store e) now (ev_dwell ev0) (pl_Trigger p) = TTrue) plans of
      None \<Rightarrow> \<not> fired \<and> e_active e' = None
    | Some p \<Rightarrow> fired \<and> e_active e' = Some (newSequenceFor en now p e)"
  using assms(2-)
proof (induction plans arbitrary: e)
  case (Cons p ps)
  obtain v ev where v: "Evaluate (en_rt en) (e_store e) now (pl_Trigger p) (e_evaluator e) = (v, ev)" by force
  have pS: "pl_Trigger p \<in> S" using Cons.prems(1) by simp
  have val: "v = sem (en_rt en) (e_store e) now (ev_dwell ev0) (pl_Trigger p)"
    using Evaluate_sem [OF S(1) pS Cons.prems(2), of "e_store e" now] v Cons.prems(3) pS by (simp add: same_sem_def)
  have k: "keeps (en_rt en) (e_store e) now S (e_evaluator e) ev"
    using Evaluate_keeps [OF S(1) pS Cons.prems(2), of "e_store e" now] v by simp
  have new: "newSequenceFor en now q (e\<lparr>e_evaluator := ev\<rparr>) = newSequenceFor en now q e" for q
  proof -
    have "clientState (e\<lparr>e_evaluator := ev\<rparr>) = clientState e" by (simp add: fun_eq_iff clientState_def)
    then show ?thesis unfolding newSequenceFor_def by (simp cong: if_cong)
  qed
  show ?case
  proof (cases "v = TTrue")
    case True
    then show ?thesis using Cons.prems(4-6) v val
      by (simp add: setActiveSequence_def evaluate_plans_running new Let_def split: prod.splits) (auto simp: new)
  next
    case False
    let ?e = "e\<lparr>e_evaluator := ev\<rparr>"
    have "same_sem (en_rt en) (e_store e) now S ev0 ev"
      using k Cons.prems(3) by (auto simp: keeps_def intro: same_sem_trans)
    moreover have "evaluate_plans en now mode ps ?e = (fired, e')" using Cons.prems(4-6) v False by (simp add: Let_def)
    ultimately have "case find (\<lambda>p. sem (en_rt en) (e_store e) now (ev_dwell ev0) (pl_Trigger p) = TTrue) ps of
        None \<Rightarrow> \<not> fired \<and> e_active e' = None
      | Some p \<Rightarrow> fired \<and> e_active e' = Some (newSequenceFor en now p ?e)"
      using Cons.IH [of ?e] Cons.prems(1-5) k by (simp add: keeps_def)
    then show ?thesis using False val by (simp add: new split: option.splits)
  qed
qed simp

text \<open>
  A policy tick starts exactly the first plan whose trigger is true. With no sequence running and
  the daemon not disarmed, the tick starts a sequence if and only if the trigger of some plan holds,
  each evaluated as if it were the only one, and then for the first such plan of the configuration,
  at its first stage, before its point of no return, with the states of all clients on record.
\<close>

theorem tick_starts_first_triggered_plan:
  assumes "collision_free (en_rt en) S" and "\<forall>p \<in> set (cf_Plans (en_cfg en)). pl_Trigger p \<in> S"
    and "ev_inv (en_rt en) (e_evaluator e)" and "e_active e = None" and "e_mode e \<noteq> ModeDisarmed"
    and "evaluatePolicies en now e = (fired, e')"
  shows "case find (\<lambda>p. fst (Evaluate (en_rt en) (e_store e) now (pl_Trigger p) (e_evaluator e)) = TTrue) (cf_Plans (en_cfg en)) of
      None \<Rightarrow> \<not> fired \<and> e_active e' = None
    | Some p \<Rightarrow> fired \<and> (\<exists>a. e_active e' = Some a \<and> as_plan a = p \<and> sq_PlanName (as_seq a) = pl_Name p \<and>
        sq_CurrentStage (as_seq a) = 0 \<and> \<not> sq_PonrCrossed (as_seq a) \<and> \<not> as_abortRequested a \<and>
        (\<forall>c \<in> set (cf_Clients (en_cfg en)).
           sq_PreSequenceState (as_seq a) (cl_Name c) = Some (ClientState_String (clientState e (cl_Name c)))))"
proof -
  let ?sem = "\<lambda>p. sem (en_rt en) (e_store e) now (ev_dwell (e_evaluator e)) (pl_Trigger p) = TTrue"
  let ?ev = "\<lambda>p. fst (Evaluate (en_rt en) (e_store e) now (pl_Trigger p) (e_evaluator e)) = TTrue"
  have "\<forall>p \<in> set (cf_Plans (en_cfg en)). ?sem p = ?ev p" using Evaluate_sem [OF assms(1) _ assms(3)] assms(2) by simp
  then have f: "find ?ev (cf_Plans (en_cfg en)) = find ?sem (cf_Plans (en_cfg en))" by (intro find_cong) auto
  from evaluate_plans_first [OF assms(1-3) same_sem_refl assms(4,5) assms(6) [unfolded evaluatePolicies_def]]
  show ?thesis unfolding f
    by (auto simp: newSequenceFor_def newActiveSequence_def buildClientNameSet_def split: option.splits)
qed

end
