(* ===== verification/Wake_Safety.thy ===== *)
theory Wake_Safety
  imports Sequence_Safety Validation_Correct
begin

text \<open>
  Waking the hosts again: the order, and when a host of the order is woken.
\<close>

section \<open>The order\<close>

lemma foldl_add_unseen: "foldl (\<lambda>order s. add_unseen order (f s)) out ss = add_unseen out (concat (map f ss))"
  by (induction ss arbitrary: out) (simp_all add: add_unseen_append)

abbreviation stage_names :: "Config \<Rightarrow> StageConfig \<Rightarrow> string list" where
  "stage_names cfg s \<equiv> ResolveClientRefs (sg_Clients s) cfg"

lemma computeWakeOrder_concat:
  "computeWakeOrder cfg plan = add_unseen [] (concat (map (stage_names cfg)
     (if wk_Stages (pl_Wake plan) \<noteq> [] then wk_Stages (pl_Wake plan) else rev (sh_Stages (pl_Shutdown plan)))))"
  by (simp add: computeWakeOrder_def foldl_add_unseen)

lemma in_set_dropE:
  assumes "x \<in> set (drop j xs)"
  obtains k where "j \<le> k" and "k < length xs" and "x = xs ! k"
proof -
  obtain i where "i < length (drop j xs)" "x = drop j xs ! i" using assms by (metis in_set_conv_nth)
  then show thesis using that [of "j + i"] by simp
qed

definition comes_before :: "'a \<Rightarrow> 'a \<Rightarrow> 'a list \<Rightarrow> bool" where
  "comes_before x y xs \<longleftrightarrow> (\<exists>as bs cs. xs = as @ x # bs @ y # cs)"

lemma comes_beforeI:
  assumes "x \<in> set as" and "y \<in> set bs"
  shows "comes_before x y (as @ bs)"
proof -
  obtain a1 a2 b1 b2 where "as = a1 @ x # a2" "bs = b1 @ y # b2" using assms by (metis split_list)
  then have "as @ bs = a1 @ x # (a2 @ b1) @ y # b2" by simp
  then show ?thesis unfolding comes_before_def by blast
qed

text \<open>
  C23. The default wake order brings the dependencies of a host up first. In a configuration whose
  dependencies are accepted, a plan without wake stages of its own wakes every client of its
  shutdown stages, each once, and each after all it depends on that the plan shuts down.
\<close>

theorem wake_order_respects_dependencies:
  assumes "\<not> has_err (validateDependencies cfg order)" and "p \<in> set (cf_Plans cfg)" and "wk_Stages (pl_Wake p) = []"
  shows "distinct (computeWakeOrder cfg p) \<and>
    set (computeWakeOrder cfg p) = (\<Union>s \<in> set (sh_Stages (pl_Shutdown p)). set (ResolveClientRefs (sg_Clients s) cfg)) \<and>
    (\<forall>c \<in> set (cf_Clients cfg). \<forall>dep \<in> set (cl_DependsOn c).
       cl_Name c \<in> set (computeWakeOrder cfg p) \<and> dep \<in> set (computeWakeOrder cfg p) \<longrightarrow>
       comes_before dep (cl_Name c) (computeWakeOrder cfg p))"
proof -
  let ?ss = "sh_Stages (pl_Shutdown p)" and ?f = "stage_names cfg"
  have o: "computeWakeOrder cfg p = add_unseen [] (concat (map ?f (rev ?ss)))"
    using assms(3) by (simp add: computeWakeOrder_concat)
  have set: "set (computeWakeOrder cfg p) = (\<Union>s \<in> set ?ss. set (?f s))" by (simp add: o)
  have mem: "\<exists>i. in_stage cfg ?ss i n" if n: "n \<in> set (computeWakeOrder cfg p)" for n
  proof -
    obtain s where "s \<in> set ?ss" "n \<in> set (?f s)" using n unfolding set by blast
    then show ?thesis unfolding in_stage_def by (metis in_set_conv_nth)
  qed
  note st = accepted_stages [OF assms(1,2) refl]
  have "comes_before dep (cl_Name c) (computeWakeOrder cfg p)"
    if c: "c \<in> set (cf_Clients cfg)" "dep \<in> set (cl_DependsOn c)"
      and o': "cl_Name c \<in> set (computeWakeOrder cfg p)" "dep \<in> set (computeWakeOrder cfg p)" for c dep
  proof -
    obtain i j where ij: "in_stage cfg ?ss i (cl_Name c)" "in_stage cfg ?ss j dep" using mem o' by blast
    then have lt: "i < j" using st c by blast
    let ?late = "add_unseen [] (concat (map ?f (rev (drop j ?ss))))"
    have "rev ?ss = rev (drop j ?ss) @ rev (take j ?ss)" by (metis append_take_drop_id rev_append)
    then have "computeWakeOrder cfg p = add_unseen ?late (concat (map ?f (rev (take j ?ss))))"
      by (simp add: o add_unseen_append)
    then obtain rest where rest: "computeWakeOrder cfg p = ?late @ rest" using add_unseen_prefix by metis
    have "?ss ! j \<in> set (drop j ?ss)" using ij(2) by (metis in_stage_def Cons_nth_drop_Suc list.set_intros(1))
    then have "dep \<in> set ?late" using ij(2) unfolding in_stage_def by auto
    moreover have "cl_Name c \<notin> set ?late"
    proof
      assume "cl_Name c \<in> set ?late"
      then obtain s where "s \<in> set (drop j ?ss)" "cl_Name c \<in> set (?f s)" by auto
      then obtain k where "j \<le> k" "k < length ?ss" "cl_Name c \<in> set (?f (?ss ! k))" by (metis in_set_dropE)
      then have "in_stage cfg ?ss k (cl_Name c)" by (simp add: in_stage_def)
      then show False using st ij(1) lt \<open>j \<le> k\<close> by (metis leD)
    qed
    ultimately show ?thesis using rest o'(1) comes_beforeI by (metis Un_iff set_append)
  qed
  moreover have "distinct (computeWakeOrder cfg p)" by (simp add: o distinct_add_unseen)
  ultimately show ?thesis using set by blast
qed

section \<open>When a host is woken\<close>

text \<open>The client a sequence is busy waking: from the wait of its guard period to the last attempt.\<close>

fun waking_of :: "pc \<Rightarrow> (string list \<times> nat) option" where
  "waking_of (WakeGuard order i _) = Some (order, i)"
| "waking_of (WakeStart order i) = Some (order, i)"
| "waking_of (WakeDry order i _) = Some (order, i)"
| "waking_of (WakeSend order i _) = Some (order, i)"
| "waking_of (WakeSent order i _) = Some (order, i)"
| "waking_of (WakeProbe order i _ _) = Some (order, i)"
| "waking_of (WakeWait order i _ _ _) = Some (order, i)"
| "waking_of _ = None"

text \<open>
  What makes the next client of the wake order due at a turn of the goroutine, and when its guard period
  is over: it runs from when the client's state last changed.
\<close>

definition wake_due :: "engine_env \<Rightarrow> ActiveSequence \<Rightarrow> string \<Rightarrow> ClientConfig \<Rightarrow> Executor \<Rightarrow> bool" where
  "wake_due en a name c e \<longleftrightarrow>
     \<not> as_abortRequested a \<and> findClientConfig (en_cfg en) name = Some c \<and> clientState e name \<noteq> StateUp \<and>
     (\<forall>dep \<in> set (cl_DependsOn c). clientState e dep = StateUp) \<and>
     (cl_WakePolicy c = ''retain_state'' \<longrightarrow> sq_PreSequenceState (as_seq a) name \<in> {None, Some ''up''})"

definition guard_end :: "engine_env \<Rightarrow> instant \<Rightarrow> string \<Rightarrow> ClientConfig \<Rightarrow> Executor \<Rightarrow> instant" where
  "guard_end en now name c e =
     (case e_clientStateSince e name of None \<Rightarrow> now | Some t \<Rightarrow> t) +
     duration_or (en_rt en) (cl_GuardPeriod c) DefaultGuardPeriod"

lemma wake_next_due:
  assumes "wake_next en tk a order i e = (pc', e')" and "waking_of pc' = Some (order', j)"
  shows "order' = order \<and> j = i \<and> i < length order \<and> (\<exists>c. wake_due en a (order ! i) c e \<and>
    (clientState e (order ! i) = StateDownUnverified \<longrightarrow>
       guard_end en (tk_now tk) (order ! i) c e \<le> tk_now tk \<or> pc' = WakeGuard order i (guard_end en (tk_now tk) (order ! i) c e)))"
proof -
  have i: "i < length order" and na: "\<not> as_abortRequested a"
    using assms by (auto simp: wake_next_def completeSequence_def Let_def split: if_splits)
  obtain c where c: "findClientConfig (en_cfg en) (order ! i) = Some c"
    using assms i na by (cases "findClientConfig (en_cfg en) (order ! i)") (auto simp: wake_next_def)
  let ?retain = "cl_WakePolicy c = ''retain_state'' \<and>
    (case sq_PreSequenceState (as_seq a) (order ! i) of None \<Rightarrow> False | Some pre \<Rightarrow> pre \<noteq> ClientState_String StateUp)"
  have up: "clientState e (order ! i) \<noteq> StateUp" and r: "\<not> ?retain" and d: "dependenciesMet en e (order ! i)"
    using assms i na c by (auto simp: wake_next_def Let_def split: if_splits)
  have pc: "pc' = (if clientState e (order ! i) = StateDownUnverified \<and>
        duration_or (en_rt en) (cl_GuardPeriod c) DefaultGuardPeriod - timeSinceSettled e (tk_now tk) (order ! i) > 0
      then WakeGuard order i (tk_now tk + (duration_or (en_rt en) (cl_GuardPeriod c) DefaultGuardPeriod - timeSinceSettled e (tk_now tk) (order ! i)))
      else WakeStart order i)"
    using assms(1) i na c up r d by (auto simp: wake_next_def Let_def split: if_splits)
  have "cl_WakePolicy c = ''retain_state'' \<longrightarrow> sq_PreSequenceState (as_seq a) (order ! i) \<in> {None, Some ''up''}"
    using r by (auto split: option.splits)
  moreover have "\<forall>dep \<in> set (cl_DependsOn c). clientState e dep = StateUp"
    using d c by (simp add: dependenciesMet_def list_all_iff)
  ultimately have "wake_due en a (order ! i) c e" using na c up by (simp add: wake_due_def)
  then show ?thesis using i pc assms(2)
    by (auto simp: timeSinceSettled_def guard_end_def Let_def algebra_simps split: option.splits if_splits)
qed

lemma after_wake_out [simp]: "waking_of (fst (after_wake en tk a order i e)) = None"
  by (simp add: after_wake_def Let_def)

lemma not_waking [simp]:
  "waking_of (fst (to_gate tk e)) = None" "waking_of (fst (finish_post tk e)) = None"
  "waking_of (fst (handleAbort en tk a e)) = None" "waking_of (fst (completeSequence tk a e)) = None"
  "waking_of (fst (enter_stage en tk stage i e)) = None" "waking_of (fst (after_stages en tk a e)) = None"
  by (simp_all add: to_gate_def finish_post_def handleAbort_def completeSequence_def enter_stage_def start_stage_def after_stages_def
      Let_def split: option.split prod.split bool.split)

lemma waking_fst: "f = (pc, e) \<Longrightarrow> waking_of pc = waking_of (fst f)"
  by simp

lemma waking_seq_step:
  assumes "waking_of (fst (seq_step en tk a pc e)) = Some (order, i)"
  shows "waking_of pc = Some (order, i) \<or> pc = WakeNext order i"
proof (cases pc)
  case (StageWait j dl)
  then show ?thesis using assms
    by (auto simp: waitForStage_def split: prod.splits bool.splits if_splits)
next
  case (StageLoop j)
  then show ?thesis using assms
    by (auto simp: runShutdownStages_def Let_def split: prod.splits bool.splits if_splits)
next
  case (Settle cs dl)
  then show ?thesis using assms by (auto simp: waitForShuttingDown_def split: list.splits option.splits if_splits)
next
  case (WakeNext order' j)
  obtain pc' e' where s: "wake_next en tk a order' j e = (pc', e')" by force
  then show ?thesis using wake_next_due [OF s] assms WakeNext by auto
qed (use assms in \<open>auto simp: executeSequence_def resumeSequence_def executeStage_def runWake_def wakeClient_def wake_send_def
    wake_sent_def wake_probe_def Let_def split: option.splits prod.splits bool.splits if_splits\<close>)

lemma waking_step:
  assumes "daemon_step en ev (pc, e) = (pc', e')" and "waking_of pc' = Some (order, i)"
  shows "pc' = pc \<or>
    (\<exists>tk a. ev = SeqTick tk \<and> e_active e = Some a \<and> seq_step en tk a pc e = (pc', e') \<and>
       (waking_of pc = Some (order, i) \<or> pc = WakeNext order i))"
proof (cases "is_slot_event ev")
  case False
  then show ?thesis using other_event_slot [OF False assms(1)] by simp
next
  case True
  then consider tk where "ev = SeqTick tk" | now where "ev = PolicyTick now"
    | k tbl st keys ok now where "ev = Restart k tbl st keys ok now" by (cases ev) auto
  then show ?thesis
  proof cases
    case 1
    then show ?thesis using assms waking_seq_step [of en tk "the (e_active e)" pc e order i]
      by (cases "e_active e") auto
  next
    case 2
    then show ?thesis using assms by (auto split: if_splits prod.splits)
  next
    case 3
    then show ?thesis using assms boot_slot by (auto split: if_splits prod.splits) fastforce
  qed
qed


end
