(* ===== verification/Progress.thy ===== *)
theory Progress
  imports Abort_Safety
begin

text \<open>
  Progress: with the goroutines scheduled again and again and time moving on, the shutdown part of a
  sequence comes to its end, whatever transports, probes and the database answer.
\<close>

section \<open>Fair runs\<close>

definition late :: "instant \<Rightarrow> event \<Rightarrow> bool" where
  "late T ev \<longleftrightarrow> \<not> is_restart ev \<and> (\<forall>tk. ev = SeqTick tk \<longrightarrow> T \<le> tk_now tk)"

text \<open>
  No restart and no tick before \<open>T\<close>, each goroutine gets its turn again and again, and every instant
  is passed for good some time.
\<close>

definition fair_from :: "instant \<Rightarrow> (nat \<Rightarrow> event) \<Rightarrow> bool" where
  "fair_from T evs \<longleftrightarrow> (\<forall>n. late T (evs n)) \<and>
     (\<forall>k n. \<exists>m\<ge>n. \<exists>tk. evs m = SeqTick tk \<and> tk_who tk = k) \<and> (\<forall>T'. \<exists>n. \<forall>m\<ge>n. late T' (evs m))"

definition trace :: "engine_env \<Rightarrow> (nat \<Rightarrow> event) \<Rightarrow> daemon \<Rightarrow> nat \<Rightarrow> daemon" where
  "trace en evs d n = run en (map evs [0..<n]) d"

text \<open>The sequence of plan \<open>pl\<close> is at a program counter \<open>Q\<close> describes.\<close>

definition runs_at :: "PlanConfig \<Rightarrow> (pc \<Rightarrow> bool) \<Rightarrow> daemon \<Rightarrow> bool" where
  "runs_at pl Q d \<longleftrightarrow> Q (fst d) \<and> fst d \<noteq> Idle \<and> (\<exists>a. e_active (snd d) = Some a \<and> as_plan a = pl)"

lemma runs_atE:
  assumes "runs_at pl Q d"
  obtains pc e a where "d = (pc, e)" "Q pc" "pc \<noteq> Idle" "e_active e = Some a" "as_plan a = pl"
  using assms by (cases d) (auto simp: runs_at_def)

text \<open>
  A stage under \<open>wait_policy: hold\<close> may wait for ever: for its condition or for the operator. \<open>released\<close>
  says of a run that no sequence is held for good.
\<close>

definition stages_of :: "PlanConfig \<Rightarrow> StageConfig list" where
  "stages_of pl = sh_Stages (pl_Shutdown pl)"

definition held_at :: "PlanConfig \<Rightarrow> nat \<Rightarrow> daemon \<Rightarrow> bool" where
  "held_at pl i d \<longleftrightarrow> i < length (stages_of pl) \<and> sg_WaitPolicy (stages_of pl ! i) = WaitPolicyHold \<and>
     runs_at pl (\<lambda>pc. pc = StageLoop i \<or> (\<exists>dl. pc = StageWait i dl)) d"

definition released :: "engine_env \<Rightarrow> (nat \<Rightarrow> event) \<Rightarrow> daemon \<Rightarrow> bool" where
  "released en evs d \<longleftrightarrow> (\<forall>pl i n. held_at pl i (trace en evs d n) \<longrightarrow> (\<exists>m\<ge>n. \<not> held_at pl i (trace en evs d m)))"

definition reaches :: "engine_env \<Rightarrow> instant \<Rightarrow> (daemon \<Rightarrow> bool) \<Rightarrow> daemon \<Rightarrow> bool" where
  "reaches en T P d \<longleftrightarrow> (\<forall>evs. fair_from T evs \<longrightarrow> released en evs d \<longrightarrow> (\<exists>n. P (trace en evs d n)))"

lemma trace_0 [simp]: "trace en evs d 0 = d"
  by (simp add: trace_def run_def)

lemma trace_Suc [simp]: "trace en evs d (Suc n) = daemon_step en (evs n) (trace en evs d n)"
  by (simp add: trace_def run_def)

lemma trace_add: "trace en evs d (n + m) = trace en (\<lambda>j. evs (n + j)) (trace en evs d n) m"
  by (induction m) simp_all

lemma released_suffix: "released en evs d \<Longrightarrow> released en (\<lambda>j. evs (n + j)) (trace en evs d n)"
  unfolding released_def
proof (intro allI impI)
  fix pl i k
  assume r: "\<forall>pl i n. held_at pl i (trace en evs d n) \<longrightarrow> (\<exists>m\<ge>n. \<not> held_at pl i (trace en evs d m))"
    and h: "held_at pl i (trace en (\<lambda>j. evs (n + j)) (trace en evs d n) k)"
  then obtain m where "m \<ge> n + k" "\<not> held_at pl i (trace en evs d m)" by (metis trace_add)
  moreover from this have "m = n + (m - n)" "k \<le> m - n" by linarith+
  ultimately show "\<exists>m\<ge>k. \<not> held_at pl i (trace en (\<lambda>j. evs (n + j)) (trace en evs d n) m)" by (metis trace_add)
qed

lemma fair_suffix:
  assumes "fair_from T evs"
  shows "fair_from T (\<lambda>j. evs (n + j))"
  unfolding fair_from_def
proof (intro conjI allI)
  show "late T (evs (n + j))" for j using assms by (simp add: fair_from_def)
  fix k l
  obtain m tk where m: "m \<ge> n + l" "evs m = SeqTick tk" "tk_who tk = k" using assms unfolding fair_from_def by blast
  have "m - n \<ge> l \<and> n + (m - n) = m" using m(1) by linarith
  then show "\<exists>m\<ge>l. \<exists>tk. evs (n + m) = SeqTick tk \<and> tk_who tk = k" using m(2,3) by metis
next
  fix T'
  obtain l where l: "\<forall>m\<ge>l. late T' (evs m)" using assms unfolding fair_from_def by blast
  then have "\<forall>m\<ge>l. late T' (evs (n + m))" by (simp add: trans_le_add2)
  then show "\<exists>l. \<forall>m\<ge>l. late T' (evs (n + m))" by blast
qed

lemma fair_later:
  assumes "fair_from T evs"
  obtains n where "fair_from T' (\<lambda>j. evs (n + j))"
proof -
  obtain n where n: "\<forall>m\<ge>n. late T' (evs m)" using assms unfolding fair_from_def by blast
  have "fair_from T' (\<lambda>j. evs (n + j))"
    using fair_suffix [OF assms, of n] n unfolding fair_from_def by simp
  then show thesis by (rule that)
qed

lemma reaches_now: "P d \<Longrightarrow> reaches en T P d"
  unfolding reaches_def by (metis trace_0)

lemma reaches_trans:
  assumes "reaches en T Q d" and "\<And>d'. Q d' \<Longrightarrow> reaches en T P d'"
  shows "reaches en T P d"
  unfolding reaches_def
proof (intro allI impI)
  fix evs assume f: "fair_from T evs" and rl: "released en evs d"
  obtain n where "Q (trace en evs d n)" using assms(1) f rl unfolding reaches_def by blast
  then obtain m where "P (trace en (\<lambda>j. evs (n + j)) (trace en evs d n) m)"
    using assms(2) fair_suffix [OF f] released_suffix [OF rl] unfolding reaches_def by blast
  then show "\<exists>n. P (trace en evs d n)" by (metis trace_add)
qed

lemma reaches_mono: "reaches en T Q d \<Longrightarrow> (\<And>d'. Q d' \<Longrightarrow> P d') \<Longrightarrow> reaches en T P d"
  unfolding reaches_def by blast

text \<open>What stays true until \<open>P\<close> holds.\<close>

lemma until_trace:
  assumes "I d" and "\<And>d ev. I d \<Longrightarrow> late T ev \<Longrightarrow> I (daemon_step en ev d) \<or> P (daemon_step en ev d)"
    and "\<forall>n. late T (evs n)" and "\<nexists>n. P (trace en evs d n)"
  shows "I (trace en evs d n)"
  using assms by (induction n) (simp, metis trace_Suc)

lemma reaches_later:
  assumes "I d" and "\<And>d ev. I d \<Longrightarrow> late T ev \<Longrightarrow> I (daemon_step en ev d) \<or> P (daemon_step en ev d)"
    and "\<And>d. I d \<Longrightarrow> reaches en T' P d"
  shows "reaches en T P d"
  unfolding reaches_def
proof (intro allI impI)
  fix evs assume f: "fair_from T evs" and rl: "released en evs d"
  obtain n where n: "fair_from T' (\<lambda>j. evs (n + j))" using f by (rule fair_later)
  show "\<exists>n. P (trace en evs d n)"
  proof (rule ccontr)
    assume no: "\<nexists>n. P (trace en evs d n)"
    have "\<forall>n. late T (evs n)" using f by (simp add: fair_from_def)
    from until_trace [OF assms(1,2) this no] have "I (trace en evs d n)" .
    then obtain m where "P (trace en (\<lambda>j. evs (n + j)) (trace en evs d n) m)"
      using assms(3) n released_suffix [OF rl] unfolding reaches_def by blast
    then show False using no by (metis trace_add)
  qed
qed

lemma ensures:
  assumes "I d" and "\<And>d ev. I d \<Longrightarrow> late T ev \<Longrightarrow> I (daemon_step en ev d) \<or> P (daemon_step en ev d)"
    and "\<And>d tk. I d \<Longrightarrow> tk_who tk = k \<Longrightarrow> T \<le> tk_now tk \<Longrightarrow> P (daemon_step en (SeqTick tk) d)"
  shows "reaches en T P d"
  unfolding reaches_def
proof (intro allI impI)
  fix evs assume f: "fair_from T evs" and "released en evs d"
  obtain m tk where m: "evs m = SeqTick tk" "tk_who tk = k" using f unfolding fair_from_def by blast
  have lt: "\<forall>n. late T (evs n)" using f by (simp add: fair_from_def)
  then have "T \<le> tk_now tk" using m by (metis late_def)
  show "\<exists>n. P (trace en evs d n)"
  proof (rule ccontr)
    assume no: "\<nexists>n. P (trace en evs d n)"
    from until_trace [OF assms(1,2) lt no] have "I (trace en evs d m)" .
    then have "P (trace en evs d (Suc m))" using assms(3) m \<open>T \<le> tk_now tk\<close> by simp
    then show False using no by blast
  qed
qed

section \<open>The goroutine of a client\<close>

fun level :: "client_pc \<Rightarrow> nat" where
  "level CStart = 5"
| "level (CLocked _) = 4"
| "level (CClaimed _ _) = 3"
| "level (CExec _ _ _) = 2"
| "level (CDry _ _) = 1"
| "level (CAwait _ _ _) = 1"
| "level (CSelect _ _ _) = 1"
| "level (CDone _) = 0"

text \<open>The instant by which the place is left, and whether it takes two turns to leave it.\<close>

fun limit :: "client_pc \<Rightarrow> instant" where
  "limit (CDry _ until) = until"
| "limit (CAwait _ dl ctx) = max dl ctx"
| "limit (CSelect _ dl ctx) = max dl ctx"
| "limit _ = 0"

fun at_select :: "client_pc \<Rightarrow> bool" where
  "at_select (CSelect _ _ _) = True"
| "at_select _ = False"

lemma level_done: "level p = 0 \<longleftrightarrow> is_done p"
  by (cases p) simp_all

lemmas client_step_defs = claim_client_def record_intent_def dispatch_client_def answered_client_def awaitClientDown_def
  await_select_def unverified_def client_result_def slept_def Let_def

lemma client_step_level:
  assumes "shutdownClient en tk b n p e = (p', e')" and "level p > 0"
  shows "level p' < level p \<or> level p' = level p \<and> limit p' = limit p"
  using assms by (cases p) (auto simp: client_step_defs split: if_splits option.splits prod.splits bool.splits)

lemma client_step_late:
  assumes "shutdownClient en tk b n p e = (p', e')" and "level p > 0" and "limit p \<le> tk_now tk"
  shows "level p' < level p \<or> at_select p \<and> \<not> at_select p'"
  using assms by (cases p) (auto simp: client_step_defs split: if_splits option.splits prod.splits bool.splits)

section \<open>A stage ends\<close>

definition levels :: "(string \<times> client_pc) list \<Rightarrow> (nat \<times> instant) list" where
  "levels cs = map (\<lambda>(_, p). (level p, limit p)) cs"

definition work :: "(string \<times> client_pc) list \<Rightarrow> nat" where
  "work cs = sum_list (map (level \<circ> snd) cs)"

lemma work_levels: "levels cs = levels cs' \<Longrightarrow> work cs = work cs'"
proof -
  have "work cs = sum_list (map fst (levels cs))" for cs
    by (simp add: work_def levels_def comp_def case_prod_beta)
  then show "levels cs = levels cs' \<Longrightarrow> work cs = work cs'" by metis
qed

lemma work_update:
  assumes "k < length cs" and "level p < level (snd (cs ! k))"
  shows "work (cs[k := (n, p)]) < work cs"
proof -
  have "work (cs[k := (n, p)]) + level (snd (cs ! k)) = work cs + level p"
    using assms(1) elem_le_sum_list [of k "map (level \<circ> snd) cs"] by (simp add: work_def map_update sum_list_update)
  then show ?thesis using assms(2) by linarith
qed

text \<open>To follow a sequence it is enough to follow the steps of its goroutine.\<close>

lemma runs_at_step:
  assumes "runs_at pl Q d" and "late T ev"
    and "\<And>tk a e pc' e'. ev = SeqTick tk \<Longrightarrow> T \<le> tk_now tk \<Longrightarrow> e_active e = Some a \<Longrightarrow> as_plan a = pl \<Longrightarrow> Q (fst d) \<Longrightarrow>
      seq_step en tk a (fst d) e = (pc', e') \<Longrightarrow> R pc'"
  shows "runs_at pl Q (daemon_step en ev d) \<or> (\<exists>tk. ev = SeqTick tk) \<and>
    (fst (daemon_step en ev d) = Idle \<or> runs_at pl R (daemon_step en ev d))"
proof -
  obtain pc e a where d: "d = (pc, e)" "Q pc" "pc \<noteq> Idle" "e_active e = Some a" "as_plan a = pl" using assms(1) by (rule runs_atE)
  obtain pc' e' where s: "daemon_step en ev (pc, e) = (pc', e')" by force
  have nr: "\<not> is_restart ev" using assms(2) by (simp add: late_def)
  show ?thesis
  proof (cases "\<exists>tk. ev = SeqTick tk")
    case True
    then obtain tk where tk: "ev = SeqTick tk" "T \<le> tk_now tk" using assms(2) by (auto simp: late_def)
    have step: "seq_step en tk a pc e = (pc', e')" using s tk d by simp
    have "pc' = Idle \<or> (\<exists>a'. e_active e' = Some a' \<and> as_plan a' = pl)"
      using seq_step_same [OF d(4,3) step] d(5) by (auto simp: same_as_def)
    then show ?thesis using assms(3) [OF tk d(4,5)] d step s tk by (auto simp: runs_at_def)
  next
    case False
    from running_other_event [OF d(4) nr False s] show ?thesis using d s
      by (auto simp: runs_at_def same_sequence_def dest!: requested_same)
  qed
qed

fun running :: "nat \<Rightarrow> ((string \<times> client_pc) list \<Rightarrow> bool) \<Rightarrow> pc \<Rightarrow> bool" where
  "running i Q (StageRun j _ _ cs) \<longleftrightarrow> j = i \<and> Q cs"
| "running i Q _ = False"

lemma runningE:
  assumes "running i Q pc"
  obtains rec budget cs where "pc = StageRun i rec budget cs" "Q cs"
  using assms by (cases pc) auto

definition less_work :: "nat \<Rightarrow> nat \<Rightarrow> pc \<Rightarrow> bool" where
  "less_work i w pc \<longleftrightarrow> pc = StageLoop (Suc i) \<or> running i (\<lambda>cs. work cs < w) pc"

lemma all_done_work: "list_all (\<lambda>(_, p). is_done p) cs \<longleftrightarrow> work cs = 0"
  by (induction cs) (auto simp: work_def level_done)

text \<open>A step of a stage with work left does some of it, or leaves the work as it is.\<close>

lemma stage_step:
  assumes "executeStage en tk i rec b cs e = (pc', e')" and "work cs > 0"
  shows "less_work i (work cs) pc' \<or>
    (\<exists>cs'. pc' = StageRun i rec b cs' \<and> levels cs' = levels cs \<and>
       (\<forall>k < length cs. k \<noteq> tk_who tk \<or> level (snd (cs ! k)) = 0 \<longrightarrow> at_select (snd (cs' ! k)) = at_select (snd (cs ! k))) \<and>
       (\<forall>k < length cs. k = tk_who tk \<and> level (snd (cs ! k)) > 0 \<and> limit (snd (cs ! k)) \<le> tk_now tk \<longrightarrow>
          at_select (snd (cs ! k)) \<and> \<not> at_select (snd (cs' ! k))))"
proof (cases "tk_who tk < length cs")
  case False
  then have "pc' = StageRun i rec b cs" using assms by (simp add: executeStage_def all_done_work)
  then show ?thesis using False by auto
next
  case True
  let ?k = "tk_who tk"
  obtain n p where np: "cs ! ?k = (n, p)" by force
  obtain p' e1 where sc: "shutdownClient en tk b n p e = (p', e1)" by force
  have pc': "pc' = StageRun i rec b (cs[?k := (n, p')])"
    using assms True np sc by (simp add: executeStage_def all_done_work)
  consider "level p' < level p" | "level p > 0" "level p' = level p" "limit p' = limit p"
    | "level p = 0" using client_step_level [OF sc] by blast
  then show ?thesis
  proof cases
    case 1
    then have "work (cs[?k := (n, p')]) < work cs" using work_update True np by simp
    then show ?thesis using pc' by (simp add: less_work_def)
  next
    case 2
    have "levels (cs[?k := (n, p')]) = levels cs"
      using True np 2 by (simp add: levels_def map_update list_update_same_conv)
    then show ?thesis using pc' client_step_late [OF sc] 2 np
      by (intro disjI2 exI [of _ "cs[?k := (n, p')]"]) (auto simp: nth_list_update)
  next
    case 3
    then have "p' = p" using sc by (cases p) auto
    then show ?thesis using pc' 3 np True by (intro disjI2 exI [of _ cs]) (auto simp: list_update_same_conv)
  qed
qed

definition done_or :: "PlanConfig \<Rightarrow> (pc \<Rightarrow> bool) \<Rightarrow> daemon \<Rightarrow> bool" where
  "done_or pl R d \<longleftrightarrow> fst d = Idle \<or> runs_at pl R d"

text \<open>
  Rules for following a sequence: it stays at \<open>Q\<close> until a step leads to \<open>R\<close>, and a turn of goroutine
  \<open>k\<close> does.
\<close>

lemma runs_ensures:
  assumes "runs_at pl Q d"
    and "\<And>tk a e pc pc' e'. T \<le> tk_now tk \<Longrightarrow> e_active e = Some a \<Longrightarrow> as_plan a = pl \<Longrightarrow> Q pc \<Longrightarrow>
      seq_step en tk a pc e = (pc', e') \<Longrightarrow> if tk_who tk = k then R pc' else Q pc' \<or> R pc'"
  shows "reaches en T (done_or pl R) d"
proof (rule ensures [where I = "runs_at pl Q" and k = k])
  fix d ev assume d: "runs_at pl Q d" "late T ev"
  have "runs_at pl Q (daemon_step en ev d) \<or> (\<exists>tk. ev = SeqTick tk) \<and>
      (fst (daemon_step en ev d) = Idle \<or> runs_at pl (\<lambda>pc. Q pc \<or> R pc) (daemon_step en ev d))"
    by (rule runs_at_step [OF d]) (metis assms(2))
  then show "runs_at pl Q (daemon_step en ev d) \<or> done_or pl R (daemon_step en ev d)"
    by (auto simp: done_or_def runs_at_def)
next
  fix d and tk :: tick assume d: "runs_at pl Q d" "tk_who tk = k" "T \<le> tk_now tk"
  obtain pc e a where p: "d = (pc, e)" "Q pc" "pc \<noteq> Idle" "e_active e = Some a" "as_plan a = pl" using d(1) by (rule runs_atE)
  obtain pc' e' where s: "seq_step en tk a pc e = (pc', e')" by force
  have "R pc'" using assms(2) [OF d(3) p(4,5,2) s] d(2) by simp
  then show "done_or pl R (daemon_step en (SeqTick tk) d)"
    using seq_step_same [OF p(4,3) s] p s by (auto simp: done_or_def runs_at_def same_as_def)
qed (rule assms(1))

lemma runs_later:
  assumes "runs_at pl Q d"
    and "\<And>tk a e pc pc' e'. T \<le> tk_now tk \<Longrightarrow> e_active e = Some a \<Longrightarrow> as_plan a = pl \<Longrightarrow> Q pc \<Longrightarrow>
      seq_step en tk a pc e = (pc', e') \<Longrightarrow> Q pc' \<or> R pc'"
    and "\<And>d. runs_at pl Q d \<Longrightarrow> reaches en T' (done_or pl R) d"
  shows "reaches en T (done_or pl R) d"
proof (rule reaches_later [where I = "runs_at pl Q"])
  fix d ev assume d: "runs_at pl Q d" "late T ev"
  have "runs_at pl Q (daemon_step en ev d) \<or> (\<exists>tk. ev = SeqTick tk) \<and>
      (fst (daemon_step en ev d) = Idle \<or> runs_at pl (\<lambda>pc. Q pc \<or> R pc) (daemon_step en ev d))"
    by (rule runs_at_step [OF d]) (metis assms(2))
  then show "runs_at pl Q (daemon_step en ev d) \<or> done_or pl R (daemon_step en ev d)"
    by (auto simp: done_or_def runs_at_def)
qed (use assms in blast)+

lemma runs_trans:
  assumes "reaches en T (done_or pl R) d" and "\<And>d'. runs_at pl R d' \<Longrightarrow> reaches en T (done_or pl P) d'"
  shows "reaches en T (done_or pl P) d"
  by (rule reaches_trans [OF assms(1)]) (metis assms(2) done_or_def reaches_now)

lemma levels_nth:
  "levels cs = ls \<Longrightarrow> k < length cs \<Longrightarrow> ls ! k = (level (snd (cs ! k)), limit (snd (cs ! k)))"
  by (auto simp: levels_def case_prod_beta)

lemma levels_length: "levels cs = ls \<Longrightarrow> length ls = length cs"
  by (auto simp: levels_def)

text \<open>One step among the clients of a stage, by the levels.\<close>

lemma levels_step:
  assumes "running i (\<lambda>cs. levels cs = ls \<and> (at_select (snd (cs ! k)) \<longrightarrow> sel)) pc" and "k < length ls" and "fst (ls ! k) > 0"
    and "seq_step en tk a pc e = (pc', e')"
  shows "less_work i (sum_list (map fst ls)) pc' \<or> running i (\<lambda>cs. levels cs = ls) pc' \<and>
    (tk_who tk \<noteq> k \<longrightarrow> running i (\<lambda>cs. at_select (snd (cs ! k)) \<longrightarrow> sel) pc') \<and>
    (tk_who tk = k \<and> snd (ls ! k) \<le> tk_now tk \<longrightarrow> sel \<and> running i (\<lambda>cs. \<not> at_select (snd (cs ! k))) pc')"
proof -
  obtain rec b cs where pc: "pc = StageRun i rec b cs" "levels cs = ls" "at_select (snd (cs ! k)) \<longrightarrow> sel"
    using assms(1) by (auto elim: runningE)
  have k: "k < length cs" using assms(2) levels_length [OF pc(2)] by simp
  have w: "work cs = sum_list (map fst ls)" using pc(2) by (auto simp: work_def levels_def comp_def case_prod_beta)
  have lk: "level (snd (cs ! k)) > 0" "snd (ls ! k) = limit (snd (cs ! k))" using levels_nth [OF pc(2) k] assms(3) by simp_all
  have "fst (ls ! k) \<le> sum_list (map fst ls)" using assms(2) by (metis elem_le_sum_list length_map nth_map)
  then have "work cs > 0" using w assms(3) by simp
  moreover have "executeStage en tk i rec b cs e = (pc', e')" using assms(4) pc(1) by simp
  ultimately have "less_work i (work cs) pc' \<or>
    (\<exists>cs'. pc' = StageRun i rec b cs' \<and> levels cs' = levels cs \<and>
       (\<forall>k < length cs. k \<noteq> tk_who tk \<or> level (snd (cs ! k)) = 0 \<longrightarrow> at_select (snd (cs' ! k)) = at_select (snd (cs ! k))) \<and>
       (\<forall>k < length cs. k = tk_who tk \<and> level (snd (cs ! k)) > 0 \<and> limit (snd (cs ! k)) \<le> tk_now tk \<longrightarrow>
          at_select (snd (cs ! k)) \<and> \<not> at_select (snd (cs' ! k))))" by (rule stage_step [rotated])
  then show ?thesis
  proof (elim disjE exE conjE, goal_cases)
    case 1
    then show ?thesis using w by simp
  next
    case (2 cs')
    have "at_select (snd (cs' ! k)) = at_select (snd (cs ! k))" if "tk_who tk \<noteq> k" using 2(3) k that by metis
    moreover have "at_select (snd (cs ! k)) \<and> \<not> at_select (snd (cs' ! k))" if "tk_who tk = k" "limit (snd (cs ! k)) \<le> tk_now tk"
      using 2(4) k lk(1) that by metis
    ultimately show ?thesis using 2(1,2) pc(2,3) lk(2) by auto
  qed
qed

lemma stage_works:
  assumes "runs_at pl (running i (\<lambda>cs. levels cs = ls)) d" and "k < length ls" and "fst (ls ! k) > 0"
  shows "reaches en T (done_or pl (less_work i (sum_list (map fst ls)))) d"
proof -
  let ?R = "less_work i (sum_list (map fst ls))" and ?T' = "max T (snd (ls ! k))"
  let ?Q = "running i (\<lambda>cs. levels cs = ls)" and ?S = "\<lambda>sel. running i (\<lambda>cs. levels cs = ls \<and> (at_select (snd (cs ! k)) \<longrightarrow> sel))"
  have Q: "?Q = ?S True" by simp
  have both: "?S False pc'" if "?Q pc'" "running i (\<lambda>cs. \<not> at_select (snd (cs ! k))) pc'" for pc'
    using that by (cases pc') auto
  have keep: "?S False pc'" if "?Q pc'" "running i (\<lambda>cs. at_select (snd (cs ! k)) \<longrightarrow> False) pc'" for pc'
    using that by (cases pc') auto
  have off: "reaches en ?T' (done_or pl ?R) d" if "runs_at pl (?S False) d" for d
    by (rule runs_ensures [OF that, where k = k]) (use levels_step [OF _ assms(2,3)] keep in fastforce)
  have on: "reaches en ?T' (done_or pl (\<lambda>pc. ?S False pc \<or> ?R pc)) d" if "runs_at pl ?Q d" for d
    by (rule runs_ensures [OF that, where k = k]) (use levels_step [where sel = True, OF _ assms(2,3)] both in fastforce)
  have late: "reaches en ?T' (done_or pl ?R) d" if "runs_at pl ?Q d" for d
    by (rule runs_trans [OF on [OF that]]) (metis (no_types, lifting) off runs_at_def reaches_now done_or_def)
  show ?thesis
    by (rule runs_later [OF assms(1) _ late]) (use levels_step [where sel = True, OF _ assms(2,3)] in fastforce)
qed

lemma stage_finishes:
  assumes "runs_at pl (running i (\<lambda>_. True)) d"
  shows "reaches en T (done_or pl (\<lambda>pc. pc = StageLoop (Suc i))) d"
proof -
  have "reaches en T (done_or pl (\<lambda>pc. pc = StageLoop (Suc i))) d" if "runs_at pl (running i (\<lambda>cs. work cs = w)) d" for w d
    using that
  proof (induction w arbitrary: d rule: less_induct)
    case (less w)
    obtain pc e a where d: "d = (pc, e)" "running i (\<lambda>cs. work cs = w) pc" "pc \<noteq> Idle" "e_active e = Some a" "as_plan a = pl"
      using less.prems by (rule runs_atE)
    obtain rec b cs where cs: "pc = StageRun i rec b cs" "work cs = w" using d(2) by (rule runningE)
    show ?case
    proof (cases "w = 0")
      case True
      show ?thesis
      proof (rule runs_ensures [OF less.prems, where k = 0])
        fix tk a e pc pc' e'
        assume "running i (\<lambda>cs. work cs = w) pc" "seq_step en tk a pc e = (pc', e')"
        then have "pc' = StageLoop (Suc i)" using True by (auto elim!: runningE simp: executeStage_def all_done_work)
        then show "if tk_who tk = 0 then pc' = StageLoop (Suc i) else running i (\<lambda>cs. work cs = w) pc' \<or> pc' = StageLoop (Suc i)"
          by simp
      qed
    next
      case False
      have w: "w = sum_list (map fst (levels cs))" using cs(2) by (auto simp: work_def levels_def comp_def case_prod_beta)
      then have "\<exists>x \<in> set (levels cs). fst x > 0" using False by (metis gr0I imageE list.set_map sum_list_eq_0_iff)
      then obtain k where k: "k < length (levels cs)" "fst (levels cs ! k) > 0" by (metis in_set_conv_nth)
      have "runs_at pl (running i (\<lambda>cs'. levels cs' = levels cs)) d" using d cs by (simp add: runs_at_def)
      from stage_works [OF this k] have "reaches en T (done_or pl (less_work i w)) d" using w by simp
      then show ?thesis
      proof (rule runs_trans)
        fix d' assume d': "runs_at pl (less_work i w) d'"
        then consider "runs_at pl (\<lambda>pc. pc = StageLoop (Suc i)) d'" | w' where "w' < w" "runs_at pl (running i (\<lambda>cs. work cs = w')) d'"
          by (auto simp: runs_at_def less_work_def elim!: runningE)
        then show "reaches en T (done_or pl (\<lambda>pc. pc = StageLoop (Suc i))) d'"
          by cases (simp add: reaches_now done_or_def, metis less.IH)
      qed
    qed
  qed
  moreover obtain w where "runs_at pl (running i (\<lambda>cs. work cs = w)) d"
    using assms by (auto simp: runs_at_def elim!: runningE)
  ultimately show ?thesis by blast
qed

section \<open>The shutdown reaches the wake gate\<close>

lemma runs_next:
  assumes "runs_at pl Q d"
    and "\<And>tk a e pc pc' e'. T \<le> tk_now tk \<Longrightarrow> e_active e = Some a \<Longrightarrow> as_plan a = pl \<Longrightarrow> Q pc \<Longrightarrow>
      seq_step en tk a pc e = (pc', e') \<Longrightarrow> R pc'"
  shows "reaches en T (done_or pl R) d"
  by (rule runs_ensures [OF assms(1), where k = 0]) (metis assms(2))

lemma runs_deadline:
  assumes "runs_at pl Q d"
    and "\<And>tk a e pc pc' e'. T \<le> tk_now tk \<Longrightarrow> e_active e = Some a \<Longrightarrow> as_plan a = pl \<Longrightarrow> Q pc \<Longrightarrow>
      seq_step en tk a pc e = (pc', e') \<Longrightarrow> R pc' \<or> Q pc' \<and> tk_now tk < dl"
  shows "reaches en T (done_or pl R) d"
proof (rule runs_later [OF assms(1), where T' = "max T dl"])
  fix d assume "runs_at pl Q d"
  then show "reaches en (max T dl) (done_or pl R) d" by (rule runs_next) (use assms(2) in fastforce)
qed (use assms(2) in blast)

lemma runs_disj:
  "runs_at pl (\<lambda>pc. A pc \<or> B pc) d \<longleftrightarrow> runs_at pl A d \<or> runs_at pl B d"
  "runs_at pl (\<lambda>pc. \<exists>x. C x pc) d \<longleftrightarrow> (\<exists>x. runs_at pl (C x) d)"
  by (auto simp: runs_at_def)

lemma runs_now: "runs_at pl R d \<Longrightarrow> reaches en T (done_or pl R) d"
  by (simp add: reaches_now done_or_def)

abbreviation at_gate :: "pc \<Rightarrow> bool" where
  "at_gate pc \<equiv> pc = Gate"

lemma to_gate_pc [simp]: "fst (to_gate tk e) = Gate" "fst (finish_post tk e) = Gate"
  by (simp_all add: to_gate_def finish_post_def)

lemma to_gateD: "to_gate tk e = (pc, e') \<Longrightarrow> pc = Gate" "finish_post tk e = (pc, e') \<Longrightarrow> pc = Gate"
  by (simp_all add: to_gate_def finish_post_def)

lemma settle_step:
  assumes "waitForShuttingDown en tk cs dl e = (pc', e')"
  shows "pc' = Gate \<or> cs \<noteq> [] \<and> (pc' = Settle (tl cs) None \<or>
    (case dl of None \<Rightarrow> \<exists>d. pc' = Settle cs (Some d) | Some d \<Rightarrow> pc' = Settle cs (Some d) \<and> tk_now tk < d))"
  using assms by (auto simp: waitForShuttingDown_def dest: to_gateD split: list.splits option.splits if_splits)

lemma settle_ends: "runs_at pl (\<lambda>pc. pc = Settle cs dl) d \<Longrightarrow> reaches en T (done_or pl at_gate) d"
proof (induction cs arbitrary: dl d)
  case Nil
  then show ?case by (rule runs_next) (auto dest: settle_step)
next
  case (Cons c cs)
  have some: "reaches en T (done_or pl at_gate) d" if "runs_at pl (\<lambda>pc. pc = Settle (c # cs) (Some t)) d" for t d
  proof (rule runs_trans)
    show "reaches en T (done_or pl (\<lambda>pc. pc = Gate \<or> pc = Settle cs None)) d"
      by (rule runs_deadline [OF that, where dl = t]) (auto dest!: settle_step)
    show "reaches en T (done_or pl at_gate) d'" if "runs_at pl (\<lambda>pc. pc = Gate \<or> pc = Settle cs None) d'" for d'
      using that Cons.IH [of None d'] by (auto simp: runs_disj intro: runs_now)
  qed
  show ?case
  proof (cases dl)
    case None
    show ?thesis
    proof (rule runs_trans)
      show "reaches en T (done_or pl (\<lambda>pc. pc = Gate \<or> pc = Settle cs None \<or> (\<exists>t. pc = Settle (c # cs) (Some t)))) d"
        by (rule runs_next [OF Cons.prems]) (use None in \<open>auto dest!: settle_step\<close>)
      show "reaches en T (done_or pl at_gate) d'"
        if "runs_at pl (\<lambda>pc. pc = Gate \<or> pc = Settle cs None \<or> (\<exists>t. pc = Settle (c # cs) (Some t))) d'" for d'
        using that Cons.IH [of None d'] some [of _ d'] by (auto simp: runs_disj intro: runs_now)
    qed
  next
    case (Some t)
    then show ?thesis using some Cons.prems by simp
  qed
qed

fun settling :: "pc \<Rightarrow> bool" where
  "settling (Settle _ _) = True"
| "settling PostExec = True"
| "settling Gate = True"
| "settling _ = False"

lemma settling_ends: "runs_at pl settling d \<Longrightarrow> reaches en T (done_or pl at_gate) d"
proof -
  assume d: "runs_at pl settling d"
  then consider cs dl where "runs_at pl (\<lambda>pc. pc = Settle cs dl) d" | "runs_at pl (\<lambda>pc. pc = PostExec) d" | "fst d = Gate"
    by (cases "fst d") (auto simp: runs_at_def)
  then show ?thesis
  proof cases
    case 2
    then show ?thesis by (rule runs_next) (auto dest: to_gateD)
  qed (use d settle_ends in \<open>auto intro!: reaches_now simp: done_or_def runs_at_def\<close>)
qed

lemma settling_steps:
  "handleAbort en tk a e = (pc, e') \<Longrightarrow> settling pc" "after_stages en tk a e = (pc, e') \<Longrightarrow> settling pc"
  by (auto simp: handleAbort_def after_stages_def Let_def dest: to_gateD split: option.splits prod.splits bool.splits)

lemma stage_loop_step:
  assumes "runShutdownStages en tk a i e = (pc', e')"
  shows "settling pc' \<or> i < length (stages_of (as_plan a)) \<and> (\<exists>dl. pc' = StageWait i dl)"
  using assms by (auto simp: runShutdownStages_def stages_of_def Let_def dest: settling_steps split: if_splits prod.splits bool.splits)

lemma stage_wait_step:
  assumes "waitForStage en tk a stage i dl e = (pc', e')"
  shows "pc' = Idle \<or> settling pc' \<or> running i (\<lambda>_. True) pc' \<or>
    (if sg_WaitPolicy stage = WaitPolicyHold then pc' = StageLoop i else pc' = StageLoop (Suc i)) \<or> pc' = StageWait i dl \<and> tk_now tk < dl"
  using assms by (auto simp: waitForStage_def enter_stage_def start_stage_def handleStageTimeout_def Let_def WaitPolicySkip_def
      WaitPolicyHold_def dest: settling_steps split: if_splits prod.splits bool.splits)

text \<open>A held stage is left, when it is not held for good.\<close>

lemma hold_ends:
  assumes "held_at pl i d"
  shows "reaches en T (done_or pl (\<lambda>pc. settling pc \<or> running i (\<lambda>_. True) pc)) d"
  unfolding reaches_def
proof (intro allI impI)
  let ?P = "done_or pl (\<lambda>pc. settling pc \<or> running i (\<lambda>_. True) pc)"
  fix evs assume f: "fair_from T evs" and rl: "released en evs d"
  have i: "i < length (stages_of pl)" "sg_WaitPolicy (stages_of pl ! i) = WaitPolicyHold" using assms by (simp_all add: held_at_def)
  show "\<exists>n. ?P (trace en evs d n)"
  proof (rule ccontr)
    assume no: "\<nexists>n. ?P (trace en evs d n)"
    have keep: "held_at pl i (daemon_step en ev x) \<or> ?P (daemon_step en ev x)" if h: "held_at pl i x" and l: "late T ev" for x ev
    proof -
      let ?Q = "\<lambda>pc. pc = StageLoop i \<or> (\<exists>dl. pc = StageWait i dl)"
      have r: "runs_at pl ?Q x" using h by (simp add: held_at_def)
      have "runs_at pl ?Q (daemon_step en ev x) \<or> (\<exists>tk. ev = SeqTick tk) \<and> (fst (daemon_step en ev x) = Idle \<or>
          runs_at pl (\<lambda>pc. pc = Idle \<or> ?Q pc \<or> settling pc \<or> running i (\<lambda>_. True) pc) (daemon_step en ev x))"
      proof (rule runs_at_step [OF r l])
        fix tk a e pc' e'
        assume a: "as_plan a = pl" "?Q (fst x)" "seq_step en tk a (fst x) e = (pc', e')"
        then consider "runShutdownStages en tk a i e = (pc', e')" | dl where "waitForStage en tk a (stages_of pl ! i) i dl e = (pc', e')"
          by (auto simp: stage_at_def stages_of_def)
        then show "pc' = Idle \<or> ?Q pc' \<or> settling pc' \<or> running i (\<lambda>_. True) pc'"
        proof cases
          case 1
          then show ?thesis by (auto dest!: stage_loop_step)
        next
          case 2
          then show ?thesis using stage_wait_step [OF 2] i(2) by auto
        qed
      qed
      then show ?thesis using i by (auto simp: held_at_def done_or_def runs_at_def)
    qed
    have "held_at pl i (trace en evs d n)" for n
      using until_trace [where I = "held_at pl i" and P = ?P, OF assms keep _ no] f by (simp add: fair_from_def)
    then show False using rl unfolding released_def by blast
  qed
qed

lemma stages_end:
  shows "runs_at pl (\<lambda>pc. pc = StageLoop i) d \<Longrightarrow> reaches en T (done_or pl at_gate) d"
    and "runs_at pl (\<lambda>pc. pc = StageWait i dl) d \<Longrightarrow> i < length (stages_of pl) \<Longrightarrow> reaches en T (done_or pl at_gate) d"
    and "runs_at pl (running i (\<lambda>_. True)) d \<Longrightarrow> reaches en T (done_or pl at_gate) d"
proof -
  have next_stage: "reaches en T (done_or pl at_gate) d'"
    if loop: "\<And>d. runs_at pl (\<lambda>pc. pc = StageLoop (Suc i)) d \<Longrightarrow> reaches en T (done_or pl at_gate) d"
      and d': "runs_at pl (\<lambda>pc. pc = Idle \<or> settling pc \<or> pc = StageLoop (Suc i) \<or> running i (\<lambda>_. True) pc) d'" for i d'
  proof -
    consider "fst d' = Idle" | "runs_at pl settling d'" | "runs_at pl (\<lambda>pc. pc = StageLoop (Suc i)) d'"
      | "runs_at pl (running i (\<lambda>_. True)) d'" using d' by (auto simp: runs_disj runs_at_def)
    then show ?thesis
    proof cases
      case 4
      then show ?thesis using runs_trans [OF stage_finishes loop] by blast
    qed (use settling_ends loop in \<open>auto simp: done_or_def intro: reaches_now\<close>)
  qed
  have wait: "reaches en T (done_or pl at_gate) d"
    if loop: "\<And>d. runs_at pl (\<lambda>pc. pc = StageLoop (Suc i)) d \<Longrightarrow> reaches en T (done_or pl at_gate) d"
      and d: "runs_at pl (\<lambda>pc. pc = StageWait i dl) d" and i: "i < length (stages_of pl)" for i dl d
  proof (cases "sg_WaitPolicy (stages_of pl ! i) = WaitPolicyHold")
    case True
    have "held_at pl i d" using True d i by (auto simp: held_at_def runs_at_def)
    from hold_ends [OF this] show ?thesis
      by (rule runs_trans) (rule next_stage [OF loop], auto simp: runs_at_def)
  next
    case pol: False
    show ?thesis
    proof (rule runs_trans)
      show "reaches en T (done_or pl (\<lambda>pc. pc = Idle \<or> settling pc \<or> pc = StageLoop (Suc i) \<or> running i (\<lambda>_. True) pc)) d"
      proof (rule runs_deadline [OF d, where dl = dl])
        fix tk a e pc pc' e'
        assume "as_plan a = pl" "pc = StageWait i dl" "seq_step en tk a pc e = (pc', e')"
        then have "waitForStage en tk a (stages_of pl ! i) i dl e = (pc', e')" by (simp add: stage_at_def stages_of_def)
        from stage_wait_step [OF this] pol
        show "(pc' = Idle \<or> settling pc' \<or> pc' = StageLoop (Suc i) \<or> running i (\<lambda>_. True) pc') \<or> pc' = StageWait i dl \<and> tk_now tk < dl"
          by auto
      qed
    qed (rule next_stage [OF loop])
  qed
  have loop: "reaches en T (done_or pl at_gate) d" if "runs_at pl (\<lambda>pc. pc = StageLoop i) d" for i d
    using that
  proof (induction "length (stages_of pl) - i" arbitrary: i d rule: less_induct)
    case less
    have "reaches en T (done_or pl (\<lambda>pc. settling pc \<or> (\<exists>dl. pc = StageWait i dl \<and> i < length (stages_of pl)))) d"
      by (rule runs_next [OF less.prems]) (auto dest!: stage_loop_step)
    then show ?case
    proof (rule runs_trans)
      fix d' assume d': "runs_at pl (\<lambda>pc. settling pc \<or> (\<exists>dl. pc = StageWait i dl \<and> i < length (stages_of pl))) d'"
      then consider "runs_at pl settling d'" | dl where "runs_at pl (\<lambda>pc. pc = StageWait i dl) d'" "i < length (stages_of pl)"
        by (auto simp: runs_at_def)
      then show "reaches en T (done_or pl at_gate) d'"
      proof cases
        case 2
        show ?thesis by (rule wait [OF less.hyps 2]) (use 2 in auto)
      qed (rule settling_ends)
    qed
  qed
  show "runs_at pl (\<lambda>pc. pc = StageLoop i) d \<Longrightarrow> reaches en T (done_or pl at_gate) d" by (rule loop)
  show "runs_at pl (\<lambda>pc. pc = StageWait i dl) d \<Longrightarrow> i < length (stages_of pl) \<Longrightarrow> reaches en T (done_or pl at_gate) d"
    by (rule wait [OF loop])
  show "runs_at pl (running i (\<lambda>_. True)) d \<Longrightarrow> reaches en T (done_or pl at_gate) d"
    by (rule runs_trans [OF stage_finishes loop])
qed

fun before_gate :: "pc \<Rightarrow> bool" where
  "before_gate Executing = True"
| "before_gate Resuming = True"
| "before_gate (StageLoop _) = True"
| "before_gate (StageWait _ _) = True"
| "before_gate (StageRun _ _ _ _) = True"
| "before_gate (Settle _ _) = True"
| "before_gate PostExec = True"
| "before_gate _ = False"

text \<open>Before the gate a sequence ends only with the daemon.\<close>

lemma settling_before_gate: "settling pc \<Longrightarrow> before_gate pc \<or> pc = Gate"
  by (cases pc) auto

lemma enter_before_gate: "enter_stage en tk stage i x = (pc, x') \<Longrightarrow> before_gate pc"
  by (auto simp: enter_stage_def start_stage_def Let_def)

lemma before_gate_seq_step:
  assumes "seq_step en tk a pc e = (pc', e')" and "before_gate pc"
  shows "before_gate pc' \<or> pc' = Gate \<or> pc' = Idle \<and> e_cancelled e'"
proof (cases pc)
  case (StageWait i dl)
  then show ?thesis using assms(1)
    by (auto simp: waitForStage_def dest!: settling_steps(1) settling_before_gate dest: enter_before_gate
        split: if_splits prod.splits bool.splits)
next
  case (StageLoop i)
  then show ?thesis using assms(1) stage_loop_step [of en tk a i e pc' e'] settling_before_gate by auto
next
  case (Settle cs dl)
  then show ?thesis using assms(1) settle_step [of en tk cs dl e pc' e'] by (auto split: option.splits)
qed (use assms in \<open>auto simp: executeSequence_def resumeSequence_def executeStage_def Let_def dest: to_gateD
    split: prod.splits if_splits\<close>)

lemma before_gate_step:
  assumes "daemon_step en ev (pc, e) = (pc', e')" and "before_gate pc" and "e_active e = Some a" and "\<not> is_restart ev"
  shows "before_gate pc' \<and> e_active e' \<noteq> None \<or> pc' = Gate \<or> pc' = Idle \<and> e_cancelled e'"
proof (cases "\<exists>tk. ev = SeqTick tk")
  case True
  then obtain tk where s: "seq_step en tk a pc e = (pc', e')" using assms(1,3) by auto
  have "pc \<noteq> Idle" using assms(2) by auto
  from seq_step_same [OF assms(3) this s] before_gate_seq_step [OF s assms(2)] show ?thesis
    by (cases "pc' = Idle") (auto simp: same_as_def)
next
  case False
  from running_other_event [OF assms(3,4) False assms(1)] assms(2) show ?thesis by auto
qed

lemma before_gate_trace:
  assumes "before_gate (fst d)" and "e_active (snd d) = Some a" and "\<forall>n. late T (evs n)"
    and "\<nexists>n. fst (trace en evs d n) = Gate \<or> fst (trace en evs d n) = Idle \<and> e_cancelled (snd (trace en evs d n))"
  shows "runs_at (as_plan a) before_gate (trace en evs d n)"
proof (induction n)
  case 0
  show ?case using assms(1,2) by (auto simp: runs_at_def)
next
  case (Suc n)
  obtain pc e a' where d: "trace en evs d n = (pc, e)" "before_gate pc" "pc \<noteq> Idle" "e_active e = Some a'" "as_plan a' = as_plan a"
    using Suc by (rule runs_atE)
  obtain pc' e' where s: "daemon_step en (evs n) (pc, e) = (pc', e')" by force
  have nr: "\<not> is_restart (evs n)" using assms(3) by (simp add: late_def)
  have "trace en evs d (Suc n) = (pc', e')" using d(1) s by simp
  then have "before_gate pc'" using before_gate_step [OF s d(2,4) nr] assms(4) by (metis fst_conv snd_conv)
  then show ?case using step_running [OF d(4,3) nr s] d(1,5) s by (auto simp: runs_at_def same_sequence_def)
qed

text \<open>At a stage that is held for good nothing lets it go on.\<close>

lemma held_looks:
  assumes "e_active e = Some a" and "fst (waitForStage en tk a stage i dl e) \<in> {StageLoop i, StageWait i dl}"
  shows "fst (Evaluate (en_rt en) (e_store e) (tk_now tk) (sg_When stage) (e_evaluator e)) \<noteq> TTrue \<and> \<not> as_proceedRequested a"
  using assms by (auto simp: waitForStage_def eval_cond_def enter_stage_def start_stage_def ConsumeProceed_def Let_def
      split: prod.splits bool.splits if_splits)

text \<open>
  C16. A shutdown comes to its wake gate. In a run in which every goroutine gets its turn again and again and
  time moves on, a sequence before the gate reaches it, whatever the transports and probes answer, the
  conditions evaluate to, the database refuses and the operator asks for, with two exceptions: the daemon is
  stopped, or the sequence is at a stage of \<open>wait_policy: hold\<close> for ever, and then its condition is not true and
  no request to proceed is there at any turn at which it looks.
\<close>

theorem shutdown_reaches_gate:
  assumes "reachable en (pc, e)" and "e_active e = Some a" and "before_gate pc" and "fair_from T evs"
  shows "(\<exists>n pc' e'. run en (map evs [0..<n]) (pc, e) = (pc', e') \<and> (pc' = Gate \<or> pc' = Idle \<and> e_cancelled e')) \<or>
    (\<exists>i n. i < length (sh_Stages (pl_Shutdown (as_plan a))) \<and> sg_WaitPolicy (stage_at a i) = WaitPolicyHold \<and>
       (\<forall>m\<ge>n. \<exists>pc' e' a'. run en (map evs [0..<m]) (pc, e) = (pc', e') \<and> e_active e' = Some a' \<and>
          (pc' = StageLoop i \<or> (\<exists>dl. pc' = StageWait i dl \<and> (\<forall>tk. evs m = SeqTick tk \<longrightarrow>
             fst (Evaluate (en_rt en) (e_store e') (tk_now tk) (sg_When (stage_at a i)) (e_evaluator e')) \<noteq> TTrue \<and>
             \<not> as_proceedRequested a')))))"
proof (rule disj_imp [THEN iffD2, OF impI])
  let ?pl = "as_plan a" and ?d = "(pc, e)"
  assume "\<nexists>n pc' e'. run en (map evs [0..<n]) ?d = (pc', e') \<and> (pc' = Gate \<or> pc' = Idle \<and> e_cancelled e')"
  then have no: "\<nexists>n. fst (trace en evs ?d n) = Gate \<or> fst (trace en evs ?d n) = Idle \<and> e_cancelled (snd (trace en evs ?d n))"
    unfolding trace_def by (metis prod.collapse)
  have lt: "\<forall>n. late T (evs n)" using assms(4) by (simp add: fair_from_def)
  have runs: "runs_at ?pl before_gate (trace en evs ?d n)" for n
    by (rule before_gate_trace [OF _ _ lt no]) (use assms(2,3) in auto)
  have at: "runs_at ?pl (\<lambda>x. x = pc) ?d" using assms(2,3) by (auto simp: runs_at_def)
  have start: "reaches en T (done_or ?pl at_gate) ?d"
    if "\<And>tk b x pc' x'. seq_step en tk b pc x = (pc', x') \<Longrightarrow> settling pc' \<or> (\<exists>i. pc' = StageLoop i)"
  proof (rule runs_trans)
    show "reaches en T (done_or ?pl (\<lambda>pc'. settling pc' \<or> (\<exists>i. pc' = StageLoop i))) ?d"
      by (rule runs_next [OF at]) (metis that)
    show "reaches en T (done_or ?pl at_gate) d'" if "runs_at ?pl (\<lambda>pc'. settling pc' \<or> (\<exists>i. pc' = StageLoop i)) d'" for d'
      using that unfolding runs_disj by (elim disjE exE) (erule settling_ends, erule stages_end(1))
  qed
  have "reaches en T (done_or ?pl at_gate) ?d"
  proof (cases pc)
    case (StageWait i dl)
    have "i < length (stages_of ?pl)"
      using waits_in_plan_reachable [OF assms(1)] StageWait assms(2) by (simp add: waits_in_plan_def stages_of_def)
    then show ?thesis using stages_end(2) at StageWait by simp
  next
    case Executing
    show ?thesis by (rule start) (auto simp: Executing executeSequence_def split: prod.splits)
  next
    case Resuming
    show ?thesis by (rule start) (auto simp: Resuming resumeSequence_def Let_def split: if_splits)
  qed (use assms(3) at stages_end(1,3) settling_ends in \<open>auto simp: runs_at_def\<close>)
  then have "\<not> released en evs ?d"
    using assms(4) no runs unfolding reaches_def done_or_def runs_at_def by metis
  then obtain pl i n where h: "\<forall>m\<ge>n. held_at pl i (trace en evs ?d m)" unfolding released_def by blast
  have pl: "pl = ?pl" using h runs [of n] by (auto simp: held_at_def runs_at_def)
  have i: "i < length (sh_Stages (pl_Shutdown ?pl))" "sg_WaitPolicy (stage_at a i) = WaitPolicyHold"
    using h pl by (auto simp: held_at_def stages_of_def stage_at_def)
  have "\<exists>pc' e' a'. run en (map evs [0..<m]) ?d = (pc', e') \<and> e_active e' = Some a' \<and>
      (pc' = StageLoop i \<or> (\<exists>dl. pc' = StageWait i dl \<and> (\<forall>tk. evs m = SeqTick tk \<longrightarrow>
         fst (Evaluate (en_rt en) (e_store e') (tk_now tk) (sg_When (stage_at a i)) (e_evaluator e')) \<noteq> TTrue \<and>
         \<not> as_proceedRequested a')))" if m: "n \<le> m" for m
  proof -
    have "runs_at ?pl (\<lambda>pc. pc = StageLoop i \<or> (\<exists>dl. pc = StageWait i dl)) (trace en evs ?d m)"
      using h m pl by (auto simp: held_at_def)
    then obtain pc' e' a' where d: "trace en evs ?d m = (pc', e')" "pc' = StageLoop i \<or> (\<exists>dl. pc' = StageWait i dl)"
      "e_active e' = Some a'" "as_plan a' = ?pl" by (auto elim: runs_atE)
    have "fst (Evaluate (en_rt en) (e_store e') (tk_now tk) (sg_When (stage_at a i)) (e_evaluator e')) \<noteq> TTrue \<and>
        \<not> as_proceedRequested a'" if w: "pc' = StageWait i dl" and tk: "evs m = SeqTick tk" for dl tk
    proof -
      have st: "stage_at a' i = stage_at a i" using d(4) by (simp add: stage_at_def)
      obtain pc2 e2 where s: "waitForStage en tk a' (stage_at a i) i dl e' = (pc2, e2)" by force
      have "trace en evs ?d (Suc m) = (pc2, e2)" using d w tk s st by simp
      moreover have "held_at pl i (trace en evs ?d (Suc m))" using h m by (simp del: trace_Suc)
      ultimately have "pc2 = StageLoop i \<or> (\<exists>dl'. pc2 = StageWait i dl')" by (auto simp: held_at_def runs_at_def)
      moreover have "pc2 = StageWait i dl" if "pc2 = StageWait i dl'" for dl'
        using stage_wait_step [OF s] that by (auto split: if_splits)
      ultimately show ?thesis using held_looks [OF d(3), of en tk "stage_at a i" i dl] s by auto
    qed
    then show ?thesis using d unfolding trace_def by blast
  qed
  then show "\<exists>i n. i < length (sh_Stages (pl_Shutdown ?pl)) \<and> sg_WaitPolicy (stage_at a i) = WaitPolicyHold \<and>
       (\<forall>m\<ge>n. \<exists>pc' e' a'. run en (map evs [0..<m]) ?d = (pc', e') \<and> e_active e' = Some a' \<and>
          (pc' = StageLoop i \<or> (\<exists>dl. pc' = StageWait i dl \<and> (\<forall>tk. evs m = SeqTick tk \<longrightarrow>
             fst (Evaluate (en_rt en) (e_store e') (tk_now tk) (sg_When (stage_at a i)) (e_evaluator e')) \<noteq> TTrue \<and>
             \<not> as_proceedRequested a'))))" using i by blast
qed

end
