(* ===== verification/Example_Runs.thy ===== *)
theory Example_Runs
  imports Examples Recovery Completion Policy Wake_Safety Progress "HOL-Library.Countable"
begin

text \<open>
  Runs of the daemon on the small installation of \<open>Examples\<close>, with the durations left at their
  defaults: the battery is low, the server and then the storage box are shut down, and both are woken.
  The theorems about the running daemon are applied to the states of these runs.
\<close>

section \<open>The daemon\<close>

definition quick_client :: "string \<Rightarrow> ClientConfig" where
  "quick_client name = (demo_client name [])\<lparr>cl_Feeds := [], cl_Tags := [], cl_ShutdownBudget := [], cl_GuardPeriod := []\<rparr>"

definition quick_stage :: "string \<Rightarrow> StageConfig" where
  "quick_stage name = (demo_stage name True)\<lparr>sg_Budget := [], sg_WaitTimeout := []\<rparr>"

definition quick_plan :: PlanConfig where
  "quick_plan = demo_plan
     \<lparr>pl_Trigger := literal_cond ''true'', pl_Shutdown := \<lparr>sh_PostShutdown = None, sh_Stages = [quick_stage ''a'']\<rparr>,
      pl_Wake := (pl_Wake demo_plan)\<lparr>wk_Stagger := [], wk_ProbeInterval := [], wk_BootDeadline := []\<rparr>\<rparr>"

definition quick_cfg :: Config where
  "quick_cfg = demo_cfg\<lparr>cf_Clients := [quick_client ''a''], cf_Plans := [quick_plan]\<rparr>"

definition demo_ssh :: Transport where
  "demo_ssh = \<lparr>tr_Capabilities = [ActionShutdown, ActionProbe], tr_Remap = id, tr_Discovers = False\<rparr>"

definition demo_env :: "Config \<Rightarrow> engine_env" where
  "demo_env cfg =
     \<lparr>en_cfg = cfg, en_transports = [''ssh'' \<mapsto> demo_ssh, ''nut'' \<mapsto> demo_ssh], en_timings = DefaultTimings, en_rt = demo_rt,
      en_lt = (<), en_snapshot = (\<lambda>_. None)\<rparr>"

definition demo_world :: mac_world where
  "demo_world = \<lparr>mw_device = (\<lambda>_. None), mw_neighbour = (\<lambda>_. []), mw_literal = (\<lambda>_. True), mw_resolve = (\<lambda>_. [])\<rparr>"

definition demo_tick :: "instant \<Rightarrow> tick" where
  "demo_tick now =
     \<lparr>tk_now = now, tk_ok = True, tk_exec = ExecAnswer True [], tk_probe = (\<lambda>_. Some StateDown),
      tk_mac = demo_world, tk_who = 0, tk_timer = True\<rparr>"

definition demo_boot :: "Config \<Rightarrow> daemon" where
  "demo_boot cfg = boot (demo_env cfg) empty_db Map.empty NewStore [] True 0"

text \<open>The state after the policy tick and \<open>n\<close> steps of the sequence.\<close>

definition steps :: "nat \<Rightarrow> event list" where
  "steps n = map (\<lambda>i. SeqTick (demo_tick (int i + 2))) [0..<n]"

abbreviation quick_env :: engine_env where
  "quick_env \<equiv> demo_env quick_cfg"

definition after :: "nat \<Rightarrow> daemon" where
  "after n = run quick_env (PolicyTick 1 # steps n) (demo_boot quick_cfg)"

lemma after_reachable: "reachable quick_env (after n)"
  unfolding after_def demo_boot_def by (rule run_reachable, rule reachable.boot)

lemma after_Suc: "after (Suc n) = daemon_step quick_env (SeqTick (demo_tick (int n + 2))) (after n)"
  by (simp add: after_def steps_def run_def)

fun at_exec :: "pc \<Rightarrow> bool" where
  "at_exec (StageRun i _ _ [(n, CExec _ _ _)]) \<longleftrightarrow> i = 0 \<and> n = ''a''"
| "at_exec _ = False"

fun stage_begun :: "pc \<Rightarrow> bool" where
  "stage_begun (StageRun i _ _ [(n, CStart)]) \<longleftrightarrow> i = 0 \<and> n = ''a''"
| "stage_begun _ = False"

definition clean :: "effect list \<Rightarrow> bool" where
  "clean fx \<longleftrightarrow> list_all (\<lambda>x. case x of DBError \<Rightarrow> False | _ \<Rightarrow> True) fx"

lemma after_2: "\<not> in_stage_run (fst (after 2))" by code_simp

lemma after_3:
  "stage_begun (fst (after 3)) \<and> (case e_active (snd (after 3)) of None \<Rightarrow> False
     | Some a \<Rightarrow> list_all (\<lambda>s. sg_WaitPolicy s \<noteq> WaitPolicyHold) (sh_Stages (pl_Shutdown (as_plan a))))"
  by code_simp

lemma after_6:
  "at_exec (fst (after 6)) \<and> clean (e_log (snd (after 6))) \<and>
   (case e_active (snd (after 6)) of None \<Rightarrow> False | Some a \<Rightarrow> sq_PonrCrossed (as_seq a))"
  by code_simp

lemma after_6_at: obtains rec budget t0 it ctx where "fst (after 6) = StageRun 0 rec budget [(''a'', CExec t0 it ctx)]"
  using after_6 by (cases "fst (after 6)" rule: at_exec.cases) auto

lemma after_6_reachable:
  "fst (after 6) = pc \<Longrightarrow> reachable quick_env (pc, snd (after 6))"
  using after_reachable [of 6] by auto

lemma after_6_clean: "DBError \<notin> set (e_log (snd (after 6)))"
  using after_6 by (auto simp: clean_def list_all_iff)

text \<open>An executor with a sequence in its slot.\<close>

definition demo_active :: "string \<Rightarrow> ActiveSequence" where
  "demo_active st = newActiveSequence (demo_sequence ''s'' st 1) quick_plan"

definition demo_crossed :: ActiveSequence where
  "demo_crossed = (demo_active ''shutting_down'')\<lparr>as_seq := (demo_sequence ''s'' ''shutting_down'' 1)\<lparr>sq_PonrCrossed := True\<rparr>\<rparr>"

definition with_active :: "ActiveSequence \<Rightarrow> Executor" where
  "with_active a = (NewExecutor quick_env NewStore NewEvaluator empty_db)\<lparr>e_active := Some a\<rparr>"

lemma with_active_simps [simp]:
  "e_active (with_active a) = Some a" "e_cancelled (with_active a) = False" "e_clientStates (with_active a) = Map.empty"
  "e_db (with_active a) = empty_db" "e_log (with_active a) = []"
  by (simp_all add: with_active_def NewExecutor_def)

lemma demo_active_simps [simp]:
  "as_seq (demo_active st) = demo_sequence ''s'' st 1" "as_plan (demo_active st) = quick_plan"
  "as_abortRequested (demo_active st) = False" "sq_State (demo_sequence q st t) = st" "sq_ID (demo_sequence q st t) = q"
  "sq_Aborted (demo_sequence q st t) = False" "sq_PonrCrossed (demo_sequence q st t) = False"
  "sq_PreSequenceState (demo_sequence q st t) = Map.empty" "sq_PlanName (demo_sequence q st t) = ''outage''"
  "tk_ok (demo_tick now) = True" "tk_now (demo_tick now) = now"
  by (simp_all add: demo_active_def newActiveSequence_def demo_sequence_def demo_tick_def)

section \<open>Sequences\<close>

theorem one_sequence_at_a_time_witness: "fst (after 3) \<noteq> Idle \<and> e_active (snd (after 3)) \<noteq> None"
proof -
  have "fst (after 3) \<noteq> Idle" using after_3 by auto
  moreover have "reachable quick_env (fst (after 3), snd (after 3))" using after_reachable [of 3] by simp
  ultimately show ?thesis using one_sequence_at_a_time by blast
qed


theorem stage_entered_only_when_due_witness:
  "\<exists>a dl. fst (after 2) = StageWait 0 dl \<and> e_active (snd (after 2)) = Some a \<and> sh_Stages (pl_Shutdown (as_plan a)) \<noteq> []"
proof -
  obtain rec budget where 3: "fst (after 3) = StageRun 0 rec budget [(''a'', CStart)]"
    using after_3 by (cases "fst (after 3)" rule: stage_begun.cases) auto
  have "daemon_step quick_env (SeqTick (demo_tick 4)) (fst (after 2), snd (after 2)) =
      (StageRun 0 rec budget [(''a'', CStart)], snd (after 3))"
    using after_Suc [of 2] 3 by (simp add: eval_nat_numeral prod_eq_iff)
  moreover have "reachable quick_env (fst (after 2), snd (after 2))" using after_reachable [of 2] by simp
  ultimately show ?thesis using stage_entered_only_when_due [OF _ after_2] by (metis length_greater_0_conv)
qed


theorem operator_abort_wakes_nothing_witness:
  "filter is_dispatch (e_log (snd (daemon_step quick_env (SeqTick (demo_tick 5))
     (WakeNext [''a''] 0, with_active ((demo_active ''waking'')\<lparr>as_abortRequested := True\<rparr>))))) = []"
  using operator_abort_wakes_nothing [of "with_active ((demo_active ''waking'')\<lparr>as_abortRequested := True\<rparr>)" _ "WakeNext [''a''] 0"
      "SeqTick (demo_tick 5)" quick_env, OF _ _ _ _ prod.collapse [symmetric]]
  by simp

text \<open>Every goroutine in turn, at ever later instants.\<close>

definition demo_events :: "nat \<Rightarrow> event" where
  "demo_events n = SeqTick ((demo_tick (int n))\<lparr>tk_who := fst (prod_decode n)\<rparr>)"

lemma demo_events_late: "late T (demo_events n) \<longleftrightarrow> T \<le> int n"
  by (simp add: late_def demo_events_def demo_tick_def)

lemma demo_events_fair: "fair_from 0 demo_events"
  unfolding fair_from_def
proof (intro conjI allI)
  show "late 0 (demo_events n)" for n by (simp add: demo_events_late)
  show "\<exists>m\<ge>n. \<exists>tk. demo_events m = SeqTick tk \<and> tk_who tk = k" for k n
    by (rule exI [of _ "prod_encode (k, n)"]) (simp add: le_prod_encode_2 demo_events_def)
  show "\<exists>n. \<forall>m\<ge>n. late T (demo_events m)" for T
    by (rule exI [of _ "nat T"]) (auto simp: demo_events_late nat_le_iff)
qed

theorem shutdown_reaches_gate_witness: "\<exists>n. fst (run quick_env (map demo_events [0..<n]) (after 3)) \<in> {Gate, Idle}"
proof -
  obtain a where a: "e_active (snd (after 3)) = Some a"
      "\<forall>s \<in> set (sh_Stages (pl_Shutdown (as_plan a))). sg_WaitPolicy s \<noteq> WaitPolicyHold"
    using after_3 by (auto simp: list_all_iff split: option.splits)
  have r: "reachable quick_env (fst (after 3), snd (after 3))" using after_reachable [of 3] by simp
  have "before_gate (fst (after 3))" using after_3 by (cases "fst (after 3)") auto
  note reaches = shutdown_reaches_gate [OF r a(1) this demo_events_fair]
  have no_hold: "\<not> (i < length (sh_Stages (pl_Shutdown (as_plan a))) \<and> sg_WaitPolicy (stage_at a i) = WaitPolicyHold)" for i
    using a(2) by (auto simp: stage_at_def)
  show ?thesis
  proof (rule disjE [OF reaches])
    assume "\<exists>n pc' e'. run quick_env (map demo_events [0..<n]) (fst (after 3), snd (after 3)) = (pc', e') \<and>
      (pc' = Gate \<or> pc' = Idle \<and> e_cancelled e')"
    then show ?thesis by (metis fst_conv insertCI prod.collapse)
  qed (use no_hold in blast)
qed

section \<open>Recovery\<close>

theorem ponr_survives_power_cut_witness:
  "list_all (\<lambda>db. list_ex sq_PonrCrossed (db_sequences db)) (e_disk (snd (after 6)))"
proof -
  obtain a where "e_active (snd (after 6)) = Some a" "sq_PonrCrossed (as_seq a)" using after_6 by (auto split: option.splits)
  from ponr_survives_power_cut [OF after_6_reachable [OF refl] this after_6_clean] show ?thesis
    by (auto simp: list_all_iff list_ex_iff)
qed

theorem command_has_durable_intent_witness:
  "list_all (\<lambda>db. list_ex (\<lambda>r. it_Status r = ''dispatching'') (db_intents db)) (e_disk (snd (after 6)))"
proof -
  obtain rec budget t0 it ctx where 6: "fst (after 6) = StageRun 0 rec budget [(''a'', CExec t0 it ctx)]" by (rule after_6_at)
  from command_has_durable_intent [OF after_6_reachable [OF this] _ after_6_clean, of "''a''" t0 it ctx] show ?thesis
    by (auto simp: list_all_iff list_ex_iff)
qed

theorem client_locked_while_acted_upon_witness:
  "ClientLockHolder ''a'' (e_db (snd (after 6))) = seq_id (snd (after 6))"
proof -
  obtain rec budget t0 it ctx where 6: "fst (after 6) = StageRun 0 rec budget [(''a'', CExec t0 it ctx)]" by (rule after_6_at)
  from client_locked_while_acted_upon [OF after_6_reachable [OF this], of "''a''" "CExec t0 it ctx"] show ?thesis by auto
qed

theorem resume_at_first_incomplete_stage_witness:
  "\<exists>e'. resumeSequence quick_env (demo_tick 9) (demo_active ''shutting_down'') (with_active (demo_active ''shutting_down'')) = (StageLoop 0, e')"
proof -
  obtain pc e' where r: "resumeSequence quick_env (demo_tick 9) (demo_active ''shutting_down'') (with_active (demo_active ''shutting_down'')) = (pc, e')"
    by force
  have "GetCompletedStages ''s'' empty_db = []" by code_simp
  with resume_at_first_incomplete_stage [OF r] obtain i where "pc = StageLoop i" "\<forall>j < i. False"
    by (auto simp: quick_plan_def)
  then show ?thesis using r by auto
qed

section \<open>The end of a sequence\<close>

theorem ended_sequence_released_witness:
  "e_active (snd (daemon_step quick_env (SeqTick (demo_tick 5)) (WakeNext [] 0, with_active (demo_active ''waking'')))) = None"
proof -
  let ?e = "with_active (demo_active ''waking'')"
  have "fst (daemon_step quick_env (SeqTick (demo_tick 5)) (WakeNext [] 0, ?e)) = Idle"
    by (simp add: wake_next_def completeSequence_def Let_def)
  then have "daemon_step quick_env (SeqTick (demo_tick 5)) (WakeNext [] 0, ?e) =
      (Idle, snd (daemon_step quick_env (SeqTick (demo_tick 5)) (WakeNext [] 0, ?e)))" by (metis prod.collapse)
  from ended_sequence_released [OF _ _ this] show ?thesis by simp
qed

definition demo_post :: PostShutdownConfig where
  "demo_post = \<lparr>ps_Action = ''off'', ps_Command = [], ps_Delay = 0, ps_UPS = ''u'', ps_Host = [], ps_Port = 0,
     ps_Username = [], ps_Password = []\<rparr>"

definition post_cfg :: Config where
  "post_cfg = quick_cfg\<lparr>cf_Clients := [],
     cf_Plans := [quick_plan\<lparr>pl_Shutdown := \<lparr>sh_PostShutdown = Some demo_post, sh_Stages = []\<rparr>\<rparr>]\<rparr>"

theorem post_shutdown_once_witness:
  "fst (daemon_step quick_env (SeqTick (demo_tick 5)) (StageLoop 0, with_active ((demo_active ''shutting_down'')
     \<lparr>as_seq := (demo_sequence ''s'' ''shutting_down'' 1)\<lparr>sq_PostShutdownRun := True\<rparr>\<rparr>))) \<noteq> PostExec"
  using post_shutdown_once [of "with_active ((demo_active ''shutting_down'')
     \<lparr>as_seq := (demo_sequence ''s'' ''shutting_down'' 1)\<lparr>sq_PostShutdownRun := True\<rparr>\<rparr>)" _ "StageLoop 0" "SeqTick (demo_tick 5)"
     quick_env, OF _ _ _ prod.collapse [symmetric]]
  by auto

text \<open>
  The action runs again when the daemon goes down before the flag is on the disk: the flag is saved
  after the call and the save is not a durable one.
\<close>

theorem post_shutdown_twice_after_crash:
  "length (filter is_dispatch (e_log (snd (run (demo_env post_cfg)
     ([PolicyTick 1] @ steps 2 @ [Restart 1 Map.empty NewStore [] True 5] @ steps 2) (demo_boot post_cfg))))) = 2"
  by code_simp

section \<open>Policies and waking\<close>

theorem tick_starts_first_triggered_plan_witness:
  "fst (evaluatePolicies quick_env 1 ((with_active (demo_active []))\<lparr>e_active := None\<rparr>))"
proof -
  let ?e = "(with_active (demo_active []))\<lparr>e_active := None\<rparr>"
  have cf: "collision_free (en_rt quick_env) {literal_cond ''true''}"
    by (simp add: collision_free_def literal_cond_def)
  have p: "cf_Plans (en_cfg quick_env) = [quick_plan]" by (simp add: demo_env_def quick_cfg_def)
  have t: "pl_Trigger quick_plan = literal_cond ''true''" by (simp add: quick_plan_def)
  have ev: "e_evaluator ?e = NewEvaluator" by (simp add: with_active_def NewExecutor_def)
  have m: "e_mode ?e \<noteq> ModeDisarmed" by code_simp
  have v: "fst (Evaluate (en_rt quick_env) (e_store ?e) 1 (literal_cond ''true'') NewEvaluator) = TTrue" by code_simp
  have inv: "ev_inv (en_rt quick_env) (e_evaluator ?e)" by (simp add: ev ev_inv_New)
  have "\<forall>q \<in> set (cf_Plans (en_cfg quick_env)). pl_Trigger q \<in> {literal_cond ''true''}" by (simp add: p t)
  from tick_starts_first_triggered_plan [OF cf this inv _ m prod.collapse [symmetric], of 1] show ?thesis
    using v by (simp add: p t ev)
qed

theorem wake_order_respects_dependencies_witness:
  "computeWakeOrder demo_cfg demo_plan = [''storage'', ''server''] \<and>
   comes_before ''storage'' ''server'' (computeWakeOrder demo_cfg demo_plan)"
proof -
  have ok: "\<not> has_err (validateDependencies demo_cfg [''server'', ''storage''])" by code_simp
  have o: "computeWakeOrder demo_cfg demo_plan = [''storage'', ''server'']" by code_simp
  have "demo_plan \<in> set (cf_Plans demo_cfg)" "wk_Stages (pl_Wake demo_plan) = []"
    by (simp_all add: demo_cfg_def demo_plan_def)
  moreover have "demo_client ''server'' [''storage''] \<in> set (cf_Clients demo_cfg)"
    "''storage'' \<in> set (cl_DependsOn (demo_client ''server'' [''storage'']))" "cl_Name (demo_client ''server'' [''storage'']) = ''server''"
    by (simp_all add: demo_cfg_def demo_client_def)
  ultimately have "comes_before ''storage'' ''server'' (computeWakeOrder demo_cfg demo_plan)"
    using wake_order_respects_dependencies [OF ok] o by (metis list.set_intros(1,2))
  then show ?thesis using o by simp
qed


end
