(* ===== verification/Simulate.thy ===== *)
theory Simulate
  imports Abort_Safety "HOL-Library.AList"
begin

text \<open>
  The simulator (\<open>internal/simulate\<close>): a scripted timeline of facts is replayed against a plan, with
  the store and the evaluator of the daemon. What the simulation decides at a tick is compared with
  what the goroutine of a sequence decides.
\<close>

section \<open>Timelines\<close>

record TimelineEvent =
  te_At :: duration
  te_Fact :: string
  te_Value :: goval
  te_explicitNull :: bool

record Timeline =
  tl_Duration :: duration
  tl_Step :: duration
  tl_Events :: "TimelineEvent list"

datatype sim_error =
    PlanNotFound string
  | FactNotQualified string
  | DurationNotPositive duration
  | StepNegative
  | StepTooLong duration duration
  | NoEvents
  | EventNoFact nat
  | EventNotQualified nat string
  | EventNegative nat
  | EventAfterEnd nat duration duration
  | EventNoValue nat string

definition splitFactKey :: "string \<Rightarrow> (string \<times> string) option" where
  "splitFactKey key =
     (let source = takeWhile (\<lambda>c. c \<noteq> CHR ''.'') key; rest = dropWhile (\<lambda>c. c \<noteq> CHR ''.'') key
      in if rest = [] then None
         else if source = [] \<or> length source = length key - 1 then None
         else Some (source, tl rest))"

definition check_event :: "duration \<Rightarrow> nat \<times> TimelineEvent \<Rightarrow> sim_error option" where
  "check_event dur ie =
     (case ie of (i, e) \<Rightarrow>
        if te_Fact e = [] then Some (EventNoFact i)
        else if splitFactKey (te_Fact e) = None then Some (EventNotQualified i (te_Fact e))
        else if te_At e < 0 then Some (EventNegative i)
        else if te_At e > dur then Some (EventAfterEnd i (te_At e) dur)
        else if te_Value e = GNil \<and> \<not> te_explicitNull e then Some (EventNoValue i (te_Fact e))
        else None)"

definition Timeline_validate :: "Timeline \<Rightarrow> sim_error + Timeline" where
  "Timeline_validate t =
     (if tl_Duration t \<le> 0 then Inl (DurationNotPositive (tl_Duration t))
      else if tl_Step t < 0 then Inl StepNegative
      else let t1 = (if tl_Step t = 0 then t\<lparr>tl_Step := Second\<rparr> else t)
           in if tl_Step t1 > tl_Duration t1 then Inl (StepTooLong (tl_Step t1) (tl_Duration t1))
              else if tl_Events t1 = [] then Inl NoEvents
              else case List.map_filter (check_event (tl_Duration t1)) (enumerate 0 (tl_Events t1)) of
                     err # _ \<Rightarrow> Inl err
                   | [] \<Rightarrow> Inr t1)"

text \<open>\<open>LoadTimeline\<close>, on the timeline the JSON decoder yields; \<open>sort_key\<close> is stable, as \<open>sort.SliceStable\<close> is.\<close>

definition LoadTimeline :: "Timeline \<Rightarrow> sim_error + Timeline" where
  "LoadTimeline decoded =
     (case Timeline_validate decoded of
        Inl err \<Rightarrow> Inl err
      | Inr t \<Rightarrow> Inr (t\<lparr>tl_Events := sort_key te_At (tl_Events t)\<rparr>))"

section \<open>The store of a simulation\<close>

text \<open>
  The \<open>instances\<close> of a source's own block of the configuration, as the decoder yields them: for each
  element that is a map, its \<open>name\<close> and \<open>poll_interval\<close>, empty where they are missing or no strings.
\<close>

type_synonym instances = "SourceConfig \<Rightarrow> (string \<times> string) list"

definition fallback_poll :: duration where
  "fallback_poll = 15 * Second"

fun sourcePollInterval :: "rt \<Rightarrow> instances \<Rightarrow> SourceConfig list \<Rightarrow> string \<Rightarrow> duration" where
  "sourcePollInterval rt ins [] source = fallback_poll"
| "sourcePollInterval rt ins (s # ss) source =
     (if sc_Name s = source then fst (Duration rt (sc_PollInterval s) fallback_poll)
      else case find (\<lambda>(name, _). name = source) (ins s) of
             Some (_, interval) \<Rightarrow>
               (if interval \<noteq> [] then fst (Duration rt interval fallback_poll) else fallback_poll)
           | None \<Rightarrow> sourcePollInterval rt ins ss source)"

fun factTypeOf :: "goval \<Rightarrow> string" where
  "factTypeOf (GBool _) = ''bool''"
| "factTypeOf (GFloat64 _) = ''number''"
| "factTypeOf (GInt _) = ''number''"
| "factTypeOf (GInt64 _) = ''number''"
| "factTypeOf (GAnys _) = ''set''"
| "factTypeOf (GStrings _) = ''set''"
| "factTypeOf _ = ''string''"

record decl =
  de_interval :: duration
  de_entries :: "(string \<times> FactDeclaration) list"

definition bare_declaration :: "string \<Rightarrow> string \<Rightarrow> FactDeclaration" where
  "bare_declaration name t =
     \<lparr>d_Name = name, d_Type = t, d_Range = [], d_Values = [], d_Description = [], d_Unit = []\<rparr>"

text \<open>Maps whose iteration order does not matter are association lists in the order of their keys' first use.\<close>

definition note_event ::
  "rt \<Rightarrow> instances \<Rightarrow> Config \<Rightarrow> TimelineEvent \<Rightarrow> (string \<times> decl) list \<Rightarrow> sim_error + (string \<times> decl) list" where
  "note_event rt ins cfg evt sources =
     (case splitFactKey (te_Fact evt) of
        None \<Rightarrow> Inl (FactNotQualified (te_Fact evt))
      | Some (source, name) \<Rightarrow>
          (let s = (case map_of sources source of
                      None \<Rightarrow> \<lparr>de_interval = sourcePollInterval rt ins (cf_Sources cfg) source, de_entries = []\<rparr>
                    | Some s \<Rightarrow> s);
               entries = (if te_Value evt = GNil
                          then (if map_of (de_entries s) name = None
                                then AList.update name (bare_declaration name ''string'') (de_entries s)
                                else de_entries s)
                          else AList.update name (bare_declaration name (factTypeOf (te_Value evt))) (de_entries s))
           in Inr (AList.update source (s\<lparr>de_entries := entries\<rparr>) sources)))"

fun note_events ::
  "rt \<Rightarrow> instances \<Rightarrow> Config \<Rightarrow> TimelineEvent list \<Rightarrow> (string \<times> decl) list \<Rightarrow> sim_error + (string \<times> decl) list" where
  "note_events rt ins cfg [] sources = Inr sources"
| "note_events rt ins cfg (evt # evts) sources =
     (case note_event rt ins cfg evt sources of
        Inl err \<Rightarrow> Inl err
      | Inr sources' \<Rightarrow> note_events rt ins cfg evts sources')"

definition buildStore :: "rt \<Rightarrow> instances \<Rightarrow> Config \<Rightarrow> Timeline \<Rightarrow> sim_error + Store" where
  "buildStore rt ins cfg script =
     (case note_events rt ins cfg (tl_Events script) [] of
        Inl err \<Rightarrow> Inl err
      | Inr sources \<Rightarrow>
          Inr (fold (\<lambda>(source, s). RegisterSource source (de_interval s) (map snd (de_entries s))) sources NewStore))"

fun normaliseValue :: "goval \<Rightarrow> goval" where
  "normaliseValue (GAnys vs) =
     (if list_all (\<lambda>v. case v of GString _ \<Rightarrow> True | _ \<Rightarrow> False) vs
      then GStrings (map (\<lambda>v. case v of GString s \<Rightarrow> s | _ \<Rightarrow> []) vs)
      else GAnys vs)"
| "normaliseValue v = v"

definition sim_findPlan :: "Config \<Rightarrow> string \<Rightarrow> PlanConfig option" where
  "sim_findPlan cfg name = find (\<lambda>p. pl_Name p = name) (cf_Plans cfg)"

section \<open>The simulation\<close>

record sim_event =
  se_At :: duration
  se_Stage :: string
  se_Detail :: string
  se_Clients :: "string list"

record SimulationResult =
  rs_Plan :: string
  rs_Triggers :: "sim_event list"
  rs_Stages :: "sim_event list"
  rs_Aborts :: "sim_event list"
  rs_PONR :: "sim_event list"
  rs_WakeGates :: "sim_event list"
  rs_Skipped :: "sim_event list"
  rs_ShutdownOrder :: "string list"
  rs_NotShutDown :: "string list"
  rs_Completed :: bool

text \<open>
  What the loop of \<open>run\<close> carries; \<open>si_events\<close> are the events from \<open>eventIdx\<close> on.
\<close>

record simulation =
  si_store :: Store
  si_evaluator :: Evaluator
  si_result :: SimulationResult
  si_triggered :: bool
  si_aborted :: bool
  si_ponrCrossed :: bool
  si_currentStage :: nat
  si_stageEnteredAt :: duration
  si_events :: "TimelineEvent list"
  si_current :: "string \<rightharpoonup> goval"

text \<open>Every timeline event due by this instant.\<close>

fun due_events :: "duration \<Rightarrow> TimelineEvent list \<Rightarrow> (string \<rightharpoonup> goval) \<Rightarrow> TimelineEvent list \<times> (string \<rightharpoonup> goval)" where
  "due_events elapsed [] current = ([], current)"
| "due_events elapsed (evt # evts) current =
     (if te_At evt \<le> elapsed then
        due_events elapsed evts
          (if te_Value evt = GNil then current(te_Fact evt := None)
           else current(te_Fact evt \<mapsto> normaliseValue (te_Value evt)))
      else (evt # evts, current))"

text \<open>The values are asserted again at every tick; \<open>keys\<close> are the facts of the timeline.\<close>

definition assert_facts :: "string list \<Rightarrow> (string \<rightharpoonup> goval) \<Rightarrow> instant \<Rightarrow> Store \<Rightarrow> Store" where
  "assert_facts keys current now st =
     fold (\<lambda>k st. case current k of None \<Rightarrow> st | Some v \<Rightarrow> Store_Update k v now st) keys st"

definition feed :: "string list \<Rightarrow> instant \<Rightarrow> duration \<Rightarrow> simulation \<Rightarrow> simulation" where
  "feed keys now elapsed s =
     (case due_events elapsed (si_events s) (si_current s) of (evts, current) \<Rightarrow>
        s\<lparr>si_events := evts, si_current := current,
          si_store := RefreshQuality now (assert_facts keys current now (si_store s))\<rparr>)"

definition sim_eval :: "rt \<Rightarrow> instant \<Rightarrow> ConditionConfig \<Rightarrow> simulation \<Rightarrow> bool \<times> simulation" where
  "sim_eval rt now c s =
     (case Evaluate rt (si_store s) now c (si_evaluator s) of (v, ev) \<Rightarrow> (v = TTrue, s\<lparr>si_evaluator := ev\<rparr>))"

definition plain_event :: "duration \<Rightarrow> string \<Rightarrow> sim_event" where
  "plain_event elapsed detail = \<lparr>se_At = elapsed, se_Stage = [], se_Detail = detail, se_Clients = []\<rparr>"

definition stage_event :: "duration \<Rightarrow> StageConfig \<Rightarrow> string \<Rightarrow> string list \<Rightarrow> sim_event" where
  "stage_event elapsed stage detail clients =
     \<lparr>se_At = elapsed, se_Stage = sg_Name stage, se_Detail = detail, se_Clients = clients\<rparr>"

definition trigger_tick :: "rt \<Rightarrow> PlanConfig \<Rightarrow> instant \<Rightarrow> duration \<Rightarrow> simulation \<Rightarrow> simulation" where
  "trigger_tick rt plan now elapsed s =
     (case sim_eval rt now (pl_Trigger plan) s of
        (True, s) \<Rightarrow> s\<lparr>si_triggered := True, si_stageEnteredAt := elapsed,
           si_result := (si_result s)\<lparr>rs_Triggers := rs_Triggers (si_result s) @ [plain_event elapsed (pl_Name plan)]\<rparr>\<rparr>
      | (False, s) \<Rightarrow> s)"

definition abort_tick :: "rt \<Rightarrow> PlanConfig \<Rightarrow> instant \<Rightarrow> duration \<Rightarrow> simulation \<Rightarrow> simulation" where
  "abort_tick rt plan now elapsed s =
     (if \<not> si_aborted s \<and> \<not> si_ponrCrossed s then
        (case pl_Abort plan of
           None \<Rightarrow> s
         | Some c \<Rightarrow>
             (case sim_eval rt now c s of
                (True, s) \<Rightarrow> s\<lparr>si_aborted := True,
                   si_result := (si_result s)\<lparr>rs_Aborts := rs_Aborts (si_result s) @ [plain_event elapsed (pl_Name plan)]\<rparr>\<rparr>
              | (False, s) \<Rightarrow> s))
      else s)"

text \<open>Sums and differences of durations are int64 and wrap around.\<close>

definition wrap_int64 :: "int \<Rightarrow> int" where
  "wrap_int64 x = (x + 2 ^ 63) mod 2 ^ 64 - 2 ^ 63"

lemma wrap_int64_id: "- (2 ^ 63) \<le> x \<Longrightarrow> x < 2 ^ 63 \<Longrightarrow> wrap_int64 x = x"
  by (simp add: wrap_int64_def)

lemma wrap_int64_bound: "wrap_int64 x \<le> 2 ^ 63 - 1"
proof -
  have "(x + 9223372036854775808) mod 18446744073709551616 < 18446744073709551616" by simp
  then show ?thesis by (simp add: wrap_int64_def)
qed

definition stageTimedOut :: "rt \<Rightarrow> StageConfig \<Rightarrow> duration \<Rightarrow> duration \<Rightarrow> bool" where
  "stageTimedOut rt stage elapsed enteredAt \<longleftrightarrow>
     sg_WaitPolicy stage \<noteq> WaitPolicyHold \<and>
     fst (Duration rt (sg_WaitTimeout stage) DefaultWaitTimeout) \<le> wrap_int64 (elapsed - enteredAt)"

definition enter_sim :: "Config \<Rightarrow> StageConfig \<Rightarrow> duration \<Rightarrow> simulation \<Rightarrow> simulation" where
  "enter_sim cfg stage elapsed s =
     (let s1 = (if sg_PointOfNoReturn stage \<and> \<not> si_ponrCrossed s
                then s\<lparr>si_ponrCrossed := True,
                       si_result := (si_result s)\<lparr>rs_PONR := rs_PONR (si_result s) @ [stage_event elapsed stage [] []]\<rparr>\<rparr>
                else s);
          clients = ResolveClientRefs (sg_Clients stage) cfg;
          r = si_result s1
      in s1\<lparr>si_result := r\<lparr>rs_Stages := rs_Stages r @ [stage_event elapsed stage [] clients],
                            rs_ShutdownOrder := rs_ShutdownOrder r @ clients\<rparr>,
            si_currentStage := Suc (si_currentStage s1), si_stageEnteredAt := elapsed\<rparr>)"

definition skip_sim :: "Config \<Rightarrow> StageConfig \<Rightarrow> duration \<Rightarrow> simulation \<Rightarrow> simulation" where
  "skip_sim cfg stage elapsed s =
     (let clients = ResolveClientRefs (sg_Clients stage) cfg; r = si_result s
      in s\<lparr>si_result := r\<lparr>rs_Skipped := rs_Skipped r @
               [stage_event elapsed stage ''entry condition not met within wait_timeout'' clients],
             rs_NotShutDown := rs_NotShutDown r @ clients\<rparr>,
           si_currentStage := Suc (si_currentStage s), si_stageEnteredAt := elapsed\<rparr>)"

definition stage_tick :: "rt \<Rightarrow> Config \<Rightarrow> PlanConfig \<Rightarrow> instant \<Rightarrow> duration \<Rightarrow> simulation \<Rightarrow> simulation" where
  "stage_tick rt cfg plan now elapsed s =
     (let stages = sh_Stages (pl_Shutdown plan)
      in if \<not> si_aborted s \<and> si_currentStage s < length stages then
           (let stage = stages ! si_currentStage s
            in case sim_eval rt now (sg_When stage) s of
                 (True, s) \<Rightarrow> enter_sim cfg stage elapsed s
               | (False, s) \<Rightarrow>
                   if stageTimedOut rt stage elapsed (si_stageEnteredAt s) then skip_sim cfg stage elapsed s else s)
         else s)"

text \<open>A tick of the loop of \<open>run\<close>; true when the simulation has reached the wake gate and returns.\<close>

definition sim_tick ::
  "rt \<Rightarrow> Config \<Rightarrow> PlanConfig \<Rightarrow> string list \<Rightarrow> instant \<Rightarrow> duration \<Rightarrow> simulation \<Rightarrow> bool \<times> simulation" where
  "sim_tick rt cfg plan keys base elapsed s =
     (let now = base + elapsed; s1 = feed keys now elapsed s
      in if \<not> si_triggered s1 then (False, trigger_tick rt plan now elapsed s1)
         else let s2 = stage_tick rt cfg plan now elapsed (abort_tick rt plan now elapsed s1)
              in if si_aborted s2 \<or> length (sh_Stages (pl_Shutdown plan)) \<le> si_currentStage s2 then
                   (case sim_eval rt now (wk_Gate (pl_Wake plan)) s2 of
                      (True, s3) \<Rightarrow> (True, s3\<lparr>si_result := (si_result s3)
                         \<lparr>rs_WakeGates := rs_WakeGates (si_result s3) @ [plain_event elapsed (pl_Name plan)],
                          rs_Completed := True\<rparr>\<rparr>)
                    | (False, s3) \<Rightarrow> (False, s3))
                 else (False, s2))"

text \<open>The loop; it has no value when it does not end, as when the end is the last of the durations.\<close>

partial_function (option) sim_loop ::
  "rt \<Rightarrow> Config \<Rightarrow> PlanConfig \<Rightarrow> string list \<Rightarrow> instant \<Rightarrow> Timeline \<Rightarrow> duration \<Rightarrow> simulation \<Rightarrow> SimulationResult option"
where
  "sim_loop rt cfg plan keys base script elapsed s =
     (if elapsed \<le> tl_Duration script then
        (case sim_tick rt cfg plan keys base elapsed s of (stop, s') \<Rightarrow>
           if stop then Some (si_result s')
           else sim_loop rt cfg plan keys base script (wrap_int64 (elapsed + tl_Step script)) s')
      else Some (si_result s))"

declare sim_loop.simps [code]

definition start_simulation :: "string \<Rightarrow> Timeline \<Rightarrow> Store \<Rightarrow> simulation" where
  "start_simulation name script st =
     \<lparr>si_store = st, si_evaluator = NewEvaluator,
      si_result = \<lparr>rs_Plan = name, rs_Triggers = [], rs_Stages = [], rs_Aborts = [], rs_PONR = [], rs_WakeGates = [],
        rs_Skipped = [], rs_ShutdownOrder = [], rs_NotShutDown = [], rs_Completed = False\<rparr>,
      si_triggered = False, si_aborted = False, si_ponrCrossed = False, si_currentStage = 0, si_stageEnteredAt = 0,
      si_events = tl_Events script, si_current = Map.empty\<rparr>"

definition Run ::
  "rt \<Rightarrow> instances \<Rightarrow> Config \<Rightarrow> Timeline \<Rightarrow> string \<Rightarrow> instant \<Rightarrow> (sim_error + SimulationResult) option" where
  "Run rt ins cfg script planName base =
     (case sim_findPlan cfg planName of
        None \<Rightarrow> Some (Inl (PlanNotFound planName))
      | Some plan \<Rightarrow>
          (case buildStore rt ins cfg script of
             Inl err \<Rightarrow> Some (Inl err)
           | Inr st \<Rightarrow>
               map_option Inr (sim_loop rt cfg plan (remdups (map te_Fact (tl_Events script))) base script 0
                 (start_simulation planName script st))))"

section \<open>The simulation ends\<close>

lemma sim_loop_ends:
  assumes "tl_Step script > 0" and "tl_Duration script + tl_Step script < 2 ^ 63"
  shows "0 \<le> elapsed \<Longrightarrow> \<exists>r. sim_loop rt cfg plan keys base script elapsed s = Some r"
proof (induction "nat (tl_Duration script - elapsed + 1)" arbitrary: elapsed s rule: less_induct)
  case less
  show ?case
  proof (cases "elapsed \<le> tl_Duration script")
    case False
    then show ?thesis by (subst sim_loop.simps) simp
  next
    case True
    obtain stop s' where t: "sim_tick rt cfg plan keys base elapsed s = (stop, s')" by force
    have w: "wrap_int64 (elapsed + tl_Step script) = elapsed + tl_Step script"
      by (rule wrap_int64_id) (use True less.prems assms in linarith)+
    have "nat (tl_Duration script - (elapsed + tl_Step script) + 1) < nat (tl_Duration script - elapsed + 1)"
      "0 \<le> elapsed + tl_Step script" using True less.prems assms(1) by simp_all
    from less.hyps [OF this, of s'] show ?thesis using t True w by (subst sim_loop.simps) simp
  qed
qed

text \<open>
  The last duration there is exceeds every instant the loop comes to, so a timeline that ends there is
  simulated for ever unless the wake gate is passed; here, because the plan never triggers.
\<close>

lemma feed_triggered [simp]: "si_triggered (feed keys now elapsed s) = si_triggered s"
  by (simp add: feed_def split: prod.split)

lemma untriggered_tick:
  assumes "\<forall>st now ev. fst (Evaluate rt st now (pl_Trigger plan) ev) \<noteq> TTrue" and "\<not> si_triggered s"
  shows "\<not> fst (sim_tick rt cfg plan keys base elapsed s) \<and> \<not> si_triggered (snd (sim_tick rt cfg plan keys base elapsed s))"
proof -
  let ?s = "feed keys (base + elapsed) elapsed s"
  obtain v ev where v: "Evaluate rt (si_store ?s) (base + elapsed) (pl_Trigger plan) (si_evaluator ?s) = (v, ev)" by force
  then have "v \<noteq> TTrue" using assms(1) by (metis fst_conv)
  then show ?thesis using assms(2) v by (simp add: sim_tick_def trigger_tick_def sim_eval_def Let_def)
qed

lemma longest_timeline_never_ends:
  assumes never: "\<forall>st now ev. fst (Evaluate rt st now (pl_Trigger plan) ev) \<noteq> TTrue"
    and longest: "tl_Duration script = 2 ^ 63 - 1"
  shows "sim_loop rt cfg plan keys base script 0 (start_simulation name script st) = None"
proof -
  have "\<not> (rt' = rt \<and> plan' = plan \<and> script' = script \<and> elapsed \<le> 2 ^ 63 - 1 \<and> \<not> si_triggered s)"
    if "sim_loop rt' cfg' plan' keys' base' script' elapsed s = Some r" for rt' cfg' plan' keys' base' script' elapsed s r
  proof (rule sim_loop.raw_induct [OF _ that, where P = "\<lambda>rt' cfg' plan' keys' base' script' elapsed s r.
        \<not> (rt' = rt \<and> plan' = plan \<and> script' = script \<and> elapsed \<le> 2 ^ 63 - 1 \<and> \<not> si_triggered s)"], rule notI)
    fix loop :: "rt \<Rightarrow> Config \<Rightarrow> PlanConfig \<Rightarrow> string list \<Rightarrow> instant \<Rightarrow> Timeline \<Rightarrow> duration \<Rightarrow> simulation \<Rightarrow> SimulationResult option"
    fix rt' cfg' plan' keys' base' script' elapsed s r
    assume IH: "\<And>rt' cfg' plan' keys' base' script' elapsed s r. loop rt' cfg' plan' keys' base' script' elapsed s = Some r \<Longrightarrow>
        \<not> (rt' = rt \<and> plan' = plan \<and> script' = script \<and> elapsed \<le> 2 ^ 63 - 1 \<and> \<not> si_triggered s)"
      and body: "(if elapsed \<le> tl_Duration script'
         then case sim_tick rt' cfg' plan' keys' base' elapsed s of (stop, s') \<Rightarrow>
           if stop then Some (si_result s') else loop rt' cfg' plan' keys' base' script' (wrap_int64 (elapsed + tl_Step script')) s'
         else Some (si_result s)) = Some r"
      and at: "rt' = rt \<and> plan' = plan \<and> script' = script \<and> elapsed \<le> 2 ^ 63 - 1 \<and> \<not> si_triggered s"
    obtain stop s' where t: "sim_tick rt cfg' plan keys' base' elapsed s = (stop, s')" by force
    have "\<not> stop" "\<not> si_triggered s'" using untriggered_tick [OF never, of s cfg' keys' base' elapsed] at t by simp_all
    then have "loop rt cfg' plan keys' base' script (wrap_int64 (elapsed + tl_Step script)) s' = Some r" "\<not> si_triggered s'"
      using body at t longest by simp_all
    then show False using IH wrap_int64_bound by blast
  qed
  moreover have "\<not> si_triggered (start_simulation name script st)" by (simp add: start_simulation_def)
  ultimately have "sim_loop rt cfg plan keys base script 0 (start_simulation name script st) \<noteq> Some r" for r by fastforce
  then show ?thesis by (cases "sim_loop rt cfg plan keys base script 0 (start_simulation name script st)") auto
qed

lemma LoadTimeline_valid:
  assumes "LoadTimeline decoded = Inr script"
  shows "tl_Step script > 0" and "\<forall>e \<in> set (tl_Events script). splitFactKey (te_Fact e) \<noteq> None"
proof -
  obtain t where t: "Timeline_validate decoded = Inr t" "script = t\<lparr>tl_Events := sort_key te_At (tl_Events t)\<rparr>"
    using assms by (auto simp: LoadTimeline_def split: sum.splits)
  show "tl_Step script > 0" using t by (auto simp: Timeline_validate_def Let_def split: if_splits list.splits)
  have "List.map_filter (check_event (tl_Duration t)) (enumerate 0 (tl_Events t)) = []"
    using t(1) by (auto simp: Timeline_validate_def Let_def split: if_splits list.splits)
  then have c: "\<forall>ie \<in> set (enumerate 0 (tl_Events t)). check_event (tl_Duration t) ie = None"
    by (force simp: List.map_filter_def filter_empty_conv)
  have "splitFactKey (te_Fact e) \<noteq> None" if e: "e \<in> set (tl_Events t)" for e
  proof -
    obtain i where "i < length (tl_Events t)" "tl_Events t ! i = e" using e by (auto simp: in_set_conv_nth)
    then have "(i, e) \<in> set (enumerate 0 (tl_Events t))" by (simp add: in_set_enumerate_eq)
    then have "check_event (tl_Duration t) (i, e) = None" using c by blast
    then show ?thesis by (auto simp: check_event_def split: if_splits)
  qed
  then show "\<forall>e \<in> set (tl_Events script). splitFactKey (te_Fact e) \<noteq> None" using t(2) by simp
qed

lemma note_events_ok:
  "\<forall>e \<in> set evts. splitFactKey (te_Fact e) \<noteq> None \<Longrightarrow> \<exists>x. note_events rt ins cfg evts sources = Inr x"
  by (induction evts arbitrary: sources) (auto simp: note_event_def Let_def split: sum.splits)


section \<open>What a simulation reports\<close>

abbreviation stage_row :: "Config \<Rightarrow> StageConfig \<Rightarrow> string \<times> string list" where
  "stage_row cfg s \<equiv> (sg_Name s, ResolveClientRefs (sg_Clients s) cfg)"

text \<open>
  The report of a simulation in which the stages up to \<open>length entered\<close> were decided: those marked
  true were entered, the others skipped.
\<close>

definition reports :: "Config \<Rightarrow> PlanConfig \<Rightarrow> bool list \<Rightarrow> SimulationResult \<Rightarrow> bool" where
  "reports cfg plan entered r \<longleftrightarrow>
     (let decided = zip (sh_Stages (pl_Shutdown plan)) entered
      in map (\<lambda>e. (se_Stage e, se_Clients e)) (rs_Stages r) = map (stage_row cfg \<circ> fst) (filter snd decided) \<and>
         map (\<lambda>e. (se_Stage e, se_Clients e)) (rs_Skipped r) = map (stage_row cfg \<circ> fst) (filter (Not \<circ> snd) decided) \<and>
         rs_ShutdownOrder r = concat (map se_Clients (rs_Stages r)) \<and>
         rs_NotShutDown r = concat (map se_Clients (rs_Skipped r)) \<and>
         length (rs_PONR r) = (if \<exists>(s, b) \<in> set decided. b \<and> sg_PointOfNoReturn s then 1 else 0))"

definition sim_inv :: "Config \<Rightarrow> PlanConfig \<Rightarrow> simulation \<Rightarrow> bool" where
  "sim_inv cfg plan s \<longleftrightarrow>
     (let r = si_result s
      in (\<exists>entered. length entered = si_currentStage s \<and> si_currentStage s \<le> length (sh_Stages (pl_Shutdown plan)) \<and>
            reports cfg plan entered r) \<and>
         (si_ponrCrossed s \<longleftrightarrow> rs_PONR r \<noteq> []) \<and> length (rs_Aborts r) = (if si_aborted s then 1 else 0) \<and>
         \<not> (si_aborted s \<and> si_ponrCrossed s) \<and> length (rs_Triggers r) = (if si_triggered s then 1 else 0) \<and>
         (\<not> si_triggered s \<longrightarrow> si_currentStage s = 0 \<and> \<not> si_aborted s) \<and> rs_WakeGates r = [] \<and> \<not> rs_Completed r)"

lemma zip_snoc: "length ys < length xs \<Longrightarrow> zip xs (ys @ [y]) = zip xs ys @ [(xs ! length ys, y)]"
proof (induction ys arbitrary: xs)
  case Nil
  then show ?case by (cases xs) auto
next
  case (Cons z zs)
  then show ?case by (cases xs) auto
qed

lemma feed_inv: "sim_inv cfg plan (feed keys now elapsed s) = sim_inv cfg plan s"
  by (simp add: feed_def sim_inv_def split: prod.split)

lemma sim_eval_frame:
  assumes "sim_eval rt now c s = (v, s')"
  shows "sim_inv cfg plan s' = sim_inv cfg plan s" "si_triggered s' = si_triggered s" "si_aborted s' = si_aborted s"
    "si_ponrCrossed s' = si_ponrCrossed s" "si_currentStage s' = si_currentStage s" "si_result s' = si_result s"
    "si_stageEnteredAt s' = si_stageEnteredAt s" "si_store s' = si_store s"
  using assms by (auto simp: sim_eval_def sim_inv_def split: prod.splits)

lemma reports_frame [simp]:
  "reports cfg plan b (r\<lparr>rs_Aborts := x\<rparr>) = reports cfg plan b r"
  "reports cfg plan b (r\<lparr>rs_Triggers := x\<rparr>) = reports cfg plan b r"
  "reports cfg plan b (r\<lparr>rs_WakeGates := x\<rparr>) = reports cfg plan b r"
  "reports cfg plan b (r\<lparr>rs_Completed := y\<rparr>) = reports cfg plan b r"
  by (simp_all add: reports_def)

lemma trigger_inv:
  assumes "sim_inv cfg plan s" and "\<not> si_triggered s"
  shows "sim_inv cfg plan (trigger_tick rt plan now elapsed s)"
proof -
  obtain v s' where v: "sim_eval rt now (pl_Trigger plan) s = (v, s')" by force
  note f = sim_eval_frame [OF v]
  show ?thesis using assms f v by (cases v) (auto simp: trigger_tick_def sim_inv_def Let_def)
qed

lemma abort_inv:
  assumes "sim_inv cfg plan s" and "si_triggered s"
  shows "sim_inv cfg plan (abort_tick rt plan now elapsed s) \<and> si_triggered (abort_tick rt plan now elapsed s)"
proof (cases "pl_Abort plan")
  case None
  then show ?thesis using assms by (simp add: abort_tick_def)
next
  case (Some c)
  obtain v s' where v: "sim_eval rt now c s = (v, s')" by force
  note f = sim_eval_frame [OF v]
  show ?thesis using assms f v Some by (cases v) (auto simp: abort_tick_def sim_inv_def Let_def)
qed

lemma reports_enter:
  assumes "reports cfg plan entered r" and "length entered < length (sh_Stages (pl_Shutdown plan))"
    and "stage = sh_Stages (pl_Shutdown plan) ! length entered"
    and "rs_Stages r' = rs_Stages r @ [stage_event elapsed stage d (ResolveClientRefs (sg_Clients stage) cfg)]"
    and "rs_ShutdownOrder r' = rs_ShutdownOrder r @ ResolveClientRefs (sg_Clients stage) cfg"
    and "rs_Skipped r' = rs_Skipped r" and "rs_NotShutDown r' = rs_NotShutDown r"
    and "length (rs_PONR r') = (if sg_PointOfNoReturn stage then 1 else length (rs_PONR r))"
  shows "reports cfg plan (entered @ [True]) r'"
  using assms by (auto simp: reports_def zip_snoc [OF assms(2)] stage_event_def Let_def split: if_splits)

lemma reports_skip:
  assumes "reports cfg plan entered r" and "length entered < length (sh_Stages (pl_Shutdown plan))"
    and "stage = sh_Stages (pl_Shutdown plan) ! length entered"
    and "rs_Skipped r' = rs_Skipped r @ [stage_event elapsed stage d (ResolveClientRefs (sg_Clients stage) cfg)]"
    and "rs_NotShutDown r' = rs_NotShutDown r @ ResolveClientRefs (sg_Clients stage) cfg"
    and "rs_Stages r' = rs_Stages r" and "rs_ShutdownOrder r' = rs_ShutdownOrder r" and "rs_PONR r' = rs_PONR r"
  shows "reports cfg plan (entered @ [False]) r'"
  using assms by (auto simp: reports_def zip_snoc [OF assms(2)] stage_event_def Let_def)

lemma stage_inv:
  assumes inv: "sim_inv cfg plan s" and trig: "si_triggered s"
  shows "sim_inv cfg plan (stage_tick rt cfg plan now elapsed s)"
proof (cases "\<not> si_aborted s \<and> si_currentStage s < length (sh_Stages (pl_Shutdown plan))")
  case False
  then show ?thesis using inv by (auto simp: stage_tick_def Let_def)
next
  case True
  let ?stage = "sh_Stages (pl_Shutdown plan) ! si_currentStage s"
  obtain v s' where v: "sim_eval rt now (sg_When ?stage) s = (v, s')" by force
  note f = sim_eval_frame [OF v]
  obtain entered where en: "length entered = si_currentStage s" "reports cfg plan entered (si_result s')"
    using inv f(6) by (auto simp: sim_inv_def Let_def)
  have lt: "length entered < length (sh_Stages (pl_Shutdown plan))" and st: "?stage = sh_Stages (pl_Shutdown plan) ! length entered"
    using True en(1) by simp_all
  have ponr: "length (rs_PONR (si_result s)) \<le> 1" using inv en f(6) by (auto simp: sim_inv_def reports_def Let_def)
  show ?thesis
  proof (cases v)
    case t: True
    have "reports cfg plan (entered @ [True]) (si_result (enter_sim cfg ?stage elapsed s'))"
      by (rule reports_enter [OF en(2) lt st])
        (use inv f(4,6) ponr in \<open>auto simp: enter_sim_def Let_def sim_inv_def le_Suc_eq\<close>)
    moreover have "stage_tick rt cfg plan now elapsed s = enter_sim cfg ?stage elapsed s'"
      using True v t by (simp add: stage_tick_def Let_def)
    ultimately show ?thesis using inv trig True f en(1)
      by (auto simp: sim_inv_def Let_def enter_sim_def intro!: exI [of _ "entered @ [True]"])
  next
    case nt: False
    show ?thesis
    proof (cases "stageTimedOut rt ?stage elapsed (si_stageEnteredAt s')")
      case to: True
      have "reports cfg plan (entered @ [False]) (si_result (skip_sim cfg ?stage elapsed s'))"
        by (rule reports_skip [OF en(2) lt st]) (auto simp: skip_sim_def Let_def)
      moreover have "stage_tick rt cfg plan now elapsed s = skip_sim cfg ?stage elapsed s'"
        using True v nt to by (simp add: stage_tick_def Let_def)
      ultimately show ?thesis using inv trig True f en(1)
        by (auto simp: sim_inv_def Let_def skip_sim_def intro!: exI [of _ "entered @ [False]"])
    qed (use True v nt f(1) inv in \<open>simp add: stage_tick_def Let_def\<close>)
  qed
qed

definition final_report :: "Config \<Rightarrow> PlanConfig \<Rightarrow> SimulationResult \<Rightarrow> bool" where
  "final_report cfg plan r \<longleftrightarrow>
     (\<exists>entered. length entered \<le> length (sh_Stages (pl_Shutdown plan)) \<and> reports cfg plan entered r \<and>
        (rs_Aborts r = [] \<or> rs_PONR r = []) \<and> length (rs_Aborts r) \<le> 1 \<and> length (rs_Triggers r) \<le> 1 \<and>
        (rs_Triggers r = [] \<longrightarrow> entered = [] \<and> rs_Aborts r = []) \<and> (rs_Completed r \<longleftrightarrow> rs_WakeGates r \<noteq> []) \<and>
        (rs_Completed r \<longrightarrow> rs_Aborts r \<noteq> [] \<or> length entered = length (sh_Stages (pl_Shutdown plan))))"

lemma report_of_inv:
  assumes "sim_inv cfg plan s"
    and "r = si_result s \<or> (si_aborted s \<or> length (sh_Stages (pl_Shutdown plan)) \<le> si_currentStage s) \<and> si_triggered s \<and>
      r = (si_result s)\<lparr>rs_WakeGates := rs_WakeGates (si_result s) @ [x], rs_Completed := True\<rparr>"
  shows "final_report cfg plan r"
proof -
  obtain b where b: "length b = si_currentStage s" "si_currentStage s \<le> length (sh_Stages (pl_Shutdown plan))"
      "reports cfg plan b (si_result s)"
    using assms(1) by (auto simp: sim_inv_def Let_def)
  have "reports cfg plan b r" using assms(2) b(3) by auto
  moreover have "rs_Aborts r = [] \<or> rs_PONR r = []" "length (rs_Aborts r) \<le> 1" "length (rs_Triggers r) \<le> 1"
    "rs_Completed r \<longleftrightarrow> rs_WakeGates r \<noteq> []"
    using assms by (auto simp: sim_inv_def Let_def split: if_splits)
  moreover have "rs_Triggers r = [] \<longrightarrow> b = [] \<and> rs_Aborts r = []"
    "rs_Completed r \<longrightarrow> rs_Aborts r \<noteq> [] \<or> length b = length (sh_Stages (pl_Shutdown plan))"
    using assms b(1,2) by (auto simp: sim_inv_def Let_def split: if_splits)
  ultimately show ?thesis using b(1,2) unfolding final_report_def by (intro exI [of _ b]) simp
qed

lemma stage_triggered: "si_triggered (stage_tick rt cfg plan now elapsed s) = si_triggered s"
  by (auto simp: stage_tick_def enter_sim_def skip_sim_def Let_def split: prod.split bool.split dest: sim_eval_frame(2))

lemma tick_inv:
  assumes "sim_inv cfg plan s" and "sim_tick rt cfg plan keys base elapsed s = (stop, s')"
  shows "if stop then final_report cfg plan (si_result s') else sim_inv cfg plan s'"
proof -
  let ?now = "base + elapsed"
  let ?s1 = "feed keys ?now elapsed s"
  have inv1: "sim_inv cfg plan ?s1" using assms(1) by (simp add: feed_inv)
  show ?thesis
  proof (cases "si_triggered ?s1")
    case False
    then show ?thesis using assms(2) trigger_inv [OF inv1 False] by (auto simp: sim_tick_def Let_def)
  next
    case True
    let ?s2 = "stage_tick rt cfg plan ?now elapsed (abort_tick rt plan ?now elapsed ?s1)"
    have inv2: "sim_inv cfg plan ?s2" using abort_inv [OF inv1 True] stage_inv by blast
    obtain v s3 where v: "sim_eval rt ?now (wk_Gate (pl_Wake plan)) ?s2 = (v, s3)" by force
    note f = sim_eval_frame [OF v]
    have inv3: "sim_inv cfg plan s3" using f(1) inv2 by simp
    let ?gate = "si_aborted ?s2 \<or> length (sh_Stages (pl_Shutdown plan)) \<le> si_currentStage ?s2"
    show ?thesis
    proof (cases "?gate \<and> v")
      case t: True
      then have g: "si_aborted s3 \<or> length (sh_Stages (pl_Shutdown plan)) \<le> si_currentStage s3" using f(3,5) by simp
      have trig: "si_triggered s3" using f(2) stage_triggered abort_inv [OF inv1 True] by simp
      have "stop" "s' = s3\<lparr>si_result := (si_result s3)\<lparr>rs_WakeGates := rs_WakeGates (si_result s3) @ [plain_event elapsed (pl_Name plan)],
          rs_Completed := True\<rparr>\<rparr>" using assms(2) True t v by (auto simp: sim_tick_def Let_def)
      then show ?thesis using report_of_inv [OF inv3, of "si_result s'" "plain_event elapsed (pl_Name plan)"] g trig by simp
    next
      case f: False
      have "\<not> stop \<and> (s' = s3 \<or> s' = ?s2)" using assms(2) True f v by (auto simp: sim_tick_def Let_def split: if_splits)
      then show ?thesis using inv2 inv3 by auto
    qed
  qed
qed

lemma loop_report:
  assumes "sim_loop rt cfg plan keys base script elapsed s = Some r"
  shows "sim_inv cfg plan s \<longrightarrow> final_report cfg plan r"
proof (rule sim_loop.raw_induct [OF _ assms, where P = "\<lambda>rt cfg plan keys base script elapsed s r.
      sim_inv cfg plan s \<longrightarrow> final_report cfg plan r"], rule impI)
  fix loop rt cfg plan keys base script elapsed s r
  assume IH: "\<And>rt cfg plan keys base script elapsed s r.
      loop rt cfg plan keys base script elapsed s = Some r \<Longrightarrow> sim_inv cfg plan s \<longrightarrow> final_report cfg plan r"
    and body: "(if elapsed \<le> tl_Duration script
       then case sim_tick rt cfg plan keys base elapsed s of (stop, s') \<Rightarrow>
         if stop then Some (si_result s') else loop rt cfg plan keys base script (wrap_int64 (elapsed + tl_Step script)) s'
       else Some (si_result s)) = Some r"
    and inv: "sim_inv cfg plan s"
  obtain stop s' where t: "sim_tick rt cfg plan keys base elapsed s = (stop, s')" by force
  have now: "final_report cfg plan (si_result s)" using report_of_inv inv by blast
  show "final_report cfg plan r"
    using body t now tick_inv [OF inv t] IH by (auto split: if_splits)
qed

text \<open>
  What a simulation reports is consistent. The stages are decided in the order of the plan, each
  entered or skipped, with all the clients it names; the point of no return is reported exactly when a
  stage so marked was entered, and then no abort is; nothing is reported before the trigger; and the
  wake gate is reported only after an abort or the last stage.
\<close>

theorem simulation_report:
  assumes "Run rt ins cfg script name base = Some (Inr r)" and "sim_findPlan cfg name = Some plan"
  shows "\<exists>entered. length entered \<le> length (sh_Stages (pl_Shutdown plan)) \<and> reports cfg plan entered r \<and>
    (rs_Aborts r = [] \<or> rs_PONR r = []) \<and> length (rs_Aborts r) \<le> 1 \<and> length (rs_Triggers r) \<le> 1 \<and>
    (rs_Triggers r = [] \<longrightarrow> entered = [] \<and> rs_Aborts r = []) \<and> (rs_Completed r \<longleftrightarrow> rs_WakeGates r \<noteq> []) \<and>
    (rs_Completed r \<longrightarrow> rs_Aborts r \<noteq> [] \<or> length entered = length (sh_Stages (pl_Shutdown plan)))"
proof -
  obtain st where "sim_loop rt cfg plan (remdups (map te_Fact (tl_Events script))) base script 0 (start_simulation name script st) = Some r"
    using assms by (auto simp: Run_def split: option.splits sum.splits)
  moreover have "sim_inv cfg plan (start_simulation name script st)"
    by (simp add: sim_inv_def start_simulation_def reports_def)
  ultimately have "final_report cfg plan r" using loop_report by blast
  then show ?thesis by (simp only: final_report_def)
qed

section \<open>The simulation and the daemon\<close>

datatype decision = Enters | Skips | Aborts | Waits

definition sim_decision :: "simulation \<Rightarrow> simulation \<Rightarrow> decision" where
  "sim_decision s s' =
     (if si_aborted s' then Aborts
      else if length (rs_Stages (si_result s)) < length (rs_Stages (si_result s')) then Enters
      else if length (rs_Skipped (si_result s)) < length (rs_Skipped (si_result s')) then Skips
      else Waits)"

fun pc_decision :: "nat \<Rightarrow> pc \<Rightarrow> decision" where
  "pc_decision i (StageRun _ _ _ _) = Enters"
| "pc_decision i (Settle _ _) = Aborts"
| "pc_decision i (StageLoop j) = (if j = Suc i then Skips else Waits)"
| "pc_decision i _ = Waits"

text \<open>A daemon and a simulation with the same facts and timers; a sequence left alone by the operator.\<close>

definition same_view :: "Executor \<Rightarrow> simulation \<Rightarrow> bool" where
  "same_view e s \<longleftrightarrow> si_store s = e_store e \<and> si_evaluator s = e_evaluator e"

definition left_alone :: "ActiveSequence \<Rightarrow> Executor \<Rightarrow> bool" where
  "left_alone a e \<longleftrightarrow> \<not> as_abortRequested a \<and> \<not> as_proceedRequested a \<and> \<not> e_cancelled e"

definition tick_conditions :: "PlanConfig \<Rightarrow> ConditionConfig set" where
  "tick_conditions plan =
     {pl_Trigger plan, wk_Gate (pl_Wake plan)} \<union> set_option (pl_Abort plan) \<union> sg_When ` set (sh_Stages (pl_Shutdown plan))"

lemma keeps_value:
  "collision_free rt S \<Longrightarrow> d \<in> S \<Longrightarrow> ev_inv rt ev \<Longrightarrow> keeps rt st now S ev ev' \<Longrightarrow>
     fst (Evaluate rt st now d ev') = fst (Evaluate rt st now d ev)"
  by (simp add: Evaluate_sem keeps_def same_sem_def)

abbreviation holds_at :: "engine_env \<Rightarrow> Executor \<Rightarrow> instant \<Rightarrow> ConditionConfig \<Rightarrow> bool" where
  "holds_at en e now c \<equiv> fst (Evaluate (en_rt en) (e_store e) now c (e_evaluator e)) = TTrue"

definition abort_holds :: "engine_env \<Rightarrow> Executor \<Rightarrow> instant \<Rightarrow> ActiveSequence \<Rightarrow> bool" where
  "abort_holds en e now a \<longleftrightarrow> \<not> sq_PonrCrossed (as_seq a) \<and>
     (case pl_Abort (as_plan a) of None \<Rightarrow> False | Some c \<Rightarrow> holds_at en e now c)"

lemma daemon_decision:
  assumes "collision_free (en_rt en) S" and "sg_When stage \<in> S" and "\<forall>c. pl_Abort (as_plan a) = Some c \<longrightarrow> c \<in> S"
    and "ev_inv (en_rt en) (e_evaluator e)" and "left_alone a e"
  shows "pc_decision i (fst (waitForStage en tk a stage i dl e)) =
    (if holds_at en e (tk_now tk) (sg_When stage) then Enters
     else if abort_holds en e (tk_now tk) a then Aborts
     else if dl \<le> tk_now tk \<and> sg_WaitPolicy stage \<noteq> WaitPolicyHold then Skips else Waits)"
proof -
  let ?c = "sg_When stage" and ?now = "tk_now tk"
  obtain v ev where v: "Evaluate (en_rt en) (e_store e) ?now ?c (e_evaluator e) = (v, ev)" by force
  have ev: "keeps (en_rt en) (e_store e) ?now S (e_evaluator e) ev"
    using Evaluate_keeps [OF assms(1,2,4), of "e_store e" ?now] v by simp
  have e1: "eval_cond en tk ?c e = (v = TTrue, e\<lparr>e_evaluator := ev\<rparr>)" using v by (simp add: eval_cond_def)
  have ab: "fst (shouldAbort en tk a (e\<lparr>e_evaluator := ev\<rparr>)) = abort_holds en e ?now a"
  proof (cases "pl_Abort (as_plan a)")
    case None
    then show ?thesis using assms(5) by (simp add: shouldAbort_def abort_holds_def left_alone_def)
  next
    case (Some c)
    have "fst (Evaluate (en_rt en) (e_store e) ?now c ev) = fst (Evaluate (en_rt en) (e_store e) ?now c (e_evaluator e))"
      by (rule keeps_value [OF assms(1) _ assms(4) ev]) (use assms(3) Some in blast)
    then show ?thesis using assms(5) Some
      by (auto simp: shouldAbort_def abort_holds_def left_alone_def eval_cond_def split: prod.splits)
  qed
  obtain sa e2 where sa: "shouldAbort en tk a (e\<lparr>e_evaluator := ev\<rparr>) = (sa, e2)" by force
  have "e_cancelled e2 = e_cancelled e" using sa by (auto simp: shouldAbort_def eval_cond_def split: if_splits option.splits prod.splits)
  then show ?thesis using v e1 ab sa assms(5)
    by (cases "v = TTrue")
      (auto simp: waitForStage_def enter_stage_def start_stage_def handleAbort_def handleStageTimeout_def ConsumeProceed_def
        left_alone_def WaitPolicySkip_def WaitPolicyHold_def Let_def split: bool.splits)
qed

text \<open>Evaluating conditions of the plan changes no value of another at the same instant.\<close>

definition sim_keeps :: "rt \<Rightarrow> instant \<Rightarrow> ConditionConfig set \<Rightarrow> simulation \<Rightarrow> simulation \<Rightarrow> bool" where
  "sim_keeps rt now S s s' \<longleftrightarrow> si_store s' = si_store s \<and> keeps rt (si_store s) now S (si_evaluator s) (si_evaluator s')"

lemma sim_keeps_trans: "sim_keeps rt now S a b \<Longrightarrow> sim_keeps rt now S b c \<Longrightarrow> sim_keeps rt now S a c"
  by (auto simp: sim_keeps_def intro: keeps_trans)

lemma sim_eval_value:
  assumes "collision_free rt S" and "c \<in> S" and "ev_inv rt (si_evaluator s0)" and "sim_keeps rt now S s0 s"
    and "sim_eval rt now c s = (v, s')"
  shows "v \<longleftrightarrow> fst (Evaluate rt (si_store s0) now c (si_evaluator s0)) = TTrue" "sim_keeps rt now S s0 s'"
proof -
  have inv: "ev_inv rt (si_evaluator s)" using assms(4) by (simp add: sim_keeps_def keeps_def)
  show "v \<longleftrightarrow> fst (Evaluate rt (si_store s0) now c (si_evaluator s0)) = TTrue"
    using assms(5) keeps_value [OF assms(1-3), of "si_store s0" now "si_evaluator s"] assms(4)
    by (auto simp: sim_eval_def sim_keeps_def split: prod.splits)
  have "sim_keeps rt now S s s'"
    using assms(5) Evaluate_keeps [OF assms(1,2) inv, of "si_store s" now] by (auto simp: sim_eval_def sim_keeps_def split: prod.splits)
  then show "sim_keeps rt now S s0 s'" by (rule sim_keeps_trans [OF assms(4)])
qed

lemma sim_keeps_refl: "ev_inv rt (si_evaluator s) \<Longrightarrow> sim_keeps rt now S s s"
  by (simp add: sim_keeps_def keeps_refl)

definition sim_abort_holds :: "rt \<Rightarrow> instant \<Rightarrow> PlanConfig \<Rightarrow> simulation \<Rightarrow> bool" where
  "sim_abort_holds rt now plan s \<longleftrightarrow> \<not> si_aborted s \<and> \<not> si_ponrCrossed s \<and>
     (case pl_Abort plan of None \<Rightarrow> False | Some c \<Rightarrow> fst (Evaluate rt (si_store s) now c (si_evaluator s)) = TTrue)"

lemma abort_tick_effect:
  assumes "collision_free rt S" and "set_option (pl_Abort plan) \<subseteq> S" and "ev_inv rt (si_evaluator s)"
    and "abort_tick rt plan now elapsed s = s'"
  shows "sim_keeps rt now S s s'" "si_aborted s' \<longleftrightarrow> si_aborted s \<or> sim_abort_holds rt now plan s"
    "si_currentStage s' = si_currentStage s" "si_stageEnteredAt s' = si_stageEnteredAt s"
    "rs_Stages (si_result s') = rs_Stages (si_result s)" "rs_Skipped (si_result s') = rs_Skipped (si_result s)"
proof -
  have "sim_keeps rt now S s s' \<and> (si_aborted s' \<longleftrightarrow> si_aborted s \<or> sim_abort_holds rt now plan s) \<and>
    si_currentStage s' = si_currentStage s \<and> si_stageEnteredAt s' = si_stageEnteredAt s \<and>
    rs_Stages (si_result s') = rs_Stages (si_result s) \<and> rs_Skipped (si_result s') = rs_Skipped (si_result s)"
  proof (cases "pl_Abort plan")
    case None
    then show ?thesis using assms(3,4) by (auto simp: abort_tick_def sim_abort_holds_def sim_keeps_refl split: if_splits)
  next
    case (Some c)
    obtain v s1 where v: "sim_eval rt now c s = (v, s1)" by force
    have c: "c \<in> S" using assms(2) Some by simp
    note x = sim_eval_value [OF assms(1) c assms(3) sim_keeps_refl [OF assms(3)] v] and f = sim_eval_frame [OF v]
    show ?thesis using assms(3,4) Some v x f
      by (cases v) (auto simp: abort_tick_def sim_abort_holds_def keeps_refl sim_keeps_def split: if_splits)
  qed
  then show "sim_keeps rt now S s s'" "si_aborted s' \<longleftrightarrow> si_aborted s \<or> sim_abort_holds rt now plan s"
    "si_currentStage s' = si_currentStage s" "si_stageEnteredAt s' = si_stageEnteredAt s"
    "rs_Stages (si_result s') = rs_Stages (si_result s)" "rs_Skipped (si_result s') = rs_Skipped (si_result s)" by simp_all
qed

text \<open>The stage a simulation is at, if it decides one at the tick.\<close>

abbreviation undecided :: "PlanConfig \<Rightarrow> simulation \<Rightarrow> bool" where
  "undecided plan s \<equiv> \<not> si_aborted s \<and> si_currentStage s < length (sh_Stages (pl_Shutdown plan))"

lemma stage_tick_effect:
  assumes "collision_free rt S" and "sg_When ` set (sh_Stages (pl_Shutdown plan)) \<subseteq> S" and "ev_inv rt (si_evaluator s0)"
    and "sim_keeps rt now S s0 s" and "stage_tick rt cfg plan now elapsed s = s'"
    and "stage = sh_Stages (pl_Shutdown plan) ! si_currentStage s"
  shows "sim_keeps rt now S s0 s'" "si_aborted s' = si_aborted s"
    "undecided plan s \<Longrightarrow> sim_decision s s' =
      (if fst (Evaluate rt (si_store s0) now (sg_When stage) (si_evaluator s0)) = TTrue then Enters
       else if stageTimedOut rt stage elapsed (si_stageEnteredAt s) then Skips else Waits)"
    "\<not> undecided plan s \<Longrightarrow> s' = s"
proof -
  show "\<not> undecided plan s \<Longrightarrow> s' = s" using assms(5) by (auto simp: stage_tick_def Let_def)
  then have idle: "\<not> undecided plan s \<Longrightarrow> sim_keeps rt now S s0 s' \<and> si_aborted s' = si_aborted s" using assms(4) by simp
  have "sim_keeps rt now S s0 s' \<and> si_aborted s' = si_aborted s \<and> sim_decision s s' =
      (if fst (Evaluate rt (si_store s0) now (sg_When stage) (si_evaluator s0)) = TTrue then Enters
       else if stageTimedOut rt stage elapsed (si_stageEnteredAt s) then Skips else Waits)" if u: "undecided plan s"
  proof -
    obtain v s1 where v: "sim_eval rt now (sg_When stage) s = (v, s1)" by force
    have c: "sg_When stage \<in> S" using assms(2,6) u by auto
    note x = sim_eval_value [OF assms(1) c assms(3,4) v] and f = sim_eval_frame [OF v]
    have "s' = (if v then enter_sim cfg stage elapsed s1
        else if stageTimedOut rt stage elapsed (si_stageEnteredAt s1) then skip_sim cfg stage elapsed s1 else s1)"
      using assms(5,6) u v by (cases v) (auto simp: stage_tick_def Let_def)
    then show ?thesis using x f u by (simp add: sim_decision_def enter_sim_def skip_sim_def sim_keeps_def Let_def)
  qed
  with idle show "sim_keeps rt now S s0 s'" "si_aborted s' = si_aborted s"
    "undecided plan s \<Longrightarrow> sim_decision s s' =
      (if fst (Evaluate rt (si_store s0) now (sg_When stage) (si_evaluator s0)) = TTrue then Enters
       else if stageTimedOut rt stage elapsed (si_stageEnteredAt s) then Skips else Waits)" by blast+
qed

lemma feed_frame:
  "si_evaluator (feed keys now elapsed s) = si_evaluator s" "si_aborted (feed keys now elapsed s) = si_aborted s"
  "si_ponrCrossed (feed keys now elapsed s) = si_ponrCrossed s" "si_currentStage (feed keys now elapsed s) = si_currentStage s"
  "si_stageEnteredAt (feed keys now elapsed s) = si_stageEnteredAt s" "si_result (feed keys now elapsed s) = si_result s"
  by (simp_all add: feed_def split: prod.split)

text \<open>The gate of a tick: looked at once the stages are over, and the last thing of the tick.\<close>

lemma gate_effect:
  assumes "collision_free rt S" and "wk_Gate (pl_Wake plan) \<in> S" and "ev_inv rt (si_evaluator s0)" and "sim_keeps rt now S s0 s2"
    and "(if \<not> undecided plan s2 then
            (case sim_eval rt now (wk_Gate (pl_Wake plan)) s2 of
               (True, s3) \<Rightarrow> (True, s3\<lparr>si_result := (si_result s3)
                  \<lparr>rs_WakeGates := rs_WakeGates (si_result s3) @ [x], rs_Completed := True\<rparr>\<rparr>)
             | (False, s3) \<Rightarrow> (False, s3))
          else (False, s2)) = (stop, s')"
  shows "stop \<longleftrightarrow> \<not> undecided plan s2 \<and> fst (Evaluate rt (si_store s0) now (wk_Gate (pl_Wake plan)) (si_evaluator s0)) = TTrue"
    "undecided plan s' = undecided plan s2" "si_aborted s' = si_aborted s2"
    "rs_Stages (si_result s') = rs_Stages (si_result s2)" "rs_Skipped (si_result s') = rs_Skipped (si_result s2)"
proof -
  obtain v s3 where v: "sim_eval rt now (wk_Gate (pl_Wake plan)) s2 = (v, s3)" by force
  note x = sim_eval_value [OF assms(1-4) v] and f = sim_eval_frame [OF v]
  show "stop \<longleftrightarrow> \<not> undecided plan s2 \<and> fst (Evaluate rt (si_store s0) now (wk_Gate (pl_Wake plan)) (si_evaluator s0)) = TTrue"
    "undecided plan s' = undecided plan s2" "si_aborted s' = si_aborted s2"
    "rs_Stages (si_result s') = rs_Stages (si_result s2)" "rs_Skipped (si_result s') = rs_Skipped (si_result s2)"
    using assms(5) v x(1) f by (cases v; auto split: if_splits)+
qed

text \<open>
  C38. The simulation decides as the daemon does, tick by tick. Take a tick of the loop and a daemon that at
  the same instant has the facts as the tick has fed them, and the same timers. Before the trigger, the
  tick triggers exactly when the daemon's evaluation of the plan starts a sequence. At a stage whose
  deadline is the simulated one, the tick enters, skips, aborts or waits exactly as \<open>waitForStage\<close> of a
  sequence the operator leaves alone, unless the entry condition and a live abort condition hold
  together: then the simulation aborts and the daemon enters the stage. And with the stages over, the
  simulation ends exactly when the daemon at its gate goes on to wake.
\<close>

theorem simulation_decides_as_daemon:
  assumes "sim_tick (en_rt en) (en_cfg en) plan keys base elapsed s = (stop, s')"
    and "same_view e (feed keys (base + elapsed) elapsed s)" and "tk_now tk = base + elapsed"
    and "collision_free (en_rt en) S" and "tick_conditions plan \<subseteq> S" and "ev_inv (en_rt en) (e_evaluator e)"
    and "si_triggered s \<longrightarrow> as_plan a = plan \<and> left_alone a e \<and> (sq_PonrCrossed (as_seq a) \<longleftrightarrow> si_ponrCrossed s)"
    and "\<not> si_triggered s \<longrightarrow> e_active e = None \<and> e_mode e \<noteq> ModeDisarmed"
    and "- (2 ^ 63) \<le> elapsed - si_stageEnteredAt s" and "elapsed - si_stageEnteredAt s < 2 ^ 63"
  shows "if \<not> si_triggered s then \<not> stop \<and> (si_triggered s' \<longleftrightarrow> fst (evaluate_plans en (tk_now tk) (e_mode e) [plan] e))
    else (stop \<longleftrightarrow> \<not> undecided plan s' \<and> (\<exists>order. fst (runWake en tk a e) = WakeNext order 0)) \<and>
      (undecided plan s \<longrightarrow>
        (let i = si_currentStage s; stage = sh_Stages (pl_Shutdown plan) ! i;
             dl = tk_now tk - elapsed + si_stageEnteredAt s + fst (Duration (en_rt en) (sg_WaitTimeout stage) DefaultWaitTimeout);
             daemon = pc_decision i (fst (waitForStage en tk a stage i dl e))
         in if abort_holds en e (tk_now tk) a \<and> holds_at en e (tk_now tk) (sg_When stage)
            then sim_decision s s' = Aborts \<and> daemon = Enters
            else sim_decision s s' = daemon))"
proof -
  let ?rt = "en_rt en" and ?now = "base + elapsed"
  let ?s0 = "feed keys ?now elapsed s"
  have view: "si_store ?s0 = e_store e" "si_evaluator ?s0 = e_evaluator e" using assms(2) by (simp_all add: same_view_def)
  have inv: "ev_inv ?rt (si_evaluator ?s0)" using assms(6) view by simp
  show ?thesis
  proof (cases "si_triggered s")
    case False
    obtain v ev where v: "Evaluate ?rt (e_store e) ?now (pl_Trigger plan) (e_evaluator e) = (v, ev)" by force
    show ?thesis using False assms(1,3,8) v view
      by (auto simp: sim_tick_def trigger_tick_def sim_eval_def setActiveSequence_def newSequenceFor_def Let_def
          split: prod.split bool.splits if_splits)
  next
    case True
    note a = assms(7) [rule_format, OF True]
    let ?s1 = "abort_tick ?rt plan ?now elapsed ?s0"
    let ?s2 = "stage_tick ?rt (en_cfg en) plan ?now elapsed ?s1"
    have S: "set_option (pl_Abort plan) \<subseteq> S" "sg_When ` set (sh_Stages (pl_Shutdown plan)) \<subseteq> S" "wk_Gate (pl_Wake plan) \<in> S"
      using assms(5) by (auto simp: tick_conditions_def)
    note ab = abort_tick_effect [OF assms(4) S(1) inv refl, of ?now elapsed]
    note sg = stage_tick_effect [OF assms(4) S(2) inv ab(1) refl refl, of "en_cfg en" elapsed]
    have tick: "(if \<not> undecided plan ?s2 then
            (case sim_eval ?rt ?now (wk_Gate (pl_Wake plan)) ?s2 of
               (True, s3) \<Rightarrow> (True, s3\<lparr>si_result := (si_result s3)
                  \<lparr>rs_WakeGates := rs_WakeGates (si_result s3) @ [plain_event elapsed (pl_Name plan)], rs_Completed := True\<rparr>\<rparr>)
             | (False, s3) \<Rightarrow> (False, s3))
          else (False, ?s2)) = (stop, s')"
      using assms(1) True by (auto simp: sim_tick_def Let_def not_less split: if_splits)
    note g = gate_effect [OF assms(4) S(3) inv sg(1) tick]
    have gate: "(\<exists>order. fst (runWake en tk a e) = WakeNext order 0) \<longleftrightarrow> holds_at en e ?now (wk_Gate (pl_Wake plan))"
      using a assms(3) by (auto simp: runWake_def eval_cond_def left_alone_def split: prod.split bool.split)
    have stop: "stop \<longleftrightarrow> \<not> undecided plan s' \<and> (\<exists>order. fst (runWake en tk a e) = WakeNext order 0)"
      using g(1,2) gate view by simp
    have "let i = si_currentStage s; stage = sh_Stages (pl_Shutdown plan) ! i;
             dl = tk_now tk - elapsed + si_stageEnteredAt s + fst (Duration ?rt (sg_WaitTimeout stage) DefaultWaitTimeout);
             daemon = pc_decision i (fst (waitForStage en tk a stage i dl e))
         in if abort_holds en e (tk_now tk) a \<and> holds_at en e (tk_now tk) (sg_When stage)
            then sim_decision s s' = Aborts \<and> daemon = Enters
            else sim_decision s s' = daemon" if u: "undecided plan s"
    proof -
      let ?stage = "sh_Stages (pl_Shutdown plan) ! si_currentStage s"
      let ?dl = "tk_now tk - elapsed + si_stageEnteredAt s + fst (Duration ?rt (sg_WaitTimeout ?stage) DefaultWaitTimeout)"
      have to: "stageTimedOut ?rt ?stage elapsed (si_stageEnteredAt s) \<longleftrightarrow> ?dl \<le> tk_now tk \<and> sg_WaitPolicy ?stage \<noteq> WaitPolicyHold"
        by (auto simp: stageTimedOut_def wrap_int64_id [OF assms(9,10)])
      have W: "sg_When ?stage \<in> S" using S(2) u by auto
      have holds: "sim_abort_holds ?rt ?now plan ?s0 = abort_holds en e (tk_now tk) a"
        using a u view assms(3) by (simp add: sim_abort_holds_def abort_holds_def feed_frame split: option.split)
      have d: "sim_decision s s' = sim_decision ?s1 ?s2"
        using g(3-5) ab(5,6) by (simp add: sim_decision_def feed_frame)
      have dec: "sim_decision s s' = (if abort_holds en e (tk_now tk) a then Aborts
          else if holds_at en e (tk_now tk) (sg_When ?stage) then Enters
          else if ?dl \<le> tk_now tk \<and> sg_WaitPolicy ?stage \<noteq> WaitPolicyHold then Skips else Waits)"
      proof (cases "abort_holds en e (tk_now tk) a")
        case True
        then have "si_aborted ?s2" using ab(2) holds sg(2) by simp
        then show ?thesis using True d by (simp add: sim_decision_def)
      next
        case False
        then have "undecided plan ?s1" using ab(2,3) holds u by (simp add: feed_frame)
        from sg(3) [OF this] show ?thesis using False d to ab(3,4) view assms(3) by (simp add: feed_frame)
      qed
      have "pc_decision (si_currentStage s) (fst (waitForStage en tk a ?stage (si_currentStage s) ?dl e)) =
          (if holds_at en e (tk_now tk) (sg_When ?stage) then Enters
           else if abort_holds en e (tk_now tk) a then Aborts
           else if ?dl \<le> tk_now tk \<and> sg_WaitPolicy ?stage \<noteq> WaitPolicyHold then Skips else Waits)"
        by (rule daemon_decision [OF assms(4) W _ assms(6)]) (use a S(1) in auto)
      then show ?thesis unfolding Let_def dec by simp
    qed
    then show ?thesis using True stop by simp
  qed
qed

end
