(* ===== verification/Net_Addr.thy ===== *)
theory Net_Addr
  imports Netutil Conditions
begin

text \<open>
  Network addresses: what the program uses of Go's package \<open>net\<close> (\<open>ParseIP\<close>, \<open>ParseCIDR\<close>,
  \<open>IPNet.Contains\<close>, \<open>SplitHostPort\<close>, \<open>JoinHostPort\<close>), the helpers of \<open>internal/netutil/addr.go\<close> and
  \<open>neighbour.go\<close>, and the magic packets of \<open>modules/wol/wol.go\<close>.
\<close>

section \<open>net.ParseIP\<close>

type_synonym ip = "octet list"

fun split_on :: "char \<Rightarrow> string \<Rightarrow> string list" where
  "split_on c [] = [[]]"
| "split_on c (x # xs) =
     (if x = c then [] # split_on c xs
      else case split_on c xs of w # ws \<Rightarrow> (x # w) # ws | [] \<Rightarrow> [[x]])"

definition decimal :: "string \<Rightarrow> nat" where
  "decimal ds = foldl (\<lambda>n d. 10 * n + (of_char d - 48)) 0 ds"

definition hexadecimal :: "string \<Rightarrow> nat" where
  "hexadecimal ds = foldl (\<lambda>n d. 16 * n + the (hex_val d)) 0 ds"

definition ip4_field :: "string \<Rightarrow> octet option" where
  "ip4_field f =
     (if f = [] \<or> \<not> list_all is_digit f \<or> (length f > 1 \<and> hd f = CHR ''0'') \<or> length f > 3 \<or> decimal f > 255 then None
      else Some (of_nat (decimal f)))"

fun all_some :: "'a option list \<Rightarrow> 'a list option" where
  "all_some [] = Some []"
| "all_some (None # xs) = None"
| "all_some (Some x # xs) = map_option ((#) x) (all_some xs)"

definition parseIPv4Fields :: "string \<Rightarrow> octet list option" where
  "parseIPv4Fields s =
     (let fs = split_on (CHR ''.'') s
      in if length fs \<noteq> 4 then None else all_some (map ip4_field fs))"

lemma dropWhile_two: "x # y # us = dropWhile P s \<Longrightarrow> Suc (Suc (length us)) \<le> length s"
  by (metis length_Cons length_dropWhile_le)

text \<open>
  The loop of \<open>parseIPv6\<close>: the rest of the text, the octets so far and where the ellipsis was. The
  result is as at the end of the loop.
\<close>

function (sequential) ip6_loop :: "string \<Rightarrow> octet list \<Rightarrow> nat option \<Rightarrow> (string \<times> octet list \<times> nat option) option" where
  "ip6_loop s ip el =
     (if 16 \<le> length ip then Some (s, ip, el)
      else let ds = takeWhile (\<lambda>c. hex_val c \<noteq> None) s; rest = dropWhile (\<lambda>c. hex_val c \<noteq> None) s
           in if ds = [] \<or> length ds > 4 then None
              else if rest \<noteq> [] \<and> hd rest = CHR ''.'' then
                (if (el = None \<and> length ip \<noteq> 12) \<or> length ip + 4 > 16 then None
                 else map_option (\<lambda>q. ([], ip @ q, el)) (parseIPv4Fields s))
              else let ip' = ip @ [of_nat (hexadecimal ds div 256), of_nat (hexadecimal ds mod 256)]
                   in case rest of
                        [] \<Rightarrow> Some ([], ip', el)
                      | [_] \<Rightarrow> None
                      | c # d # us \<Rightarrow>
                          if c \<noteq> CHR '':'' then None
                          else if d = CHR '':'' then
                            (if el \<noteq> None then None
                             else if us = [] then Some ([], ip', Some (length ip'))
                             else ip6_loop us ip' (Some (length ip')))
                          else ip6_loop (d # us) ip' el)"
  by pat_completeness auto
termination
  by (relation "measure (\<lambda>(s, _, _). length s)") (auto dest!: dropWhile_two)

declare ip6_loop.simps [simp del]

definition parseIPv6 :: "string \<Rightarrow> octet list option" where
  "parseIPv6 s =
     (let lead = HasPrefix s ''::''; s1 = (if lead then drop 2 s else s)
      in if lead \<and> s1 = [] then Some (replicate 16 0)
         else case ip6_loop s1 [] (if lead then Some 0 else None) of
                None \<Rightarrow> None
              | Some (rest, ip, el) \<Rightarrow>
                  if rest \<noteq> [] then None
                  else if length ip < 16 then
                    (case el of None \<Rightarrow> None
                     | Some k \<Rightarrow> Some (take k ip @ replicate (16 - length ip) 0 @ drop k ip))
                  else if el \<noteq> None then None else Some ip)"

definition v4InV6Prefix :: "octet list" where
  "v4InV6Prefix = replicate 10 0 @ [255, 255]"

text \<open>The form is decided by the first dot or colon; zones are refused.\<close>

definition net_ParseIP :: "string \<Rightarrow> ip option" where
  "net_ParseIP s =
     (case find (\<lambda>c. c = CHR ''.'' \<or> c = CHR '':'' \<or> c = CHR ''%'') s of
        None \<Rightarrow> None
      | Some c \<Rightarrow>
          if c = CHR ''.'' then map_option ((@) v4InV6Prefix) (parseIPv4Fields s)
          else if c = CHR '':'' \<and> CHR ''%'' \<notin> set s then parseIPv6 s
          else None)"

definition To4 :: "ip \<Rightarrow> octet list option" where
  "To4 ip =
     (if length ip = 4 then Some ip
      else if length ip = 16 \<and> take 12 ip = v4InV6Prefix then Some (drop 12 ip)
      else None)"

definition IP_Equal :: "ip \<Rightarrow> ip \<Rightarrow> bool" where
  "IP_Equal a b \<longleftrightarrow>
     (if length a = length b then a = b
      else if length a = 4 \<and> length b = 16 then b = v4InV6Prefix @ a
      else length a = 16 \<and> length b = 4 \<and> a = v4InV6Prefix @ b)"

section \<open>Networks\<close>

record IPNet =
  n_IP :: ip
  n_Mask :: "octet list"

text \<open>\<open>CIDRMask ones bits\<close>, octet by octet.\<close>

definition mask_octet :: "nat \<Rightarrow> octet" where
  "mask_octet ones = of_nat (256 - 2 ^ (8 - min 8 ones))"

definition CIDRMask :: "nat \<Rightarrow> nat \<Rightarrow> octet list" where
  "CIDRMask ones bits = map (\<lambda>i. mask_octet (ones - 8 * i)) [0..<bits div 8]"

definition IP_Mask :: "ip \<Rightarrow> octet list \<Rightarrow> ip option" where
  "IP_Mask ip msk =
     (let m = (if length msk = 16 \<and> length ip = 4 \<and> take 12 msk = replicate 12 255 then drop 12 msk else msk);
          i = (if length m = 4 \<and> length ip = 16 \<and> take 12 ip = v4InV6Prefix then drop 12 ip else ip)
      in if length i \<noteq> length m then None else Some (map2 (AND) i m))"

definition network_number :: "IPNet \<Rightarrow> (ip \<times> octet list) option" where
  "network_number n =
     (let ip = (case To4 (n_IP n) of Some q \<Rightarrow> q | None \<Rightarrow> n_IP n)
      in if length ip \<notin> {4, 16} then None
         else if length (n_Mask n) = length ip then Some (ip, n_Mask n)
         else if length (n_Mask n) = 16 \<and> length ip = 4 then Some (ip, drop 12 (n_Mask n))
         else None)"

definition IPNet_Contains :: "IPNet \<Rightarrow> ip \<Rightarrow> bool" where
  "IPNet_Contains n ip \<longleftrightarrow>
     (case network_number n of
        None \<Rightarrow> False
      | Some (nn, m) \<Rightarrow>
          let x = (case To4 ip of Some q \<Rightarrow> q | None \<Rightarrow> ip)
          in length x = length nn \<and> map2 (AND) nn m = map2 (AND) x m)"

definition net_ParseCIDR :: "string \<Rightarrow> IPNet option" where
  "net_ParseCIDR s =
     (case Cut s (CHR ''/'') of
        None \<Rightarrow> None
      | Some (addr, msk) \<Rightarrow>
          (case net_ParseIP addr of
             None \<Rightarrow> None
           | Some ip \<Rightarrow>
               (let bits = (if CHR '':'' \<in> set addr then 128 else 32)
                in if msk = [] \<or> \<not> list_all is_digit msk \<or> decimal msk > bits then None
                   else let m = CIDRMask (decimal msk) bits
                        in map_option (\<lambda>i. \<lparr>n_IP = i, n_Mask = m\<rparr>) (IP_Mask ip m))))"

section \<open>Hosts and ports\<close>

definition net_SplitHostPort :: "string \<Rightarrow> (string \<times> string) option" where
  "net_SplitHostPort hp =
     (case Cut (rev hp) (CHR '':'') of
        None \<Rightarrow> None
      | Some (rport, rrest) \<Rightarrow>
          (let port = rev rport; before = rev rrest
           in if hp \<noteq> [] \<and> hd hp = CHR ''['' then
                (case Cut hp (CHR '']'') of
                   None \<Rightarrow> None
                 | Some (open_host, after) \<Rightarrow>
                     if length after \<noteq> length port + 1 \<or> hd after \<noteq> CHR '':'' then None
                     else let host = tl open_host
                          in if CHR ''['' \<in> set host \<union> set after \<or> CHR '']'' \<in> set after then None
                             else Some (host, port))
              else if CHR '':'' \<in> set before \<or> CHR ''['' \<in> set hp \<or> CHR '']'' \<in> set hp then None
              else Some (before, port)))"

definition net_JoinHostPort :: "string \<Rightarrow> string \<Rightarrow> string" where
  "net_JoinHostPort host port =
     (if CHR '':'' \<in> set host \<or> CHR ''%'' \<in> set host then ''['' @ host @ '']:'' @ port else host @ '':'' @ port)"

text \<open>\<open>HostPort\<close> of \<open>internal/netutil/addr.go\<close>.\<close>

definition HostPort :: "string \<Rightarrow> int \<Rightarrow> string" where
  "HostPort host port = net_JoinHostPort host (show_int port)"

text \<open>
  \<open>parseNeighbourMAC\<close> of \<open>internal/netutil/neighbour.go\<close>, on the lines of the table;
  \<open>strconv.ParseUint(s, 16, 32)\<close> accepts hexadecimal digits only and values below \<open>2 ^ 32\<close>.
\<close>

definition parse_flags :: "string \<Rightarrow> nat option" where
  "parse_flags s =
     (let ds = TrimPrefix s ''0x''
      in if ds = [] \<or> \<not> list_all (\<lambda>c. hex_val c \<noteq> None) ds \<or> hexadecimal ds \<ge> 2 ^ 32 then None else Some (hexadecimal ds))"

definition neighbour_line :: "ip \<Rightarrow> string \<Rightarrow> string option" where
  "neighbour_line want line =
     (case Fields line of
        addr # _ # flags # hw # _ \<Rightarrow>
          (case net_ParseIP addr of
             None \<Rightarrow> None
           | Some got \<Rightarrow>
               if \<not> IP_Equal got want then None
               else case parse_flags flags of
                      None \<Rightarrow> None
                    | Some f \<Rightarrow>
                        if f AND 2 = 0 then None
                        else case net_ParseMAC hw of
                               None \<Rightarrow> None
                             | Some mac \<Rightarrow> if list_all (\<lambda>b. b = 0) mac then None else Some (HardwareAddr_String mac))
      | _ \<Rightarrow> None)"

definition parseNeighbourMAC :: "string list \<Rightarrow> string \<Rightarrow> string" where
  "parseNeighbourMAC lines ip =
     (case net_ParseIP ip of
        None \<Rightarrow> []
      | Some want \<Rightarrow> (case List.map_filter (neighbour_line want) lines of [] \<Rightarrow> [] | m # _ \<Rightarrow> m))"

section \<open>Joining and splitting\<close>

lemma Cut_rev: "c \<notin> set b \<Longrightarrow> Cut (rev (a @ c # b)) c = Some (rev b, rev a)"
  by simp

text \<open>
  A dial address is taken apart into what it was made of, for every host without brackets and every
  port without colons and brackets, IPv6 literals and zones included.
\<close>

lemma Split_Join:
  assumes "CHR ''['' \<notin> set host" and "CHR '']'' \<notin> set host"
    and "CHR '':'' \<notin> set port" and "CHR ''['' \<notin> set port" and "CHR '']'' \<notin> set port"
  shows "net_SplitHostPort (net_JoinHostPort host port) = Some (host, port)"
proof (cases "CHR '':'' \<in> set host \<or> CHR ''%'' \<in> set host")
  case True
  let ?hp = "''['' @ host @ '']:'' @ port"
  have c: "Cut (rev ?hp) (CHR '':'') = Some (rev port, rev (''['' @ host @ '']''))"
    using Cut_rev [OF assms(3), of "''['' @ host @ '']''"] by simp
  have "Cut ?hp (CHR '']'') = Some (''['' @ host, '':'' @ port)" using Cut_append [of "CHR '']''" "''['' @ host" "'':'' @ port"] assms(2) by simp
  then show ?thesis using c True assms by (simp add: net_SplitHostPort_def net_JoinHostPort_def Let_def)
next
  case False
  have c: "Cut (rev (host @ '':'' @ port)) (CHR '':'') = Some (rev port, rev host)" using Cut_rev [OF assms(3), of host] by simp
  have "\<not> (host @ '':'' @ port \<noteq> [] \<and> hd (host @ '':'' @ port) = CHR ''['')" using assms(1) by (cases host) auto
  then show ?thesis using c False assms unfolding net_SplitHostPort_def net_JoinHostPort_def by (simp del: rev_append)
qed

section \<open>Hexadecimal text\<close>

fun hex_DecodeString :: "string \<Rightarrow> octet list option" where
  "hex_DecodeString [] = Some []"
| "hex_DecodeString [_] = None"
| "hex_DecodeString (a # b # rest) =
     (case (hex_val a, hex_val b) of
        (Some x, Some y) \<Rightarrow> map_option ((#) (of_nat (16 * x + y))) (hex_DecodeString rest)
      | _ \<Rightarrow> None)"

lemma decode_octets: "hex_DecodeString (concat (map octet_string bs)) = Some bs"
  by (induction bs) (simp_all add: octet_string_def hex_val_digit octet_bounds mult_div_mod_eq)

end
