(* ===== verification/Wol.thy ===== *)
theory Wol
  imports Net_Addr Engine_Types
begin

text \<open>
  The wake-on-LAN transport (\<open>modules/wol/wol.go\<close>): its settings, the broadcast address it sends to,
  the magic packet and the sends.
\<close>

section \<open>Settings\<close>

record wol_transport =
  wt_repeatCount :: int
  wt_repeatDelay :: duration
  wt_port :: int

definition defaultRepeatCount :: int where "defaultRepeatCount = 3"
definition defaultRepeatDelay :: duration where "defaultRepeatDelay = 500 * Millisecond"
definition defaultWOLPort :: int where "defaultWOLPort = 9"
definition globalBroadcast :: string where "globalBroadcast = ''255.255.255.255''"

definition wol_New :: "WOLTransportConfig \<Rightarrow> wol_transport" where
  "wol_New cfg =
     \<lparr>wt_repeatCount = (if wol_RepeatCount cfg \<le> 0 then defaultRepeatCount else wol_RepeatCount cfg),
      wt_repeatDelay = (if wol_RepeatDelay cfg = [] then defaultRepeatDelay
                        else case time_ParseDuration (wol_RepeatDelay cfg) of Some d \<Rightarrow> d | None \<Rightarrow> defaultRepeatDelay),
      wt_port = (if wol_Port cfg \<le> 0 then defaultWOLPort else wol_Port cfg)\<rparr>"

section \<open>The broadcast address\<close>

definition ip4_string :: "octet list \<Rightarrow> string" where
  "ip4_string ip = concat (map (\<lambda>(i, b). (if i = 0 then [] else ''.'') @ show_nat (unat b)) (enumerate 0 ip))"

text \<open>\<open>IPMask.Size\<close>: the leading ones, when the rest is zero.\<close>

definition octet_ones :: "octet \<Rightarrow> nat option" where
  "octet_ones b = find (\<lambda>n. b = mask_octet n) [0..<9]"

fun mask_ones :: "octet list \<Rightarrow> nat option" where
  "mask_ones [] = Some 0"
| "mask_ones (b # bs) =
     (if b = 255 then map_option ((+) 8) (mask_ones bs)
      else if list_all (\<lambda>x. x = 0) bs then octet_ones b else None)"

definition IPMask_Size :: "octet list \<Rightarrow> nat \<times> nat" where
  "IPMask_Size m = (case mask_ones m of None \<Rightarrow> (0, 0) | Some n \<Rightarrow> (n, 8 * length m))"

definition normalizeMask :: "octet list \<Rightarrow> octet list option" where
  "normalizeMask m =
     (if length m = 4 then Some m
      else if length m = 16 then
        (case IPMask_Size m of (ones, bits) \<Rightarrow>
           if bits \<noteq> 128 \<or> ones < 96 then None else Some (CIDRMask (ones - 96) 32))
      else None)"

definition broadcastFromCIDR :: "ip \<Rightarrow> octet list \<Rightarrow> string" where
  "broadcastFromCIDR ip m =
     (case To4 ip of
        None \<Rightarrow> globalBroadcast
      | Some ip4 \<Rightarrow>
          (case normalizeMask m of
             None \<Rightarrow> globalBroadcast
           | Some m4 \<Rightarrow> ip4_string (map2 (\<lambda>a b. a OR NOT b) ip4 m4)))"

text \<open>
  \<open>ifaces\<close> are the networks of the host's interfaces, \<open>None\<close> when they cannot be listed.
\<close>

definition inferBroadcast :: "IPNet list option \<Rightarrow> string \<Rightarrow> string" where
  "inferBroadcast ifaces clientIP =
     (case net_ParseIP clientIP of
        None \<Rightarrow> []
      | Some ip0 \<Rightarrow>
          (case To4 ip0 of
             None \<Rightarrow> []
           | Some ip \<Rightarrow>
               (case ifaces of
                  None \<Rightarrow> broadcastFromCIDR ip (CIDRMask 24 32)
                | Some nets \<Rightarrow>
                    (case find (\<lambda>n. To4 (n_IP n) \<noteq> None \<and> IPNet_Contains n ip) nets of
                       Some n \<Rightarrow> broadcastFromCIDR ip (n_Mask n)
                     | None \<Rightarrow> broadcastFromCIDR ip (CIDRMask 24 32)))))"

section \<open>The magic packet\<close>

definition remove_char :: "char \<Rightarrow> string \<Rightarrow> string" where
  "remove_char c s = filter (\<lambda>x. x \<noteq> c) s"

text \<open>\<open>copy(packet[at:], bytes)\<close>.\<close>

definition copy_at :: "nat \<Rightarrow> 'a list \<Rightarrow> 'a list \<Rightarrow> 'a list" where
  "copy_at i bs p = take i p @ take (length p - i) bs @ drop (i + length bs) p"

definition buildMagicPacket :: "string \<Rightarrow> octet list res" where
  "buildMagicPacket macAddr =
     (let m = ToLower (remove_char (CHR ''-'') (remove_char (CHR '':'') macAddr))
      in if length m \<noteq> 12 then Inl (''invalid MAC address length: '' @ m)
         else case hex_DecodeString m of
                None \<Rightarrow> Inl ''invalid MAC address''
              | Some bytes \<Rightarrow>
                  (let packet = fold (\<lambda>i p. p[i := 255]) [0..<6] (replicate 102 0)
                   in Inr (fold (\<lambda>i. copy_at (6 + i * 6) bytes) [0..<16] packet)))"

section \<open>Execute\<close>

text \<open>
  The loop of sends: \<open>send i\<close> is the error of the \<open>i\<close>-th send and \<open>cancelled i\<close> whether the context
  ends in the pause after it. The result comes with the number of packets sent.
\<close>

fun send_loop :: "(nat \<Rightarrow> string option) \<Rightarrow> (nat \<Rightarrow> bool) \<Rightarrow> string \<Rightarrow> nat \<Rightarrow> nat \<Rightarrow> nat \<times> (bool \<times> string) res" where
  "send_loop send cancelled done i 0 = (i, Inr (True, done))"
| "send_loop send cancelled done i (Suc n) =
     (case send i of
        Some err \<Rightarrow> (i, Inl err)
      | None \<Rightarrow> (if n > 0 \<and> cancelled i then (Suc i, Inl ''context canceled'')
                 else send_loop send cancelled done (Suc i) n))"

definition wake_mac :: "Client \<Rightarrow> string" where
  "wake_mac c =
     (case ec_WakeConfig c of
        None \<Rightarrow> ec_MAC c
      | Some w \<Rightarrow> (if wc_MAC w \<noteq> [] then wc_MAC w else ec_MAC c))"

definition wake_broadcast :: "IPNet list option \<Rightarrow> Client \<Rightarrow> string" where
  "wake_broadcast ifaces c =
     (let b0 = (case ec_WakeConfig c of None \<Rightarrow> [] | Some w \<Rightarrow> wc_Broadcast w);
          b1 = (if b0 = [] \<and> ec_Address c \<noteq> [] then inferBroadcast ifaces (ec_Address c) else b0)
      in if b1 = [] then globalBroadcast else b1)"

record sent_packets =
  sp_to :: string
  sp_packet :: "octet list"
  sp_count :: nat

definition wol_Execute ::
  "wol_transport \<Rightarrow> IPNet list option \<Rightarrow> (nat \<Rightarrow> string option) \<Rightarrow> (nat \<Rightarrow> bool) \<Rightarrow> Client \<Rightarrow> ActionType \<Rightarrow>
     sent_packets option \<times> (bool \<times> string) res" where
  "wol_Execute t ifaces send cancelled client action =
     (if action \<noteq> ActionWake then (None, Inl ''wol transport only supports wake action'')
      else let mac = wake_mac client
           in if mac = [] then (None, Inl (''no MAC address configured for client '' @ ec_Name client))
              else let broadcast = wake_broadcast ifaces client
                   in case buildMagicPacket mac of
                        Inl err \<Rightarrow> (None, Inl (''building magic packet: '' @ err))
                      | Inr packet \<Rightarrow>
                          (case send_loop send cancelled
                                  (''sent '' @ show_int (wt_repeatCount t) @ '' magic packets to '' @ mac @ '' via '' @
                                   broadcast @ '':'' @ show_int (wt_port t)) 0 (nat (wt_repeatCount t)) of
                             (n, r) \<Rightarrow> (Some \<lparr>sp_to = HostPort broadcast (wt_port t), sp_packet = packet, sp_count = n\<rparr>, r)))"

section \<open>The packet of a normalised address\<close>

lemma hex_digit_plain:
  assumes "n < 16"
  shows "hex_digit n \<noteq> CHR '':''" "hex_digit n \<noteq> CHR ''-''" "lower_char (hex_digit n) = hex_digit n"
proof -
  have "n \<in> set [0..<16]" using assms by simp
  moreover have "list_all (\<lambda>n. hex_digit n \<noteq> CHR '':'' \<and> hex_digit n \<noteq> CHR ''-'' \<and> lower_char (hex_digit n) = hex_digit n) [0..<16]"
    by code_simp
  ultimately show "hex_digit n \<noteq> CHR '':''" "hex_digit n \<noteq> CHR ''-''" "lower_char (hex_digit n) = hex_digit n"
    unfolding list_all_iff by blast+
qed

lemma bare_octet: "remove_char (CHR '':'') (octet_string b) = octet_string b" "remove_char (CHR ''-'') (octet_string b) = octet_string b"
  "ToLower (octet_string b) = octet_string b"
  by (simp_all add: octet_string_def remove_char_def ToLower_def hex_digit_plain octet_bounds)

lemma remove_append: "remove_char c (xs @ ys) = remove_char c xs @ remove_char c ys"
  by (simp add: remove_char_def)

lemma bare_String: "remove_char (CHR '':'') (HardwareAddr_String bs) = concat (map octet_string bs)"
  by (induction bs rule: HardwareAddr_String.induct)
    (simp_all add: bare_octet remove_append, simp_all add: remove_char_def)

lemma bare_octets: "ToLower (remove_char (CHR ''-'') (concat (map octet_string bs))) = concat (map octet_string bs)"
  by (induction bs) (simp_all add: remove_append bare_octet ToLower_def remove_char_def, simp_all add: bare_octet [unfolded ToLower_def remove_char_def])

lemma length_octets: "length (concat (map octet_string bs)) = 2 * length bs"
  by (induction bs) (simp_all add: octet_string_def)

lemma copies:
  assumes "length bs = 6" and "6 + 6 * n \<le> length p"
  shows "fold (\<lambda>i. copy_at (6 + i * 6) bs) [0..<n] p = take 6 p @ concat (replicate n bs) @ drop (6 + 6 * n) p"
  using assms(2)
proof (induction n)
  case 0
  then show ?case by simp
next
  case (Suc n)
  let ?q = "take 6 p @ concat (replicate n bs) @ drop (6 + 6 * n) p"
  have q: "fold (\<lambda>i. copy_at (6 + i * 6) bs) [0..<n] p = ?q" using Suc by simp
  have l: "length (concat (replicate n bs)) = 6 * n" using assms(1) by (induction n) simp_all
  have "copy_at (6 + n * 6) bs ?q = take 6 p @ concat (replicate n bs) @ bs @ drop (12 + 6 * n) p"
    using Suc.prems l assms(1) by (simp add: copy_at_def)
  moreover have "concat (replicate (Suc n) bs) = concat (replicate n bs) @ bs"
    by (simp only: replicate_Suc replicate_append_same [symmetric] concat_append) simp
  ultimately show ?case using q by simp
qed

text \<open>
  Whatever address the daemon has normalised, learned from a device or found in the neighbour table,
  the transport builds from it the magic packet of that address: six octets of ones, then the address
  sixteen times.
\<close>

theorem magic_packet_of_normalised:
  assumes "NormaliseMAC s = Some m"
  shows "\<exists>hw. net_ParseMAC m = Some hw \<and> length hw = 6 \<and>
    buildMagicPacket m = Inr (replicate 6 255 @ concat (replicate 16 hw))"
proof -
  obtain hw where hw: "length hw = 6" "m = HardwareAddr_String hw"
    using assms by (auto simp: NormaliseMAC_def split: option.splits if_splits)
  have "fold (\<lambda>i p. p[i := (255 :: octet)]) [0..<6] (replicate 102 0) = replicate 6 255 @ replicate 96 0"
    by code_simp
  then have "buildMagicPacket m = Inr (replicate 6 255 @ concat (replicate 16 hw))"
    using copies [OF hw(1), of 16 "replicate 6 255 @ replicate 96 0"] hw(1)
    by (simp add: buildMagicPacket_def hw(2) bare_String bare_octets length_octets decode_octets)
  then show ?thesis using ParseMAC_String [OF hw(1)] hw by blast
qed

end
