(* ===== verification/Limiter.thy ===== *)
theory Limiter
  imports Net_Addr
begin

text \<open>
  Who may try to log in: the failure limiter and the source address of a request
  (\<open>internal/api/ratelimit.go\<close>), and the proxies whose headers are believed (\<open>proxy.go\<close>). A time
  that may be the zero time is an option.
\<close>

section \<open>The failure limiter\<close>

record failureEntry =
  fe_failures :: nat
  fe_firstFailed :: instant
  fe_lockedUntil :: "instant option"

record failureLimiter =
  fl_entries :: "string \<rightharpoonup> failureEntry"
  fl_maxFailures :: nat
  fl_window :: duration
  fl_lockout :: duration
  fl_lastGC :: "instant option"

definition maxLoginFailures :: nat where "maxLoginFailures = 5"
definition maxSetupAttempts :: nat where "maxSetupAttempts = 3"
definition failureWindow :: duration where "failureWindow = 15 * Minute"
definition lockoutDuration :: duration where "lockoutDuration = 15 * Minute"
definition limiterGCInterval :: duration where "limiterGCInterval = 10 * Minute"

definition newFailureLimiter :: "nat \<Rightarrow> duration \<Rightarrow> duration \<Rightarrow> failureLimiter" where
  "newFailureLimiter m w l =
     \<lparr>fl_entries = Map.empty, fl_maxFailures = m, fl_window = w, fl_lockout = l, fl_lastGC = None\<rparr>"

definition locked_at :: "instant \<Rightarrow> failureEntry \<Rightarrow> bool" where
  "locked_at now e \<longleftrightarrow> (case fe_lockedUntil e of None \<Rightarrow> False | Some t \<Rightarrow> now < t)"

definition gc_expired :: "failureLimiter \<Rightarrow> instant \<Rightarrow> failureEntry \<Rightarrow> bool" where
  "gc_expired l now e \<longleftrightarrow>
     (case fe_lockedUntil e of None \<Rightarrow> True | Some t \<Rightarrow> t < now) \<and> now - fe_firstFailed e > fl_window l"

definition gcLocked :: "instant \<Rightarrow> failureLimiter \<Rightarrow> failureLimiter" where
  "gcLocked now l =
     (if (case fl_lastGC l of None \<Rightarrow> False | Some t \<Rightarrow> now - t < limiterGCInterval) then l
      else l\<lparr>fl_lastGC := Some now,
             fl_entries := (\<lambda>k. case fl_entries l k of
                None \<Rightarrow> None
              | Some e \<Rightarrow> if gc_expired l now e then None else Some e)\<rparr>)"

text \<open>\<open>Allow\<close> without the sweep, then \<open>Allow\<close>.\<close>

definition allow :: "instant \<Rightarrow> string \<Rightarrow> failureLimiter \<Rightarrow> (bool \<times> duration) \<times> failureLimiter" where
  "allow now key l =
     (case fl_entries l key of
        None \<Rightarrow> ((True, 0), l)
      | Some e \<Rightarrow>
          if locked_at now e then ((False, the (fe_lockedUntil e) - now), l)
          else if fe_lockedUntil e \<noteq> None \<or> now - fe_firstFailed e > fl_window l
          then ((True, 0), l\<lparr>fl_entries := (fl_entries l)(key := None)\<rparr>)
          else ((True, 0), l))"

definition Allow :: "instant \<Rightarrow> string \<Rightarrow> failureLimiter \<Rightarrow> (bool \<times> duration) \<times> failureLimiter" where
  "Allow now key l = allow now key (gcLocked now l)"

definition RecordFailure :: "instant \<Rightarrow> string \<Rightarrow> failureLimiter \<Rightarrow> failureLimiter" where
  "RecordFailure now key l =
     (let fresh = l\<lparr>fl_entries := (fl_entries l)(key \<mapsto>
             \<lparr>fe_failures = 1, fe_firstFailed = now, fe_lockedUntil = None\<rparr>)\<rparr>
      in case fl_entries l key of
           None \<Rightarrow> fresh
         | Some e \<Rightarrow>
             if now - fe_firstFailed e > fl_window l then fresh
             else let e' = e\<lparr>fe_failures := Suc (fe_failures e)\<rparr>
                  in l\<lparr>fl_entries := (fl_entries l)(key \<mapsto>
                       (if fl_maxFailures l \<le> fe_failures e' then e'\<lparr>fe_lockedUntil := Some (now + fl_lockout l)\<rparr> else e'))\<rparr>)"

definition Reset :: "string \<Rightarrow> failureLimiter \<Rightarrow> failureLimiter" where
  "Reset key l = l\<lparr>fl_entries := (fl_entries l)(key := None)\<rparr>"

section \<open>Proxies and the source of a request\<close>

record request =
  rq_RemoteAddr :: string
  rq_Header :: "string \<Rightarrow> string"
  rq_Cookie :: "string option"
  rq_TLS :: bool

record proxyTruster =
  px_enabled :: bool
  px_networks :: "IPNet list"

definition defaultTrustedProxies :: "string list" where
  "defaultTrustedProxies =
     [''127.0.0.0/8'', ''::1/128'', ''10.0.0.0/8'', ''172.16.0.0/12'', ''192.168.0.0/16'', ''fc00::/7'']"

text \<open>An entry of the list; one that does not parse is dropped.\<close>

definition proxy_network :: "string \<Rightarrow> IPNet option" where
  "proxy_network entry0 =
     (let entry = TrimSpace entry0
      in if entry = [] then None
         else if CHR ''/'' \<notin> set entry then
           (case net_ParseIP entry of
              None \<Rightarrow> net_ParseCIDR entry
            | Some ip \<Rightarrow>
                (let bits = (if To4 ip = None then 128 else 32)
                 in Some \<lparr>n_IP = ip, n_Mask = CIDRMask bits bits\<rparr>))
         else net_ParseCIDR entry)"

definition newProxyTruster :: "bool \<Rightarrow> string list \<Rightarrow> proxyTruster" where
  "newProxyTruster enabled cidrs =
     (if \<not> enabled then \<lparr>px_enabled = False, px_networks = []\<rparr>
      else \<lparr>px_enabled = True,
            px_networks = List.map_filter proxy_network (if cidrs = [] then defaultTrustedProxies else cidrs)\<rparr>)"

definition remote_host :: "request \<Rightarrow> string" where
  "remote_host r = (case net_SplitHostPort (rq_RemoteAddr r) of None \<Rightarrow> rq_RemoteAddr r | Some (host, _) \<Rightarrow> host)"

definition trusts :: "proxyTruster \<Rightarrow> request \<Rightarrow> bool" where
  "trusts t r \<longleftrightarrow>
     px_enabled t \<and> px_networks t \<noteq> [] \<and>
     (case net_ParseIP (TrimSpace (remote_host r)) of
        None \<Rightarrow> False
      | Some ip \<Rightarrow> list_ex (\<lambda>n. IPNet_Contains n ip) (px_networks t))"

definition clientIP :: "request \<Rightarrow> bool \<Rightarrow> string" where
  "clientIP r trustProxy =
     (let xff = rq_Header r ''X-Forwarded-For'';
          first = TrimSpace (case Cut xff (CHR '','') of Some (a, _) \<Rightarrow> a | None \<Rightarrow> xff);
          real = TrimSpace (rq_Header r ''X-Real-IP'')
      in if trustProxy \<and> xff \<noteq> [] \<and> first \<noteq> [] then first
         else if trustProxy \<and> real \<noteq> [] then real
         else remote_host r)"

section \<open>The sweep changes no decision\<close>

text \<open>
  The limiter as it would be without the sweep: the same operations, with \<open>allow\<close> for \<open>Allow\<close>. A
  limiter agrees with it when they differ only in entries that no longer matter.
\<close>

datatype limiter_op = OpAllow instant string | OpFail instant string | OpReset string

fun op_at :: "limiter_op \<Rightarrow> instant \<Rightarrow> instant" where
  "op_at (OpAllow t _) _ = t"
| "op_at (OpFail t _) _ = t"
| "op_at (OpReset _) now = now"

fun limiter_step :: "limiter_op \<Rightarrow> failureLimiter \<Rightarrow> (bool \<times> duration) option \<times> failureLimiter" where
  "limiter_step (OpAllow t k) l = (case Allow t k l of (d, l') \<Rightarrow> (Some d, l'))"
| "limiter_step (OpFail t k) l = (None, RecordFailure t k l)"
| "limiter_step (OpReset k) l = (None, Reset k l)"

fun plain_step :: "limiter_op \<Rightarrow> failureLimiter \<Rightarrow> (bool \<times> duration) option \<times> failureLimiter" where
  "plain_step (OpAllow t k) l = (case allow t k l of (d, l') \<Rightarrow> (Some d, l'))"
| "plain_step (OpFail t k) l = (None, RecordFailure t k l)"
| "plain_step (OpReset k) l = (None, Reset k l)"

fun decisions :: "(limiter_op \<Rightarrow> failureLimiter \<Rightarrow> (bool \<times> duration) option \<times> failureLimiter) \<Rightarrow>
    limiter_op list \<Rightarrow> failureLimiter \<Rightarrow> (bool \<times> duration) option list" where
  "decisions step [] l = []"
| "decisions step (x # xs) l = (case step x l of (d, l') \<Rightarrow> d # decisions step xs l')"

fun in_order :: "instant \<Rightarrow> limiter_op list \<Rightarrow> bool" where
  "in_order now [] = True"
| "in_order now (x # xs) \<longleftrightarrow> now \<le> op_at x now \<and> in_order (op_at x now) xs"

text \<open>The abstraction relation at an instant.\<close>

definition agrees :: "instant \<Rightarrow> failureLimiter \<Rightarrow> failureLimiter \<Rightarrow> bool" where
  "agrees now l p \<longleftrightarrow> fl_maxFailures l = fl_maxFailures p \<and> fl_window l = fl_window p \<and> fl_lockout l = fl_lockout p \<and>
     (\<forall>k. fl_entries l k = fl_entries p k \<or>
        fl_entries l k = None \<and> (\<exists>e. fl_entries p k = Some e \<and> gc_expired p now e))"

lemma gc_expired_mono: "gc_expired l now e \<Longrightarrow> now \<le> t \<Longrightarrow> gc_expired l t e"
  by (auto simp: gc_expired_def split: option.splits)

lemma gc_expired_cong: "fl_window l = fl_window p \<Longrightarrow> gc_expired l = gc_expired p"
  by (simp add: gc_expired_def fun_eq_iff)

lemma agrees_later: "agrees now l p \<Longrightarrow> now \<le> t \<Longrightarrow> agrees t l p"
  unfolding agrees_def using gc_expired_mono by blast

lemma gc_expired_update [simp]: "gc_expired (l\<lparr>fl_entries := f\<rparr>) = gc_expired l"
  by (simp add: gc_expired_def fun_eq_iff)

lemma agreesE:
  assumes "agrees now l p"
  obtains "fl_entries l k = fl_entries p k"
  | e where "fl_entries l k = None" "fl_entries p k = Some e" "gc_expired p now e"
  using assms by (auto simp: agrees_def)

lemma agrees_gc:
  assumes "agrees now l p"
  shows "agrees now (gcLocked now l) p"
proof -
  have g: "gc_expired l = gc_expired p" using assms by (intro gc_expired_cong) (simp add: agrees_def)
  show ?thesis
  proof (cases "case fl_lastGC l of None \<Rightarrow> False | Some t \<Rightarrow> now - t < limiterGCInterval")
    case False
    then have e: "fl_entries (gcLocked now l) k = (case fl_entries l k of None \<Rightarrow> None
        | Some e \<Rightarrow> if gc_expired p now e then None else Some e)" for k
      by (cases "fl_entries l k") (simp_all add: gcLocked_def g)
    have "fl_entries (gcLocked now l) k = fl_entries p k \<or>
        fl_entries (gcLocked now l) k = None \<and> (\<exists>e. fl_entries p k = Some e \<and> gc_expired p now e)" for k
      using assms unfolding e by (cases rule: agreesE [where k = k]) (auto split: option.split)
    then show ?thesis using assms False by (simp add: agrees_def gcLocked_def)
  qed (use assms in \<open>simp add: gcLocked_def\<close>)
qed

lemma agrees_update:
  "agrees now l p \<Longrightarrow> agrees now (l\<lparr>fl_entries := (fl_entries l)(k := v)\<rparr>) (p\<lparr>fl_entries := (fl_entries p)(k := v)\<rparr>)"
  by (simp add: agrees_def)

lemma agrees_forget:
  "agrees now l p \<Longrightarrow> fl_entries l k = None \<Longrightarrow> agrees now l (p\<lparr>fl_entries := (fl_entries p)(k := None)\<rparr>)"
  by (simp add: agrees_def)

lemma gc_not_locked: "gc_expired p now e \<Longrightarrow> \<not> locked_at now e \<and> now - fe_firstFailed e > fl_window p"
  by (auto simp: gc_expired_def locked_at_def split: option.splits)

lemma agrees_allow:
  assumes "agrees now l p" and "allow now k l = (d, l')" and "allow now k p = (d', p')"
  shows "d = d' \<and> agrees now l' p'"
  using assms(1)
proof (cases rule: agreesE [where k = k])
  case 1
  have "fl_window l = fl_window p" using assms(1) by (simp add: agrees_def)
  then show ?thesis using assms 1 agrees_update [OF assms(1), of k None]
    by (cases "fl_entries p k") (auto simp: allow_def split: if_splits)
next
  case (2 e)
  then show ?thesis using assms agrees_forget [OF assms(1), of k] gc_not_locked [OF 2(3)] by (auto simp: allow_def)
qed

lemma agrees_record:
  assumes "agrees now l p"
  shows "agrees now (RecordFailure now k l) (RecordFailure now k p)"
  using assms
proof (cases rule: agreesE [where k = k])
  case 1
  have "fl_window l = fl_window p" "fl_maxFailures l = fl_maxFailures p" "fl_lockout l = fl_lockout p"
    using assms by (simp_all add: agrees_def)
  then show ?thesis using 1 agrees_update [OF assms, of k]
    by (cases "fl_entries p k") (simp_all add: RecordFailure_def Let_def)
next
  case (2 e)
  then show ?thesis using agrees_update [OF assms, of k] gc_not_locked [OF 2(3)] by (simp add: RecordFailure_def Let_def)
qed

lemma agrees_step:
  assumes "agrees now l p" and "now \<le> op_at x now" and "limiter_step x l = (d, l')" and "plain_step x p = (d', p')"
  shows "d = d' \<and> agrees (op_at x now) l' p'"
proof -
  have a: "agrees (op_at x now) l p" using assms(1,2) by (rule agrees_later)
  show ?thesis
  proof (cases x)
    case (OpAllow t k)
    then have al: "agrees t (gcLocked t l) p" using agrees_gc a by simp
    obtain d1 d2 where "allow t k (gcLocked t l) = (d1, l')" "d = Some d1" "allow t k p = (d2, p')" "d' = Some d2"
      using OpAllow assms(3,4) by (simp add: Allow_def split: prod.splits)
    then show ?thesis using agrees_allow [OF al] OpAllow by simp
  next
    case (OpFail t k)
    then show ?thesis using agrees_record [of t l p k] a assms(3,4) by simp
  next
    case (OpReset k)
    then show ?thesis using agrees_update [OF a, of k None] assms(3,4) by (simp add: Reset_def)
  qed
qed

text \<open>
  C31. Sweeping the limiter's memory is invisible: for every sequence of operations in the order of time,
  it decides and delays each attempt exactly as the limiter that never forgets an entry.
\<close>

theorem limiter_refines_unbounded:
  assumes "in_order now xs"
  shows "decisions limiter_step xs (newFailureLimiter m w t) = decisions plain_step xs (newFailureLimiter m w t)"
proof -
  have "agrees now l p \<Longrightarrow> in_order now xs \<Longrightarrow> decisions limiter_step xs l = decisions plain_step xs p" for now l p
  proof (induction xs arbitrary: now l p)
    case (Cons x xs)
    obtain d l' d' p' where s: "limiter_step x l = (d, l')" "plain_step x p = (d', p')" by (metis surj_pair)
    from agrees_step [OF Cons.prems(1) _ s] Cons.prems(2) have "d = d' \<and> agrees (op_at x now) l' p'" by simp
    then show ?case using s Cons.IH [of "op_at x now" l' p'] Cons.prems(2) by simp
  qed simp
  moreover have "agrees now (newFailureLimiter m w t) (newFailureLimiter m w t)" by (simp add: agrees_def)
  ultimately show ?thesis using assms by blast
qed

section \<open>Failures lock a source out\<close>

definition after_ops :: "limiter_op list \<Rightarrow> failureLimiter \<Rightarrow> failureLimiter" where
  "after_ops xs l = fold (\<lambda>x l. snd (limiter_step x l)) xs l"

fun fails :: "string \<Rightarrow> limiter_op \<Rightarrow> bool" where
  "fails k (OpFail _ k') \<longleftrightarrow> k' = k"
| "fails k _ = False"

text \<open>What the limiter knows of a source that failed \<open>n\<close> times since \<open>t0\<close> and is not locked out yet.\<close>

definition knows_failures :: "instant \<Rightarrow> string \<Rightarrow> nat \<Rightarrow> failureLimiter \<Rightarrow> bool" where
  "knows_failures t0 k n l \<longleftrightarrow>
     (if n = 0 then fl_entries l k = None
      else \<exists>e. fl_entries l k = Some e \<and> fe_failures e = n \<and> t0 \<le> fe_firstFailed e \<and> fe_lockedUntil e = None)"

text \<open>A source that is locked out until \<open>u\<close>.\<close>

definition locked_out :: "instant \<Rightarrow> string \<Rightarrow> failureLimiter \<Rightarrow> bool" where
  "locked_out u k l \<longleftrightarrow> (\<exists>e. fl_entries l k = Some e \<and> fe_lockedUntil e = Some u)"

definition settings :: "failureLimiter \<Rightarrow> nat \<times> duration \<times> duration" where
  "settings l = (fl_maxFailures l, fl_window l, fl_lockout l)"

lemma settings_update: "settings (l\<lparr>fl_entries := f\<rparr>) = settings l" "settings (l\<lparr>fl_lastGC := t, fl_entries := f\<rparr>) = settings l"
  by (simp_all add: settings_def)

lemma settings_gc [simp]: "settings (gcLocked now l) = settings l"
  by (simp add: gcLocked_def settings_def)

lemma settings_allow [simp]: "settings (snd (allow now k l)) = settings l"
  unfolding allow_def by (cases "fl_entries l k") (simp_all only: option.case snd_conv settings_update split: if_split, simp_all)

lemma settings_record [simp]: "settings (RecordFailure now k l) = settings l"
  unfolding RecordFailure_def Let_def
  by (cases "fl_entries l k") (simp_all only: option.case settings_update split: if_split, simp_all)

lemma settings_reset [simp]: "settings (Reset k l) = settings l"
  unfolding Reset_def by (rule settings_update)

lemma settings_step [simp]: "settings (snd (limiter_step x l)) = settings l"
  by (cases x) (simp_all add: Allow_def case_prod_beta)

lemma knows_gc:
  assumes "knows_failures t0 k n l" and "now \<le> t0 + fl_window l"
  shows "knows_failures t0 k n (gcLocked now l)"
  using assms by (auto simp: knows_failures_def gcLocked_def gc_expired_def split: option.splits if_splits)

lemma knows_reset:
  assumes "k' \<noteq> k"
  shows "fl_entries (Reset k' l) k = fl_entries l k"
  using assms by (simp add: Reset_def)

lemma knows_step:
  assumes "knows_failures t0 k n l" and "x \<noteq> OpReset k" and "t0 \<le> op_at x t0" and "op_at x t0 \<le> t0 + fl_window l"
    and "Suc n < fl_maxFailures l \<or> \<not> fails k x"
  shows "knows_failures t0 k (n + (if fails k x then 1 else 0)) (snd (limiter_step x l))"
proof (cases x)
  case (OpAllow t k')
  have "knows_failures t0 k n (gcLocked t l)" using knows_gc [OF assms(1)] assms(4) OpAllow by simp
  moreover have "settings (gcLocked t l) = settings l" by simp
  ultimately show ?thesis using assms OpAllow
    by (auto simp: Allow_def allow_def knows_failures_def locked_at_def settings_def split: option.splits prod.splits if_splits)
next
  case (OpFail t k')
  then show ?thesis using assms
    by (auto simp: RecordFailure_def knows_failures_def Let_def split: option.splits if_splits)
next
  case (OpReset k')
  then have "k' \<noteq> k" using assms(2) by auto
  then show ?thesis using OpReset assms(1) unfolding knows_failures_def by (simp add: knows_reset)
qed

text \<open>The failure that is one too many locks the source out.\<close>

lemma last_failure_locks:
  assumes "knows_failures t0 k n l" and "Suc n = fl_maxFailures l" and "0 < n" and "t0 \<le> t" and "t \<le> t0 + fl_window l"
  shows "locked_out (t + fl_lockout l) k (RecordFailure t k l)"
  using assms by (auto simp: RecordFailure_def knows_failures_def locked_out_def Let_def)

lemma locked_step:
  assumes "locked_out u k l" and "x \<noteq> OpReset k" and "\<not> fails k x" and "op_at x t1 < u"
  shows "locked_out u k (snd (limiter_step x l))"
proof (cases x)
  case (OpAllow t k')
  have "locked_out u k (gcLocked t l)" using assms(1,4) OpAllow
    by (auto simp: locked_out_def gcLocked_def gc_expired_def split: option.splits)
  then show ?thesis using assms(4) OpAllow
    by (auto simp: Allow_def allow_def locked_out_def locked_at_def split: option.splits prod.splits if_splits)
next
  case (OpFail t k')
  then show ?thesis using assms by (auto simp: RecordFailure_def locked_out_def Let_def split: option.splits if_splits)
next
  case (OpReset k')
  then have "k' \<noteq> k" using assms(2) by auto
  then show ?thesis using OpReset assms(1) unfolding locked_out_def by (simp add: knows_reset)
qed

lemma locked_refused:
  assumes "locked_out u k l" and "t < u"
  shows "fst (Allow t k l) = (False, u - t)"
  using assms by (auto simp: locked_out_def Allow_def allow_def gcLocked_def gc_expired_def locked_at_def split: option.splits)

text \<open>
  C18. Guessing is throttled. Take any state of the limiter in which nothing is held against a source. When the
  source then fails as often as is allowed (twice at least) within the window, with no success in between, it is
  refused from the last of these failures on until the whole lockout has passed since that failure, and
  told how long that still is; whatever other sources do in between, and however often it asks.
\<close>

theorem failures_lock_out:
  assumes "2 \<le> fl_maxFailures l" and "fl_entries l k = None"
    and "list_all (\<lambda>x. x \<noteq> OpReset k \<and> t0 \<le> op_at x t0 \<and> op_at x t0 \<le> t0 + fl_window l) (xs @ [OpFail t1 k])"
    and "length (filter (fails k) (xs @ [OpFail t1 k])) = fl_maxFailures l"
    and "list_all (\<lambda>y. y \<noteq> OpReset k \<and> \<not> fails k y \<and> op_at y t1 < t1 + fl_lockout l) ys"
    and "t < t1 + fl_lockout l"
  shows "fst (Allow t k (after_ops (xs @ [OpFail t1 k] @ ys) l)) = (False, t1 + fl_lockout l - t)"
proof -
  have run: "knows_failures t0 k (length (filter (fails k) zs)) (after_ops zs l) \<and> settings (after_ops zs l) = settings l"
    if "list_all (\<lambda>x. x \<noteq> OpReset k \<and> t0 \<le> op_at x t0 \<and> op_at x t0 \<le> t0 + fl_window l) zs"
      "length (filter (fails k) zs) < fl_maxFailures l" for zs
    using that
  proof (induction zs rule: rev_induct)
    case Nil
    show ?case using assms(2) by (simp add: knows_failures_def after_ops_def)
  next
    case (snoc x zs)
    let ?l = "after_ops zs l"
    have IH: "knows_failures t0 k (length (filter (fails k) zs)) ?l" "settings ?l = settings l"
      using snoc by (simp_all split: if_splits)
    have "knows_failures t0 k (length (filter (fails k) zs) + (if fails k x then 1 else 0)) (snd (limiter_step x ?l))"
      by (rule knows_step [OF IH(1)]) (use snoc.prems IH(2) in \<open>auto simp: settings_def split: if_splits\<close>)
    then show ?case using IH(2) by (auto simp: after_ops_def split: if_splits)
  qed
  let ?l = "after_ops xs l" and ?u = "t1 + fl_lockout l"
  have n: "Suc (length (filter (fails k) xs)) = fl_maxFailures l" using assms(4) by simp
  have r: "knows_failures t0 k (length (filter (fails k) xs)) ?l" "settings ?l = settings l" using run [of xs] assms(3) n by simp_all
  have pos: "0 < length (filter (fails k) xs)" using n assms(1) by linarith
  have "locked_out ?u k (RecordFailure t1 k ?l)"
    using last_failure_locks [OF r(1) _ pos, of t1] r(2) n assms(3) by (simp add: settings_def)
  then have locked: "locked_out ?u k (after_ops zs (RecordFailure t1 k ?l))"
    if "list_all (\<lambda>y. y \<noteq> OpReset k \<and> \<not> fails k y \<and> op_at y t1 < ?u) zs" for zs
    using that by (induction zs rule: rev_induct) (auto simp: after_ops_def intro!: locked_step)
  have "after_ops (xs @ [OpFail t1 k] @ ys) l = after_ops ys (RecordFailure t1 k ?l)" by (simp add: after_ops_def)
  then show ?thesis using locked_refused [OF locked [OF assms(5)] assms(6)] by simp
qed

end
