(* ===== verification/Sessions.thy ===== *)
theory Sessions
  imports Net_Addr State_DB
begin

text \<open>
  Credentials: the tables of login sessions and API tokens (\<open>internal/state/sessions.go\<close>,
  \<open>tokens.go\<close>), the commands that manage tokens (\<open>cmd/canarium/token.go\<close>), and passwords
  (\<open>internal/api/password.go\<close>).
\<close>

section \<open>Cryptography\<close>

text \<open>
  SHA-256 is a function to 32 octets. \<open>cr_generate salt p\<close> is bcrypt's hash of \<open>p\<close> with the random
  salt drawn, \<open>None\<close> for an error; \<open>cr_compare\<close> checks a password against a stored hash.
\<close>

record crypto =
  cr_sha256 :: "string \<Rightarrow> octet list"
  cr_generate :: "string \<Rightarrow> string \<Rightarrow> string option"
  cr_compare :: "string \<Rightarrow> string \<Rightarrow> bool"

definition hex_EncodeToString :: "octet list \<Rightarrow> string" where
  "hex_EncodeToString bs = concat (map octet_string bs)"

definition b64_char :: "nat \<Rightarrow> char" where
  "b64_char n =
     (if n < 26 then char_of (65 + n) else if n < 52 then char_of (71 + n) else if n < 62 then char_of (n - 4)
      else if n = 62 then CHR ''+'' else CHR ''/'')"

text \<open>\<open>base64.RawStdEncoding\<close>: no padding.\<close>

fun b64_encode :: "octet list \<Rightarrow> string" where
  "b64_encode [] = []"
| "b64_encode [a] = [b64_char (unat a div 4), b64_char (unat a mod 4 * 16)]"
| "b64_encode [a, b] =
     [b64_char (unat a div 4), b64_char (unat a mod 4 * 16 + unat b div 16), b64_char (unat b mod 16 * 4)]"
| "b64_encode (a # b # c # rest) =
     b64_char (unat a div 4) # b64_char (unat a mod 4 * 16 + unat b div 16) #
     b64_char (unat b mod 16 * 4 + unat c div 64) # b64_char (unat c mod 64) # b64_encode rest"

section \<open>Passwords\<close>

definition bcryptPrehash :: "crypto \<Rightarrow> string \<Rightarrow> string" where
  "bcryptPrehash cr password = b64_encode (cr_sha256 cr password)"

definition hashPassword :: "crypto \<Rightarrow> string \<Rightarrow> string \<Rightarrow> string option" where
  "hashPassword cr salt password = cr_generate cr salt (bcryptPrehash cr password)"

definition isLegacySHA256Hash :: "string \<Rightarrow> bool" where
  "isLegacySHA256Hash stored \<longleftrightarrow>
     \<not> HasPrefix stored ''$2'' \<and> length stored = 64 \<and> hex_DecodeString stored \<noteq> None"

definition verifyPassword :: "crypto \<Rightarrow> string \<Rightarrow> string \<Rightarrow> bool \<times> bool" where
  "verifyPassword cr stored supplied =
     (if stored = [] then (False, False)
      else if isLegacySHA256Hash stored then
        (if hex_EncodeToString (cr_sha256 cr supplied) = stored then (True, True) else (False, False))
      else (cr_compare cr stored (bcryptPrehash cr supplied), False))"

definition MinPasswordLength :: nat where "MinPasswordLength = 12"
definition MaxPasswordLength :: nat where "MaxPasswordLength = 1024"

datatype weak_password = TooShort | TooLong | OnlyWhitespace

definition validatePasswordStrength :: "string \<Rightarrow> weak_password option" where
  "validatePasswordStrength password =
     (if length password < MinPasswordLength then Some TooShort
      else if length password > MaxPasswordLength then Some TooLong
      else if TrimSpace password = [] then Some OnlyWhitespace
      else None)"

definition hashToken :: "crypto \<Rightarrow> string \<Rightarrow> string" where
  "hashToken cr token = hex_EncodeToString (cr_sha256 cr token)"

section \<open>Sessions\<close>

text \<open>Seconds since the epoch, as the table stores them.\<close>

definition Unix :: "instant \<Rightarrow> int" where
  "Unix now = now div Second"

record session =
  ses_token_hash :: string
  ses_created_at :: int
  ses_expires_at :: int

record token_row =
  ar_token_hash :: string
  ar_name :: string
  ar_scope :: string
  ar_created_at :: instant
  ar_last_used_at :: "instant option"

record auth_tables =
  at_sessions :: "session list"
  at_tokens :: "token_row list"

definition CreateSession :: "instant \<Rightarrow> string \<Rightarrow> duration \<Rightarrow> auth_tables \<Rightarrow> auth_tables" where
  "CreateSession now h ttl t =
     t\<lparr>at_sessions := filter (\<lambda>s. ses_token_hash s \<noteq> h) (at_sessions t) @
        [\<lparr>ses_token_hash = h, ses_created_at = Unix now, ses_expires_at = Unix (now + ttl)\<rparr>]\<rparr>"

definition SessionIsValid :: "instant \<Rightarrow> string \<Rightarrow> auth_tables \<Rightarrow> bool" where
  "SessionIsValid now h t \<longleftrightarrow>
     length (filter (\<lambda>s. ses_token_hash s = h \<and> Unix now < ses_expires_at s) (at_sessions t)) > 0"

definition DeleteSession :: "string \<Rightarrow> auth_tables \<Rightarrow> auth_tables" where
  "DeleteSession h t = t\<lparr>at_sessions := filter (\<lambda>s. ses_token_hash s \<noteq> h) (at_sessions t)\<rparr>"

definition DeleteExpiredSessions :: "instant \<Rightarrow> auth_tables \<Rightarrow> nat \<times> auth_tables" where
  "DeleteExpiredSessions now t =
     (length (filter (\<lambda>s. ses_expires_at s \<le> Unix now) (at_sessions t)),
      t\<lparr>at_sessions := filter (\<lambda>s. \<not> ses_expires_at s \<le> Unix now) (at_sessions t)\<rparr>)"

definition DeleteAllSessions :: "auth_tables \<Rightarrow> nat \<times> auth_tables" where
  "DeleteAllSessions t = (length (at_sessions t), t\<lparr>at_sessions := []\<rparr>)"

definition CountSessions :: "auth_tables \<Rightarrow> nat" where
  "CountSessions t = length (at_sessions t)"

section \<open>API tokens\<close>

definition ScopeRead :: string where "ScopeRead = ''read''"
definition ScopeAdmin :: string where "ScopeAdmin = ''admin''"
definition ValidScopes :: "string list" where "ValidScopes = [ScopeRead, ScopeAdmin]"

datatype token_error = ErrTokenExists | ErrTokenInsert

text \<open>The insert fails on the primary key when the digest is taken.\<close>

definition SaveAPIToken :: "instant \<Rightarrow> string \<Rightarrow> string \<Rightarrow> string \<Rightarrow> auth_tables \<Rightarrow> token_error + auth_tables" where
  "SaveAPIToken now h name scope t =
     (if list_ex (\<lambda>r. ar_name r = name) (at_tokens t) then Inl ErrTokenExists
      else if list_ex (\<lambda>r. ar_token_hash r = h) (at_tokens t) then Inl ErrTokenInsert
      else Inr (t\<lparr>at_tokens := at_tokens t @
        [\<lparr>ar_token_hash = h, ar_name = name, ar_scope = scope, ar_created_at = now, ar_last_used_at = None\<rparr>]\<rparr>))"

definition lastUsedResolution :: duration where
  "lastUsedResolution = 5 * Minute"

definition recordTokenUse :: "instant \<Rightarrow> string \<Rightarrow> instant \<Rightarrow> auth_tables \<Rightarrow> auth_tables" where
  "recordTokenUse now h lastUsed t =
     (if now - lastUsed < lastUsedResolution then t
      else t\<lparr>at_tokens := map (\<lambda>r. if ar_token_hash r = h then r\<lparr>ar_last_used_at := Some now\<rparr> else r) (at_tokens t)\<rparr>)"

text \<open>\<open>strftime('%s', last_used_at)\<close> has whole seconds, and zero when the token was never used.\<close>

definition ValidateAPIToken :: "instant \<Rightarrow> string \<Rightarrow> auth_tables \<Rightarrow> string \<times> auth_tables" where
  "ValidateAPIToken now h t =
     (case find (\<lambda>r. ar_token_hash r = h) (at_tokens t) of
        None \<Rightarrow> ([], t)
      | Some r \<Rightarrow>
          (ar_scope r,
           recordTokenUse now h (case ar_last_used_at r of None \<Rightarrow> 0 | Some u \<Rightarrow> Unix u * Second) t))"

definition DeleteAPIToken :: "string \<Rightarrow> auth_tables \<Rightarrow> bool \<times> auth_tables" where
  "DeleteAPIToken name t =
     (list_ex (\<lambda>r. ar_name r = name) (at_tokens t), t\<lparr>at_tokens := filter (\<lambda>r. ar_name r \<noteq> name) (at_tokens t)\<rparr>)"

text \<open>The commands \<open>token create\<close>, for the random octets drawn, and \<open>token revoke\<close>.\<close>

datatype token_cmd_error = EmptyName | InvalidScope string | NameTaken string | SaveFailed | NoSuchToken string

definition tokenCreateCmd ::
  "crypto \<Rightarrow> instant \<Rightarrow> octet list \<Rightarrow> string \<Rightarrow> string \<Rightarrow> auth_tables \<Rightarrow> token_cmd_error + (string \<times> auth_tables)" where
  "tokenCreateCmd cr now raw arg scope t =
     (let name = TrimSpace arg; token = hex_EncodeToString raw
      in if name = [] then Inl EmptyName
         else if scope \<notin> set ValidScopes then Inl (InvalidScope scope)
         else case SaveAPIToken now (hashToken cr token) name scope t of
                Inl ErrTokenExists \<Rightarrow> Inl (NameTaken name)
              | Inl ErrTokenInsert \<Rightarrow> Inl SaveFailed
              | Inr t' \<Rightarrow> Inr (token, t'))"

definition tokenRevokeCmd :: "string \<Rightarrow> auth_tables \<Rightarrow> token_cmd_error + auth_tables" where
  "tokenRevokeCmd arg t =
     (case DeleteAPIToken arg t of
        (False, _) \<Rightarrow> Inl (NoSuchToken arg)
      | (True, t') \<Rightarrow> Inr t')"

section \<open>Listing the tokens\<close>

record APIToken =
  tk_Name :: string
  tk_Scope :: string
  tk_CreatedAt :: instant
  tk_LastUsed :: "instant option"

text \<open>\<open>ORDER BY created_at DESC\<close>, where \<open>lt\<close> is the order of the instants' texts.\<close>

fun insert_token :: "(instant \<Rightarrow> instant \<Rightarrow> bool) \<Rightarrow> APIToken \<Rightarrow> APIToken list \<Rightarrow> APIToken list" where
  "insert_token lt x [] = [x]"
| "insert_token lt x (y # ys) =
     (if lt (tk_CreatedAt x) (tk_CreatedAt y) then y # insert_token lt x ys else x # y # ys)"

definition ListAPITokens :: "(instant \<Rightarrow> instant \<Rightarrow> bool) \<Rightarrow> auth_tables \<Rightarrow> APIToken list" where
  "ListAPITokens lt t =
     foldr (insert_token lt)
       (map (\<lambda>r. \<lparr>tk_Name = ar_name r, tk_Scope = ar_scope r, tk_CreatedAt = ar_created_at r, tk_LastUsed = ar_last_used_at r\<rparr>)
         (at_tokens t)) []"

text \<open>The rows \<open>token list\<close> prints, with \<open>print\<close> for \<open>time.RFC3339\<close>; without tokens it says so.\<close>

definition tokenListCmd ::
  "(instant \<Rightarrow> instant \<Rightarrow> bool) \<Rightarrow> (instant \<Rightarrow> string) \<Rightarrow> auth_tables \<Rightarrow> string list list" where
  "tokenListCmd lt print t =
     (let tokens = ListAPITokens lt t
      in if tokens = [] then [[''No API tokens.'']]
         else [''NAME'', ''SCOPE'', ''CREATED'', ''LAST USED''] #
           map (\<lambda>k. [tk_Name k, tk_Scope k, print (tk_CreatedAt k),
                    case tk_LastUsed k of None \<Rightarrow> ''never'' | Some u \<Rightarrow> print u]) tokens)"

lemma length_insert_token [simp]: "length (insert_token lt x ys) = Suc (length ys)"
  by (induction ys) auto

lemma set_insert_token [simp]: "set (insert_token lt x ys) = insert x (set ys)"
  by (induction ys) auto

text \<open>The listing has every token once, and newest first when the order of the texts is that of the instants.\<close>

lemma ListAPITokens_complete:
  "tk_Name ` set (ListAPITokens lt t) = ar_name ` set (at_tokens t) \<and> length (ListAPITokens lt t) = length (at_tokens t)"
proof -
  have "set (foldr (insert_token lt) ks []) = set ks \<and> length (foldr (insert_token lt) ks []) = length ks" for ks
    by (induction ks) auto
  then show ?thesis by (simp add: ListAPITokens_def image_image)
qed

lemma ListAPITokens_newest_first:
  "sorted_wrt (\<lambda>a b. tk_CreatedAt b \<le> tk_CreatedAt a) (ListAPITokens (<) t)"
proof -
  have ins: "sorted_wrt (\<lambda>a b. tk_CreatedAt b \<le> tk_CreatedAt a) ys \<Longrightarrow>
      sorted_wrt (\<lambda>a b. tk_CreatedAt b \<le> tk_CreatedAt a) (insert_token (<) x ys)" for x ys
    by (induction ys) auto
  have "sorted_wrt (\<lambda>a b. tk_CreatedAt b \<le> tk_CreatedAt a) (foldr (insert_token (<)) ks [])" for ks
    by (induction ks) (auto intro: ins)
  then show ?thesis by (simp add: ListAPITokens_def)
qed

end
