(* ===== verification/Server.thy ===== *)
theory Server
  imports Daemon Limiter Sessions
begin

text \<open>
  The API server (\<open>internal/api/server.go\<close>): who a request comes from, what it may do, and what it
  changes. A handler takes the request and what the world answers to it, and returns the HTTP status,
  the session token a cookie is set to, and the new state. The JSON of the answers is not modelled.
\<close>

section \<open>State and inputs\<close>

text \<open>The executor holds the database; the tables of credentials are beside it.\<close>

record web =
  w_exec :: Executor
  w_tables :: auth_tables
  w_login :: failureLimiter
  w_setup :: failureLimiter

record server_env =
  sv_en :: engine_env
  sv_crypto :: crypto
  sv_proxies :: proxyTruster

datatype statement =
  DbPassword | DbToken | DbTokenUse | DbSession | DbCreateSession | DbDeleteSession | DbDeleteSessions
| DbClaim | DbSetPassword | DbMode

text \<open>
  The inputs of a request: when it is looked at and when its password has been hashed, which
  statements the database serves, the salt drawn and the random octets of a new token.
\<close>

record world =
  in_now :: instant
  in_later :: instant
  in_ok :: "statement \<Rightarrow> bool"
  in_salt :: string
  in_random :: "octet list option"

definition NewServer :: "Config \<Rightarrow> engine_env \<Rightarrow> crypto \<Rightarrow> Executor \<Rightarrow> auth_tables \<Rightarrow> server_env \<times> web" where
  "NewServer cfg en cr e t =
     (let au = ca_Auth (cf_Canarium cfg)
      in (\<lparr>sv_en = en, sv_crypto = cr, sv_proxies = newProxyTruster (au_TrustProxyHeaders au) (au_TrustedProxies au)\<rparr>,
          \<lparr>w_exec = e, w_tables = t,
           w_login = newFailureLimiter maxLoginFailures failureWindow lockoutDuration,
           w_setup = newFailureLimiter maxSetupAttempts failureWindow lockoutDuration\<rparr>))"

text \<open>A write to the database outside the executor's own operations.\<close>

definition api_write :: "(DB \<Rightarrow> DB) \<Rightarrow> web \<Rightarrow> web" where
  "api_write f w =
     (let e = w_exec w
      in w\<lparr>w_exec := e\<lparr>e_db := f (e_db e), e_disk := e_disk e @ [f (e_db e)]\<rparr>\<rparr>)"

section \<open>Credentials\<close>

definition pinned_hash :: "server_env \<Rightarrow> string" where
  "pinned_hash sv = TrimSpace (au_PasswordHash (ca_Auth (cf_Canarium (en_cfg (sv_en sv)))))"

definition passwordIsPinned :: "server_env \<Rightarrow> bool" where
  "passwordIsPinned sv \<longleftrightarrow> pinned_hash sv \<noteq> []"

text \<open>\<open>None\<close> when the database cannot be read.\<close>

definition passwordHash :: "server_env \<Rightarrow> world \<Rightarrow> web \<Rightarrow> string option" where
  "passwordHash sv i w =
     (if pinned_hash sv \<noteq> [] then Some (pinned_hash sv)
      else if in_ok i DbPassword then Some (GetPasswordHash (e_db (w_exec w)))
      else None)"

definition bearerToken :: "request \<Rightarrow> string" where
  "bearerToken r =
     (let header = TrimSpace (rq_Header r ''Authorization'')
      in if HasPrefix header ''Bearer '' then TrimSpace (TrimPrefix header ''Bearer '') else header)"

definition authenticate :: "server_env \<Rightarrow> world \<Rightarrow> request \<Rightarrow> web \<Rightarrow> (string \<times> bool) \<times> web" where
  "authenticate sv i r w =
     (let token = bearerToken r;
          cookie = (\<lambda>w'. case rq_Cookie r of
                      None \<Rightarrow> (([], False), w')
                    | Some c \<Rightarrow>
                        if in_ok i DbSession \<and> SessionIsValid (in_now i) (hashToken (sv_crypto sv) c) (w_tables w')
                        then ((ScopeAdmin, True), w') else (([], False), w'))
      in if token = [] then cookie w
         else if \<not> in_ok i DbToken then (([], False), w)
         else case ValidateAPIToken (in_now i) (hashToken (sv_crypto sv) token) (w_tables w) of
                (scope, t) \<Rightarrow>
                  (let w' = (if in_ok i DbTokenUse then w\<lparr>w_tables := t\<rparr> else w)
                   in if scope \<noteq> [] then ((scope, True), w') else cookie w'))"

definition scopeAllows :: "string \<Rightarrow> string \<Rightarrow> bool" where
  "scopeAllows held required \<longleftrightarrow> held = ScopeAdmin \<or> held = required"

text \<open>\<open>requireScope\<close>: the status of the refusal, or \<open>None\<close> when the handler is reached.\<close>

definition requireScope :: "server_env \<Rightarrow> world \<Rightarrow> string \<Rightarrow> request \<Rightarrow> web \<Rightarrow> nat option \<times> web" where
  "requireScope sv i required r w =
     (case passwordHash sv i w of
        None \<Rightarrow> (Some 500, w)
      | Some stored \<Rightarrow>
          if stored = [] then (Some 401, w)
          else case authenticate sv i r w of ((scope, ok), w') \<Rightarrow>
                 if \<not> ok then (Some 401, w')
                 else if \<not> scopeAllows scope required then (Some 403, w')
                 else (None, w'))"

definition requestIsSecure :: "server_env \<Rightarrow> request \<Rightarrow> bool" where
  "requestIsSecure sv r \<longleftrightarrow>
     rq_TLS r \<or> trusts (sv_proxies sv) r \<and>
       (ToLower (rq_Header r ''X-Forwarded-Proto'') = ''https'' \<or> ToLower (rq_Header r ''X-Forwarded-Ssl'') = ''on'')"

section \<open>Logging in and out\<close>

definition sessionTTL :: duration where
  "sessionTTL = 24 * Hour"

type_synonym answer = "nat \<times> string option"

definition source_of :: "server_env \<Rightarrow> request \<Rightarrow> string" where
  "source_of sv r = clientIP r (trusts (sv_proxies sv) r)"

text \<open>A legacy hash is replaced once the password is known.\<close>

definition upgrade_hash :: "server_env \<Rightarrow> world \<Rightarrow> string \<Rightarrow> bool \<Rightarrow> web \<Rightarrow> web" where
  "upgrade_hash sv i password needsUpgrade w =
     (if needsUpgrade \<and> \<not> passwordIsPinned sv then
        (case hashPassword (sv_crypto sv) (in_salt i) password of
           None \<Rightarrow> w
         | Some h \<Rightarrow> if in_ok i DbSetPassword then api_write (SetPasswordHash h) w else w)
      else w)"

definition issue_session :: "server_env \<Rightarrow> world \<Rightarrow> web \<Rightarrow> answer \<times> web" where
  "issue_session sv i w =
     (case in_random i of
        None \<Rightarrow> ((500, None), w)
      | Some raw \<Rightarrow>
          (let token = hex_EncodeToString raw
           in if in_ok i DbCreateSession
              then ((200, Some token),
                    w\<lparr>w_tables := CreateSession (in_later i) (hashToken (sv_crypto sv) token) sessionTTL (w_tables w)\<rparr>)
              else ((500, Some token), w)))"

definition handleLogin :: "server_env \<Rightarrow> world \<Rightarrow> string option \<Rightarrow> request \<Rightarrow> web \<Rightarrow> answer \<times> web" where
  "handleLogin sv i body r w =
     (let source = source_of sv r
      in case Allow (in_now i) source (w_login w) of ((allowed, _), l) \<Rightarrow>
         let w1 = w\<lparr>w_login := l\<rparr>
         in if \<not> allowed then ((429, None), w1)
            else case body of
                   None \<Rightarrow> ((400, None), w1)
                 | Some password \<Rightarrow>
                     (case passwordHash sv i w1 of
                        None \<Rightarrow> ((500, None), w1)
                      | Some stored \<Rightarrow>
                          if stored = [] then ((401, None), w1)
                          else case verifyPassword (sv_crypto sv) stored password of (valid, needsUpgrade) \<Rightarrow>
                                 if \<not> valid then ((401, None), w1\<lparr>w_login := RecordFailure (in_later i) source (w_login w1)\<rparr>)
                                 else issue_session sv i (upgrade_hash sv i password needsUpgrade
                                        (w1\<lparr>w_login := Reset source (w_login w1)\<rparr>))))"

definition handleLogout :: "server_env \<Rightarrow> world \<Rightarrow> request \<Rightarrow> web \<Rightarrow> answer \<times> web" where
  "handleLogout sv i r w =
     ((200, Some []),
      case rq_Cookie r of
        None \<Rightarrow> w
      | Some c \<Rightarrow>
          if c \<noteq> [] \<and> in_ok i DbDeleteSession
          then w\<lparr>w_tables := DeleteSession (hashToken (sv_crypto sv) c) (w_tables w)\<rparr> else w)"

section \<open>Setting and changing the password\<close>

definition handleSetup :: "server_env \<Rightarrow> world \<Rightarrow> string option \<Rightarrow> request \<Rightarrow> web \<Rightarrow> answer \<times> web" where
  "handleSetup sv i body r w =
     (let source = source_of sv r
      in case Allow (in_now i) source (w_setup w) of ((allowed, _), l) \<Rightarrow>
         if \<not> allowed then ((429, None), w\<lparr>w_setup := l\<rparr>)
         else let w1 = w\<lparr>w_setup := RecordFailure (in_now i) source l\<rparr>
              in if passwordIsPinned sv then ((403, None), w1)
                 else if \<not> in_ok i DbPassword then ((500, None), w1)
                 else if GetPasswordHash (e_db (w_exec w1)) \<noteq> [] then ((403, None), w1)
                 else case body of
                        None \<Rightarrow> ((400, None), w1)
                      | Some password \<Rightarrow>
                          if validatePasswordStrength password \<noteq> None then ((400, None), w1)
                          else case hashPassword (sv_crypto sv) (in_salt i) password of
                                 None \<Rightarrow> ((500, None), w1)
                               | Some h \<Rightarrow>
                                   if \<not> in_ok i DbClaim then ((500, None), w1)
                                   else case ClaimInitialPassword h (e_db (w_exec w1)) of
                                          (False, _) \<Rightarrow> ((403, None), w1)
                                        | (True, _) \<Rightarrow>
                                            ((200, None), (api_write (\<lambda>db. snd (ClaimInitialPassword h db)) w1)
                                               \<lparr>w_setup := Reset source (w_setup w1)\<rparr>))"

text \<open>The body: the current and the new password.\<close>

definition handleChangePassword :: "server_env \<Rightarrow> world \<Rightarrow> (string \<times> string) option \<Rightarrow> web \<Rightarrow> answer \<times> web" where
  "handleChangePassword sv i body w =
     (if passwordIsPinned sv then ((403, None), w)
      else case body of
             None \<Rightarrow> ((400, None), w)
           | Some (current, new) \<Rightarrow>
               (case passwordHash sv i w of
                  None \<Rightarrow> ((500, None), w)
                | Some stored \<Rightarrow>
                    if \<not> fst (verifyPassword (sv_crypto sv) stored current) then ((401, None), w)
                    else if validatePasswordStrength new \<noteq> None then ((400, None), w)
                    else if new = current then ((400, None), w)
                    else case hashPassword (sv_crypto sv) (in_salt i) new of
                           None \<Rightarrow> ((500, None), w)
                         | Some h \<Rightarrow>
                             if \<not> in_ok i DbSetPassword then ((500, None), w)
                             else let w1 = api_write (SetPasswordHash h) w
                                  in ((200, Some []),
                                      if in_ok i DbDeleteSessions
                                      then w1\<lparr>w_tables := snd (DeleteAllSessions (w_tables w1))\<rparr> else w1)))"

text \<open>What \<open>handleAuthStatus\<close> reports: setup required, authenticated, the scope.\<close>

definition handleAuthStatus :: "server_env \<Rightarrow> world \<Rightarrow> request \<Rightarrow> web \<Rightarrow> (bool \<times> bool \<times> string) option \<times> web" where
  "handleAuthStatus sv i r w =
     (case passwordHash sv i w of
        None \<Rightarrow> (None, w)
      | Some stored \<Rightarrow>
          if stored = [] then (Some (True, False, []), w)
          else case authenticate sv i r w of ((scope, ok), w') \<Rightarrow> (Some (False, ok, scope), w'))"

section \<open>Operator requests\<close>

definition reason_or_default :: "string \<Rightarrow> string" where
  "reason_or_default s = (if TrimSpace s = [] then ''requested via API'' else TrimSpace s)"

definition handleAbort_request :: "string \<Rightarrow> web \<Rightarrow> answer \<times> web" where
  "handleAbort_request reason w =
     (case AbortSequence (reason_or_default reason) (w_exec w) of
        Inl _ \<Rightarrow> ((409, None), w)
      | Inr e \<Rightarrow> ((202, None), w\<lparr>w_exec := e\<rparr>))"

definition handleProceed :: "string \<Rightarrow> web \<Rightarrow> answer \<times> web" where
  "handleProceed reason w =
     (case ForceStage (reason_or_default reason) (w_exec w) of
        Inl _ \<Rightarrow> ((409, None), w)
      | Inr e \<Rightarrow> ((202, None), w\<lparr>w_exec := e\<rparr>))"

section \<open>The routes\<close>

text \<open>
  The requests of the API; a body that does not decode is \<open>None\<close>, or an empty text where the handler
  ignores that. \<open>GetRead\<close> stands for the endpoints that only report.
\<close>

datatype api_call =
    GetHealth
  | GetAuthStatus
  | PostLogin "string option"
  | PostLogout
  | PostSetup "string option"
  | PostPassword "(string \<times> string) option"
  | GetRead string
  | PostMode string
  | PostAbort string
  | PostProceed string

definition guarded ::
  "server_env \<Rightarrow> world \<Rightarrow> string \<Rightarrow> request \<Rightarrow> (web \<Rightarrow> answer \<times> web) \<Rightarrow> web \<Rightarrow> answer \<times> web" where
  "guarded sv i required r handler w =
     (case requireScope sv i required r w of
        (Some status, w') \<Rightarrow> ((status, None), w')
      | (None, w') \<Rightarrow> handler w')"

fun serve :: "server_env \<Rightarrow> world \<Rightarrow> request \<Rightarrow> api_call \<Rightarrow> web \<Rightarrow> answer \<times> web" where
  "serve sv i r GetHealth w = ((200, None), w)"
| "serve sv i r GetAuthStatus w =
     (case handleAuthStatus sv i r w of (None, w') \<Rightarrow> ((500, None), w') | (Some _, w') \<Rightarrow> ((200, None), w'))"
| "serve sv i r (PostLogin body) w = handleLogin sv i body r w"
| "serve sv i r PostLogout w = handleLogout sv i r w"
| "serve sv i r (PostSetup body) w = handleSetup sv i body r w"
| "serve sv i r (PostPassword body) w = guarded sv i ScopeAdmin r (handleChangePassword sv i body) w"
| "serve sv i r (GetRead path) w = guarded sv i ScopeRead r (\<lambda>w'. ((200, None), w')) w"
| "serve sv i r (PostMode mode) w =
     guarded sv i ScopeAdmin r
       (\<lambda>w'. case handleSetMode (sv_en sv) (in_ok i DbMode) mode (w_exec w') of
                (status, e) \<Rightarrow> ((status, None), w'\<lparr>w_exec := e\<rparr>)) w"
| "serve sv i r (PostAbort reason) w = guarded sv i ScopeAdmin r (handleAbort_request reason) w"
| "serve sv i r (PostProceed reason) w = guarded sv i ScopeAdmin r (handleProceed reason) w"

text \<open>
  A history of the server: requests, the sweep of expired sessions, the token commands, and whatever
  the executor does meanwhile.
\<close>

datatype web_event =
    Request world request api_call
  | Reap instant
  | TokenCreate instant "octet list" string string
  | TokenRevoke string
  | EngineMoves Executor

fun web_step :: "server_env \<Rightarrow> web_event \<Rightarrow> web \<Rightarrow> web" where
  "web_step sv (Request i r call) w = snd (serve sv i r call w)"
| "web_step sv (Reap now) w = w\<lparr>w_tables := snd (DeleteExpiredSessions now (w_tables w))\<rparr>"
| "web_step sv (TokenCreate now raw name scope) w =
     (case tokenCreateCmd (sv_crypto sv) now raw name scope (w_tables w) of
        Inl _ \<Rightarrow> w
      | Inr (_, t) \<Rightarrow> w\<lparr>w_tables := t\<rparr>)"
| "web_step sv (TokenRevoke name) w =
     (case tokenRevokeCmd name (w_tables w) of Inl _ \<Rightarrow> w | Inr t \<Rightarrow> w\<lparr>w_tables := t\<rparr>)"
| "web_step sv (EngineMoves e) w = w\<lparr>w_exec := e\<rparr>"

definition web_run :: "server_env \<Rightarrow> web_event list \<Rightarrow> web \<Rightarrow> web" where
  "web_run sv evs w = fold (web_step sv) evs w"

section \<open>What a request may change\<close>

text \<open>A request carries an admin credential: a token of that scope, or the cookie of a valid session.\<close>

definition admin_credential :: "server_env \<Rightarrow> instant \<Rightarrow> request \<Rightarrow> web \<Rightarrow> bool" where
  "admin_credential sv now r w \<longleftrightarrow>
     (bearerToken r \<noteq> [] \<and>
        (\<exists>row \<in> set (at_tokens (w_tables w)). ar_token_hash row = hashToken (sv_crypto sv) (bearerToken r) \<and> ar_scope row = ScopeAdmin)) \<or>
     (\<exists>c. rq_Cookie r = Some c \<and> SessionIsValid now (hashToken (sv_crypto sv) c) (w_tables w))"

lemma find_Some_in: "find P xs = Some x \<Longrightarrow> x \<in> set xs \<and> P x"
  by (induction xs) (auto split: if_splits)

lemma record_sessions [simp]: "at_sessions (recordTokenUse now h l t) = at_sessions t"
  by (simp add: recordTokenUse_def)

lemma validate_sessions: "ValidateAPIToken now h t = (scope, t') \<Longrightarrow> at_sessions t' = at_sessions t"
  by (auto simp: ValidateAPIToken_def split: option.splits)

lemma valid_cong: "at_sessions t' = at_sessions t \<Longrightarrow> SessionIsValid now h t' = SessionIsValid now h t"
  by (simp add: SessionIsValid_def)

lemma authenticate_frame:
  assumes "authenticate sv i r w = ((scope, ok), w')"
  shows "w_exec w' = w_exec w" "at_sessions (w_tables w') = at_sessions (w_tables w)" "w_login w' = w_login w" "w_setup w' = w_setup w"
  using assms by (auto simp: authenticate_def Let_def dest!: validate_sessions split: if_splits option.splits prod.splits)

lemma authenticate_admin:
  assumes "authenticate sv i r w = ((ScopeAdmin, True), w')"
  shows "admin_credential sv (in_now i) r w"
proof (cases "bearerToken r = []")
  case True
  then show ?thesis using assms by (auto simp: authenticate_def admin_credential_def split: option.splits if_splits)
next
  case False
  obtain scope t where v: "ValidateAPIToken (in_now i) (hashToken (sv_crypto sv) (bearerToken r)) (w_tables w) = (scope, t)" by force
  note same = valid_cong [OF validate_sessions [OF v]]
  show ?thesis
  proof (cases "scope = []")
    case True
    then show ?thesis using assms False v same
      by (auto simp: authenticate_def admin_credential_def Let_def split: option.splits if_splits)
  next
    case s: False
    then have "scope = ScopeAdmin" using assms False v by (auto simp: authenticate_def Let_def split: if_splits)
    then show ?thesis using v s False
      by (auto simp: ValidateAPIToken_def admin_credential_def split: option.splits dest!: find_Some_in)
  qed
qed

lemma requireScope_frame:
  assumes "requireScope sv i required r w = (st, w')"
  shows "w_exec w' = w_exec w" "at_sessions (w_tables w') = at_sessions (w_tables w)"
proof -
  obtain scope ok w1 where a: "authenticate sv i r w = ((scope, ok), w1)" by (metis surj_pair)
  have "w' = w \<or> w' = w1" using assms a by (auto simp: requireScope_def split: option.splits if_splits)
  then show "w_exec w' = w_exec w" "at_sessions (w_tables w') = at_sessions (w_tables w)"
    using authenticate_frame [OF a] by auto
qed

lemma requireScope_admin:
  assumes "requireScope sv i ScopeAdmin r w = (None, w')"
  shows "admin_credential sv (in_now i) r w \<and> (\<exists>stored. passwordHash sv i w = Some stored \<and> stored \<noteq> [])"
proof -
  obtain stored where st: "passwordHash sv i w = Some stored" "stored \<noteq> []"
    using assms by (auto simp: requireScope_def split: option.splits if_splits)
  obtain scope ok w1 where a: "authenticate sv i r w = ((scope, ok), w1)" by (metis surj_pair)
  have "ok \<and> scope = ScopeAdmin" using assms st a by (auto simp: requireScope_def scopeAllows_def split: if_splits)
  then show ?thesis using authenticate_admin st a by metis
qed

lemma guarded_changes:
  assumes "guarded sv i required r handler w = (resp, w')" and "w_exec w' \<noteq> w_exec w"
  obtains w1 where "requireScope sv i required r w = (None, w1)" "handler w1 = (resp, w')" "w_exec w1 = w_exec w"
proof -
  obtain st w1 where q: "requireScope sv i required r w = (st, w1)" by force
  then show thesis using assms requireScope_frame(1) [OF q] that by (cases st) (auto simp: guarded_def)
qed

lemma guarded_admin:
  assumes "guarded sv i ScopeAdmin r handler w = (resp, w')" and "w_exec w' \<noteq> w_exec w"
  shows "admin_credential sv (in_now i) r w \<and> (\<exists>stored. passwordHash sv i w = Some stored \<and> stored \<noteq> [])"
  using assms by (rule guarded_changes) (rule requireScope_admin)

lemma auth_status_exec:
  assumes "handleAuthStatus sv i r w = (a, w')"
  shows "w_exec w' = w_exec w"
proof -
  obtain scope ok w1 where a: "authenticate sv i r w = ((scope, ok), w1)" by (metis surj_pair)
  have "w' = w \<or> w' = w1" using assms a by (auto simp: handleAuthStatus_def split: option.splits if_splits)
  then show ?thesis using authenticate_frame(1) [OF a] by auto
qed

lemma issue_exec: "issue_session sv i w = (resp, w') \<Longrightarrow> w_exec w' = w_exec w"
  by (auto simp: issue_session_def Let_def split: option.splits if_splits)

lemma login_changes:
  assumes "handleLogin sv i body r w = (resp, w')" and "w_exec w' \<noteq> w_exec w"
  shows "\<exists>pw. body = Some pw \<and> isLegacySHA256Hash (GetPasswordHash (e_db (w_exec w))) \<and>
    hex_EncodeToString (cr_sha256 (sv_crypto sv) pw) = GetPasswordHash (e_db (w_exec w)) \<and> \<not> passwordIsPinned sv"
proof -
  obtain d l where l: "Allow (in_now i) (source_of sv r) (w_login w) = (d, l)" by (metis surj_pair)
  obtain allowed wait where d: "d = (allowed, wait)" by (metis surj_pair)
  let ?w1 = "w\<lparr>w_login := l\<rparr>"
  show ?thesis
  proof (cases "allowed \<and> body \<noteq> None \<and> passwordHash sv i ?w1 \<noteq> None \<and> the (passwordHash sv i ?w1) \<noteq> []")
    case False
    then show ?thesis using assms l d by (auto simp: handleLogin_def Let_def split: option.splits if_splits)
  next
    case True
    then obtain pw stored where b: "body = Some pw" "passwordHash sv i ?w1 = Some stored" "stored \<noteq> []" by auto
    obtain valid up where v: "verifyPassword (sv_crypto sv) stored pw = (valid, up)" by force
    let ?w2 = "upgrade_hash sv i pw up (?w1\<lparr>w_login := Reset (source_of sv r) (w_login ?w1)\<rparr>)"
    have h: "handleLogin sv i body r w = (if valid then issue_session sv i ?w2
        else ((401, None), ?w1\<lparr>w_login := RecordFailure (in_later i) (source_of sv r) (w_login ?w1)\<rparr>))"
      using True l d b v by (simp add: handleLogin_def Let_def)
    then have "valid" using assms by (auto split: if_splits)
    then have "w_exec ?w2 \<noteq> w_exec w" using h assms issue_exec by metis
    then have "up" "\<not> passwordIsPinned sv" by (auto simp: upgrade_hash_def split: if_splits)
    moreover have "stored = GetPasswordHash (e_db (w_exec w))"
      using b(2) calculation(2) by (auto simp: passwordHash_def passwordIsPinned_def split: if_splits)
    ultimately show ?thesis using b v by (auto simp: verifyPassword_def split: if_splits)
  qed
qed

lemma setup_changes:
  assumes "handleSetup sv i body r w = (resp, w')" and "w_exec w' \<noteq> w_exec w"
  shows "GetPasswordHash (e_db (w_exec w)) = [] \<and> \<not> passwordIsPinned sv \<and> e_mode (w_exec w') = e_mode (w_exec w) \<and>
    e_active (w_exec w') = e_active (w_exec w)"
  using assms unfolding handleSetup_def Let_def
  by (auto simp: api_write_def Let_def split: prod.splits if_splits option.splits bool.splits)

text \<open>
  C12. Nothing changes without a credential. A request that changes anything of the executor or its
  database, the mode, the running sequence or the password, comes with an admin token or the cookie of a
  valid session while a password is set; the exceptions are the first setup, while no password exists,
  and the right password at a login, which may replace a hash in the old format.
\<close>

theorem changes_need_credentials:
  assumes "serve sv i r call w = (resp, w')" and "w_exec w' \<noteq> w_exec w"
  shows "(\<exists>pw. call = PostSetup pw \<and> GetPasswordHash (e_db (w_exec w)) = [] \<and> \<not> passwordIsPinned sv \<and>
        e_mode (w_exec w') = e_mode (w_exec w) \<and> e_active (w_exec w') = e_active (w_exec w)) \<or>
    (\<exists>pw. call = PostLogin (Some pw) \<and> isLegacySHA256Hash (GetPasswordHash (e_db (w_exec w))) \<and>
        hex_EncodeToString (cr_sha256 (sv_crypto sv) pw) = GetPasswordHash (e_db (w_exec w)) \<and> \<not> passwordIsPinned sv) \<or>
    admin_credential sv (in_now i) r w \<and> (\<exists>stored. passwordHash sv i w = Some stored \<and> stored \<noteq> [])"
proof (cases call)
  case (PostLogin body)
  then have "handleLogin sv i body r w = (resp, w')" using assms(1) by simp
  from login_changes [OF this assms(2)] PostLogin show ?thesis by blast
next
  case (PostSetup body)
  then have "handleSetup sv i body r w = (resp, w')" using assms(1) by simp
  from setup_changes [OF this assms(2)] PostSetup show ?thesis by blast
next
  case GetAuthStatus
  obtain a w1 where a: "handleAuthStatus sv i r w = (a, w1)" by (metis surj_pair)
  then have "w' = w1" using assms(1) GetAuthStatus by (simp split: option.splits)
  then show ?thesis using auth_status_exec [OF a] assms(2) by simp
next
  case PostLogout
  have "w_exec (snd (handleLogout sv i r w)) = w_exec w" by (simp add: handleLogout_def split: option.split)
  then show ?thesis using assms PostLogout by simp
next
  case (GetRead path)
  then have "guarded sv i ScopeRead r (\<lambda>w'. ((200, None), w')) w = (resp, w')" using assms(1) by simp
  then show ?thesis using assms(2) by (auto elim: guarded_changes)
next
  case (PostPassword body)
  then have "guarded sv i ScopeAdmin r (handleChangePassword sv i body) w = (resp, w')" using assms(1) by simp
  from guarded_admin [OF this assms(2)] show ?thesis by blast
next
  case (PostMode mode)
  then have "guarded sv i ScopeAdmin r
       (\<lambda>w'. case handleSetMode (sv_en sv) (in_ok i DbMode) mode (w_exec w') of
                (status, e) \<Rightarrow> ((status, None), w'\<lparr>w_exec := e\<rparr>)) w = (resp, w')" using assms(1) by simp
  from guarded_admin [OF this assms(2)] show ?thesis by blast
next
  case (PostAbort reason)
  then have "guarded sv i ScopeAdmin r (handleAbort_request reason) w = (resp, w')" using assms(1) by simp
  from guarded_admin [OF this assms(2)] show ?thesis by blast
next
  case (PostProceed reason)
  then have "guarded sv i ScopeAdmin r (handleProceed reason) w = (resp, w')" using assms(1) by simp
  from guarded_admin [OF this assms(2)] show ?thesis by blast
next
  case GetHealth
  then show ?thesis using assms by simp
qed

end
