(* ===== verification/Session_Safety.thy ===== *)
theory Session_Safety
  imports Server
begin

text \<open>
  Where sessions come from: every session of a server was opened by a login with the right password,
  and lives until it expires, is logged out, or the password is changed.
\<close>

section \<open>The events that open and end sessions\<close>

definition right_password :: "server_env \<Rightarrow> world \<Rightarrow> string \<Rightarrow> web \<Rightarrow> bool" where
  "right_password sv i pw w \<longleftrightarrow>
     (case passwordHash sv i w of
        None \<Rightarrow> False
      | Some stored \<Rightarrow> stored \<noteq> [] \<and> fst (verifyPassword (sv_crypto sv) stored pw))"

definition login_session :: "server_env \<Rightarrow> world \<Rightarrow> octet list \<Rightarrow> session" where
  "login_session sv i raw =
     \<lparr>ses_token_hash = hashToken (sv_crypto sv) (hex_EncodeToString raw),
      ses_created_at = Unix (in_later i), ses_expires_at = Unix (in_later i + sessionTTL)\<rparr>"

text \<open>A logout with the session's token, and a password change that is served, end a session.\<close>

fun ends_session :: "server_env \<Rightarrow> string \<Rightarrow> web_event \<Rightarrow> web \<Rightarrow> bool" where
  "ends_session sv h (Request i r PostLogout) w \<longleftrightarrow>
     (case rq_Cookie r of
        None \<Rightarrow> False
      | Some c \<Rightarrow> c \<noteq> [] \<and> in_ok i DbDeleteSession \<and> hashToken (sv_crypto sv) c = h)"
| "ends_session sv h (Request i r (PostPassword body)) w \<longleftrightarrow>
     fst (fst (serve sv i r (PostPassword body) w)) = 200 \<and> in_ok i DbDeleteSessions"
| "ends_session sv h _ w \<longleftrightarrow> False"

fun lives_through :: "server_env \<Rightarrow> string \<Rightarrow> web \<Rightarrow> web_event list \<Rightarrow> bool" where
  "lives_through sv h w [] \<longleftrightarrow> True"
| "lives_through sv h w (ev # evs) \<longleftrightarrow> \<not> ends_session sv h ev w \<and> lives_through sv h (web_step sv ev w) evs"

lemma web_run_Cons: "web_run sv (ev # evs) w = web_run sv evs (web_step sv ev w)"
  by (simp add: web_run_def)

lemma web_run_snoc: "web_run sv (evs @ [ev]) w = web_step sv ev (web_run sv evs w)"
  by (simp add: web_run_def)

lemma lives_snoc:
  "lives_through sv h w (evs @ [ev]) \<longleftrightarrow> lives_through sv h w evs \<and> \<not> ends_session sv h ev (web_run sv evs w)"
  by (induction evs arbitrary: w) (auto simp: web_run_def)

section \<open>What each handler does to the sessions\<close>

abbreviation sessions :: "web \<Rightarrow> session list" where
  "sessions w \<equiv> at_sessions (w_tables w)"

lemma api_write_sessions [simp]: "sessions (api_write f w) = sessions w"
  by (simp add: api_write_def Let_def)

lemma upgrade_sessions [simp]: "sessions (upgrade_hash sv i pw up w) = sessions w"
  by (simp add: upgrade_hash_def split: option.split)

lemma issue_sessions:
  assumes "issue_session sv i w = (resp, w')" and "s \<in> set (sessions w')"
  shows "s \<in> set (sessions w) \<or> (\<exists>raw. in_random i = Some raw \<and> s = login_session sv i raw)"
  using assms by (auto simp: issue_session_def CreateSession_def login_session_def Let_def split: option.splits if_splits)

lemma login_sessions:
  assumes "handleLogin sv i body r w = (resp, w')" and "s \<in> set (sessions w')"
  shows "s \<in> set (sessions w) \<or>
    (\<exists>pw raw. body = Some pw \<and> right_password sv i pw w \<and> in_random i = Some raw \<and> s = login_session sv i raw)"
proof -
  obtain d l where l: "Allow (in_now i) (source_of sv r) (w_login w) = (d, l)" by (metis surj_pair)
  obtain allowed wait where d: "d = (allowed, wait)" by (metis surj_pair)
  let ?w1 = "w\<lparr>w_login := l\<rparr>"
  have ph: "passwordHash sv i ?w1 = passwordHash sv i w" by (simp add: passwordHash_def)
  show ?thesis
  proof (cases "allowed \<and> (\<exists>pw. body = Some pw \<and> right_password sv i pw w)")
    case True
    then obtain pw stored where b: "body = Some pw" "right_password sv i pw w" "passwordHash sv i w = Some stored" "stored \<noteq> []"
      by (auto simp: right_password_def split: option.splits)
    obtain valid up where v: "verifyPassword (sv_crypto sv) stored pw = (valid, up)" by (metis surj_pair)
    have valid using b v by (simp add: right_password_def)
    then have "issue_session sv i (upgrade_hash sv i pw up (?w1\<lparr>w_login := Reset (source_of sv r) (w_login ?w1)\<rparr>)) = (resp, w')"
      using True assms(1) l d b ph v by (simp add: handleLogin_def Let_def)
    from issue_sessions [OF this assms(2)] b show ?thesis by auto
  next
    case False
    have "sessions w' = sessions w"
    proof (cases "passwordHash sv i w")
      case None
      then show ?thesis using assms(1) l d ph by (auto simp: handleLogin_def Let_def split: option.splits if_splits)
    next
      case (Some stored)
      then show ?thesis using False assms(1) l d ph
        by (auto simp: handleLogin_def right_password_def Let_def split: option.splits if_splits prod.splits)
    qed
    then show ?thesis using assms(2) by simp
  qed
qed

lemma setup_sessions: "sessions (snd (handleSetup sv i body r w)) = sessions w"
  by (simp add: handleSetup_def Let_def split: option.split prod.split bool.split)

lemma logout_sessions:
  "sessions (snd (handleLogout sv i r w)) =
     filter (\<lambda>s. \<not> ends_session sv (ses_token_hash s) (Request i r PostLogout) w) (sessions w)"
  by (auto simp: handleLogout_def DeleteSession_def intro!: filter_cong split: option.split)

lemma auth_status_sessions:
  assumes "handleAuthStatus sv i r w = (a, w')"
  shows "sessions w' = sessions w"
proof -
  obtain scope ok w1 where a: "authenticate sv i r w = ((scope, ok), w1)" by (metis surj_pair)
  have "w' = w \<or> w' = w1" using assms a by (auto simp: handleAuthStatus_def split: option.splits if_splits)
  then show ?thesis using authenticate_frame(2) [OF a] by auto
qed

lemma guarded_sessions:
  assumes "guarded sv i required r handler w = (resp, w')" and "\<And>x. set (sessions (snd (handler x))) \<subseteq> set (sessions x)"
  shows "set (sessions w') \<subseteq> set (sessions w)"
proof -
  obtain st w1 where q: "requireScope sv i required r w = (st, w1)" by (metis surj_pair)
  have "w' = w1 \<or> w' = snd (handler w1)" using assms(1) q by (auto simp: guarded_def split: option.splits)
  then show ?thesis using requireScope_frame(2) [OF q] assms(2) [of w1] by auto
qed

lemma change_sessions:
  "fst (fst (handleChangePassword sv i body w)) = 200 \<and> in_ok i DbDeleteSessions \<Longrightarrow> sessions (snd (handleChangePassword sv i body w)) = []"
  "set (sessions (snd (handleChangePassword sv i body w))) \<subseteq> set (sessions w)"
  unfolding handleChangePassword_def Let_def
  by (auto simp: DeleteAllSessions_def split: option.splits prod.splits if_splits)

lemma password_sessions:
  assumes "guarded sv i ScopeAdmin r (handleChangePassword sv i body) w = (resp, w')"
  shows "set (sessions w') \<subseteq> set (sessions w)" "fst resp = 200 \<Longrightarrow> in_ok i DbDeleteSessions \<Longrightarrow> sessions w' = []"
proof -
  show "set (sessions w') \<subseteq> set (sessions w)" by (rule guarded_sessions [OF assms]) (rule change_sessions(2))
  obtain st w1 where q: "requireScope sv i ScopeAdmin r w = (st, w1)" by (metis surj_pair)
  assume ok: "fst resp = 200" "in_ok i DbDeleteSessions"
  show "sessions w' = []"
  proof (cases st)
    case None
    then have "handleChangePassword sv i body w1 = (resp, w')" using assms q by (simp add: guarded_def)
    then show ?thesis using change_sessions(1) [of sv i body w1] ok by simp
  next
    case (Some status)
    then have "fst resp = status" using assms q by (auto simp: guarded_def)
    moreover have "status \<noteq> 200" using q Some by (auto simp: requireScope_def split: option.splits if_splits prod.splits)
    ultimately show ?thesis using ok by simp
  qed
qed

text \<open>A session after a step was there before, and the step did not end it, or a login just opened it.\<close>

lemma step_sessions:
  assumes "s \<in> set (sessions (web_step sv ev w))"
  shows "s \<in> set (sessions w) \<and> \<not> ends_session sv (ses_token_hash s) ev w \<or>
    (\<exists>i r pw raw. ev = Request i r (PostLogin (Some pw)) \<and> right_password sv i pw w \<and>
       in_random i = Some raw \<and> s = login_session sv i raw)"
proof (cases ev)
  case (Request i r call)
  obtain resp w' where sv: "serve sv i r call w = (resp, w')" by (metis surj_pair)
  have s: "s \<in> set (sessions w')" using assms Request sv by simp
  show ?thesis
  proof (cases call)
    case (PostLogin body)
    then have "handleLogin sv i body r w = (resp, w')" using sv by simp
    from login_sessions [OF this s] Request PostLogin show ?thesis by auto
  next
    case PostLogout
    then have "w' = snd (handleLogout sv i r w)" using sv by simp
    then show ?thesis using s logout_sessions [of sv i r w] Request PostLogout by auto
  next
    case (PostSetup body)
    then have "w' = snd (handleSetup sv i body r w)" using sv by simp
    then show ?thesis using s setup_sessions Request PostSetup by simp
  next
    case GetAuthStatus
    obtain a w1 where a: "handleAuthStatus sv i r w = (a, w1)" by (metis surj_pair)
    then have "w' = w1" using sv GetAuthStatus by (simp split: option.splits)
    then show ?thesis using s auth_status_sessions [OF a] Request GetAuthStatus by simp
  next
    case (PostPassword body)
    then have g: "guarded sv i ScopeAdmin r (handleChangePassword sv i body) w = (resp, w')" using sv by simp
    show ?thesis using password_sessions [OF g] s Request PostPassword g by auto
  next
    case (GetRead path)
    then have "guarded sv i ScopeRead r (\<lambda>w'. ((200, None), w')) w = (resp, w')" using sv by simp
    then have "set (sessions w') \<subseteq> set (sessions w)" by (rule guarded_sessions) simp
    then show ?thesis using s Request GetRead by auto
  next
    case (PostMode mode)
    then have "set (sessions w') \<subseteq> set (sessions w)"
      using guarded_sessions [of sv i ScopeAdmin r _ w resp w'] sv by (simp split: prod.splits)
    then show ?thesis using s Request PostMode by auto
  next
    case (PostAbort reason)
    then have "set (sessions w') \<subseteq> set (sessions w)"
      using guarded_sessions [of sv i ScopeAdmin r _ w resp w'] sv by (simp add: handleAbort_request_def split: sum.splits)
    then show ?thesis using s Request PostAbort by auto
  next
    case (PostProceed reason)
    then have "set (sessions w') \<subseteq> set (sessions w)"
      using guarded_sessions [of sv i ScopeAdmin r _ w resp w'] sv by (simp add: handleProceed_def split: sum.splits)
    then show ?thesis using s Request PostProceed by auto
  next
    case GetHealth
    then show ?thesis using s sv Request by simp
  qed
next
  case (TokenCreate now raw name scope)
  then show ?thesis using assms
    by (auto simp: tokenCreateCmd_def SaveAPIToken_def Let_def split: sum.splits token_error.splits if_splits)
next
  case (TokenRevoke name)
  then show ?thesis using assms
    by (auto simp: tokenRevokeCmd_def DeleteAPIToken_def split: sum.splits prod.splits bool.splits)
qed (use assms in \<open>auto simp: DeleteExpiredSessions_def\<close>)

lemma session_history:
  assumes "sessions w = []"
  shows "s \<in> set (sessions (web_run sv evs w)) \<Longrightarrow>
    \<exists>before i r pw raw after. evs = before @ Request i r (PostLogin (Some pw)) # after \<and>
      right_password sv i pw (web_run sv before w) \<and> in_random i = Some raw \<and> s = login_session sv i raw \<and>
      lives_through sv (ses_token_hash s) (web_run sv (before @ [Request i r (PostLogin (Some pw))]) w) after"
proof (induction evs rule: rev_induct)
  case Nil
  then show ?case using assms by (simp add: web_run_def)
next
  case (snoc ev evs)
  from step_sessions [OF snoc.prems [unfolded web_run_snoc]]
  consider "s \<in> set (sessions (web_run sv evs w))" "\<not> ends_session sv (ses_token_hash s) ev (web_run sv evs w)"
    | i r pw raw where "ev = Request i r (PostLogin (Some pw))" "right_password sv i pw (web_run sv evs w)"
       "in_random i = Some raw" "s = login_session sv i raw" by blast
  then show ?case
  proof cases
    case 1
    from snoc.IH [OF 1(1)] obtain before i r pw raw after where
      h: "evs = before @ Request i r (PostLogin (Some pw)) # after" "right_password sv i pw (web_run sv before w)"
        "in_random i = Some raw" "s = login_session sv i raw"
        "lives_through sv (ses_token_hash s) (web_run sv (before @ [Request i r (PostLogin (Some pw))]) w) after" by blast
    have "web_run sv evs w = web_run sv after (web_run sv (before @ [Request i r (PostLogin (Some pw))]) w)"
      by (simp add: h(1) web_run_def)
    then have "lives_through sv (ses_token_hash s) (web_run sv (before @ [Request i r (PostLogin (Some pw))]) w) (after @ [ev])"
      using h(5) 1(2) by (simp add: lives_snoc)
    then show ?thesis using h(1-4) by (metis append.assoc append_Cons)
  next
    case 2
    then show ?thesis by (intro exI [of _ evs] exI [of _ i] exI [of _ r] exI [of _ pw] exI [of _ raw] exI [of _ "[]"]) simp
  qed
qed

text \<open>
  C17. A valid session is a login that still counts. On a server that starts without sessions, whatever
  requests it serves, a session is valid only when some login gave the password that was right then and
  drew the token whose digest is the session's, no more than a day ago, and since then neither a logout
  with that token nor a change of the password was served.
\<close>

theorem valid_session_from_login:
  assumes "at_sessions (w_tables w) = []"
    and "SessionIsValid now h (w_tables (web_run sv evs w))"
  shows "\<exists>before i r pw raw after. evs = before @ Request i r (PostLogin (Some pw)) # after \<and>
    right_password sv i pw (web_run sv before w) \<and> in_random i = Some raw \<and>
    h = hashToken (sv_crypto sv) (hex_EncodeToString raw) \<and> Unix now < Unix (in_later i + sessionTTL) \<and>
    lives_through sv h (web_run sv (before @ [Request i r (PostLogin (Some pw))]) w) after"
proof -
  obtain s where s: "s \<in> set (sessions (web_run sv evs w))" "ses_token_hash s = h" "Unix now < ses_expires_at s"
    using assms(2) by (auto simp: SessionIsValid_def filter_empty_conv)
  from session_history [OF assms(1) s(1)] s(2,3) show ?thesis by (fastforce simp: login_session_def)
qed

end
