(* ===== verification/Self_Preservation.thy ===== *)
theory Self_Preservation
  imports Abort_Safety Net_Addr
begin

text \<open>
  The daemon must outlive what it controls (\<open>internal/config/selfpreservation.go\<close>): the identity of the
  host it runs on, the check that no stage shuts that host down, and what an accepted configuration
  means for the running daemon.
\<close>

section \<open>The identity of the host\<close>

definition IsLoopback :: "ip \<Rightarrow> bool" where
  "IsLoopback ip \<longleftrightarrow>
     (case To4 ip of
        Some q \<Rightarrow> hd q = 127
      | None \<Rightarrow> IP_Equal ip (replicate 15 0 @ [1]))"

text \<open>
  What the operating system says: the host name, \<open>None\<close> when it cannot be read, and the addresses of
  the interfaces, where an entry that is not a network is \<open>None\<close>.
\<close>

definition DetectLocalIdentity :: "string option \<Rightarrow> ip option list option \<Rightarrow> LocalIdentity" where
  "DetectLocalIdentity hostname addrs =
     \<lparr>li_Hostnames =
        (case hostname of
           None \<Rightarrow> []
         | Some h \<Rightarrow>
             if h = [] then []
             else ToLower h # (case Cut h (CHR ''.'') of
                     None \<Rightarrow> []
                   | Some (short, _) \<Rightarrow> if short \<noteq> [] then [ToLower short] else [])),
      li_Addresses =
        (case addrs of
           None \<Rightarrow> []
         | Some as \<Rightarrow> filter (\<lambda>ip. \<not> IsLoopback ip) (List.map_filter id as))\<rparr>"

text \<open>The address as it is looked up: trimmed, in lower case, without a port.\<close>

definition bare_host :: "string \<Rightarrow> string" where
  "bare_host address =
     (let a = ToLower (TrimSpace address)
      in case net_SplitHostPort a of Some (host, _) \<Rightarrow> host | None \<Rightarrow> a)"

definition Matches :: "LocalIdentity \<Rightarrow> string \<Rightarrow> bool" where
  "Matches me address \<longleftrightarrow>
     ToLower (TrimSpace address) \<noteq> [] \<and>
     (case net_ParseIP (bare_host address) of
        Some ip \<Rightarrow> list_ex (\<lambda>local. IP_Equal local ip) (li_Addresses me)
      | None \<Rightarrow> list_ex (\<lambda>hostname. hostname = bare_host address) (li_Hostnames me))"

section \<open>The check\<close>

text \<open>Which clients appear in a shutdown stage, and where first.\<close>

definition placements :: "Config \<Rightarrow> (string \<times> string \<times> string) list" where
  "placements cfg =
     concat (map (\<lambda>p. concat (map (\<lambda>s. map (\<lambda>n. (n, pl_Name p, sg_Name s)) (ResolveClientRefs (sg_Clients s) cfg))
       (sh_Stages (pl_Shutdown p)))) (cf_Plans cfg))"

definition inShutdown :: "Config \<Rightarrow> (string \<rightharpoonup> string \<times> string)" where
  "inShutdown cfg =
     foldl (\<lambda>m (name, where). if m name = None then m(name \<mapsto> where) else m) Map.empty (placements cfg)"

definition postShutdownDescription :: "PostShutdownConfig \<Rightarrow> string" where
  "postShutdownDescription ps =
     (if ps_Command ps \<noteq> [] then ''run '' @ ps_Command ps else ''cut its outlets'')"

definition self_client_diags :: "Config \<Rightarrow> LocalIdentity \<Rightarrow> ClientConfig \<Rightarrow> diag list" where
  "self_client_diags cfg me c =
     (if \<not> Matches me (cl_Address c) then []
      else case inShutdown cfg (cl_Name c) of
             None \<Rightarrow> [Warn (SelfMsg (SelfUnscheduled (cl_Name c) (cl_Address c)))]
           | Some (plan, stage) \<Rightarrow> [Err (SelfMsg (SelfShutDown (cl_Name c) (cl_Address c) plan stage))])"

definition post_diags :: "PlanConfig \<Rightarrow> diag list" where
  "post_diags p =
     (case sh_PostShutdown (pl_Shutdown p) of
        None \<Rightarrow> []
      | Some ps \<Rightarrow> [Inform (SelfMsg (PostShutdownCutsPower (pl_Name p) (ps_UPS ps) (postShutdownDescription ps)))])"

definition validateSelfPreservation :: "Config \<Rightarrow> LocalIdentity option \<Rightarrow> diag list" where
  "validateSelfPreservation cfg me =
     (case me of
        None \<Rightarrow> []
      | Some me \<Rightarrow>
          if li_Hostnames me = [] \<and> li_Addresses me = [] then [Warn (SelfMsg IdentityUnknown)]
          else concat (map (self_client_diags cfg me) (cf_Clients cfg)) @ concat (map post_diags (cf_Plans cfg)))"

text \<open>\<open>ValidateWith\<close> of \<open>validate.go\<close>, every check in order.\<close>

definition ValidateWith :: "rt \<Rightarrow> Config \<Rightarrow> Registry option \<Rightarrow> string list \<Rightarrow> string list \<Rightarrow> ValidationResult" where
  "ValidateWith rt cfg reg wfields order =
     foldl add_diag \<lparr>vr_Errors = [], vr_Warnings = [], vr_Info = []\<rparr>
       (validateCanarium rt cfg @ validateClients rt cfg reg @ validateSources rt cfg reg @
        validatePlans rt cfg reg wfields @ validateDependencies cfg order @
        (case reg of None \<Rightarrow> [] | Some r \<Rightarrow> validateSelfPreservation cfg (rg_Local r)))"

definition Validate :: "rt \<Rightarrow> Config \<Rightarrow> string list \<Rightarrow> string list \<Rightarrow> ValidationResult" where
  "Validate rt cfg wfields order = ValidateWith rt cfg None wfields order"

section \<open>What the check refuses\<close>

lemma errors_fold: "vr_Errors (foldl add_diag r ds) = vr_Errors r @ List.map_filter (\<lambda>d. case d of Err m \<Rightarrow> Some m | _ \<Rightarrow> None) ds"
proof (induction ds arbitrary: r)
  case (Cons d ds)
  then show ?case by (cases d) (simp_all add: map_filter_simps)
qed (simp add: map_filter_simps)

lemma errors_iff: "vr_Errors (foldl add_diag r ds) = [] \<longleftrightarrow> vr_Errors r = [] \<and> \<not> has_err ds"
  by (auto simp: errors_fold has_err_def List.map_filter_def filter_empty_conv split: diag.splits)

lemma accepted_self:
  assumes "\<not> HasErrors (ValidateWith rt cfg (Some reg) wfields order)"
  shows "\<not> has_err (validateSelfPreservation cfg (rg_Local reg))"
  using assms by (auto simp: HasErrors_def ValidateWith_def errors_iff)

lemma first_placement:
  assumes "(name, w) \<in> set ps"
  shows "foldl (\<lambda>m (name, where). if m name = None then m(name \<mapsto> where) else m) m ps name \<noteq> None"
proof -
  let ?f = "\<lambda>m (name, where). if m name = None then m(name \<mapsto> where) else m"
  have keep: "m name \<noteq> None \<Longrightarrow> foldl ?f m qs name \<noteq> None" for m :: "'a \<rightharpoonup> 'b" and qs
    by (induction qs arbitrary: m) (auto split: prod.splits)
  from assms show ?thesis
  proof (induction ps arbitrary: m)
    case (Cons q ps)
    show ?case
    proof (cases "q = (name, w)")
      case True
      then show ?thesis using keep [of "?f m q" ps] by auto
    next
      case False
      then show ?thesis using Cons by simp
    qed
  qed simp
qed

lemma placed:
  assumes "p \<in> set (cf_Plans cfg)" and "s \<in> set (sh_Stages (pl_Shutdown p))" and "n \<in> set (ResolveClientRefs (sg_Clients s) cfg)"
  shows "inShutdown cfg n \<noteq> None"
proof -
  have "(n, pl_Name p, sg_Name s) \<in> set (placements cfg)" using assms by (force simp: placements_def)
  then show ?thesis unfolding inShutdown_def by (rule first_placement)
qed

lemma self_in_no_stage:
  assumes "\<not> HasErrors (ValidateWith rt cfg (Some reg) wfields order)" and "rg_Local reg = Some me"
    and "c \<in> set (cf_Clients cfg)" and "Matches me (cl_Address c)"
    and "p \<in> set (cf_Plans cfg)" and "s \<in> set (sh_Stages (pl_Shutdown p))"
  shows "cl_Name c \<notin> set (ResolveClientRefs (sg_Clients s) cfg)"
proof
  assume "cl_Name c \<in> set (ResolveClientRefs (sg_Clients s) cfg)"
  with assms(5,6) obtain plan stage where "inShutdown cfg (cl_Name c) = Some (plan, stage)" using placed by fastforce
  then have "has_err (self_client_diags cfg me c)" using assms(4) by (simp add: self_client_diags_def)
  moreover have "\<not> (li_Hostnames me = [] \<and> li_Addresses me = [])"
    using assms(4) by (auto simp: Matches_def split: option.splits)
  ultimately show False using accepted_self [OF assms(1)] assms(2,3) by (auto simp: validateSelfPreservation_def)
qed

section \<open>The running daemon\<close>

lemma findPlan_in: "findPlan cfg name = Some p \<Longrightarrow> p \<in> set (cf_Plans cfg)"
  by (auto simp: findPlan_def find_Some_iff)

text \<open>The plan of the running sequence is one of the configuration, and a stage that runs is one of its stages.\<close>

definition plan_known :: "engine_env \<Rightarrow> daemon \<Rightarrow> bool" where
  "plan_known en d \<longleftrightarrow> (\<forall>a. e_active (snd d) = Some a \<longrightarrow> as_plan a \<in> set (cf_Plans (en_cfg en)))"

definition stage_known :: "engine_env \<Rightarrow> daemon \<Rightarrow> bool" where
  "stage_known en d \<longleftrightarrow> (\<forall>i rec budget cs. fst d = StageRun i rec budget cs \<longrightarrow>
     (\<exists>p \<in> set (cf_Plans (en_cfg en)). \<exists>s \<in> set (sh_Stages (pl_Shutdown p)).
        map fst cs = ResolveClientRefs (sg_Clients s) (en_cfg en)))"

lemma boot_known: "plan_known en (boot en db tbl st keys ok now) \<and> stage_known en (boot en db tbl st keys ok now)"
proof -
  obtain pc e where b: "boot en db tbl st keys ok now = (pc, e)" by force
  from boot_slot [OF b] have "stage_known en (pc, e)" by (auto simp: stage_known_def)
  moreover from b have "plan_known en (pc, e)"
    by (rule boot_cases) (auto simp: plan_known_def newActiveSequence_def dest: findPlan_in)
  ultimately show ?thesis using b by simp
qed

lemma restart_known:
  assumes "is_restart ev" and "plan_known en d" and "stage_known en d"
  shows "plan_known en (daemon_step en ev d) \<and> stage_known en (daemon_step en ev d)"
proof (cases ev)
  case (Restart k tbl st keys ok now)
  obtain pc e where d: "d = (pc, e)" by force
  obtain pc1 e1 where b: "boot en (e_disk e ! k) tbl st keys ok now = (pc1, e1)" by force
  then show ?thesis using boot_known [of en "e_disk e ! k" tbl st keys ok now] assms Restart d
    by (simp add: plan_known_def stage_known_def)
qed (use assms in auto)

lemma plan_known_step:
  assumes "reachable en (pc, e)" and "plan_known en (pc, e)" and "\<not> is_restart ev" and "daemon_step en ev (pc, e) = (pc', e')"
  shows "plan_known en (pc', e')"
proof (cases "e_active e")
  case None
  then have idle: "pc = Idle" using slot_invariant [OF assms(1)] by simp
  show ?thesis
  proof (cases "\<exists>now. ev = PolicyTick now")
    case True
    then obtain now where ev: "ev = PolicyTick now" by blast
    obtain fired x where x: "evaluatePolicies en now e = (fired, x)" by force
    have x': "e' = x \<or> e' = e" using assms(4) None idle ev x by (auto split: if_splits)
    show ?thesis
    proof (cases fired)
      case True
      then obtain p y where p: "p \<in> set (cf_Plans (en_cfg en))" "e_active x = Some (newSequenceFor en now p y)"
        using x by (fastforce simp: evaluatePolicies_def dest: evaluate_plans_fired split: if_splits)
      then show ?thesis using x' None by (auto simp: plan_known_def newSequenceFor_def newActiveSequence_def Let_def)
    next
      case False
      have "e_active x = e_active e" using x False
        by (auto simp: evaluatePolicies_def dest!: evaluate_plans_idle split: if_splits)
      then show ?thesis using x' None by (auto simp: plan_known_def)
    qed
  next
    case False
    have "e_active e' = None"
    proof (cases "is_slot_event ev")
      case True
      then show ?thesis using False None idle assms(3,4) by (cases ev) auto
    qed (use other_event_slot [OF _ assms(4)] None in simp)
    then show ?thesis by (simp add: plan_known_def)
  qed
next
  case (Some a)
  then have "pc \<noteq> Idle" using slot_invariant [OF assms(1)] by simp
  from step_running [OF Some this assms(3,4)] show ?thesis using assms(2) Some
    by (auto simp: plan_known_def same_sequence_def)
qed

lemma stage_names_kept:
  assumes "executeStage en tk i rec budget cs e = (StageRun i' rec' budget' cs', e')"
  shows "map fst cs' = map fst cs"
proof -
  have "map fst (cs[k := (name, p)]) = map fst cs" if "k < length cs" "cs ! k = (name, q)" for k name p q
    using that by (metis fst_conv list_update_id map_update nth_map)
  then show ?thesis using assms by (auto simp: executeStage_def split: if_splits prod.splits)
qed

lemma stage_known_step:
  assumes "reachable en (pc, e)" and "plan_known en (pc, e)" and "stage_known en (pc, e)"
    and "\<not> is_restart ev" and "daemon_step en ev (pc, e) = (StageRun i rec budget cs, e')"
  shows "\<exists>p \<in> set (cf_Plans (en_cfg en)). \<exists>s \<in> set (sh_Stages (pl_Shutdown p)). map fst cs = ResolveClientRefs (sg_Clients s) (en_cfg en)"
proof (cases "\<exists>tk. ev = SeqTick tk")
  case False
  have "pc = StageRun i rec budget cs"
  proof (cases "is_slot_event ev")
    case True
    then show ?thesis using False assms(4,5) by (cases ev) (auto split: if_splits prod.splits)
  qed (use other_event_slot [OF _ assms(5)] in simp)
  then show ?thesis using assms(3) by (simp add: stage_known_def)
next
  case True
  then obtain tk where tk: "ev = SeqTick tk" by blast
  obtain a where a: "e_active e = Some a"
    using slot_invariant [OF assms(1)] assms(5) tk by (cases "e_active e") auto
  have s: "seq_step en tk a pc e = (StageRun i rec budget cs, e')" using assms(5) tk a by simp
  show ?thesis
  proof (cases "in_stage_run pc")
    case True
    then obtain i0 rec0 b0 cs0 where pc: "pc = StageRun i0 rec0 b0 cs0" by (cases pc) auto
    then have "executeStage en tk i0 rec0 b0 cs0 e = (StageRun i rec budget cs, e')" using s by simp
    moreover from this have "i = i0" "rec = rec0" "budget = b0" by (auto simp: executeStage_def split: if_splits prod.splits)
    ultimately have "map fst cs = map fst cs0" using stage_names_kept by metis
    then show ?thesis using assms(3) pc by (simp add: stage_known_def)
  next
    case False
    then obtain j dl where w: "pc = StageWait j dl" using stage_run_from [of en tk a pc e] s by auto
    have j: "j < length (sh_Stages (pl_Shutdown (as_plan a)))"
      using waits_in_plan_reachable [OF assms(1)] w a by (simp add: waits_in_plan_def)
    have "waitForStage en tk a (stage_at a j) j dl e = (StageRun i rec budget cs, e')" using s w by simp
    from waitForStage_enters [OF this a] obtain x where
      "enter_stage en tk (stage_at a j) j x = (StageRun i rec budget cs, e')" by blast
    from enter_stage_cases [OF this] have "map fst cs = ResolveClientRefs (sg_Clients (stage_at a j)) (en_cfg en)" by simp
    moreover have "stage_at a j \<in> set (sh_Stages (pl_Shutdown (as_plan a)))" using j by (simp add: stage_at_def)
    ultimately show ?thesis using assms(2) a by (auto simp: plan_known_def)
  qed
qed

lemma known_reachable: "reachable en d \<Longrightarrow> plan_known en d \<and> stage_known en d"
proof (induction rule: reachable.induct)
  case (boot db tbl st keys ok now)
  show ?case by (rule boot_known)
next
  case (step d ev)
  obtain pc e where d: "d = (pc, e)" by force
  obtain pc' e' where d': "daemon_step en ev (pc, e) = (pc', e')" by force
  show ?case
  proof (cases "is_restart ev")
    case True
    then show ?thesis using restart_known step.IH by blast
  next
    case False
    have "stage_known en (pc', e')"
      using stage_known_step [of en pc e ev] step.hyps(1) step.IH False d d' by (auto simp: stage_known_def [of en "(pc', e')"])
    then show ?thesis using plan_known_step [OF _ _ False d'] step d d' by simp
  qed
qed

text \<open>What an address that does not match the detected identity is not.\<close>

definition not_this_host :: "string option \<Rightarrow> ip option list option \<Rightarrow> string \<Rightarrow> bool" where
  "not_this_host hostname addrs address \<longleftrightarrow>
     (case net_ParseIP (bare_host address) of
        Some ip \<Rightarrow>
          (\<forall>as local. addrs = Some as \<and> Some local \<in> set as \<and> \<not> IsLoopback local \<longrightarrow> \<not> IP_Equal local ip)
      | None \<Rightarrow>
          (\<forall>h. hostname = Some h \<and> h \<noteq> [] \<longrightarrow> bare_host address \<noteq> ToLower h \<and>
             (\<forall>short domain. Cut h (CHR ''.'') = Some (short, domain) \<and> short \<noteq> [] \<longrightarrow> bare_host address \<noteq> ToLower short)))"

lemma net_ParseIP_nil: "net_ParseIP [] = None"
  by code_simp

lemma bare_host_nil: "ToLower (TrimSpace address) = [] \<Longrightarrow> bare_host address = []"
  by (simp add: bare_host_def) (simp add: net_SplitHostPort_def Let_def)

lemma set_map_filter_id: "set (List.map_filter id xs) = {x. Some x \<in> set xs}"
  by (force simp: List.map_filter_def)

lemma not_matching: "\<not> Matches (DetectLocalIdentity hostname addrs) address \<Longrightarrow> not_this_host hostname addrs address"
proof (cases "ToLower (TrimSpace address) = []")
  case True
  then show ?thesis using bare_host_nil [OF True] by (auto simp: not_this_host_def net_ParseIP_nil ToLower_def)
next
  case False
  assume "\<not> Matches (DetectLocalIdentity hostname addrs) address"
  then show ?thesis using False
    by (cases "net_ParseIP (bare_host address)")
      (auto simp: not_this_host_def Matches_def DetectLocalIdentity_def list_ex_iff set_map_filter_id [unfolded id_def] split: option.splits if_splits)
qed


end
