(* ===== verification/Nut.thy ===== *)
theory Nut
  imports Daemon Net_Addr
begin

text \<open>
  Network UPS Tools (\<open>modules/nut/nut.go\<close>): the source that polls a server for the variables of a UPS,
  the protocol session both directions use, and the transport that sends an instant command. A
  connection is the lines the server will send, the outcome of each write, and what was written.
\<close>

section \<open>Configuration\<close>

definition defaultNUTPort :: int where "defaultNUTPort = 3493"
definition defaultUPSName :: string where "defaultUPSName = ''ups''"
definition defaultPollInterval :: duration where "defaultPollInterval = 15 * Second"

record nut_instance =
  ni_Name :: string
  ni_Host :: string
  ni_Port :: int
  ni_UPS :: string
  ni_PollInterval :: string
  ni_Username :: string
  ni_Password :: string

definition nut_host :: "nut_instance \<Rightarrow> string" where
  "nut_host c = (if ni_Host c = [] then ''localhost'' else ni_Host c)"

definition nut_port :: "nut_instance \<Rightarrow> int" where
  "nut_port c = (if ni_Port c = 0 then defaultNUTPort else ni_Port c)"

definition nut_ups :: "nut_instance \<Rightarrow> string" where
  "nut_ups c = (if ni_UPS c = [] then defaultUPSName else ni_UPS c)"

definition nut_pollInterval :: "nut_instance \<Rightarrow> duration" where
  "nut_pollInterval c =
     (if ni_PollInterval c = [] then defaultPollInterval
      else case time_ParseDuration (ni_PollInterval c) of
             None \<Rightarrow> defaultPollInterval
           | Some d \<Rightarrow> if d \<le> 0 then defaultPollInterval else d)"

section \<open>The variables published as facts\<close>

record standardVar =
  sv_nut :: string
  sv_fact :: string
  sv_typ :: string
  sv_unit :: string
  sv_desc :: string

definition sv :: "string \<Rightarrow> string \<Rightarrow> string \<Rightarrow> string \<Rightarrow> string \<Rightarrow> standardVar" where
  "sv n f t u d = \<lparr>sv_nut = n, sv_fact = f, sv_typ = t, sv_unit = u, sv_desc = d\<rparr>"

definition statusFlags :: "string list" where
  "statusFlags =
     [''OL'', ''OB'', ''LB'', ''HB'', ''RB'', ''CHRG'', ''DISCHRG'', ''BYPASS'', ''CAL'',
      ''OFF'', ''OVER'', ''TRIM'', ''BOOST'', ''FSD'', ''ALARM'']"

definition standardVars :: "standardVar list" where
  "standardVars =
    [sv ''ups.status'' ''status'' ''set'' [] ''UPS status flags'',
     sv ''battery.charge'' ''battery.charge'' ''percent'' [] ''State of charge'',
     sv ''battery.charge.low'' ''battery.charge.low'' ''percent'' [] ''Charge at which the UPS reports low battery'',
     sv ''battery.charge.warning'' ''battery.charge.warning'' ''percent'' [] ''Charge at which the UPS warns'',
     sv ''battery.runtime'' ''battery.runtime'' ''duration'' ''seconds'' ''Estimated runtime remaining'',
     sv ''battery.runtime.low'' ''battery.runtime.low'' ''duration'' ''seconds'' ''Runtime at which the UPS reports low battery'',
     sv ''battery.voltage'' ''battery.voltage'' ''number'' ''volts'' ''Battery voltage'',
     sv ''battery.voltage.nominal'' ''battery.voltage.nominal'' ''number'' ''volts'' ''Nominal battery voltage'',
     sv ''battery.current'' ''battery.current'' ''number'' ''amps'' ''Battery current'',
     sv ''battery.temperature'' ''battery.temperature'' ''number'' ''celsius'' ''Battery temperature'',
     sv ''input.voltage'' ''input.voltage'' ''number'' ''volts'' ''Input voltage'',
     sv ''input.voltage.nominal'' ''input.voltage.nominal'' ''number'' ''volts'' ''Nominal input voltage'',
     sv ''input.frequency'' ''input.frequency'' ''number'' ''hertz'' ''Input frequency'',
     sv ''input.current'' ''input.current'' ''number'' ''amps'' ''Input current'',
     sv ''input.transfer.low'' ''input.transfer.low'' ''number'' ''volts'' ''Input voltage below which the UPS goes to battery'',
     sv ''input.transfer.high'' ''input.transfer.high'' ''number'' ''volts'' ''Input voltage above which the UPS goes to battery'',
     sv ''output.voltage'' ''output.voltage'' ''number'' ''volts'' ''Output voltage'',
     sv ''output.voltage.nominal'' ''output.voltage.nominal'' ''number'' ''volts'' ''Nominal output voltage'',
     sv ''output.frequency'' ''output.frequency'' ''number'' ''hertz'' ''Output frequency'',
     sv ''output.current'' ''output.current'' ''number'' ''amps'' ''Output current'',
     sv ''ups.load'' ''ups.load'' ''percent'' [] ''Load as a share of capacity'',
     sv ''ups.realpower'' ''ups.realpower'' ''number'' ''watts'' ''Real power output'',
     sv ''ups.realpower.nominal'' ''ups.realpower.nominal'' ''number'' ''watts'' ''Rated real power'',
     sv ''ups.power'' ''ups.power'' ''number'' ''VA'' ''Apparent power output'',
     sv ''ups.power.nominal'' ''ups.power.nominal'' ''number'' ''VA'' ''Rated apparent power'',
     sv ''ups.efficiency'' ''ups.efficiency'' ''percent'' [] ''Efficiency'',
     sv ''ups.temperature'' ''ups.temperature'' ''number'' ''celsius'' ''UPS internal temperature'',
     sv ''device.mfr'' ''device.mfr'' ''string'' [] ''Manufacturer'',
     sv ''device.model'' ''device.model'' ''string'' [] ''Model'',
     sv ''ups.test.result'' ''ups.test.result'' ''string'' [] ''Result of the last self-test'']"

definition nut_declaration :: "standardVar \<Rightarrow> FactDeclaration" where
  "nut_declaration v =
     \<lparr>d_Name = sv_fact v, d_Type = sv_typ v, d_Range = [], d_Values = (if sv_typ v = ''set'' then statusFlags else []),
      d_Description = sv_desc v, d_Unit = sv_unit v\<rparr>"

text \<open>\<open>Declarations\<close> and \<open>RegisterFacts\<close>: every instance declares every variable.\<close>

definition nut_Declarations :: "nut_instance list \<Rightarrow> (string \<times> duration \<times> FactDeclaration list) list" where
  "nut_Declarations nis = map (\<lambda>i. (ni_Name i, nut_pollInterval i, map nut_declaration standardVars)) nis"

definition RegisterFacts :: "nut_instance list \<Rightarrow> Store \<Rightarrow> Store" where
  "RegisterFacts nis st = fold (\<lambda>(name, poll, ds). RegisterSource name poll ds) (nut_Declarations nis) st"

section \<open>The protocol\<close>

datatype nut_error =
    AccessDenied | UnknownUPS | CmdNotSupported | InstcmdFailed | DriverNotConnected | DataStale
  | OtherCode string
  | WriteFailed
  | ReadFailed "string option"
  | IncompleteCredentials
  | Rejected string nut_error
  | UnexpectedResponse string string
  | EndWithoutBegin

record nut_conn =
  nc_lines :: "string list"
  nc_end :: "string option"
  nc_ok :: "nat \<Rightarrow> bool"
  nc_sent :: "(string \<times> bool) list"

text \<open>
  An operation on the session returns an error or a value, and the connection; \<open>andThen\<close> is the idiom
  \<open>if err := ...; err != nil { return err }\<close>. A line is sent with its newline.
\<close>

definition andThen ::
  "(nut_conn \<Rightarrow> (nut_error + 'a) \<times> nut_conn) \<Rightarrow> ('a \<Rightarrow> nut_conn \<Rightarrow> (nut_error + 'b) \<times> nut_conn) \<Rightarrow>
     nut_conn \<Rightarrow> (nut_error + 'b) \<times> nut_conn" where
  "andThen m f c = (case m c of (Inl e, c') \<Rightarrow> (Inl e, c') | (Inr x, c') \<Rightarrow> f x c')"

definition newline :: string where "newline = [CHR 0x0A]"

definition nut_send :: "string \<Rightarrow> nut_conn \<Rightarrow> (nut_error + unit) \<times> nut_conn" where
  "nut_send s c =
     (let ok = nc_ok c (length (nc_sent c))
      in (if ok then Inr () else Inl WriteFailed, c\<lparr>nc_sent := nc_sent c @ [(s @ newline, ok)]\<rparr>))"

definition readLine :: "nut_conn \<Rightarrow> (nut_error + string) \<times> nut_conn" where
  "readLine c =
     (case nc_lines c of
        [] \<Rightarrow> (Inl (ReadFailed (nc_end c)), c)
      | line # rest \<Rightarrow> (Inr line, c\<lparr>nc_lines := rest\<rparr>))"

definition nutError :: "string \<Rightarrow> nut_error" where
  "nutError line =
     (let text = TrimSpace (TrimPrefix line ''ERR '');
          code = (case Cut text (CHR '' '') of Some (a, _) \<Rightarrow> a | None \<Rightarrow> text)
      in if code = ''ACCESS-DENIED'' then AccessDenied
         else if code = ''UNKNOWN-UPS'' then UnknownUPS
         else if code = ''CMD-NOT-SUPPORTED'' then CmdNotSupported
         else if code = ''INSTCMD-FAILED'' then InstcmdFailed
         else if code = ''DRIVER-NOT-CONNECTED'' then DriverNotConnected
         else if code = ''DATA-STALE'' then DataStale
         else OtherCode code)"

definition checkOK :: "string \<Rightarrow> string \<Rightarrow> nut_error + unit" where
  "checkOK line what =
     (if HasPrefix line ''OK'' then Inr ()
      else if HasPrefix line ''ERR '' then Inl (Rejected what (nutError line))
      else Inl (UnexpectedResponse what line))"

text \<open>A request that is answered by one line.\<close>

definition exchange :: "string \<Rightarrow> string \<Rightarrow> nut_conn \<Rightarrow> (nut_error + unit) \<times> nut_conn" where
  "exchange request what =
     andThen (nut_send request) (\<lambda>_. andThen readLine (\<lambda>line c. (checkOK line what, c)))"

definition nut_authenticate :: "string \<Rightarrow> string \<Rightarrow> nut_conn \<Rightarrow> (nut_error + unit) \<times> nut_conn" where
  "nut_authenticate username password c =
     (if username = [] \<and> password = [] then (Inr (), c)
      else if username = [] \<or> password = [] then (Inl IncompleteCredentials, c)
      else andThen (exchange (''USERNAME '' @ username) ''USERNAME'')
             (\<lambda>_. exchange (''PASSWORD '' @ password) ''PASSWORD'') c)"

text \<open>The loop over the text between the quotes; what remains escaped is the flag.\<close>

fun unescape :: "bool \<Rightarrow> string \<Rightarrow> string" where
  "unescape escaped [] = []"
| "unescape escaped (r # rs) =
     (if escaped then r # unescape False rs
      else if r = CHR 0x5C then unescape True rs
      else r # unescape False rs)"

abbreviation quote :: char where "quote \<equiv> CHR 0x22"

definition parseVarLine :: "string \<Rightarrow> (string \<times> string) option" where
  "parseVarLine rest =
     (case Cut rest (CHR '' '') of
        None \<Rightarrow> None
      | Some (name, quoted0) \<Rightarrow>
          if name = [] then None
          else let quoted = TrimSpace quoted0
               in if \<not> HasPrefix quoted [quote] \<or> CutSuffix quoted [quote] = None \<or> length quoted < 2
                  then Some (name, quoted)
                  else Some (name, unescape False (take (length quoted - 2) (drop 1 quoted))))"

text \<open>The loop of \<open>listVars\<close>, on the lines still to come; the lines it leaves come with the result.\<close>

fun list_loop ::
  "string \<Rightarrow> bool \<Rightarrow> (string \<rightharpoonup> string) \<Rightarrow> string option \<Rightarrow> string list \<Rightarrow> (nut_error + (string \<rightharpoonup> string)) \<times> string list"
where
  "list_loop prefix sawBegin vars end_err [] = (Inl (ReadFailed end_err), [])"
| "list_loop prefix sawBegin vars end_err (line # rest) =
     (if HasPrefix line ''BEGIN LIST VAR'' then list_loop prefix True vars end_err rest
      else if HasPrefix line ''END LIST VAR'' then
        (if \<not> sawBegin then (Inl EndWithoutBegin, rest) else (Inr vars, rest))
      else if HasPrefix line ''ERR '' then (Inl (nutError line), rest)
      else if HasPrefix line prefix then
        (case parseVarLine (TrimPrefix line prefix) of
           None \<Rightarrow> list_loop prefix sawBegin vars end_err rest
         | Some (name, value) \<Rightarrow> list_loop prefix sawBegin (vars(name \<mapsto> value)) end_err rest)
      else list_loop prefix sawBegin vars end_err rest)"

definition listVars :: "string \<Rightarrow> nut_conn \<Rightarrow> (nut_error + (string \<rightharpoonup> string)) \<times> nut_conn" where
  "listVars ups =
     andThen (nut_send (''LIST VAR '' @ ups))
       (\<lambda>_ c. case list_loop (''VAR '' @ ups @ '' '') False Map.empty (nc_end c) (nc_lines c) of
                (r, rest) \<Rightarrow> (r, c\<lparr>nc_lines := rest\<rparr>))"

definition logout :: "nut_conn \<Rightarrow> nut_conn" where
  "logout c = snd (nut_send ''LOGOUT'' c)"

text \<open>The network: what dialling an address gives.\<close>

type_synonym nut_network = "string \<Rightarrow> string + nut_conn"

definition nut_dial :: "nut_network \<Rightarrow> string \<Rightarrow> int \<Rightarrow> string + nut_conn" where
  "nut_dial net host port = net (HostPort host port)"

section \<open>Polling\<close>

datatype query_error = DialFailed string | SessionFailed nut_error

definition queryUPS :: "nut_network \<Rightarrow> nut_instance \<Rightarrow> (query_error + (string \<rightharpoonup> string)) \<times> nut_conn option" where
  "queryUPS net ni =
     (case nut_dial net (nut_host ni) (nut_port ni) of
        Inl err \<Rightarrow> (Inl (DialFailed err), None)
      | Inr c0 \<Rightarrow>
          (case andThen (nut_authenticate (ni_Username ni) (ni_Password ni)) (\<lambda>_. listVars (nut_ups ni)) c0 of
             (r, c) \<Rightarrow> (case r of Inl e \<Rightarrow> Inl (SessionFailed e) | Inr vars \<Rightarrow> Inr vars, Some (logout c))))"

text \<open>The value a variable is published with; \<open>None\<close> for text that is not a number where one is due.\<close>

definition var_value :: "rt \<Rightarrow> standardVar \<Rightarrow> string \<Rightarrow> goval option" where
  "var_value rt v raw =
     (if sv_typ v = ''set'' then Some (GStrings (Fields raw))
      else if sv_typ v = ''string'' then Some (GString (TrimSpace raw))
      else map_option GFloat64 (rt_ParseFloat rt (TrimSpace raw)))"

definition var_update :: "rt \<Rightarrow> string \<Rightarrow> instant \<Rightarrow> (string \<rightharpoonup> string) \<Rightarrow> standardVar \<Rightarrow> event option" where
  "var_update rt name now vars v =
     (case vars (sv_nut v) of
        None \<Rightarrow> None
      | Some raw \<Rightarrow> map_option (\<lambda>x. FactUpdate (name @ CHR ''.'' # sv_fact v) x now) (var_value rt v raw))"

text \<open>
  \<open>fetchAndUpdate\<close>: the updates of one poll, in order. \<open>dropped\<close> are those the end of the context
  overtakes in the \<open>select\<close> of \<open>emit\<close>.
\<close>

definition nut_fetchAndUpdate ::
  "rt \<Rightarrow> nut_network \<Rightarrow> instant \<Rightarrow> (event \<Rightarrow> bool) \<Rightarrow> nut_instance \<Rightarrow> event list" where
  "nut_fetchAndUpdate rt net now dropped ni =
     (case queryUPS net ni of
        (Inl _, _) \<Rightarrow> []
      | (Inr vars, _) \<Rightarrow> filter (\<lambda>ev. \<not> dropped ev) (List.map_filter (var_update rt (ni_Name ni) now vars) standardVars))"

section \<open>Instant commands\<close>

definition nut_transport :: Transport where
  "nut_transport =
     \<lparr>tr_Capabilities = [ActionOutletOff, ActionOutletOn], tr_Remap = (\<lambda>a. a), tr_Discovers = False\<rparr>"

definition configString :: "(string \<rightharpoonup> goval) \<Rightarrow> string \<Rightarrow> string" where
  "configString cfg key = (case cfg key of Some (GString s) \<Rightarrow> s | _ \<Rightarrow> [])"

definition configInt :: "rt \<Rightarrow> (string \<rightharpoonup> goval) \<Rightarrow> string \<Rightarrow> int" where
  "configInt rt cfg key = (case cfg key of Some (GInt n) \<Rightarrow> n | Some (GFloat64 f) \<Rightarrow> rt_FloatToInt rt f | _ \<Rightarrow> 0)"

definition ups_of_client :: "Client \<Rightarrow> string" where
  "ups_of_client client =
     (let ups = configString (ec_TransportConfig client) ''ups''
      in if ups \<noteq> [] then ups else if ec_Name client \<noteq> [] then ec_Name client else defaultUPSName)"

datatype nut_failure = UnsupportedAction | NoCommand | NoConnection string | AuthFailed nut_error | CommandFailed nut_error

text \<open>\<open>Execute\<close>: the failure, or the message of success, with the connection it used.\<close>

definition nut_Execute ::
  "rt \<Rightarrow> nut_network \<Rightarrow> Client \<Rightarrow> ActionType \<Rightarrow> (nut_failure + string) \<times> nut_conn option" where
  "nut_Execute rt net client action =
     (if action \<notin> {ActionOutletOff, ActionOutletOn} then (Inl UnsupportedAction, None)
      else let cfg = ec_TransportConfig client; command = configString cfg ''command''
           in if command = [] then (Inl NoCommand, None)
              else let host = (if ec_Address client = [] then ''localhost'' else ec_Address client);
                       port = (if configInt rt cfg ''port'' = 0 then defaultNUTPort else configInt rt cfg ''port'');
                       ups = ups_of_client client
                   in case nut_dial net host port of
                        Inl err \<Rightarrow> (Inl (NoConnection err), None)
                      | Inr c0 \<Rightarrow>
                          (case nut_authenticate (configString cfg ''username'') (configString cfg ''password'') c0 of
                             (Inl e, c1) \<Rightarrow> (Inl (AuthFailed e), Some (logout c1))
                           | (Inr _, c1) \<Rightarrow>
                               (case exchange (''INSTCMD '' @ ups @ '' '' @ command) (''INSTCMD '' @ command) c1 of
                                  (Inl e, c2) \<Rightarrow> (Inl (CommandFailed e), Some (logout c2))
                                | (Inr _, c2) \<Rightarrow> (Inr (''NUT accepted '' @ command @ '' for '' @ ups), Some (logout c2)))))"

end
