(* ===== verification/Nut_Correct.thy ===== *)
theory Nut_Correct
  imports Nut
begin

text \<open>
  What the exchange with a Network UPS Tools server gives: a listing is read back as the server wrote
  it, a poll puts its readings into the daemon's fact store, and a command goes out only on a session
  the server has let in.
\<close>

section \<open>A listing\<close>

text \<open>How a server writes a variable: quotes and backslashes of the value are escaped.\<close>

definition escape :: "string \<Rightarrow> string" where
  "escape v = concat (map (\<lambda>c. if c = quote \<or> c = CHR 0x5C then [CHR 0x5C, c] else [c]) v)"

definition var_line :: "string \<Rightarrow> string \<times> string \<Rightarrow> string" where
  "var_line ups nv = ''VAR '' @ ups @ '' '' @ fst nv @ '' '' @ [quote] @ escape (snd nv) @ [quote]"

definition server_reply :: "string \<Rightarrow> (string \<times> string) list \<Rightarrow> string list" where
  "server_reply ups vs = (''BEGIN LIST VAR '' @ ups) # map (var_line ups) vs @ [''END LIST VAR '' @ ups]"

definition var_name :: "string \<Rightarrow> bool" where
  "var_name n \<longleftrightarrow> n \<noteq> [] \<and> CHR '' '' \<notin> set n"

definition read_vars :: "(string \<times> string) list \<Rightarrow> (string \<rightharpoonup> string)" where
  "read_vars vs = foldl (\<lambda>m (n, v). m(n \<mapsto> v)) Map.empty vs"

lemma unescape_escape: "unescape False (escape v) = v"
  by (induction v) (auto simp: escape_def)

lemma Trim_quoted: "TrimSpace (quote # s @ [quote]) = quote # s @ [quote]"
  by (simp add: TrimSpace_def is_space_def)

lemma parse_var:
  assumes "var_name n"
  shows "parseVarLine (n @ CHR '' '' # quote # escape v @ [quote]) = Some (n, v)"
proof -
  have "Cut (n @ CHR '' '' # quote # escape v @ [quote]) (CHR '' '') = Some (n, quote # escape v @ [quote])"
    using assms by (simp add: var_name_def)
  moreover have "CutSuffix (quote # escape v @ [quote]) [quote] = Some (quote # escape v)" by (simp add: CutSuffix_def HasPrefix_def)
  ultimately show ?thesis using assms
    by (simp add: parseVarLine_def Trim_quoted Let_def var_name_def HasPrefix_def unescape_escape)
qed

lemma loop_var:
  assumes "\<not> HasPrefix line ''BEGIN LIST VAR''" "\<not> HasPrefix line ''END LIST VAR''" "\<not> HasPrefix line ''ERR ''"
    and "HasPrefix line prefix" and "parseVarLine (TrimPrefix line prefix) = Some (n, v)"
  shows "list_loop prefix b m er (line # rest) = list_loop prefix b (m(n \<mapsto> v)) er rest"
  using assms by simp

lemma loop_vars:
  assumes "list_all (\<lambda>(n, v). var_name n) vs"
  shows "list_loop (''VAR '' @ ups @ '' '') True m er (map (var_line ups) vs @ (''END LIST VAR '' @ ups) # rest) =
    (Inr (foldl (\<lambda>m (n, v). m(n \<mapsto> v)) m vs), rest)"
  using assms
proof (induction vs arbitrary: m)
  case Nil
  show ?case by (simp add: HasPrefix_def)
next
  case (Cons nv vs)
  obtain n v where nv: "nv = (n, v)" by force
  let ?p = "''VAR '' @ ups @ '' ''" and ?t = "n @ CHR '' '' # quote # escape v @ [quote]"
  have line: "var_line ups nv = ?p @ ?t" by (simp add: var_line_def nv)
  have "list_loop ?p True m er (var_line ups nv # xs) = list_loop ?p True (m(n \<mapsto> v)) er xs" for xs
  proof (rule loop_var)
    show "HasPrefix (var_line ups nv) ?p" by (simp only: line HasPrefix_append)
    show "parseVarLine (TrimPrefix (var_line ups nv) ?p) = Some (n, v)"
      unfolding line TrimPrefix_append using Cons.prems nv by (intro parse_var) simp
  qed (simp_all add: var_line_def HasPrefix_def)
  then show ?case using Cons nv by (simp only: list.map append_Cons foldl_Cons prod.case list.pred_inject)
qed

lemma listing_read:
  assumes "list_all (\<lambda>(n, v). var_name n) vs" and "nc_ok c (length (nc_sent c))"
    and "nc_lines c = server_reply ups vs @ rest"
  shows "listVars ups c =
    (Inr (read_vars vs), c\<lparr>nc_lines := rest, nc_sent := nc_sent c @ [(''LIST VAR '' @ ups @ newline, True)]\<rparr>)"
proof -
  have "list_loop (''VAR '' @ ups @ '' '') False Map.empty (nc_end c) (nc_lines c) = (Inr (read_vars vs), rest)"
    using loop_vars [OF assms(1), of ups Map.empty "nc_end c" rest]
    by (simp add: assms(3) server_reply_def read_vars_def HasPrefix_def)
  then show ?thesis using assms(2) by (simp add: listVars_def andThen_def nut_send_def Let_def)
qed

lemma exchange_ok: "exchange q what c = (r, c') \<Longrightarrow> nc_ok c' = nc_ok c"
  by (auto simp: exchange_def andThen_def nut_send_def readLine_def Let_def split: prod.splits sum.splits list.splits if_splits)

lemma authenticate_ok: "nut_authenticate u p c = (r, c') \<Longrightarrow> nc_ok c' = nc_ok c"
  by (auto simp: nut_authenticate_def andThen_def split: prod.splits sum.splits if_splits dest!: exchange_ok)

text \<open>
  C33. A listing is read as the server means it: whatever the values contain, quotes, backslashes and
  spaces included, the variables read are those of the reply, the last one for a name that occurs
  twice, and what follows the reply is left for the next read.
\<close>

theorem listing_roundtrip:
  assumes "list_all (\<lambda>(n, v). var_name n) vs" and "nc_ok c (length (nc_sent c))"
    and "nc_lines c = server_reply ups vs @ rest"
  shows "listVars ups c =
    (Inr (read_vars vs), c\<lparr>nc_lines := rest, nc_sent := nc_sent c @ [(''LIST VAR '' @ ups @ newline, True)]\<rparr>)"
  using assms by (rule listing_read)

section \<open>From the server to the store\<close>

definition update_key :: "event \<Rightarrow> string" where
  "update_key ev = (case ev of FactUpdate k v t \<Rightarrow> k | _ \<Rightarrow> [])"

definition is_update :: "event \<Rightarrow> bool" where
  "is_update ev \<longleftrightarrow> (\<exists>k v t. ev = FactUpdate k v t)"

text \<open>The store after the updates of a poll; nothing else of the daemon changes.\<close>

definition stored :: "event list \<Rightarrow> Store \<Rightarrow> Store" where
  "stored evs st = foldl (\<lambda>st ev. case ev of FactUpdate k v t \<Rightarrow> Store_Update k v t st | _ \<Rightarrow> st) st evs"

lemma run_updates:
  "list_all is_update evs \<Longrightarrow> run en evs (pc, e) = (pc, e\<lparr>e_store := stored evs (e_store e)\<rparr>)"
  by (induction evs arbitrary: e) (auto simp: run_def stored_def is_update_def)

lemma stored_others:
  "list_all (\<lambda>ev. update_key ev \<noteq> k) evs \<Longrightarrow> Store_Get (stored evs st) k = Store_Get st k"
  by (induction evs arbitrary: st) (auto simp: stored_def update_key_def store.get_upd_other split: event.splits)

lemma stored_declared: "declared (stored evs st) = declared st"
  by (induction evs arbitrary: st) (simp_all add: stored_def store.known_upd split: event.splits)

lemma stored_append: "stored (a @ b) st = stored b (stored a st)"
  by (simp add: stored_def)

lemma map_filter_append: "List.map_filter f (xs @ ys) = List.map_filter f xs @ List.map_filter f ys"
  by (simp add: List.map_filter_def)

lemma update_of_var:
  assumes "var_update rt name now vars v = Some ev"
  shows "is_update ev" "update_key ev = fact_key name (sv_fact v)"
  using assms by (auto simp: var_update_def is_update_def update_key_def fact_key_def split: option.splits)

lemma list_all_map_filter: "(\<And>x y. x \<in> set xs \<Longrightarrow> f x = Some y \<Longrightarrow> P y) \<Longrightarrow> list_all P (List.map_filter f xs)"
  by (auto simp: List.map_filter_def list_all_iff)

lemma updates_of_vars:
  "list_all is_update (List.map_filter (var_update rt name now vars) vs)"
  "sv_fact v \<notin> sv_fact ` set vs \<Longrightarrow>
     list_all (\<lambda>ev. update_key ev \<noteq> fact_key name (sv_fact v)) (List.map_filter (var_update rt name now vars) vs)"
  by (rule list_all_map_filter, erule update_of_var) (rule list_all_map_filter, auto dest!: update_of_var(2) simp: fact_key_def)

lemma standard_facts_distinct:
  assumes "standardVars = a @ v # b"
  shows "sv_fact v \<notin> sv_fact ` set a" "sv_fact v \<notin> sv_fact ` set b"
proof -
  have "distinct (map sv_fact standardVars)" by code_simp
  then have "distinct (map sv_fact (a @ v # b))" by (simp only: assms)
  then show "sv_fact v \<notin> sv_fact ` set a" "sv_fact v \<notin> sv_fact ` set b" by auto
qed

lemma poll_stores:
  assumes "v \<in> set standardVars" and "vars (sv_nut v) = Some raw" and "var_value rt v raw = Some x"
    and "declared st (fact_key name (sv_fact v))"
  shows "Store_Get (stored (List.map_filter (var_update rt name now vars) standardVars) st) (fact_key name (sv_fact v)) =
    (x, QualityGood, Some now)"
proof -
  obtain a b where ab: "standardVars = a @ v # b" using assms(1) by (meson split_list)
  note b = standard_facts_distinct(2) [OF ab]
  have u: "var_update rt name now vars v = Some (FactUpdate (fact_key name (sv_fact v)) x now)"
    using assms(2,3) by (simp add: var_update_def fact_key_def)
  let ?f = "List.map_filter (var_update rt name now vars)" and ?k = "fact_key name (sv_fact v)"
  have s: "stored (?f standardVars) st = stored (?f b) (Store_Update ?k x now (stored (?f a) st))"
    by (simp add: ab map_filter_append map_filter_simps u stored_append) (simp add: stored_def)
  have "Store_Get (Store_Update ?k x now (stored (?f a) st)) ?k = (x, QualityGood, Some now)"
    using assms(4) by (intro store.get_upd_same) (simp add: stored_declared)
  then show ?thesis unfolding s using stored_others [OF updates_of_vars(2) [OF b]] by simp
qed

text \<open>
  A poll reaches the conditions. When the server lets the session in and lists the variables of the UPS,
  then after the updates of the poll every standard variable the listing has, with a value that can be
  read, is in the daemon's store under the instance's name with that value, good, and as of the poll;
  a fact the listing does not have keeps what it had.
\<close>

theorem poll_reaches_store:
  assumes "nut_dial net (nut_host ni) (nut_port ni) = Inr c0" and "\<And>n. nc_ok c0 n"
    and "nut_authenticate (ni_Username ni) (ni_Password ni) c0 = (Inr (), c1)"
    and "nc_lines c1 = server_reply (nut_ups ni) vs @ rest" and "list_all (\<lambda>(n, v). var_name n) vs"
    and "v \<in> set standardVars" and "declared (e_store e) (fact_key (ni_Name ni) (sv_fact v))"
  shows "\<exists>st. run en (nut_fetchAndUpdate rt net now (\<lambda>_. False) ni) (pc, e) = (pc, e\<lparr>e_store := st\<rparr>) \<and>
    Store_Get st (fact_key (ni_Name ni) (sv_fact v)) =
      (case read_vars vs (sv_nut v) of
         None \<Rightarrow> Store_Get (e_store e) (fact_key (ni_Name ni) (sv_fact v))
       | Some raw \<Rightarrow> (case var_value rt v raw of
                       None \<Rightarrow> Store_Get (e_store e) (fact_key (ni_Name ni) (sv_fact v))
                     | Some x \<Rightarrow> (x, QualityGood, Some now)))"
proof -
  let ?k = "fact_key (ni_Name ni) (sv_fact v)" and ?f = "List.map_filter (var_update rt (ni_Name ni) now (read_vars vs))"
  have ok: "nc_ok c1 n" for n using authenticate_ok [OF assms(3)] assms(2) by simp
  from listing_read [OF assms(5) ok assms(4)]
  have "fst (queryUPS net ni) = Inr (read_vars vs)"
    using assms(1,3) by (simp add: queryUPS_def andThen_def split: prod.splits)
  then have f: "nut_fetchAndUpdate rt net now (\<lambda>_. False) ni = ?f standardVars"
    by (cases "queryUPS net ni") (simp add: nut_fetchAndUpdate_def)
  have r: "run en (?f standardVars) (pc, e) = (pc, e\<lparr>e_store := stored (?f standardVars) (e_store e)\<rparr>)"
    by (rule run_updates) (rule updates_of_vars)
  have none: "Store_Get (stored (?f standardVars) (e_store e)) ?k = Store_Get (e_store e) ?k"
    if "var_update rt (ni_Name ni) now (read_vars vs) v = None"
  proof -
    obtain a b where ab: "standardVars = a @ v # b" using assms(6) by (meson split_list)
    have "sv_fact v \<notin> sv_fact ` set (a @ b)" using standard_facts_distinct [OF ab] by auto
    from stored_others [OF updates_of_vars(2) [OF this]] have "Store_Get (stored (?f (a @ b)) (e_store e)) ?k = Store_Get (e_store e) ?k" .
    moreover have "?f standardVars = ?f (a @ b)" using that by (simp add: ab map_filter_append map_filter_simps)
    ultimately show ?thesis by simp
  qed
  have "Store_Get (stored (?f standardVars) (e_store e)) ?k =
      (case read_vars vs (sv_nut v) of
         None \<Rightarrow> Store_Get (e_store e) ?k
       | Some raw \<Rightarrow> (case var_value rt v raw of None \<Rightarrow> Store_Get (e_store e) ?k | Some x \<Rightarrow> (x, QualityGood, Some now)))"
  proof (cases "read_vars vs (sv_nut v)")
    case None
    then show ?thesis using none by (simp add: var_update_def)
  next
    case (Some raw)
    then show ?thesis using none poll_stores [where vars = "read_vars vs", OF assms(6) Some _ assms(7)]
      by (cases "var_value rt v raw") (simp_all add: var_update_def)
  qed
  then show ?thesis unfolding f using r by blast
qed

section \<open>A command\<close>

definition ok_line :: "string \<Rightarrow> bool" where
  "ok_line line \<longleftrightarrow> HasPrefix line ''OK''"

definition user_line :: "string \<Rightarrow> string" where
  "user_line u = (''USERNAME '' @ u) @ newline"

definition password_line :: "string \<Rightarrow> string" where
  "password_line p = (''PASSWORD '' @ p) @ newline"

definition command_line :: "Client \<Rightarrow> string" where
  "command_line client =
     (''INSTCMD '' @ ups_of_client client @ '' '' @ configString (ec_TransportConfig client) ''command'') @ newline"

definition logout_line :: string where
  "logout_line = ''LOGOUT'' @ newline"

definition lines_sent :: "nut_conn \<Rightarrow> string list" where
  "lines_sent c = map fst (nc_sent c)"

lemma command_differs [simp]:
  "command_line client \<noteq> user_line u" "command_line client \<noteq> password_line p" "command_line client \<noteq> logout_line"
  by (simp_all add: command_line_def user_line_def password_line_def logout_line_def)

lemma checkOK_iff: "checkOK line what = Inr x \<longleftrightarrow> ok_line line"
  by (simp add: checkOK_def ok_line_def)

text \<open>What an exchange sends, and when it succeeds.\<close>

lemma exchange_sends: "lines_sent (snd (exchange q what c)) = lines_sent c @ [q @ newline]"
  by (simp add: lines_sent_def exchange_def andThen_def nut_send_def readLine_def Let_def split: list.split)

lemma exchange_succeeds:
  assumes "exchange q what c = (Inr x, c')"
  obtains line where "nc_lines c = line # nc_lines c'" "ok_line line"
  using assms by (auto simp: exchange_def andThen_def nut_send_def readLine_def checkOK_iff Let_def
      split: list.splits if_splits)

lemma logout_sends: "lines_sent (logout c) = lines_sent c @ [logout_line]"
  by (simp add: lines_sent_def logout_def logout_line_def nut_send_def Let_def)

lemma authenticate_refused:
  assumes "nut_authenticate u p c = (Inl e, c')"
  shows "\<exists>sent. set sent \<subseteq> {user_line u, password_line p} \<and> lines_sent c' = lines_sent c @ sent"
proof (cases "u \<noteq> [] \<and> p \<noteq> []")
  case False
  then have "c' = c" using assms by (auto simp: nut_authenticate_def split: if_splits)
  then show ?thesis by (intro exI [of _ "[]"]) simp
next
  case True
  let ?u = "exchange (''USERNAME '' @ u) ''USERNAME''" and ?p = "exchange (''PASSWORD '' @ p) ''PASSWORD''"
  have "c' = snd (?u c) \<or> c' = snd (?p (snd (?u c)))"
    using assms True by (auto simp: nut_authenticate_def andThen_def split: prod.splits sum.splits)
  then have "lines_sent c' = lines_sent c @ [user_line u] \<or> lines_sent c' = lines_sent c @ [user_line u, password_line p]"
    by (auto simp: exchange_sends user_line_def password_line_def)
  then show ?thesis by (elim disjE) (rule exI, rule conjI [rotated], assumption, simp)+
qed

lemma authenticate_accepted:
  assumes "nut_authenticate u p c = (Inr x, c')"
  shows "u = [] \<and> p = [] \<and> c' = c \<or>
    u \<noteq> [] \<and> p \<noteq> [] \<and> (\<exists>l1 l2. nc_lines c = l1 # l2 # nc_lines c' \<and> ok_line l1 \<and> ok_line l2) \<and>
      lines_sent c' = lines_sent c @ [user_line u, password_line p]"
proof (cases "u \<noteq> [] \<and> p \<noteq> []")
  case False
  then show ?thesis using assms by (auto simp: nut_authenticate_def split: if_splits)
next
  case True
  let ?u = "exchange (''USERNAME '' @ u) ''USERNAME''" and ?p = "exchange (''PASSWORD '' @ p) ''PASSWORD''"
  obtain y c1 where u: "?u c = (Inr y, c1)" and pw: "?p c1 = (Inr x, c')"
    using assms True by (auto simp: nut_authenticate_def andThen_def split: prod.splits sum.splits)
  obtain l1 where l1: "nc_lines c = l1 # nc_lines c1" "ok_line l1" using u by (rule exchange_succeeds)
  obtain l2 where l2: "nc_lines c1 = l2 # nc_lines c'" "ok_line l2" using pw by (rule exchange_succeeds)
  have "lines_sent c' = lines_sent c @ [user_line u, password_line p]"
    using exchange_sends [of "''USERNAME '' @ u" "''USERNAME''" c] exchange_sends [of "''PASSWORD '' @ p" "''PASSWORD''" c1] u pw
    by (simp add: user_line_def password_line_def)
  then show ?thesis using True l1 l2 by simp
qed

text \<open>
  C19. A command is sent on a session the server let in. The command that switches outlets goes out only
  when no credentials are configured, or both are and the server answered \<open>OK\<close> to each; it goes out
  once, before the logout; and success is reported only for a command the server answered with \<open>OK\<close>.
\<close>

theorem command_only_after_login:
  assumes "nut_Execute rt (\<lambda>_. Inr c0) client action = (r, Some c)" and "nc_sent c0 = []"
    and "u = configString (ec_TransportConfig client) ''username''" and "p = configString (ec_TransportConfig client) ''password''"
  shows "(command_line client \<in> set (lines_sent c) \<longrightarrow>
      lines_sent c = [command_line client, logout_line] \<and> u = [] \<and> p = [] \<or>
      lines_sent c = [user_line u, password_line p, command_line client, logout_line] \<and>
        u \<noteq> [] \<and> p \<noteq> [] \<and> (\<exists>l1 l2 rest. nc_lines c0 = l1 # l2 # rest \<and> ok_line l1 \<and> ok_line l2)) \<and>
    (\<forall>m. r = Inr m \<longrightarrow> command_line client \<in> set (lines_sent c) \<and>
      (\<exists>before l rest. nc_lines c0 = before @ l # rest \<and> length before = (if u = [] then 0 else 2) \<and> ok_line l))"
proof -
  let ?cmd = "configString (ec_TransportConfig client) ''command''"
  let ?x = "exchange (''INSTCMD '' @ ups_of_client client @ '' '' @ ?cmd) (''INSTCMD '' @ ?cmd)"
  obtain r1 c1 where a: "nut_authenticate u p c0 = (r1, c1)" by force
  obtain r2 c2 where x: "?x c1 = (r2, c2)" by force
  have r: "case r1 of Inl e \<Rightarrow> c = logout c1 \<and> r = Inl (AuthFailed e)
      | Inr _ \<Rightarrow> c = logout c2 \<and> (\<forall>m. r = Inr m \<longrightarrow> r2 = Inr ())"
    using assms(1) a [unfolded assms(3,4)] x
    by (auto simp: nut_Execute_def nut_dial_def Let_def split: if_splits sum.splits)
  show ?thesis
  proof (cases r1)
    case (Inl e)
    obtain sent where s: "set sent \<subseteq> {user_line u, password_line p}" "lines_sent c1 = sent"
      using authenticate_refused [of u p c0 e c1] a Inl assms(2) by (fastforce simp: lines_sent_def)
    then have "command_line client \<notin> set (lines_sent c)" using r Inl by (auto simp: logout_sends)
    then show ?thesis using r Inl by simp
  next
    case (Inr y)
    have s: "lines_sent c = lines_sent c1 @ [command_line client, logout_line]"
      using exchange_sends [of "''INSTCMD '' @ ups_of_client client @ '' '' @ ?cmd" "''INSTCMD '' @ ?cmd" c1] x r Inr
      by (simp add: logout_sends command_line_def)
    have acc: "u = [] \<and> p = [] \<and> c1 = c0 \<or>
      u \<noteq> [] \<and> p \<noteq> [] \<and> (\<exists>l1 l2. nc_lines c0 = l1 # l2 # nc_lines c1 \<and> ok_line l1 \<and> ok_line l2) \<and>
        lines_sent c1 = [user_line u, password_line p]"
      using authenticate_accepted [of u p c0 y c1] a Inr assms(2) by (simp add: lines_sent_def)
    have "\<exists>before l rest. nc_lines c0 = before @ l # rest \<and> length before = (if u = [] then 0 else 2) \<and> ok_line l" if m: "r = Inr m" for m
    proof -
      have "?x c1 = (Inr (), c2)" using r Inr m x by simp
      then obtain l where l: "nc_lines c1 = l # nc_lines c2" "ok_line l" by (rule exchange_succeeds)
      from acc show ?thesis
      proof
        assume "u = [] \<and> p = [] \<and> c1 = c0"
        then show ?thesis using l by - (rule exI [of _ "[]"], rule exI [of _ l], rule exI, simp)
      next
        assume "u \<noteq> [] \<and> p \<noteq> [] \<and> (\<exists>l1 l2. nc_lines c0 = l1 # l2 # nc_lines c1 \<and> ok_line l1 \<and> ok_line l2) \<and>
          lines_sent c1 = [user_line u, password_line p]"
        then obtain l1 l2 where "u \<noteq> []" "nc_lines c0 = l1 # l2 # nc_lines c1" by blast
        then show ?thesis using l by - (rule exI [of _ "[l1, l2]"], rule exI [of _ l], rule exI, simp)
      qed
    qed
    then show ?thesis using acc s assms(2) by (auto simp: lines_sent_def)
  qed
qed

end
