(* ===== verification/Journal.thy ===== *)
theory Journal
  imports Conditions State_DB
begin

text \<open>
  The exported journal of a sequence (\<open>internal/state/journal.go\<close>): the timestamps as
  \<open>time.RFC3339Nano\<close> writes them, the records in their order, the name of the file and the pruning of
  the directory. The text of a payload is not modelled; a payload is its keys and values.
\<close>

section \<open>Timestamps\<close>

text \<open>
  A date is year, month and day. Instants before 1970 are not modelled: a journal has the times of a
  clock that runs.
\<close>

type_synonym date = "nat \<times> nat \<times> nat"

definition leap_year :: "nat \<Rightarrow> bool" where
  "leap_year y \<longleftrightarrow> y mod 4 = 0 \<and> (y mod 100 \<noteq> 0 \<or> y mod 400 = 0)"

definition month_days :: "nat \<Rightarrow> nat \<Rightarrow> nat" where
  "month_days y m = (if m = 2 then (if leap_year y then 29 else 28) else if m \<in> {4, 6, 9, 11} then 30 else 31)"

fun next_day :: "date \<Rightarrow> date" where
  "next_day (y, m, d) =
     (if d < month_days y m then (y, m, Suc d) else if m < 12 then (y, Suc m, 1) else (Suc y, 1, 1))"

fun date_of_day :: "nat \<Rightarrow> date" where
  "date_of_day 0 = (1970, 1, 1)"
| "date_of_day (Suc n) = next_day (date_of_day n)"

fun pad :: "nat \<Rightarrow> nat \<Rightarrow> string" where
  "pad 0 n = []"
| "pad (Suc w) n = pad w (n div 10) @ [char_of (n mod 10 + 48)]"

definition show_date :: "date \<Rightarrow> string" where
  "show_date dt = (case dt of (y, m, d) \<Rightarrow> pad 4 y @ ''-'' @ pad 2 m @ ''-'' @ pad 2 d)"

definition show_clock :: "nat \<Rightarrow> string" where
  "show_clock s = pad 2 (s div 3600) @ '':'' @ pad 2 (s div 60 mod 60) @ '':'' @ pad 2 (s mod 60)"

text \<open>The seconds, then the digits of the fraction without its trailing zeros, then \<open>Z\<close>.\<close>

definition seconds_of :: "instant \<Rightarrow> nat" where
  "seconds_of t = nat (t div Second)"

definition show_second :: "nat \<Rightarrow> string" where
  "show_second s = show_date (date_of_day (s div 86400)) @ ''T'' @ show_clock (s mod 86400)"

definition show_fraction :: "nat \<Rightarrow> string" where
  "show_fraction ns =
     (let ds = rev (dropWhile (\<lambda>c. c = CHR ''0'') (rev (pad 9 ns))) in if ds = [] then [] else ''.'' @ ds)"

definition RFC3339Nano :: "instant \<Rightarrow> string" where
  "RFC3339Nano t = show_second (seconds_of t) @ show_fraction (nat (t mod Second)) @ ''Z''"

section \<open>Records\<close>

datatype jvalue =
    JStr string
  | JBool bool
  | JNat nat
  | JDuration duration
  | JStates "string \<rightharpoonup> string"
  | JAddrs "string \<rightharpoonup> ResolvedAddr"
  | JClients "string \<rightharpoonup> ClientResult"

record journalRecord =
  jr_Type :: string
  jr_Timestamp :: string
  jr_Data :: "(string \<times> jvalue) list"

text \<open>What \<open>add\<close> is called with: the kind, the time and the payload.\<close>

type_synonym entry = "string \<times> instant \<times> (string \<times> jvalue) list"

definition to_record :: "entry \<Rightarrow> journalRecord" where
  "to_record en = (case en of (kind, ts, payload) \<Rightarrow> \<lparr>jr_Type = kind, jr_Timestamp = RFC3339Nano ts, jr_Data = payload\<rparr>)"

definition header_entry :: "Sequence \<Rightarrow> entry" where
  "header_entry s =
     (''sequence'', sq_StartedAt s,
      [(''sequence_id'', JStr (sq_ID s)), (''plan'', JStr (sq_PlanName s)), (''final_state'', JStr (sq_State s)),
       (''aborted'', JBool (sq_Aborted s)), (''ponr_crossed'', JBool (sq_PonrCrossed s)),
       (''stages_entered'', JNat (sq_CurrentStage s)), (''started_at'', JStr (RFC3339Nano (sq_StartedAt s))),
       (''pre_sequence_state'', JStates (sq_PreSequenceState s)), (''resolved_addrs'', JAddrs (sq_ResolvedAddrs s))] @
      (case sq_CompletedAt s of
         None \<Rightarrow> []
       | Some c \<Rightarrow> [(''completed_at'', JStr (RFC3339Nano c)), (''duration'', JDuration (c - sq_StartedAt s))]))"

definition stage_entry :: "StageRecord \<Rightarrow> entry" where
  "stage_entry r =
     (''stage'', sr_StartedAt r,
      [(''sequence_id'', JStr (sr_SequenceID r)), (''index'', JNat (sr_StageIndex r)), (''name'', JStr (sr_StageName r)),
       (''started_at'', JStr (RFC3339Nano (sr_StartedAt r))), (''clients'', JClients (sr_Clients r))] @
      (case sr_CompletedAt r of
         None \<Rightarrow> [(''completed'', JBool False)]
       | Some c \<Rightarrow> [(''completed_at'', JStr (RFC3339Nano c)), (''duration'', JDuration (c - sr_StartedAt r))]))"

definition intent_entry :: "Intent \<Rightarrow> entry" where
  "intent_entry i =
     (''intent'', it_Timestamp i,
      [(''sequence_id'', JStr (it_SequenceID i)), (''client'', JStr (it_ClientName i)), (''action'', JStr (it_Action i)),
       (''status'', JStr (it_Status i))] @
      (case it_Result i of
         None \<Rightarrow> []
       | Some r \<Rightarrow> (''success'', JBool (dr_Success r)) # (if dr_Message r \<noteq> [] then [(''message'', JStr (dr_Message r))] else [])))"

text \<open>The comparison of the sort, and \<open>sort.SliceStable\<close>.\<close>

definition record_less :: "journalRecord \<Rightarrow> journalRecord \<Rightarrow> bool" where
  "record_less a b \<longleftrightarrow>
     (if (jr_Type a = ''sequence'') \<noteq> (jr_Type b = ''sequence'') then jr_Type a = ''sequence''
      else \<not> str_le (jr_Timestamp b) (jr_Timestamp a))"

fun insert_stable :: "('a \<Rightarrow> 'a \<Rightarrow> bool) \<Rightarrow> 'a \<Rightarrow> 'a list \<Rightarrow> 'a list" where
  "insert_stable lt x [] = [x]"
| "insert_stable lt x (y # ys) = (if lt y x then y # insert_stable lt x ys else x # y # ys)"

definition sort_stable :: "('a \<Rightarrow> 'a \<Rightarrow> bool) \<Rightarrow> 'a list \<Rightarrow> 'a list" where
  "sort_stable lt xs = foldr (insert_stable lt) xs []"

definition journal_entries :: "Sequence \<Rightarrow> StageRecord list \<Rightarrow> Intent list \<Rightarrow> entry list" where
  "journal_entries s stages intents = header_entry s # map stage_entry stages @ map intent_entry intents"

definition buildJournal :: "Sequence \<Rightarrow> StageRecord list \<Rightarrow> Intent list \<Rightarrow> journalRecord list" where
  "buildJournal s stages intents = sort_stable record_less (map to_record (journal_entries s stages intents))"

section \<open>Files\<close>

definition safe_char :: "char \<Rightarrow> bool" where
  "safe_char c \<longleftrightarrow>
     (let n = of_char c :: nat
      in 97 \<le> n \<and> n \<le> 122 \<or> 65 \<le> n \<and> n \<le> 90 \<or> 48 \<le> n \<and> n \<le> 57 \<or> c = CHR ''-'' \<or> c = CHR ''_'')"

text \<open>\<open>strings.Map\<close> replaces each rune; a rune outside ASCII is one character here.\<close>

definition journalFileName :: "string \<Rightarrow> string" where
  "journalFileName sequenceID =
     (let safe = map (\<lambda>c. if safe_char c then c else CHR ''_'') sequenceID
      in (if safe = [] then ''unnamed'' else safe) @ ''.jsonl'')"

text \<open>
  A file has its content and whether the disk has it all: after a power cut a file that was not synced
  may hold any beginning of its content. The directory maps names to files.
\<close>

record journal_file =
  jf_records :: "journalRecord list"
  jf_synced :: bool
  jf_mode :: nat

type_synonym journal_dir = "string \<rightharpoonup> journal_file"

definition journalFileMode :: nat where "journalFileMode = 384"

datatype export_error =
    SequenceNotFound | MkdirFailed | CreateFailed | WriteFailedAt nat | ChmodFailed | SyncFailed | CloseFailed | RenameFailed

text \<open>
  \<open>ExportJournal\<close> after the reads: the states of the directory, one after each system call, and the
  result. The failure, if there is one, says which step fails; a write fails after some records. The temporary file is removed on every way out that did not rename it.
\<close>

definition ExportJournal ::
  "(instant \<Rightarrow> instant \<Rightarrow> bool) \<Rightarrow> export_error option \<Rightarrow> string \<Rightarrow> string \<Rightarrow> DB \<Rightarrow> journal_dir \<Rightarrow>
     journal_dir list \<times> (export_error + string)" where
  "ExportJournal lt failure tmp sid db dir =
     (case GetSequenceByID sid db of
        None \<Rightarrow> ([dir], Inl SequenceNotFound)
      | Some s \<Rightarrow>
          (let records = buildJournal s (StageRecords sid db) (SequenceIntents lt sid db);
               path = journalFileName sid;
               partial = (\<lambda>n. dir(tmp \<mapsto> \<lparr>jf_records = take n records, jf_synced = False, jf_mode = journalFileMode\<rparr>));
               written = map partial [0..<Suc (length records)];
               synced = dir(tmp \<mapsto> \<lparr>jf_records = records, jf_synced = True, jf_mode = journalFileMode\<rparr>);
               renamed = dir(tmp := None, path \<mapsto> \<lparr>jf_records = records, jf_synced = True, jf_mode = journalFileMode\<rparr>);
               clean = dir(tmp := None)
           in case failure of
                None \<Rightarrow> ([dir] @ written @ [synced, renamed], Inr path)
              | Some MkdirFailed \<Rightarrow> ([dir], Inl MkdirFailed)
              | Some CreateFailed \<Rightarrow> ([dir], Inl CreateFailed)
              | Some (WriteFailedAt n) \<Rightarrow> ([dir] @ map partial [0..<Suc n] @ [clean], Inl (WriteFailedAt n))
              | Some ChmodFailed \<Rightarrow> ([dir] @ written @ [clean], Inl ChmodFailed)
              | Some SyncFailed \<Rightarrow> ([dir] @ written @ [clean], Inl SyncFailed)
              | Some CloseFailed \<Rightarrow> ([dir] @ written @ [synced, clean], Inl CloseFailed)
              | Some RenameFailed \<Rightarrow> ([dir] @ written @ [synced, clean], Inl RenameFailed)
              | Some SequenceNotFound \<Rightarrow> ([dir], Inl SequenceNotFound)))"

text \<open>What a power cut may leave of a directory.\<close>

definition after_cut :: "journal_dir \<Rightarrow> journal_dir \<Rightarrow> bool" where
  "after_cut dir dir' \<longleftrightarrow>
     (\<forall>n. case dir n of
        None \<Rightarrow> dir' n = None
      | Some f \<Rightarrow> if jf_synced f then dir' n = Some f
                  else \<exists>k g. dir' n = Some g \<and> jf_records g = take k (jf_records f))"

text \<open>
  \<open>PruneJournalFiles\<close> on the entries \<open>ReadDir\<close> lists: name, directory or not, the modification time
  or \<open>None\<close> when the entry vanished; a listing may fail, without an error when there is no directory.
  \<open>removes\<close> says which removals succeed. The result is the number
  removed, the first failure and the entries left.
\<close>

type_synonym dir_entry = "string \<times> bool \<times> instant option"

definition prunable :: "instant \<Rightarrow> dir_entry \<Rightarrow> bool" where
  "prunable before en =
     (case en of (name, is_dir, modified) \<Rightarrow>
        \<not> is_dir \<and> CutSuffix name ''.jsonl'' \<noteq> None \<and> (case modified of None \<Rightarrow> False | Some m \<Rightarrow> m < before))"

fun prune_entries :: "instant \<Rightarrow> (string \<Rightarrow> bool) \<Rightarrow> dir_entry list \<Rightarrow> nat \<times> string option \<times> dir_entry list" where
  "prune_entries before removes [] = (0, None, [])"
| "prune_entries before removes (en # ens) =
     (case prune_entries before removes ens of (n, err, left) \<Rightarrow>
        if \<not> prunable before en then (n, err, en # left)
        else if removes (fst en) then (Suc n, err, left)
        else (n, Some (fst en), en # left))"

definition PruneJournalFiles :: 
  "instant \<Rightarrow> (string \<Rightarrow> bool) \<Rightarrow> string option + dir_entry list \<Rightarrow> nat \<times> string option \<times> dir_entry list" where
  "PruneJournalFiles before removes listing =
     (case listing of Inl err \<Rightarrow> (0, err, []) | Inr ens \<Rightarrow> prune_entries before removes ens)"

end
