(* ===== verification/Journal_Correct.thy ===== *)
theory Journal_Correct
  imports Journal "HOL-Library.Multiset"
begin

text \<open>
  The exported journal is complete and in order: the header first, one record for each stage and each
  intent, ordered by time down to the second; and its file is replaced in one step.
\<close>

section \<open>Stable sorting\<close>

locale sort_order =
  fixes lt :: "'a \<Rightarrow> 'a \<Rightarrow> bool"
  assumes asym: "lt a b \<Longrightarrow> \<not> lt b a"
    and neg_trans: "\<not> lt b a \<Longrightarrow> \<not> lt c b \<Longrightarrow> \<not> lt c a"
begin

lemma mset_insert_stable: "mset (insert_stable lt x ys) = add_mset x (mset ys)"
  by (induction ys) auto

lemma mset_sort_stable: "mset (sort_stable lt xs) = mset xs"
  by (induction xs) (simp_all add: sort_stable_def mset_insert_stable)

lemma set_insert_stable: "set (insert_stable lt x ys) = insert x (set ys)"
  by (induction ys) auto

lemma sorted_insert_stable:
  "sorted_wrt (\<lambda>a b. \<not> lt b a) ys \<Longrightarrow> sorted_wrt (\<lambda>a b. \<not> lt b a) (insert_stable lt x ys)"
  using neg_trans by (induction ys) (auto simp: set_insert_stable dest: asym)

lemma sorted_sort_stable: "sorted_wrt (\<lambda>a b. \<not> lt b a) (sort_stable lt xs)"
  by (induction xs) (simp_all add: sort_stable_def sorted_insert_stable)

text \<open>An element below all others comes first.\<close>

lemma sort_stable_least:
  assumes "\<And>y. y \<in> set xs \<Longrightarrow> \<not> lt y x"
  shows "sort_stable lt (x # xs) = x # sort_stable lt xs"
proof -
  have "set (sort_stable lt xs) = set xs" by (metis mset_sort_stable set_mset_mset)
  then show ?thesis using assms by (cases "sort_stable lt xs") (auto simp: sort_stable_def)
qed

end

lemma sort_stable_map: "sort_stable lt (map f xs) = map f (sort_stable (\<lambda>a b. lt (f a) (f b)) xs)"
proof -
  have "insert_stable lt (f x) (map f ys) = map f (insert_stable (\<lambda>a b. lt (f a) (f b)) x ys)" for x ys
    by (induction ys) auto
  then show ?thesis by (induction xs) (simp_all add: sort_stable_def)
qed

lemma str_le_total: "str_le a b \<or> str_le b a"
  by (induction a b rule: str_le.induct) auto

lemma str_le_trans: "str_le a b \<Longrightarrow> str_le b c \<Longrightarrow> str_le a c"
proof (induction a c arbitrary: b rule: str_le.induct)
  case (3 x xs y ys)
  then show ?case by (cases b) (auto dest: less_trans)
next
  case (2 x xs)
  then show ?case by (cases b) auto
qed simp

interpretation records: sort_order record_less
proof unfold_locales
  fix a b c
  show "\<not> record_less b a" if "record_less a b"
    using that str_le_total [of "jr_Timestamp a" "jr_Timestamp b"]
    by (cases "jr_Type a = ''sequence''"; cases "jr_Type b = ''sequence''") (simp_all add: record_less_def)
  show "\<not> record_less c a" if "\<not> record_less b a" "\<not> record_less c b"
    using that str_le_trans [of "jr_Timestamp a" "jr_Timestamp b" "jr_Timestamp c"]
    by (cases "jr_Type a = ''sequence''"; cases "jr_Type b = ''sequence''"; cases "jr_Type c = ''sequence''")
      (simp_all add: record_less_def)
qed

section \<open>Timestamps compare by the second\<close>

definition str_lt :: "string \<Rightarrow> string \<Rightarrow> bool" where
  "str_lt a b \<longleftrightarrow> \<not> str_le b a"

lemma str_lt_append: "length a = length b \<Longrightarrow> str_lt a b \<Longrightarrow> str_lt (a @ x) (b @ y)"
  by (induction a b rule: list_induct2) (auto simp: str_lt_def)

lemma str_lt_prefix: "str_lt (p @ a) (p @ b) = str_lt a b"
  by (induction p) (auto simp: str_lt_def)

lemma str_lt_lex:
  assumes "length a = length b" and "str_lt a b \<or> a = b \<and> str_lt x y"
  shows "str_lt (a @ x) (b @ y)"
  using assms str_lt_append str_lt_prefix by metis

lemma length_pad [simp]: "length (pad w n) = w"
  by (induction w arbitrary: n) simp_all

lemma pad_less: "n < m \<Longrightarrow> m < 10 ^ w \<Longrightarrow> str_lt (pad w n) (pad w m)"
proof (induction w arbitrary: n m)
  case (Suc w)
  have "n div 10 < m div 10 \<or> n div 10 = m div 10 \<and> n mod 10 < m mod 10" using Suc.prems(1)
    by (metis div_le_mono div_mod_decomp le_neq_implies_less less_imp_le nat_add_left_cancel_less)
  moreover have "n mod 10 < m mod 10 \<Longrightarrow> str_lt [char_of (n mod 10 + 48)] [char_of (m mod 10 + 48)]"
    by (auto simp: str_lt_def)
  ultimately have "str_lt (pad w (n div 10)) (pad w (m div 10)) \<or>
      pad w (n div 10) = pad w (m div 10) \<and> str_lt [char_of (n mod 10 + 48)] [char_of (m mod 10 + 48)]"
    using Suc by auto
  then show ?case by (simp add: str_lt_lex)
qed simp

text \<open>The calendar only moves forward.\<close>

fun date_less :: "date \<Rightarrow> date \<Rightarrow> bool" where
  "date_less (y, m, d) (y', m', d') \<longleftrightarrow> y < y' \<or> y = y' \<and> (m < m' \<or> m = m' \<and> d < d')"

lemma date_less_trans: "date_less a b \<Longrightarrow> date_less b c \<Longrightarrow> date_less a c"
  by (cases a; cases b; cases c) auto

lemma next_day_later: "date_less dt (next_day dt)"
  by (cases dt) auto

lemma dates_forward: "a < b \<Longrightarrow> date_less (date_of_day a) (date_of_day b)"
proof (induction b)
  case (Suc b)
  then show ?case using next_day_later date_less_trans by (metis date_of_day.simps(2) less_SucE)
qed simp

lemma date_bounds: "case date_of_day n of (y, m, d) \<Rightarrow> m \<le> 12 \<and> d \<le> 31"
proof (induction n)
  case (Suc n)
  obtain y m d where "date_of_day n = (y, m, d)" by (metis prod_cases3)
  then show ?case using Suc by (auto simp: month_days_def split: if_splits)
qed simp

definition year_of :: "nat \<Rightarrow> nat" where
  "year_of n = fst (date_of_day n)"

lemma show_date_less:
  assumes "a < b" and "year_of b < 10000"
  shows "str_lt (show_date (date_of_day a)) (show_date (date_of_day b))"
proof -
  obtain y m d y' m' d' where dts: "date_of_day a = (y, m, d)" "date_of_day b = (y', m', d')" by (metis prod_cases3)
  have "m' < 100" "d' < 100" "y' < 10000" using date_bounds [of b] dts assms(2) by (auto simp: year_of_def)
  then have less: "y < y' \<Longrightarrow> str_lt (pad 4 y) (pad 4 y')" "m < m' \<Longrightarrow> str_lt (pad 2 m) (pad 2 m')"
      "d < d' \<Longrightarrow> str_lt (pad 2 d) (pad 2 d')"
    by (auto intro!: pad_less)
  from dates_forward [OF assms(1)] dts consider "y < y'" | "y = y'" "m < m'" | "y = y'" "m = m'" "d < d'" by auto
  then show ?thesis
  proof cases
    case 1
    then show ?thesis using less by (simp only: dts show_date_def prod.case) (simp only: str_lt_append length_pad)
  next
    case 2
    then show ?thesis using less
      by (simp only: dts show_date_def prod.case str_lt_prefix) (simp only: str_lt_append length_pad)
  next
    case 3
    then show ?thesis using less by (simp only: dts show_date_def prod.case str_lt_prefix)
  qed
qed

lemma clock_parts: "s = 3600 * (s div 3600) + 60 * (s div 60 mod 60) + s mod 60" for s :: nat
proof -
  have "s div 3600 = s div 60 div 60" using div_mult2_eq [of s 60 60] by simp
  moreover have "60 * (s div 60 div 60) + s div 60 mod 60 = s div 60" "60 * (s div 60) + s mod 60 = s" by simp_all
  ultimately show ?thesis by linarith
qed

lemma clock_cases:
  fixes h m s h' m' s' :: nat
  assumes "3600 * h + 60 * m + s < 3600 * h' + 60 * m' + s'" and "m < 60" "m' < 60" "s < 60" "s' < 60"
  shows "h < h' \<or> h = h' \<and> (m < m' \<or> m = m' \<and> s < s')"
proof (cases h h' rule: linorder_cases)
  case equal
  then show ?thesis using assms by (cases m m' rule: linorder_cases) auto
next
  case greater
  then have "3600 * h' + 3600 \<le> 3600 * h" by simp
  then show ?thesis using assms by linarith
qed simp

lemma show_clock_less:
  assumes "s < s'" and "s' < 86400"
  shows "str_lt (show_clock s) (show_clock s')"
proof -
  let ?h = "s div 3600" and ?h' = "s' div 3600" and ?m = "s div 60 mod 60" and ?m' = "s' div 60 mod 60"
    and ?s = "s mod 60" and ?s' = "s' mod 60"
  have b: "?h' < 100" "?m' < 100" "?s' < 100" using assms(2) by auto
  have "s = 3600 * ?h + 60 * ?m + ?s" "s' = 3600 * ?h' + 60 * ?m' + ?s'" by (rule clock_parts)+
  moreover have "?m < 60" "?m' < 60" "?s < 60" "?s' < 60" by simp_all
  ultimately consider "?h < ?h'" | "?h = ?h'" "?m < ?m'" | "?h = ?h'" "?m = ?m'" "?s < ?s'"
    using clock_cases [of ?h ?m ?s ?h' ?m' ?s'] assms(1) by auto
  then show ?thesis
  proof cases
    case 1
    then have "str_lt (pad 2 ?h) (pad 2 ?h')" using b by (intro pad_less) simp_all
    then show ?thesis unfolding show_clock_def by (rule str_lt_append [rotated]) simp
  next
    case 2
    then have "str_lt (pad 2 ?m) (pad 2 ?m')" using b by (intro pad_less) simp_all
    then have "str_lt (pad 2 ?m @ '':'' @ pad 2 ?s) (pad 2 ?m' @ '':'' @ pad 2 ?s')" by (rule str_lt_append [rotated]) simp
    then show ?thesis unfolding show_clock_def 2(1) str_lt_prefix .
  next
    case 3
    then have "str_lt (pad 2 ?s) (pad 2 ?s')" using b by (intro pad_less) simp_all
    then show ?thesis unfolding show_clock_def 3(1,2) str_lt_prefix .
  qed
qed

lemma second_less:
  assumes "s < s'" and "year_of (s' div 86400) < 10000"
  shows "str_lt (show_second s) (show_second s')"
proof (cases "s div 86400 = s' div 86400")
  case True
  then have "s mod 86400 < s' mod 86400" using assms(1)
    by (metis div_mult_mod_eq nat_add_left_cancel_less)
  then have "str_lt (show_clock (s mod 86400)) (show_clock (s' mod 86400))" by (rule show_clock_less) simp
  then show ?thesis unfolding show_second_def True str_lt_prefix .
next
  case False
  then have "s div 86400 < s' div 86400" using assms(1) div_le_mono [of s s' 86400] by simp
  then have "str_lt (show_date (date_of_day (s div 86400))) (show_date (date_of_day (s' div 86400)))"
    using assms(2) by (rule show_date_less)
  then show ?thesis unfolding show_second_def
    by (rule str_lt_append [rotated]) (simp add: show_date_def split: prod.split)
qed

lemma length_second: "length (show_second s) = 19"
  by (simp add: show_second_def show_clock_def show_date_def split: prod.split)

lemma RFC3339Nano_less:
  assumes "seconds_of t < seconds_of u" and "year_of (seconds_of u div 86400) < 10000"
  shows "str_lt (RFC3339Nano t) (RFC3339Nano u)"
  unfolding RFC3339Nano_def using second_less [OF assms] by (rule str_lt_append [rotated]) (simp add: length_second)

section \<open>The journal of a sequence\<close>

definition entry_time :: "entry \<Rightarrow> instant" where
  "entry_time e = fst (snd e)"

definition four_digit_year :: "instant \<Rightarrow> bool" where
  "four_digit_year t \<longleftrightarrow> year_of (seconds_of t div 86400) < 10000"

definition later_entries :: "StageRecord list \<Rightarrow> Intent list \<Rightarrow> entry list" where
  "later_entries stages intents = map stage_entry stages @ map intent_entry intents"

definition entry_less :: "entry \<Rightarrow> entry \<Rightarrow> bool" where
  "entry_less a b \<longleftrightarrow> record_less (to_record a) (to_record b)"

interpretation entries: sort_order entry_less
  unfolding entry_less_def by unfold_locales (rule records.asym, assumption, rule records.neg_trans)

lemma later_kind: "e \<in> set (later_entries stages intents) \<Longrightarrow> fst e \<noteq> ''sequence''"
  by (auto simp: later_entries_def stage_entry_def intent_entry_def)

lemma header_first: "e \<in> set (later_entries stages intents) \<Longrightarrow> \<not> entry_less e (header_entry s)"
  using later_kind [of e stages intents]
  by (cases e) (auto simp: entry_less_def record_less_def to_record_def header_entry_def)

lemma entry_less_seconds:
  assumes "fst a \<noteq> ''sequence''" and "fst b \<noteq> ''sequence''" and "\<not> entry_less b a" and "four_digit_year (entry_time a)"
  shows "seconds_of (entry_time a) \<le> seconds_of (entry_time b)"
proof (rule ccontr)
  assume "\<not> ?thesis"
  then have "str_lt (RFC3339Nano (entry_time b)) (RFC3339Nano (entry_time a))"
    using assms(4) by (intro RFC3339Nano_less) (simp_all add: four_digit_year_def)
  then have "entry_less b a" using assms(1,2)
    by (cases a; cases b) (simp add: entry_less_def record_less_def to_record_def entry_time_def str_lt_def)
  then show False using assms(3) by simp
qed

text \<open>
  The journal leaves nothing out and is in order. It begins with the record of the sequence, has one
  record for each stage and each intent and no other, and these are in the order of their times, seen in
  whole seconds, for times up to the year 9999.
\<close>

theorem journal_complete_and_ordered:
  assumes "list_all (\<lambda>e. four_digit_year (entry_time e)) (later_entries stages intents)"
  shows "\<exists>es. buildJournal s stages intents = to_record (header_entry s) # map to_record es \<and>
    mset es = mset (map stage_entry stages @ map intent_entry intents) \<and>
    sorted_wrt (\<lambda>a b. seconds_of (entry_time a) \<le> seconds_of (entry_time b)) es"
proof (intro exI conjI)
  let ?es = "sort_stable entry_less (later_entries stages intents)"
  have "buildJournal s stages intents = map to_record (sort_stable entry_less (header_entry s # later_entries stages intents))"
    by (simp add: buildJournal_def sort_stable_map journal_entries_def later_entries_def entry_less_def [abs_def] del: list.map)
  then show "buildJournal s stages intents = to_record (header_entry s) # map to_record ?es"
    by (simp add: entries.sort_stable_least header_first)
  show m: "mset ?es = mset (map stage_entry stages @ map intent_entry intents)"
    by (simp add: entries.mset_sort_stable later_entries_def)
  have set: "set ?es = set (later_entries stages intents)" by (metis entries.mset_sort_stable set_mset_mset)
  show "sorted_wrt (\<lambda>a b. seconds_of (entry_time a) \<le> seconds_of (entry_time b)) ?es"
  proof (rule sorted_wrt_mono_rel [OF _ entries.sorted_sort_stable])
    fix a b assume "a \<in> set ?es" "b \<in> set ?es" "\<not> entry_less b a"
    then show "seconds_of (entry_time a) \<le> seconds_of (entry_time b)"
      using assms unfolding set by (intro entry_less_seconds later_kind) (simp_all add: list_all_iff)
  qed
qed

text \<open>Within a second the order can be wrong: a fraction sorts before the whole second it follows.\<close>

lemma pad_numeral [simp]:
  "pad (numeral k) n = pad (pred_numeral k) (n div 10) @ [char_of (n mod 10 + 48)]" "pad (Suc 0) n = [char_of (n mod 10 + 48)]"
  by (subst numeral_eq_Suc, rule pad.simps(2)) simp

lemmas timestamp_defs =
  RFC3339Nano_def show_second_def seconds_of_def show_date_def show_clock_def show_fraction_def

lemma fraction_sorts_first: "str_lt (RFC3339Nano 500000000) (RFC3339Nano 0)"
  by (simp add: timestamp_defs str_lt_def char_of_def bit_0)

section \<open>The file\<close>

lemma safe_stem: "\<exists>c stem. journalFileName sid = (c # stem) @ ''.jsonl'' \<and> safe_char c \<and> list_all safe_char stem"
proof (cases sid)
  case Nil
  have "safe_char (CHR ''u'') \<and> list_all safe_char ''nnamed''" by code_simp
  then show ?thesis using Nil by (simp add: journalFileName_def)
next
  case (Cons c cs)
  have "safe_char (CHR ''_'')" by code_simp
  then show ?thesis using Cons by (auto simp: journalFileName_def list_all_iff)
qed

lemma name_not_temporary: "journalFileName sid \<noteq> ''.journal-'' @ x"
proof -
  obtain c stem where n: "journalFileName sid = (c # stem) @ ''.jsonl''" "safe_char c" using safe_stem by blast
  moreover have "\<not> safe_char (CHR ''.'')" by code_simp
  ultimately show ?thesis by auto
qed

text \<open>
  Whatever the identifier, the name of the file has a stem of letters, digits, dashes and underscores
  that is not empty: it names a file of the journal directory, none of another directory, and none of
  the temporary files of an export.
\<close>

theorem journal_name_stays_inside:
  "(\<exists>c stem. journalFileName sid = (c # stem) @ ''.jsonl'' \<and> list_all safe_char (c # stem)) \<and>
   CHR ''/'' \<notin> set (journalFileName sid) \<and> journalFileName sid \<noteq> ''.journal-'' @ x"
proof (intro conjI)
  obtain c stem where n: "journalFileName sid = (c # stem) @ ''.jsonl''" "safe_char c" "list_all safe_char stem"
    using safe_stem by blast
  have bad: "\<not> safe_char (CHR ''/'')" by code_simp
  show "\<exists>c stem. journalFileName sid = (c # stem) @ ''.jsonl'' \<and> list_all safe_char (c # stem)" using n by auto
  show "CHR ''/'' \<notin> set (journalFileName sid)" using n bad by (auto simp: list_all_iff)
  show "journalFileName sid \<noteq> ''.journal-'' @ x" by (rule name_not_temporary)
qed

definition whole_journal :: "(instant \<Rightarrow> instant \<Rightarrow> bool) \<Rightarrow> string \<Rightarrow> DB \<Rightarrow> journal_file \<Rightarrow> bool" where
  "whole_journal lt sid db f \<longleftrightarrow>
     (case GetSequenceByID sid db of
        None \<Rightarrow> False
      | Some s \<Rightarrow> jf_records f = buildJournal s (StageRecords sid db) (SequenceIntents lt sid db) \<and> jf_synced f)"

lemma export_states:
  assumes "ExportJournal lt failure tmp sid db dir = (states, r)" and "d \<in> set states" and "tmp \<noteq> journalFileName sid"
  shows "d (journalFileName sid) = dir (journalFileName sid) \<or>
      (\<exists>f. d (journalFileName sid) = Some f \<and> whole_journal lt sid db f)"
    and "n \<noteq> journalFileName sid \<Longrightarrow> n \<noteq> tmp \<Longrightarrow> d n = dir n"
  using assms
  by (auto simp: ExportJournal_def whole_journal_def Let_def split: option.splits export_error.splits)

lemma export_success:
  assumes "ExportJournal lt failure tmp sid db dir = (states, Inr path)"
  shows "path = journalFileName sid \<and> (\<exists>f. last states path = Some f \<and> whole_journal lt sid db f)"
  using assms by (auto simp: ExportJournal_def whole_journal_def Let_def split: option.splits export_error.splits)

text \<open>
  C34. An export replaces the journal in one step. Whichever step of it fails, and whenever the power is cut,
  the file of the sequence is what it was before or the whole new journal, never a part of one; no other
  journal is touched; and when the export reports success the whole journal is on the disk.
\<close>

theorem export_is_atomic:
  assumes "ExportJournal lt failure (''.journal-'' @ x) sid db dir = (states, r)" and "d \<in> set states" and "after_cut d d'"
    and "case dir (journalFileName sid) of None \<Rightarrow> True | Some old \<Rightarrow> jf_synced old"
  shows "(d' (journalFileName sid) = dir (journalFileName sid) \<or>
      (\<exists>f. d' (journalFileName sid) = Some f \<and> whole_journal lt sid db f)) \<and>
    (\<forall>n. n \<noteq> journalFileName sid \<and> n \<noteq> ''.journal-'' @ x \<longrightarrow> d n = dir n) \<and>
    (\<forall>path. r = Inr path \<longrightarrow> path = journalFileName sid \<and> (\<exists>f. last states path = Some f \<and> whole_journal lt sid db f))"
proof (intro conjI)
  have tmp: "''.journal-'' @ x \<noteq> journalFileName sid" using name_not_temporary by metis
  note st = export_states [OF assms(1,2) tmp]
  have "d' (journalFileName sid) = d (journalFileName sid)"
    if "case d (journalFileName sid) of None \<Rightarrow> True | Some f \<Rightarrow> jf_synced f"
    using assms(3) that unfolding after_cut_def by (auto split: option.splits dest!: spec [of _ "journalFileName sid"])
  moreover have "case d (journalFileName sid) of None \<Rightarrow> True | Some f \<Rightarrow> jf_synced f"
    using st(1) assms(4) by (auto simp: whole_journal_def split: option.splits)
  ultimately show "d' (journalFileName sid) = dir (journalFileName sid) \<or>
      (\<exists>f. d' (journalFileName sid) = Some f \<and> whole_journal lt sid db f)" using st(1) by simp
  show "\<forall>n. n \<noteq> journalFileName sid \<and> n \<noteq> ''.journal-'' @ x \<longrightarrow> d n = dir n" using st(2) by blast
  show "\<forall>path. r = Inr path \<longrightarrow> path = journalFileName sid \<and> (\<exists>f. last states path = Some f \<and> whole_journal lt sid db f)"
    using export_success assms(1) by blast
qed

text \<open>Pruning spares directories, files of another kind and recent journals, and counts what it removes.\<close>

lemma prune_spares:
  assumes "prune_entries before removes ens = (n, err, left)"
  shows "filter (\<lambda>e. \<not> prunable before e) left = filter (\<lambda>e. \<not> prunable before e) ens" "n + length left = length ens"
    "err = None \<Longrightarrow> left = filter (\<lambda>e. \<not> prunable before e) ens"
  using assms by (induction ens arbitrary: n err left) (auto split: prod.splits if_splits)

end
