(* ===== verification/Example_Tools.thy ===== *)
theory Example_Tools
  imports Example_Runs Simulate Wol Session_Safety Self_Preservation Nut_Correct Journal_Correct
begin

text \<open>
  The theorems about the simulator, the transports, the API server, the validation of the host's own
  identity and the journal, applied to small inputs.
\<close>

section \<open>Simulations\<close>

definition demo_timeline :: Timeline where
  "demo_timeline = \<lparr>tl_Duration = 2, tl_Step = 1, tl_Events = [\<lparr>te_At = 0, te_Fact = ''ups.charge'', te_Value = GInt 5, te_explicitNull = False\<rparr>]\<rparr>"


theorem simulation_report_witness:
  "case Run demo_rt (\<lambda>_. []) quick_cfg demo_timeline ''outage'' 0 of
     Some (Inr r) \<Rightarrow> rs_ShutdownOrder r = [''a''] \<and> (rs_Completed r \<longleftrightarrow> rs_WakeGates r \<noteq> [])
   | _ \<Rightarrow> False"
proof -
  have "case Run demo_rt (\<lambda>_. []) quick_cfg demo_timeline ''outage'' 0 of
     Some (Inr r) \<Rightarrow> rs_ShutdownOrder r = [''a''] | _ \<Rightarrow> False" by code_simp
  then obtain r where r: "Run demo_rt (\<lambda>_. []) quick_cfg demo_timeline ''outage'' 0 = Some (Inr r)" "rs_ShutdownOrder r = [''a'']"
    by (auto split: option.splits sum.splits)
  have "sim_findPlan quick_cfg ''outage'' = Some quick_plan"
    by (simp add: sim_findPlan_def quick_cfg_def quick_plan_def demo_plan_def)
  from simulation_report [OF r(1) this] show ?thesis using r by auto
qed

definition demo_simulation :: simulation where
  "demo_simulation = (start_simulation ''outage'' demo_timeline NewStore)\<lparr>si_triggered := True\<rparr>"

definition demo_viewer :: Executor where
  "demo_viewer = (with_active (demo_active ''shutting_down''))\<lparr>e_store := si_store (feed [''ups.charge''] 5 5 demo_simulation)\<rparr>"

theorem simulation_decides_as_daemon_witness:
  "sim_decision demo_simulation (snd (sim_tick demo_rt quick_cfg quick_plan [''ups.charge''] 0 5 demo_simulation)) =
   pc_decision 0 (fst (waitForStage quick_env (demo_tick 5) (demo_active ''shutting_down'') (quick_stage ''a'') 0
     (fst (Duration demo_rt [] DefaultWaitTimeout)) demo_viewer))"
proof -
  let ?a = "demo_active ''shutting_down''" and ?tick = "sim_tick demo_rt quick_cfg quick_plan [''ups.charge''] 0 5 demo_simulation"
  have env: "en_rt quick_env = demo_rt" "en_cfg quick_env = quick_cfg" by (simp_all add: demo_env_def)
  have plan: "sg_WaitTimeout (quick_stage ''a'') = []" "sh_Stages (pl_Shutdown quick_plan) = [quick_stage ''a'']" "pl_Abort quick_plan = None"
    by (simp_all add: quick_stage_def demo_stage_def quick_plan_def demo_plan_def)
  have sim: "si_triggered demo_simulation" "\<not> si_ponrCrossed demo_simulation" "si_currentStage demo_simulation = 0"
    "si_stageEnteredAt demo_simulation = 0" "\<not> si_aborted demo_simulation"
    by (simp_all add: demo_simulation_def start_simulation_def)
  have conds: "tick_conditions quick_plan = {literal_cond ''true''}"
    by (simp add: tick_conditions_def plan) (simp add: quick_plan_def demo_plan_def quick_stage_def demo_stage_def)
  have t: "sim_tick (en_rt quick_env) (en_cfg quick_env) quick_plan [''ups.charge''] 0 5 demo_simulation = (fst ?tick, snd ?tick)"
    by (simp add: env)
  have view: "same_view demo_viewer (feed [''ups.charge''] (0 + 5) 5 demo_simulation)"
    by (simp add: same_view_def demo_viewer_def feed_frame) (simp add: with_active_def NewExecutor_def demo_simulation_def start_simulation_def)
  have cf: "collision_free (en_rt quick_env) {literal_cond ''true''}" by (simp add: collision_free_def literal_cond_def)
  have inv: "ev_inv (en_rt quick_env) (e_evaluator demo_viewer)"
    by (simp add: demo_viewer_def with_active_def NewExecutor_def ev_inv_New)
  have alone: "left_alone ?a demo_viewer"
    by (simp add: left_alone_def demo_viewer_def) (simp add: demo_active_def newActiveSequence_def)
  have no_abort: "\<not> abort_holds quick_env demo_viewer now ?a" for now by (simp add: abort_holds_def plan)
  have dl: "tk_now (demo_tick 5) - 5 + si_stageEnteredAt demo_simulation + fst (Duration (en_rt quick_env) (sg_WaitTimeout (quick_stage ''a'')) DefaultWaitTimeout) =
      fst (Duration demo_rt [] DefaultWaitTimeout)" by (simp add: sim env plan)
  show ?thesis
    using simulation_decides_as_daemon [OF t view _ cf _ inv, of "demo_tick 5" ?a] no_abort
    by (simp add: conds sim plan alone Let_def) (simp only: env sim plan dl [unfolded sim env plan])
qed

section \<open>Wake on LAN\<close>

theorem magic_packet_of_normalised_witness:
  "\<exists>hw. buildMagicPacket ''aa:bb:cc:00:11:22'' = Inr (replicate 6 255 @ concat (replicate 16 hw))"
proof -
  have "NormaliseMAC ''AABB.CC00.1122'' = Some ''aa:bb:cc:00:11:22''" by code_simp
  from magic_packet_of_normalised [OF this] show ?thesis by blast
qed

section \<open>The limiter\<close>

definition demo_ops :: "limiter_op list" where
  "demo_ops = [OpFail 1 ''x'', OpAllow 2 ''x'', OpFail 3 ''x'', OpFail 4 ''y'']"

theorem limiter_refines_unbounded_witness:
  "decisions limiter_step demo_ops (newFailureLimiter 2 100 50) = decisions plain_step demo_ops (newFailureLimiter 2 100 50)"
  by (rule limiter_refines_unbounded [of 0]) (simp add: demo_ops_def)

theorem failures_lock_out_witness:
  "fst (Allow 10 ''x'' (after_ops demo_ops (newFailureLimiter 2 100 50))) = (False, 43)"
  using failures_lock_out [of "newFailureLimiter 2 100 50" "''x''" 1 "[OpFail 1 ''x'', OpAllow 2 ''x'']" 3 "[OpFail 4 ''y'']" 10]
  by (simp add: demo_ops_def newFailureLimiter_def)

section \<open>The API server\<close>

definition demo_crypto :: crypto where
  "demo_crypto = \<lparr>cr_sha256 = map (\<lambda>c. of_nat (of_char c)), cr_generate = (\<lambda>salt p. Some (''$2'' @ p)),
     cr_compare = (\<lambda>stored p. stored = ''$2'' @ p)\<rparr>"

definition demo_server :: "server_env \<times> web" where
  "demo_server = NewServer quick_cfg quick_env demo_crypto
     (NewExecutor quick_env NewStore NewEvaluator (empty_db\<lparr>db_auth := hashPassword demo_crypto [] ''secret phrase''\<rparr>))
     \<lparr>at_sessions = [], at_tokens = []\<rparr>"

definition demo_request :: "string option \<Rightarrow> request" where
  "demo_request cookie = \<lparr>rq_RemoteAddr = ''10.0.0.1:5'', rq_Header = (\<lambda>_. []), rq_Cookie = cookie, rq_TLS = False\<rparr>"

definition demo_inputs :: world where
  "demo_inputs = \<lparr>in_now = 1, in_later = 2, in_ok = (\<lambda>_. True), in_salt = [], in_random = Some [1, 2]\<rparr>"

definition demo_login :: web_event where
  "demo_login = Request demo_inputs (demo_request None) (PostLogin (Some ''secret phrase''))"

abbreviation demo_token :: string where
  "demo_token \<equiv> ''0102''"

definition logged_in :: web where
  "logged_in = web_run (fst demo_server) [demo_login] (snd demo_server)"

theorem changes_need_credentials_witness:
  "admin_credential (fst demo_server) 1 (demo_request (Some demo_token)) logged_in"
proof -
  let ?call = "PostMode ''disarmed''"
  obtain resp w' where s: "serve (fst demo_server) demo_inputs (demo_request (Some demo_token)) ?call logged_in = (resp, w')" by (metis surj_pair)
  have "e_mode (w_exec (snd (serve (fst demo_server) demo_inputs (demo_request (Some demo_token)) ?call logged_in))) \<noteq> e_mode (w_exec logged_in)"
    by code_simp
  then have "w_exec w' \<noteq> w_exec logged_in" using s by auto
  from changes_need_credentials [OF s this] show ?thesis by (simp add: demo_inputs_def)
qed

theorem valid_session_from_login_witness:
  "right_password (fst demo_server) demo_inputs ''secret phrase'' (snd demo_server)"
proof -
  have e: "at_sessions (w_tables (snd demo_server)) = []" by code_simp
  have "SessionIsValid 5 (hashToken demo_crypto demo_token) (w_tables (web_run (fst demo_server) [demo_login] (snd demo_server)))"
    by code_simp
  from valid_session_from_login [OF e this] obtain before i r pw raw after where
    h: "[demo_login] = before @ Request i r (PostLogin (Some pw)) # after"
      "right_password (fst demo_server) i pw (web_run (fst demo_server) before (snd demo_server))" by blast
  then have "before = []" by (cases before) auto
  then show ?thesis using h by (simp add: demo_login_def web_run_def)
qed

section \<open>The daemon's own host\<close>

definition safe_cfg :: Config where
  "safe_cfg = quick_cfg\<lparr>cf_Canarium := (cf_Canarium quick_cfg)\<lparr>ca_Host := ''127.0.0.1'', ca_DataDir := ''/data'', ca_JournalRetain := []\<rparr>\<rparr>"

definition safe_registry :: Registry where
  "safe_registry = \<lparr>rg_Transports = [], rg_Local = Some \<lparr>li_Hostnames = [''ups-host''], li_Addresses = [[10, 0, 0, 99]]\<rparr>,
     rg_SourceTypes = [], rg_Facts = []\<rparr>"

definition safe_run :: daemon where
  "safe_run = run (demo_env safe_cfg) (PolicyTick 1 # steps 3) (demo_boot safe_cfg)"


section \<open>A UPS server\<close>

definition demo_vars :: "(string \<times> string) list" where
  "demo_vars = [(''ups.status'', ''OB LB''), (''device.mfr'', ''A'' @ [quote] @ ''B'')]"

definition demo_conn :: "string list \<Rightarrow> nut_conn" where
  "demo_conn lines = \<lparr>nc_lines = lines, nc_end = None, nc_ok = (\<lambda>_. True), nc_sent = []\<rparr>"

theorem listing_roundtrip_witness:
  "fst (listVars ''ups'' (demo_conn (server_reply ''ups'' demo_vars))) = Inr (read_vars demo_vars)"
proof -
  have v: "list_all (\<lambda>(n, v). var_name n) demo_vars" by code_simp
  show ?thesis using listing_roundtrip [OF v, of "demo_conn (server_reply ''ups'' demo_vars)" "''ups''" "[]"]
    by (simp add: demo_conn_def)
qed

definition demo_instance :: nut_instance where
  "demo_instance = \<lparr>ni_Name = ''u'', ni_Host = [], ni_Port = 0, ni_UPS = [], ni_PollInterval = [], ni_Username = [], ni_Password = []\<rparr>"

definition nut_store :: Store where
  "nut_store = RegisterFacts [demo_instance] NewStore"

definition status_var :: standardVar where
  "status_var = sv ''ups.status'' ''status'' ''set'' [] ''UPS status flags''"

theorem poll_reaches_store_witness:
  "\<exists>st. Store_Get st ''u.status'' = (GStrings [''OB'', ''LB''], QualityGood, Some 7)"
proof -
  let ?c = "demo_conn (server_reply ''ups'' demo_vars)"
    and ?e = "(NewExecutor quick_env NewStore NewEvaluator empty_db)\<lparr>e_store := nut_store\<rparr>"
  have v: "list_all (\<lambda>(n, v). var_name n) demo_vars" by code_simp
  have a: "nut_authenticate (ni_Username demo_instance) (ni_Password demo_instance) ?c = (Inr (), ?c)"
    by (simp add: nut_authenticate_def demo_instance_def)
  have l: "nc_lines ?c = server_reply (nut_ups demo_instance) demo_vars @ []"
    by (simp add: demo_conn_def nut_ups_def demo_instance_def defaultUPSName_def)
  have m: "status_var \<in> set standardVars" by (simp add: standardVars_def status_var_def)
  have "\<not> Option.is_none (s_facts nut_store ''u.status'')" by code_simp
  then have d: "declared (e_store ?e) (fact_key (ni_Name demo_instance) (sv_fact status_var))"
    by (simp add: declared_def Option.is_none_def demo_instance_def status_var_def sv_def fact_key_def)
  have k: "fact_key (ni_Name demo_instance) (sv_fact status_var) = ''u.status''" by code_simp
  have r: "read_vars demo_vars (sv_nut status_var) = Some ''OB LB''" "var_value demo_rt status_var ''OB LB'' = Some (GStrings [''OB'', ''LB''])"
    by code_simp+
  from poll_reaches_store [of "\<lambda>_. Inr ?c" demo_instance ?c ?c demo_vars "[]" status_var ?e quick_env demo_rt 7 Idle, OF _ _ a l v m d]
  show ?thesis by (auto simp: nut_dial_def demo_conn_def r k)
qed

definition ups_client :: Client where
  "ups_client = \<lparr>ec_Name = ''ups'', ec_Description = [], ec_Transport = ''nut'', ec_Address = [], ec_MAC = [], ec_Credentials = [],
     ec_Tags = [], ec_Feeds = [], ec_FeedPolicy = FeedPolicyAny, ec_ShutdownBudget = 0, ec_WakePolicy = WakePolicyPowerState,
     ec_DependsOn = [], ec_After = [], ec_Before = [], ec_ProbeConfig = \<lparr>ep_Method = [], ep_Port = 0, ep_Timeout = 0\<rparr>,
     ec_WakeConfig = None,
     ec_TransportConfig = [''command'' \<mapsto> GString ''load.off'', ''username'' \<mapsto> GString ''u'', ''password'' \<mapsto> GString ''p''],
     ec_GuardPeriod = 0\<rparr>"

theorem command_only_after_login_witness:
  "case nut_Execute demo_rt (\<lambda>_. Inr (demo_conn [''OK'', ''OK'', ''OK''])) ups_client ActionOutletOff of
     (Inr _, Some c) \<Rightarrow> lines_sent c = [user_line ''u'', password_line ''p'', command_line ups_client, logout_line]
   | _ \<Rightarrow> False"
proof -
  let ?x = "nut_Execute demo_rt (\<lambda>_. Inr (demo_conn [''OK'', ''OK'', ''OK''])) ups_client ActionOutletOff"
  have "case ?x of (Inr _, Some c) \<Rightarrow> True | _ \<Rightarrow> False" by code_simp
  then obtain m c where x: "?x = (Inr m, Some c)" by (cases ?x) (auto split: sum.splits option.splits)
  have u: "''u'' = configString (ec_TransportConfig ups_client) ''username''" "''p'' = configString (ec_TransportConfig ups_client) ''password''"
    by (simp_all add: ups_client_def configString_def)
  show ?thesis using command_only_after_login [OF x _ u] x by (auto simp: demo_conn_def)
qed

section \<open>The journal\<close>

definition demo_stage_record :: StageRecord where
  "demo_stage_record = \<lparr>sr_SequenceID = ''seq_1'', sr_StageIndex = 0, sr_StageName = ''a'', sr_StartedAt = 2 * Second,
     sr_CompletedAt = None, sr_Clients = Map.empty\<rparr>"

definition demo_intent_row :: Intent where
  "demo_intent_row = \<lparr>it_ID = ''i'', it_SequenceID = ''seq_1'', it_ClientName = ''a'', it_Action = ''shutdown'', it_Timestamp = 3 * Second,
     it_Status = ''dispatched'', it_Result = None\<rparr>"

theorem journal_complete_and_ordered_witness:
  "length (buildJournal (demo_sequence ''seq_1'' ''completed'' 1) [demo_stage_record] [demo_intent_row]) = 3"
proof -
  have y: "list_all (\<lambda>e. four_digit_year (entry_time e)) (later_entries [demo_stage_record] [demo_intent_row])"
    by (simp add: later_entries_def stage_entry_def intent_entry_def entry_time_def four_digit_year_def year_of_def
        demo_stage_record_def demo_intent_row_def seconds_of_def)
  from journal_complete_and_ordered [OF y, of "demo_sequence ''seq_1'' ''completed'' 1"] obtain es where
    "buildJournal (demo_sequence ''seq_1'' ''completed'' 1) [demo_stage_record] [demo_intent_row] =
       to_record (header_entry (demo_sequence ''seq_1'' ''completed'' 1)) # map to_record es"
    "mset es = mset (map stage_entry [demo_stage_record] @ map intent_entry [demo_intent_row])" by blast
  then show ?thesis by (metis (no_types, lifting) add.commute length_Cons length_map list.size(3) mset_eq_length
        numeral_3_eq_3 plus_1_eq_Suc append_Cons append_Nil list.simps(8,9))
qed

theorem export_is_atomic_witness:
  "\<exists>f. last (fst (ExportJournal (<) None (''.journal-'' @ ''1'') ''seq_1'' demo_db Map.empty)) (journalFileName ''seq_1'') = Some f \<and>
     whole_journal (<) ''seq_1'' demo_db f"
proof -
  obtain states r where x: "ExportJournal (<) None (''.journal-'' @ ''1'') ''seq_1'' demo_db Map.empty = (states, r)" by force
  have s: "GetSequenceByID ''seq_1'' demo_db = Some (demo_sequence ''seq_1'' ''completed'' 1)"
    by (simp add: GetSequenceByID_def demo_db_def demo_sequence_def empty_db_def)
  have st: "Map.empty \<in> set states" "r = Inr (journalFileName ''seq_1'')" using x s by (auto simp: ExportJournal_def Let_def)
  have "after_cut Map.empty Map.empty" by (simp add: after_cut_def)
  from export_is_atomic [OF x st(1) this] show ?thesis using st(2) x by simp
qed

end
