(* ===== verification/Probing.thy ===== *)
theory Probing
  imports Nut Wol
begin

text \<open>
  What a probe proves (\<open>netutil/probe.go\<close> and the method \<open>Probe\<close> of every module under \<open>modules\<close>), the
  URLs of \<open>netutil/addr.go\<close>, and the transports the daemon registers (\<open>cmd/canarium/wiring.go\<close>). The
  network and the shell are parameters, collected in a record. At the end the probes are put under the
  daemon: a client is recorded as down only on evidence.
\<close>

section \<open>Classifying a dial (probe.go)\<close>

datatype Reachability = Indeterminate | Reachable | Unreachable

fun Reachability_String :: "Reachability \<Rightarrow> string" where
  "Reachability_String Reachable = ''reachable''"
| "Reachability_String Unreachable = ''unreachable''"
| "Reachability_String Indeterminate = ''indeterminate''"

text \<open>What \<open>errors.Is\<close> finds in the error of a dial.\<close>

datatype dial_error = ECONNREFUSED | EHOSTUNREACH | OtherDialError string

definition ClassifyDialError :: "dial_error option \<Rightarrow> Reachability" where
  "ClassifyDialError err =
     (case err of
        None \<Rightarrow> Reachable
      | Some e \<Rightarrow> if e = ECONNREFUSED \<or> e = EHOSTUNREACH then Unreachable else Indeterminate)"

datatype sh_outcome = Exited nat | NotRun string

record probe_world =
  pw_dial :: "string \<Rightarrow> duration \<Rightarrow> dial_error option"
  pw_url_ok :: "string \<Rightarrow> bool"
  pw_get :: "string \<Rightarrow> dial_error option"
  pw_sh :: "string \<Rightarrow> string list \<Rightarrow> sh_outcome"

definition ProbeTCP :: "probe_world \<Rightarrow> string \<Rightarrow> duration \<Rightarrow> Reachability \<times> dial_error option" where
  "ProbeTCP w addr limit =
     (let err = pw_dial w addr (if limit \<le> 0 then 5 * Second else limit)
      in (ClassifyDialError err, err))"

section \<open>URLs (addr.go)\<close>

text \<open>The escaping of \<open>net/url\<close>: of a segment of a path, of a whole path, and of a host.\<close>

definition letter :: "char \<Rightarrow> bool" where
  "letter c \<longleftrightarrow> (let n = of_char c :: nat in 65 \<le> n \<and> n \<le> 90 \<or> 97 \<le> n \<and> n \<le> 122)"

definition unreserved :: "char \<Rightarrow> bool" where
  "unreserved c \<longleftrightarrow>
     letter c \<or> is_digit c \<or> c \<in> set ''-_.~''"

definition path_char :: "char \<Rightarrow> bool" where
  "path_char c \<longleftrightarrow> unreserved c \<or> c \<in> set ''$&+,/:;=@''"

definition segment_char :: "char \<Rightarrow> bool" where
  "segment_char c \<longleftrightarrow> unreserved c \<or> c \<in> set ''$&+:=@''"

definition host_char :: "char \<Rightarrow> bool" where
  "host_char c \<longleftrightarrow> unreserved c \<or> c \<in> set ''!$&()*+,;=:[]<>'' \<or> c = CHR 0x27 \<or> c = CHR 0x22"

definition hex_upper :: "nat \<Rightarrow> char" where
  "hex_upper n = char_of (if n < 10 then 48 + n else 55 + n)"

definition url_escape :: "(char \<Rightarrow> bool) \<Rightarrow> string \<Rightarrow> string" where
  "url_escape plain s =
     concat (map (\<lambda>c. if plain c then [c]
        else [CHR ''%'', hex_upper (of_char c div 16), hex_upper (of_char c mod 16)]) s)"

definition PathEscape :: "string \<Rightarrow> string" where
  "PathEscape = url_escape segment_char"

definition URL :: "string \<Rightarrow> string \<Rightarrow> int \<Rightarrow> string \<Rightarrow> string" where
  "URL scheme host port path0 =
     (let path = (if path0 \<noteq> [] \<and> \<not> HasPrefix path0 ''/'' then CHR ''/'' # path0 else path0)
      in scheme @ ''://'' @ url_escape host_char (HostPort host port) @ url_escape path_char path)"

section \<open>Placeholders (exec.go, rest.go)\<close>

text \<open>\<open>strings.ReplaceAll\<close>; the empty text occurs before every byte and at the end.\<close>

fun replace_from :: "string \<Rightarrow> string \<Rightarrow> string \<Rightarrow> string" where
  "replace_from s old new =
     (if s = [] \<or> old = [] then s
      else if HasPrefix s old then new @ replace_from (drop (length old) s) old new
      else hd s # replace_from (drop 1 s) old new)"

definition ReplaceAll :: "string \<Rightarrow> string \<Rightarrow> string \<Rightarrow> string" where
  "ReplaceAll s old new = (if old = [] then new @ concat (map (\<lambda>c. c # new) s) else replace_from s old new)"

declare replace_from.simps [simp del]

text \<open>\<open>expandVars\<close> of \<open>exec.go\<close>: one pass over the text, so what is put in is not looked at again.\<close>

fun exec_expandVars :: "Client \<Rightarrow> string \<Rightarrow> string" where
  "exec_expandVars cl s =
     (if s = [] then []
      else if HasPrefix s ''{address}'' then ec_Address cl @ exec_expandVars cl (drop 9 s)
      else if HasPrefix s ''{name}'' then ec_Name cl @ exec_expandVars cl (drop 6 s)
      else if HasPrefix s ''{mac}'' then ec_MAC cl @ exec_expandVars cl (drop 5 s)
      else hd s # exec_expandVars cl (drop 1 s))"

declare exec_expandVars.simps [simp del]

text \<open>\<open>expandVars\<close> of \<open>rest.go\<close>: one replacement after the other.\<close>

definition rest_expandVars :: "Client \<Rightarrow> string \<Rightarrow> string" where
  "rest_expandVars cl s =
     (let s1 = ReplaceAll s ''{address}'' (ec_Address cl);
          s2 = ReplaceAll s1 ''{name}'' (ec_Name cl);
          s3 = ReplaceAll s2 ''{mac}'' (ec_MAC cl)
      in if ec_Credentials cl \<noteq> [] then ReplaceAll s3 ''{credentials}'' (ec_Credentials cl) else s3)"

definition clientEnv :: "Client \<Rightarrow> string list" where
  "clientEnv cl =
     [''CANARIUM_CLIENT_NAME='' @ ec_Name cl, ''CANARIUM_CLIENT_ADDRESS='' @ ec_Address cl,
      ''CANARIUM_CLIENT_MAC='' @ ec_MAC cl, ''CANARIUM_CLIENT_TRANSPORT='' @ ec_Transport cl]"

section \<open>The probes of the modules\<close>

datatype probe_error =
    ProbeUnsupported
  | ProbeInconclusive string dial_error
  | NoProbeCommand
  | ProbeCommandFailed sh_outcome
  | NoAddress string
  | BadProbeURL string

text \<open>The end every TCP probe has in common.\<close>

definition tcp_answer :: "probe_world \<Rightarrow> string \<Rightarrow> duration \<Rightarrow> probe_error + ClientState" where
  "tcp_answer w addr limit =
     (case ProbeTCP w addr limit of
        (Reachable, _) \<Rightarrow> Inr StateUp
      | (Unreachable, _) \<Rightarrow> Inr StateDown
      | (Indeterminate, err) \<Rightarrow> Inl (ProbeInconclusive addr (the err)))"

definition probe_port_or :: "int \<Rightarrow> Client \<Rightarrow> int" where
  "probe_port_or dflt cl = (if ep_Port (ec_ProbeConfig cl) = 0 then dflt else ep_Port (ec_ProbeConfig cl))"

definition appliance_Probe :: "int \<Rightarrow> probe_world \<Rightarrow> Client \<Rightarrow> probe_error + ClientState" where
  "appliance_Probe dflt w cl =
     tcp_answer w (HostPort (ec_Address cl) (probe_port_or dflt cl)) (ep_Timeout (ec_ProbeConfig cl))"

definition proxmox_Probe :: "probe_world \<Rightarrow> Client \<Rightarrow> probe_error + ClientState" where
  "proxmox_Probe = appliance_Probe 8006"

definition opnsense_Probe :: "probe_world \<Rightarrow> Client \<Rightarrow> probe_error + ClientState" where
  "opnsense_Probe = appliance_Probe 443"

definition truenas_Probe :: "probe_world \<Rightarrow> Client \<Rightarrow> probe_error + ClientState" where
  "truenas_Probe = appliance_Probe 443"

definition poe_Probe :: "probe_world \<Rightarrow> Client \<Rightarrow> probe_error + ClientState" where
  "poe_Probe w cl = (if ec_Address cl = [] then Inl (NoAddress (ec_Name cl)) else appliance_Probe 22 w cl)"

definition defaultSSHPort :: int where "defaultSSHPort = 22"

definition sshPort :: "rt \<Rightarrow> SSHTransportConfig \<Rightarrow> Client \<Rightarrow> int" where
  "sshPort rt t cl =
     (let p = configInt rt (ec_TransportConfig cl) ''port''
      in if p \<noteq> 0 then p else if ssh_Port t \<noteq> 0 then ssh_Port t else defaultSSHPort)"

definition probePort :: "rt \<Rightarrow> SSHTransportConfig \<Rightarrow> Client \<Rightarrow> int" where
  "probePort rt t cl = (if ep_Port (ec_ProbeConfig cl) \<noteq> 0 then ep_Port (ec_ProbeConfig cl) else sshPort rt t cl)"

definition ssh_Probe :: "rt \<Rightarrow> SSHTransportConfig \<Rightarrow> probe_world \<Rightarrow> Client \<Rightarrow> probe_error + ClientState" where
  "ssh_Probe rt t w cl =
     tcp_answer w (HostPort (ec_Address cl) (probePort rt t cl)) (ep_Timeout (ec_ProbeConfig cl))"

definition probe_url :: "Client \<Rightarrow> string" where
  "probe_url cl =
     (let configured = configString (ec_TransportConfig cl) ''probe_url''
      in rest_expandVars cl
           (if configured = [] then URL ''http'' (ec_Address cl) (probe_port_or 80 cl) ''/'' else configured))"

definition rest_Probe :: "probe_world \<Rightarrow> Client \<Rightarrow> probe_error + ClientState" where
  "rest_Probe w cl =
     (let url = probe_url cl
      in if \<not> pw_url_ok w url then Inl (BadProbeURL url)
         else case pw_get w url of
                None \<Rightarrow> Inr StateUp
              | Some err \<Rightarrow>
                  if ClassifyDialError (Some err) = Unreachable then Inr StateDown
                  else Inl (ProbeInconclusive url err))"

definition exec_Probe :: "probe_world \<Rightarrow> Client \<Rightarrow> probe_error + ClientState" where
  "exec_Probe w cl =
     (case ec_TransportConfig cl ''probe_command'' of
        Some (GString cmd) \<Rightarrow>
          (case pw_sh w (exec_expandVars cl cmd) (clientEnv cl) of
             Exited 0 \<Rightarrow> Inr StateUp
           | Exited n \<Rightarrow> if n = 1 then Inr StateDown else Inl (ProbeCommandFailed (Exited n))
           | NotRun err \<Rightarrow> Inl (ProbeCommandFailed (NotRun err)))
      | _ \<Rightarrow> Inl NoProbeCommand)"

definition no_Probe :: "probe_world \<Rightarrow> Client \<Rightarrow> probe_error + ClientState" where
  "no_Probe w cl = Inl ProbeUnsupported"

section \<open>The transports of the daemon (wiring.go)\<close>

definition plain_transport :: "ActionType list \<Rightarrow> bool \<Rightarrow> Transport" where
  "plain_transport caps discovers = \<lparr>tr_Capabilities = caps, tr_Remap = (\<lambda>a. a), tr_Discovers = discovers\<rparr>"

fun poe_RemapAction :: "ActionType \<Rightarrow> ActionType" where
  "poe_RemapAction ActionShutdown = ActionPoeOff"
| "poe_RemapAction ActionWake = ActionPoeOn"
| "poe_RemapAction a = a"

definition transport_table :: "(string \<times> Transport) list" where
  "transport_table =
       [(''ssh'', plain_transport [ActionShutdown, ActionProbe] False),
        (''wol'', plain_transport [ActionWake] False),
        (''exec'', plain_transport [ActionShutdown, ActionWake, ActionProbe] False),
        (''rest'', plain_transport [ActionShutdown, ActionWake, ActionProbe] False),
        (''proxmox'', plain_transport [ActionShutdown, ActionProbe] False),
        (''truenas'', plain_transport [ActionShutdown, ActionProbe] True),
        (''opnsense'', plain_transport [ActionShutdown, ActionProbe] True),
        (''nut'', nut_transport),
        (''snmp-poe'', \<lparr>tr_Capabilities = [ActionPoeOff, ActionPoeOn, ActionProbe],
                        tr_Remap = poe_RemapAction, tr_Discovers = False\<rparr>)]"

definition buildTransports :: "string \<rightharpoonup> Transport" where
  "buildTransports = map_of transport_table"

text \<open>The method \<open>Probe\<close> of the transport of that name.\<close>

definition module_Probe :: "rt \<Rightarrow> SSHTransportConfig \<Rightarrow> string \<Rightarrow> probe_world \<Rightarrow> Client \<Rightarrow> probe_error + ClientState" where
  "module_Probe rt t name =
     (if name = ''ssh'' then ssh_Probe rt t
      else if name = ''exec'' then exec_Probe
      else if name = ''rest'' then rest_Probe
      else if name = ''proxmox'' then proxmox_Probe
      else if name = ''truenas'' then truenas_Probe
      else if name = ''opnsense'' then opnsense_Probe
      else if name = ''snmp-poe'' then poe_Probe
      else no_Probe)"

section \<open>What it takes to be reported down\<close>

text \<open>The network refused a connection, or a router reported the host absent.\<close>

definition refused :: "dial_error option \<Rightarrow> bool" where
  "refused err \<longleftrightarrow> err = Some ECONNREFUSED \<or> err = Some EHOSTUNREACH"

definition tcp_evidence :: "probe_world \<Rightarrow> Client \<Rightarrow> bool" where
  "tcp_evidence w cl \<longleftrightarrow> (\<exists>port limit. 0 < limit \<and> refused (pw_dial w (HostPort (ec_Address cl) port) limit))"

definition http_evidence :: "probe_world \<Rightarrow> Client \<Rightarrow> bool" where
  "http_evidence w cl \<longleftrightarrow> refused (pw_get w (probe_url cl))"

definition script_evidence :: "probe_world \<Rightarrow> Client \<Rightarrow> bool" where
  "script_evidence w cl \<longleftrightarrow>
     (\<exists>cmd. ec_TransportConfig cl ''probe_command'' = Some (GString cmd) \<and>
        pw_sh w (exec_expandVars cl cmd) (clientEnv cl) = Exited 1)"

text \<open>The contract of a prober: \<open>StateDown\<close> is an answer it gives on evidence only.\<close>

locale prober =
  fixes ask :: "probe_world \<Rightarrow> Client \<Rightarrow> probe_error + ClientState"
    and evidence :: "probe_world \<Rightarrow> Client \<Rightarrow> bool"
  assumes down_evident: "ask w cl = Inr StateDown \<Longrightarrow> evidence w cl"
    and answers: "ask w cl = Inr s \<Longrightarrow> s = StateUp \<or> s = StateDown"
begin

text \<open>The answer as the engine takes it: \<open>None\<close> for an error.\<close>

definition heard :: "probe_world \<Rightarrow> Client \<Rightarrow> ClientState option" where
  "heard w cl = (case ask w cl of Inl _ \<Rightarrow> None | Inr s \<Rightarrow> Some s)"

lemma heard_down: "heard w cl = Some StateDown \<Longrightarrow> evidence w cl"
  by (auto simp: heard_def dest: down_evident split: sum.splits)

lemma no_evidence_not_down: "\<not> evidence w cl \<Longrightarrow> heard w cl \<in> {None, Some StateUp}"
  by (auto simp: heard_def dest: down_evident answers split: sum.splits)

end

lemma tcp_answer_down: "tcp_answer w (HostPort (ec_Address cl) port) limit = Inr StateDown \<Longrightarrow> tcp_evidence w cl"
  unfolding tcp_evidence_def
  by (rule exI [of _ port], rule exI [of _ "if limit \<le> 0 then 5 * Second else limit"])
    (auto simp: tcp_answer_def ProbeTCP_def ClassifyDialError_def refused_def Let_def
      split: prod.splits option.splits if_splits Reachability.splits)

lemma tcp_answer_state: "tcp_answer w addr limit = Inr s \<Longrightarrow> s = StateUp \<or> s = StateDown"
  by (auto simp: tcp_answer_def split: prod.splits Reachability.splits)

lemmas appliance_defs = proxmox_Probe_def opnsense_Probe_def truenas_Probe_def appliance_Probe_def

interpretation ssh: prober "ssh_Probe rt t" tcp_evidence
  by unfold_locales (auto simp: ssh_Probe_def dest: tcp_answer_down tcp_answer_state)

interpretation proxmox: prober proxmox_Probe tcp_evidence
  by unfold_locales (auto simp: appliance_defs dest: tcp_answer_down tcp_answer_state)

interpretation opnsense: prober opnsense_Probe tcp_evidence
  by unfold_locales (auto simp: appliance_defs dest: tcp_answer_down tcp_answer_state)

interpretation truenas: prober truenas_Probe tcp_evidence
  by unfold_locales (auto simp: appliance_defs dest: tcp_answer_down tcp_answer_state)

interpretation poe: prober poe_Probe tcp_evidence
  by unfold_locales (auto simp: poe_Probe_def appliance_defs
      dest: tcp_answer_down tcp_answer_state split: if_splits)

interpretation rest: prober rest_Probe http_evidence
  by unfold_locales (auto simp: rest_Probe_def http_evidence_def refused_def ClassifyDialError_def Let_def
      split: if_splits option.splits)

lemma exec_Probe_cases:
  "exec_Probe w cl = Inr s \<Longrightarrow> s = StateUp \<or> s = StateDown \<and> script_evidence w cl"
  by (auto simp: exec_Probe_def script_evidence_def split: option.splits goval.splits sh_outcome.splits if_splits nat.splits)

interpretation exec: prober exec_Probe script_evidence
  by unfold_locales (auto dest: exec_Probe_cases)

text \<open>The evidence that counts for the transport of a client.\<close>

definition evidence_for :: "string \<Rightarrow> probe_world \<Rightarrow> Client \<Rightarrow> bool" where
  "evidence_for transport w cl \<longleftrightarrow>
     (if transport = ''exec'' then script_evidence w cl
      else if transport = ''rest'' then http_evidence w cl
      else tcp_evidence w cl)"

interpretation modules: prober "module_Probe rt t name" "evidence_for name"
  using ssh.prober_axioms exec.prober_axioms rest.prober_axioms proxmox.prober_axioms truenas.prober_axioms
    opnsense.prober_axioms poe.prober_axioms
  by (auto simp: module_Probe_def evidence_for_def no_Probe_def prober_def)

end
