(* ===== verification/Probe_Evidence.thy ===== *)
theory Probe_Evidence
  imports Probing
begin

text \<open>
  The probes of the modules under the daemon: which steps record a client as down, and that none of
  them does without evidence. What a step adds to the clients that are down is followed through the
  building blocks of the machine.
\<close>

section \<open>What a step adds to the clients that are down\<close>

definition downs_only :: "string set \<Rightarrow> Executor \<Rightarrow> Executor \<Rightarrow> bool" where
  "downs_only A e e' \<longleftrightarrow> (\<forall>n. clientState e' n = StateDown \<longrightarrow> clientState e n = StateDown \<or> n \<in> A)"

named_theorems downs

lemma downs_same: "e_clientStates e' = e_clientStates e \<Longrightarrow> downs_only A e e'"
  by (simp add: downs_only_def clientState_def)

lemma downs_refl [downs]: "downs_only A e e"
  by (simp add: downs_same)

lemma downs_trans: "downs_only A e e1 \<Longrightarrow> downs_only A e1 e2 \<Longrightarrow> downs_only A e e2"
  by (auto simp: downs_only_def)

lemma downs_via: "downs_only A e1 e2 \<Longrightarrow> e_clientStates e1 = e_clientStates e \<Longrightarrow> downs_only A e e2"
  by (simp add: downs_only_def clientState_def)

lemma downs_set [downs]: "s \<noteq> StateDown \<or> name \<in> A \<Longrightarrow> downs_only A e (setClientState ok now name s q e)"
  by (auto simp: downs_only_def clientState_def)

lemma downs_foldl: "(\<And>x e. x \<in> set xs \<Longrightarrow> downs_only A e (f e x)) \<Longrightarrow> downs_only A e (foldl f e xs)"
  by (induction xs arbitrary: e) (auto simp: downs_refl intro: downs_trans)

section \<open>The building blocks\<close>

lemma clear_states [simp]: "e_clientStates (clearActiveSequence e) = e_clientStates e"
  by (simp add: clearActiveSequence_def)

lemma completeSequence_states: "e_clientStates (snd (completeSequence tk a e)) = e_clientStates e"
  by (simp add: completeSequence_def releaseSequence_def Let_def)

lemma after_wake_states: "e_clientStates (snd (after_wake en tk a order i e)) = e_clientStates e"
  by (simp add: after_wake_def Let_def)

lemma to_gate_states: "e_clientStates (snd (to_gate tk e)) = e_clientStates e"
  by (simp add: to_gate_def)

lemma handleAbort_states: "e_clientStates (snd (handleAbort en tk a e)) = e_clientStates e"
  by (simp add: handleAbort_def Let_def)

lemma handleStageTimeout_states:
  "handleStageTimeout en tk a stage i e = (b, e') \<Longrightarrow> e_clientStates e' = e_clientStates e"
  by (auto simp: handleStageTimeout_def Let_def split: if_splits)

lemma enter_stage_states: "e_clientStates (snd (enter_stage en tk stage i e)) = e_clientStates e"
  by (simp add: enter_stage_def start_stage_def Let_def)

lemma after_stages_states: "e_clientStates (snd (after_stages en tk a e)) = e_clientStates e"
  by (auto simp: after_stages_def finish_post_def executePostShutdown_def to_gate_states split: option.split prod.split bool.split)

lemma waitForStage_states: "e_clientStates (snd (waitForStage en tk a stage i dl e)) = e_clientStates e"
proof -
  obtain b e1 where e1: "eval_cond en tk (sg_When stage) e = (b, e1)" by force
  obtain f r a' where cp: "ConsumeProceed a = (f, r, a')" by (metis prod_cases3)
  obtain c e2 where e2: "shouldAbort en tk a e1 = (c, e2)" by force
  obtain h e3 where e3: "handleStageTimeout en tk a stage i e2 = (h, e3)" by force
  have "e_clientStates e1 = e_clientStates e" "e_clientStates e2 = e_clientStates e1"
    using eval_cond_active [OF e1] shouldAbort_frame [OF e2] by simp_all
  then show ?thesis using handleStageTimeout_states [OF e3]
    by (simp add: waitForStage_def e1 cp e2 e3 enter_stage_states handleAbort_states split: bool.split)
qed

lemma runShutdownStages_states: "e_clientStates (snd (runShutdownStages en tk a i e)) = e_clientStates e"
proof -
  let ?e1 = "saveSequence (tk_ok tk) (on_active (SetCurrentStage i) e)"
  obtain c e2 where e2: "shouldAbort en tk a ?e1 = (c, e2)" by force
  then have "e_clientStates e2 = e_clientStates e" using shouldAbort_frame [OF e2] by simp
  then show ?thesis
    by (simp add: runShutdownStages_def Let_def e2 handleAbort_states after_stages_states del: active_defs split: bool.split)
qed

lemma runWake_states: "e_clientStates (snd (runWake en tk a e)) = e_clientStates e"
proof -
  obtain b e1 where e1: "eval_cond en tk (wk_Gate (pl_Wake (as_plan a))) e = (b, e1)" by force
  then show ?thesis using eval_cond_active [OF e1]
    by (simp add: runWake_def e1 completeSequence_states split: bool.split)
qed

lemma discoverMAC_states: "discoverMAC en ok now w c ip e = (m, e') \<Longrightarrow> e_clientStates e' = e_clientStates e"
  by (auto simp: discoverMAC_def split: option.splits prod.splits if_splits)

lemma resolve_client_states: "e_clientStates (snd (resolve_client en ok now w acc c)) = e_clientStates (snd acc)"
  by (cases acc) (auto simp: resolve_client_def Let_def split: prod.split dest: discoverMAC_states)

lemma executeSequence_states: "e_clientStates (snd (executeSequence en tk a e)) = e_clientStates e"
proof -
  have "e_clientStates (snd (foldl (resolve_client en ok now w) acc cs)) = e_clientStates (snd acc)" for ok now w acc cs
    by (induction cs arbitrary: acc) (simp_all add: resolve_client_states)
  then have "e_clientStates (snd (resolveClientAddresses en (tk_ok tk) (tk_now tk) (tk_mac tk) e)) = e_clientStates e"
    by (simp add: resolveClientAddresses_def)
  then show ?thesis by (simp add: executeSequence_def split_beta del: active_defs)
qed

lemmas states =
  completeSequence_states after_wake_states to_gate_states handleAbort_states enter_stage_states after_stages_states
  waitForStage_states runShutdownStages_states runWake_states executeSequence_states

section \<open>The steps that set a client's state\<close>

text \<open>Who was being shut down in a dry run.\<close>

fun dry_clients :: "pc \<Rightarrow> string set" where
  "dry_clients (StageRun i rec budget cs) = {name. \<exists>t0 until. (name, CDry t0 until) \<in> set cs}"
| "dry_clients pc = {}"

text \<open>Who a tick's probe reports down.\<close>

definition told_down :: "(string \<Rightarrow> ClientState option) \<Rightarrow> string set" where
  "told_down probe = {name. probe name = Some StateDown}"

lemma shutdownClient_downs:
  assumes "shutdownClient en tk budget name p e = (p', e')" and "\<exists>t0 until. p = CDry t0 until \<Longrightarrow> name \<in> A"
    and "told_down (tk_probe tk) \<subseteq> A"
  shows "downs_only A e e'"
  using assms
  by (cases p) (auto simp: claim_client_def record_intent_def dispatch_client_def answered_client_def awaitClientDown_def
      await_select_def unverified_def told_down_def Let_def downs_only_def clientState_def
      split: option.splits if_splits prod.splits bool.splits)

lemma executeStage_downs:
  "downs_only (dry_clients (StageRun i rec budget cs) \<union> told_down (tk_probe tk)) e
     (snd (executeStage en tk i rec budget cs e))"
proof (cases "tk_who tk < length cs")
  case True
  obtain name p where p: "cs ! tk_who tk = (name, p)" by force
  obtain p' e' where s: "shutdownClient en tk budget name p e = (p', e')" by force
  have "(name, p) \<in> set cs" using True p by (metis nth_mem)
  then have "\<exists>t0 until. p = CDry t0 until \<Longrightarrow> name \<in> dry_clients (StageRun i rec budget cs)" by auto
  then have "downs_only (dry_clients (StageRun i rec budget cs) \<union> told_down (tk_probe tk)) e e'"
    by (intro shutdownClient_downs [OF s]) auto
  then show ?thesis using True p s
    by (auto simp: executeStage_def Let_def intro: downs_same split: if_splits)
next
  case False
  then show ?thesis by (auto simp: executeStage_def Let_def intro: downs_same)
qed

lemma reconcile_downs:
  assumes "told_down (tk_probe tk) \<subseteq> A"
  shows "downs_only A e (reconcile en tk e it)"
proof -
  have saved: "downs_only A e (saveIntent ok it' e1)" if "downs_only A e e1" for ok it' e1
    using that by (simp add: downs_only_def clientState_def)
  have "it_ClientName it \<in> A" if "tk_probe tk (it_ClientName it) = Some StateDown"
    using assms that by (auto simp: told_down_def)
  then show ?thesis
    by (auto simp: reconcile_def Let_def intro!: saved downs_set downs_refl
        split: option.splits ClientState.splits)
qed

lemma reconcileIntents_downs: "told_down (tk_probe tk) \<subseteq> A \<Longrightarrow> downs_only A e (reconcileIntents en tk e)"
  by (auto simp: reconcileIntents_def intro: downs_same downs_foldl reconcile_downs)

lemma wake_step_downs:
  "downs_only A e (snd (wake_next en tk a order i e))" "downs_only A e (snd (wakeClient en tk a order i e))"
  "downs_only A e (snd (wake_send en tk a order i n e))" "downs_only A e (snd (wake_sent en tk a order i n e))"
  "downs_only A e (snd (wake_probe en tk a order i n dl e))"
proof -
  have after: "downs_only A e (snd (after_wake en tk a order i e1))" if "downs_only A e e1" for e1
    using that by (simp add: downs_only_def clientState_def after_wake_states)
  have sent: "downs_only A e (emit x e1)" if "downs_only A e e1" for x e1
    using that by (simp add: downs_only_def clientState_def)
  have complete: "downs_only A e (snd (completeSequence tk b e))" for b
    by (rule downs_same) (rule completeSequence_states)
  note rules = after sent complete downs_set downs_refl
  show "downs_only A e (snd (wake_next en tk a order i e))"
    by (auto simp: wake_next_def Let_def intro!: rules split: option.split)
  show "downs_only A e (snd (wakeClient en tk a order i e))"
    by (auto simp: wakeClient_def Let_def intro!: rules split: option.split)
  show "downs_only A e (snd (wake_send en tk a order i n e))"
    by (auto simp: wake_send_def Let_def intro!: rules split: option.split)
  show "downs_only A e (snd (wake_sent en tk a order i n e))"
    by (auto simp: wake_sent_def Let_def intro!: rules split: option.split)
  show "downs_only A e (snd (wake_probe en tk a order i n dl e))"
    by (auto simp: wake_probe_def Let_def intro!: rules split: option.split)
qed

lemma waitForShuttingDown_downs: "downs_only A e (snd (waitForShuttingDown en tk cs dl e))"
  by (cases cs) (auto simp: waitForShuttingDown_def intro!: downs_set downs_refl downs_same [OF to_gate_states] split: option.split)

lemma seq_step_downs: "downs_only (dry_clients pc \<union> told_down (tk_probe tk)) e (snd (seq_step en tk a pc e))"
proof (cases pc)
  case Resuming
  have "downs_only A e (snd (resumeSequence en tk a e))" if "told_down (tk_probe tk) \<subseteq> A" for A
    using downs_via [OF reconcileIntents_downs [OF that]]
    by (simp add: resumeSequence_def Let_def downs_refl del: active_defs)
  with Resuming show ?thesis by simp
next
  case (StageRun i rec budget cs)
  then show ?thesis using executeStage_downs by (metis seq_step.simps(6))
next
  case (WakeDry order i until)
  have "downs_only A e (snd (after_wake en tk a order i (setClientState ok now n StateUp q e)))" for A ok now n q
    by (rule downs_trans [OF downs_set downs_same [OF after_wake_states]]) simp
  with WakeDry show ?thesis by (simp add: downs_refl split: option.split)
qed (auto simp: states finish_post_def downs_refl wake_step_downs waitForShuttingDown_downs
    intro!: downs_same split: option.split bool.split)

section \<open>The other events\<close>

lemma probe_client_downs:
  assumes "cl_Name c \<in> told_down probe \<Longrightarrow> cl_Name c \<in> A"
  shows "downs_only A e (probe_client en ok now probe e c)"
  using assms by (auto simp: probe_client_def Let_def told_down_def intro!: downs_set downs_refl split: option.split)

lemma learnMACs_states: "e_clientStates (learnMACs en ok now w e) = e_clientStates e"
proof -
  have "e_clientStates (foldl (learn_client en ok now w) e cs) = e_clientStates e" for cs
    by (induction cs arbitrary: e) (simp_all add: learn_client_def Let_def noteMACAttempt_def split: prod.split)
  then show ?thesis by (simp add: learnMACs_def)
qed

lemma noteWouldTrigger_states [simp]: "e_clientStates (noteWouldTrigger p t e) = e_clientStates e"
  by (simp add: noteWouldTrigger_def Let_def)

lemma evaluate_plans_states: "e_clientStates (snd (evaluate_plans en now m plans e)) = e_clientStates e"
proof (induction plans arbitrary: e)
  case (Cons plan plans)
  show ?case
    using Cons by (cases m) (auto simp: setActiveSequence_def Let_def split_beta)
qed simp

text \<open>Events that leave the clients' states alone.\<close>

fun probes :: "event \<Rightarrow> string \<Rightarrow> ClientState option" where
  "probes (SeqTick tk) = tk_probe tk"
| "probes (ProbeTick ok now probe mw) = probe"
| "probes _ = Map.empty"

fun is_restart :: "event \<Rightarrow> bool" where
  "is_restart (Restart k tbl st keys ok now) = True"
| "is_restart _ = False"

lemma SetMode_states: "e_clientStates (SetMode en m e) = e_clientStates e"
  by (simp add: SetMode_def Let_def)

lemma daemon_step_downs:
  assumes "\<not> is_restart ev"
  shows "downs_only (dry_clients pc \<union> told_down (probes ev)) e (snd (daemon_step en ev (pc, e)))"
proof (cases ev)
  case (SeqTick tk)
  then show ?thesis by (simp add: seq_step_downs downs_refl split: option.split)
next
  case (PolicyTick now)
  then show ?thesis
    by (auto simp: evaluatePolicies_def intro!: downs_same evaluate_plans_states split: prod.split)
      (metis evaluate_plans_states snd_conv)
next
  case (ProbeTick ok now probe mw)
  have "downs_only (dry_clients pc \<union> told_down probe) e (probeAllClients en ok now probe e)"
    unfolding probeAllClients_def by (rule downs_foldl) (auto intro: probe_client_downs)
  then show ?thesis using ProbeTick
    by (auto simp: downs_refl intro: downs_trans [OF _ downs_same [OF learnMACs_states]])
next
  case (RetentionTick ok now)
  then show ?thesis by (auto simp: retention_tick_def pruneJournal_def Let_def intro!: downs_same)
next
  case (SetModeRequest ok req)
  then show ?thesis
    by (auto simp: handleSetMode_def SetMode_states Let_def intro!: downs_same split: prod.split bool.split)
next
  case (QualityTick keys now)
  then show ?thesis by (auto simp: quality_tick_def cached_ups_def intro!: downs_same split: option.split)
next
  case (AbortRequest reason)
  then show ?thesis
    by (auto simp: AbortSequence_def intro!: downs_same split: option.split sum.split prod.split bool.split)
next
  case (ForceRequest reason)
  then show ?thesis by (auto simp: ForceStage_def intro!: downs_same split: option.split sum.split)
qed (use assms in \<open>auto intro: downs_same\<close>)

section \<open>The modules' probes\<close>

definition probe_answer :: "rt \<Rightarrow> SSHTransportConfig \<Rightarrow> probe_world \<Rightarrow> Client \<Rightarrow> ClientState option" where
  "probe_answer rt t w cl = (case module_Probe rt t (ec_Transport cl) w cl of Inl _ \<Rightarrow> None | Inr s \<Rightarrow> Some s)"

text \<open>
  What a call of \<open>Probe\<close> answers the engine for a client: the answer of the module its transport
  names, asked for the client as the probe loop builds it or as the running sequence does.
\<close>

definition asked :: "engine_env \<Rightarrow> Executor \<Rightarrow> ClientConfig \<Rightarrow> Client set" where
  "asked en e c = {buildClient en c, buildClientFor en e (e_active e) c}"

definition modules_answer :: "engine_env \<Rightarrow> SSHTransportConfig \<Rightarrow> probe_world \<Rightarrow> Executor \<Rightarrow> event \<Rightarrow> bool" where
  "modules_answer en t w e ev \<longleftrightarrow>
     (\<forall>name s. probes ev name = Some s \<longrightarrow>
        (\<exists>c \<in> set (cf_Clients (en_cfg en)). cl_Name c = name \<and>
           (\<exists>cl \<in> asked en e c. probe_answer (en_rt en) t w cl = Some s)))"

text \<open>
  C8. No client is taken for switched off on a guess. When the transports are the daemon's modules, a step
  after which a client that was not down is recorded as down either ends the pause of a dry run, or
  the network refused a connection to the client or reported it absent, or its probe command exited
  with status 1. A probe that times out, a name that does not resolve, an unreachable network and a
  broken probe script never do it.
\<close>

theorem down_only_on_evidence:
  assumes "modules_answer en t w e ev" and "\<not> is_restart ev" and "daemon_step en ev (pc, e) = (pc', e')"
    and "clientState e' name = StateDown" and "clientState e name \<noteq> StateDown"
  shows "name \<in> dry_clients pc \<or>
    (\<exists>c \<in> set (cf_Clients (en_cfg en)). cl_Name c = name \<and>
       (\<exists>cl \<in> asked en e c. evidence_for (cl_Transport c) w cl))"
proof -
  have "name \<in> dry_clients pc \<union> told_down (probes ev)"
    using daemon_step_downs [OF assms(2), of pc e en] assms(3-5) by (auto simp: downs_only_def)
  then show ?thesis
  proof
    assume "name \<in> told_down (probes ev)"
    then obtain c cl where c: "c \<in> set (cf_Clients (en_cfg en))" "cl_Name c = name" "cl \<in> asked en e c"
        "probe_answer (en_rt en) t w cl = Some StateDown"
      using assms(1) unfolding modules_answer_def told_down_def by blast
    have "ec_Transport cl = cl_Transport c" using c(3) by (auto simp: asked_def buildClient_def buildClientFor_def)
    moreover have "evidence_for (ec_Transport cl) w cl"
      using c(4) modules.heard_down by (simp add: modules.heard_def probe_answer_def)
    ultimately show ?thesis using c by metis
  qed simp
qed

end
