(* ===== verification/Ssh.thy ===== *)
theory Ssh
  imports Probing
begin

text \<open>
  Shutting a host down over SSH (\<open>modules/ssh/ssh.go\<close>): the settings of a client over the defaults of
  the transport, the policies for host keys with the file of known hosts, and what the end of the
  command means. Reading keys and files, the known-hosts library and the SSH protocol are parameters.
\<close>

section \<open>Settings\<close>

definition HostKeyStrict :: string where "HostKeyStrict = ''strict''"
definition HostKeyAcceptNew :: string where "HostKeyAcceptNew = ''accept-new''"
definition HostKeyInsecure :: string where "HostKeyInsecure = ''insecure''"

definition defaultCommand :: string where "defaultCommand = ''shutdown -h now''"
definition defaultUser :: string where "defaultUser = ''root''"
definition defaultConnectTTL :: duration where "defaultConnectTTL = 10 * Second"
definition defaultCommandTTL :: duration where "defaultCommandTTL = 30 * Second"

definition ssh_New :: "SSHTransportConfig \<Rightarrow> SSHTransportConfig" where
  "ssh_New cfg =
     cfg\<lparr>ssh_Command := (if ssh_Command cfg = [] then defaultCommand else ssh_Command cfg),
         ssh_User := (if ssh_User cfg = [] then defaultUser else ssh_User cfg),
         ssh_Port := (if ssh_Port cfg = 0 then defaultSSHPort else ssh_Port cfg),
         ssh_HostKeyPolicy := (if ssh_HostKeyPolicy cfg = [] then HostKeyAcceptNew else ssh_HostKeyPolicy cfg)\<rparr>"

text \<open>A setting of the client wins over the transport's.\<close>

definition ssh_configString :: "Client \<Rightarrow> string \<Rightarrow> string" where
  "ssh_configString cl key = TrimSpace (configString (ec_TransportConfig cl) key)"

definition ssh_setting :: "Client \<Rightarrow> string \<Rightarrow> string \<Rightarrow> string" where
  "ssh_setting cl key dflt = (let s = ssh_configString cl key in if s \<noteq> [] then s else dflt)"

definition knownHostsPath :: "SSHTransportConfig \<Rightarrow> Client \<Rightarrow> string" where
  "knownHostsPath t cl = ssh_setting cl ''known_hosts'' (ssh_KnownHosts t)"

definition ssh_policy :: "SSHTransportConfig \<Rightarrow> Client \<Rightarrow> string" where
  "ssh_policy t cl = ssh_setting cl ''host_key_policy'' (ssh_HostKeyPolicy t)"

definition ssh_timeout :: "string \<Rightarrow> string \<Rightarrow> duration \<Rightarrow> duration" where
  "ssh_timeout own general dflt =
     (case (if own = [] then None else time_ParseDuration own) of
        Some d \<Rightarrow> d
      | None \<Rightarrow> (case (if general = [] then None else time_ParseDuration general) of Some d \<Rightarrow> d | None \<Rightarrow> dflt))"

definition connectTimeout :: "SSHTransportConfig \<Rightarrow> Client \<Rightarrow> duration" where
  "connectTimeout t cl = ssh_timeout (ssh_configString cl ''connect_timeout'') (ssh_ConnectTimeout t) defaultConnectTTL"

definition commandTimeout :: "SSHTransportConfig \<Rightarrow> Client \<Rightarrow> duration" where
  "commandTimeout t cl = ssh_timeout (ssh_configString cl ''command_timeout'') (ssh_CommandTimeout t) defaultCommandTTL"

section \<open>The private key\<close>

datatype ssh_error =
    SshUnsupported ActionType
  | NoKeyPath
  | KeyUnreadable string
  | KeyProtected string
  | KeyUnusable string
  | NoKnownHostsPath
  | KnownHostsNotPrepared string
  | KnownHostsUnreadable string
  | SshDialFailed string dial_error
  | HostKeyRefused string
  | HostKeyNotStored string
  | SshAuthFailed string
  | NoSession

datatype key_parse = ParsedSigner | PassphraseMissing | ParseFailed

record key_files =
  kf_readable :: "string \<Rightarrow> bool"
  kf_parse :: "string \<Rightarrow> string option \<Rightarrow> key_parse"

definition loadKey :: "key_files \<Rightarrow> SSHTransportConfig \<Rightarrow> Client \<Rightarrow> ssh_error option" where
  "loadKey kf t cl =
     (let path = ssh_setting cl ''key_path'' (ssh_KeyPath t);
          passphrase = ssh_setting cl ''key_passphrase'' (ssh_KeyPassphrase t)
      in if path = [] then Some NoKeyPath
         else if \<not> kf_readable kf path then Some (KeyUnreadable path)
         else if passphrase \<noteq> [] then
           (if kf_parse kf path (Some passphrase) = ParsedSigner then None else Some (KeyUnusable path))
         else case kf_parse kf path None of
                ParsedSigner \<Rightarrow> None
              | PassphraseMissing \<Rightarrow> Some (KeyProtected path)
              | ParseFailed \<Rightarrow> Some (KeyUnusable path))"

section \<open>Host keys\<close>

text \<open>
  The library: whether the lines of a file can be read, its verdict on a key (\<open>KeyUnknown\<close> is a
  \<open>KeyError\<close> whose \<open>Want\<close> is empty), the line to append, and the normal form of an address.
\<close>

datatype verdict = KeyKnown | KeyUnknown | KeyMismatch | VerifyError string

record known_hosts_lib =
  kh_readable :: "string list \<Rightarrow> bool"
  kh_verify :: "string list \<Rightarrow> string \<Rightarrow> string \<Rightarrow> string \<Rightarrow> verdict"
  kh_line :: "string list \<Rightarrow> string \<Rightarrow> string"
  kh_normalize :: "string \<Rightarrow> string"

type_synonym kh_files = "string \<Rightarrow> string list option"

record file_system =
  fs_stat_fails :: "string \<Rightarrow> bool"
  fs_can_create :: "string \<Rightarrow> bool"
  fs_can_append :: "string \<Rightarrow> bool"

definition ensureFile :: "file_system \<Rightarrow> string \<Rightarrow> kh_files \<Rightarrow> bool \<times> kh_files" where
  "ensureFile fs path files =
     (if fs_stat_fails fs path then (False, files)
      else if files path \<noteq> None then (True, files)
      else if fs_can_create fs path then (True, files(path \<mapsto> []))
      else (False, files))"

definition appendKnownHostLocked ::
  "known_hosts_lib \<Rightarrow> file_system \<Rightarrow> string \<Rightarrow> string \<Rightarrow> string \<Rightarrow> string \<Rightarrow> kh_files \<Rightarrow> ssh_error option \<times> kh_files" where
  "appendKnownHostLocked kh fs path hostname remote key files =
     (if \<not> fs_can_append fs path then (Some (HostKeyNotStored path), files)
      else let addresses = hostname # (if remote \<noteq> hostname then [kh_normalize kh remote] else []);
               lines = (case files path of None \<Rightarrow> [] | Some ls \<Rightarrow> ls)
           in (None, files(path \<mapsto> lines @ [kh_line kh addresses key])))"

text \<open>The callback \<open>hostKeyCallback\<close> builds; the lines are the snapshot it was built from.\<close>

datatype host_key_callback = AnyKey | Snapshot "string list" | Learning string "string list"

definition hostKeyCallback ::
  "known_hosts_lib \<Rightarrow> file_system \<Rightarrow> SSHTransportConfig \<Rightarrow> Client \<Rightarrow> kh_files \<Rightarrow> (ssh_error + host_key_callback) \<times> kh_files" where
  "hostKeyCallback kh fs t cl files =
     (if ssh_policy t cl = HostKeyInsecure then (Inr AnyKey, files)
      else let path = knownHostsPath t cl
           in if path = [] then (Inl NoKnownHostsPath, files)
              else case ensureFile fs path files of
                     (False, files') \<Rightarrow> (Inl (KnownHostsNotPrepared path), files')
                   | (True, files') \<Rightarrow>
                       (let lines = (case files' path of None \<Rightarrow> [] | Some ls \<Rightarrow> ls)
                        in if \<not> kh_readable kh lines then (Inl (KnownHostsUnreadable path), files')
                           else (Inr (if ssh_policy t cl = HostKeyStrict then Snapshot lines else Learning path lines), files')))"

text \<open>A call of the callback; under \<open>Learning\<close> the lock is held from the second look on.\<close>

fun check_host_key ::
  "known_hosts_lib \<Rightarrow> file_system \<Rightarrow> host_key_callback \<Rightarrow> string \<Rightarrow> string \<Rightarrow> string \<Rightarrow> kh_files \<Rightarrow> ssh_error option \<times> kh_files" where
  "check_host_key kh fs AnyKey hostname remote key files = (None, files)"
| "check_host_key kh fs (Snapshot lines) hostname remote key files =
     (if kh_verify kh lines hostname remote key = KeyKnown then None else Some (HostKeyRefused hostname), files)"
| "check_host_key kh fs (Learning path lines) hostname remote key files =
     (case kh_verify kh lines hostname remote key of
        KeyKnown \<Rightarrow> (None, files)
      | KeyUnknown \<Rightarrow>
          (case files path of
             Some fresh \<Rightarrow>
               (if kh_readable kh fresh \<and> kh_verify kh fresh hostname remote key = KeyKnown then (None, files)
                else appendKnownHostLocked kh fs path hostname remote key files)
           | None \<Rightarrow> appendKnownHostLocked kh fs path hostname remote key files)
      | _ \<Rightarrow> (Some (HostKeyRefused hostname), files))"

section \<open>Connecting and running the command\<close>

datatype session_end = CleanExit | ExitMissing | ExitStatus nat | OtherEnd string | NeverEnded

text \<open>What is at the other end: dialling, the address reached, the key shown, the login, the session.\<close>

record ssh_peer =
  sp_dial :: "string \<Rightarrow> duration \<Rightarrow> dial_error option"
  sp_remote :: "string \<Rightarrow> string"
  sp_key :: "string \<Rightarrow> string"
  sp_login :: "string \<Rightarrow> bool"
  sp_session :: bool
  sp_run :: "string \<Rightarrow> duration \<Rightarrow> session_end"

definition ssh_addr :: "rt \<Rightarrow> SSHTransportConfig \<Rightarrow> Client \<Rightarrow> string" where
  "ssh_addr rt t cl = HostPort (ec_Address cl) (sshPort rt t cl)"

definition ssh_connect ::
  "rt \<Rightarrow> known_hosts_lib \<Rightarrow> key_files \<Rightarrow> file_system \<Rightarrow> ssh_peer \<Rightarrow> SSHTransportConfig \<Rightarrow> Client \<Rightarrow> kh_files \<Rightarrow>
     ssh_error option \<times> kh_files" where
  "ssh_connect rt kh kf fs peer t cl files =
     (case loadKey kf t cl of
        Some err \<Rightarrow> (Some err, files)
      | None \<Rightarrow>
          (let user = ssh_setting cl ''user'' (ssh_User t); addr = ssh_addr rt t cl
           in case hostKeyCallback kh fs t cl files of
                (Inl err, files1) \<Rightarrow> (Some err, files1)
              | (Inr callback, files1) \<Rightarrow>
                  (case sp_dial peer addr (connectTimeout t cl) of
                     Some err \<Rightarrow> (Some (SshDialFailed addr err), files1)
                   | None \<Rightarrow>
                       (case check_host_key kh fs callback addr (sp_remote peer addr) (sp_key peer addr) files1 of
                          (Some err, files2) \<Rightarrow> (Some err, files2)
                        | (None, files2) \<Rightarrow>
                            (if sp_login peer user then (None, files2) else (Some (SshAuthFailed addr), files2))))))"

definition classify :: "session_end \<Rightarrow> bool \<times> string" where
  "classify ended =
     (case ended of
        CleanExit \<Rightarrow> (True, ''shutdown command completed'')
      | ExitMissing \<Rightarrow> (True, ''connection closed by host while the command ran (shutdown in progress)'')
      | ExitStatus n \<Rightarrow> (False, ''command exited with status '' @ show_nat n)
      | OtherEnd err \<Rightarrow> (False, err)
      | NeverEnded \<Rightarrow> (True, ''command dispatched; connection closed before it returned''))"

text \<open>The result, the files, and the command delivered: to which address, under which key.\<close>

definition ssh_Execute ::
  "rt \<Rightarrow> known_hosts_lib \<Rightarrow> key_files \<Rightarrow> file_system \<Rightarrow> ssh_peer \<Rightarrow> SSHTransportConfig \<Rightarrow> Client \<Rightarrow> ActionType \<Rightarrow> kh_files \<Rightarrow>
     (ssh_error + bool \<times> string) \<times> kh_files \<times> (string \<times> string \<times> string) option" where
  "ssh_Execute rt kh kf fs peer t cl action files =
     (if action \<noteq> ActionShutdown then (Inl (SshUnsupported action), files, None)
      else case ssh_connect rt kh kf fs peer t cl files of
             (Some err, files') \<Rightarrow> (Inl err, files', None)
           | (None, files') \<Rightarrow>
               (let addr = ssh_addr rt t cl; command = ssh_setting cl ''command'' (ssh_Command t)
                in if \<not> sp_session peer then (Inl NoSession, files', None)
                   else (Inr (classify (sp_run peer command (commandTimeout t cl))), files',
                         Some (addr, sp_key peer addr, command))))"

end
