(* ===== verification/Ssh_Keys.thy ===== *)
theory Ssh_Keys
  imports Ssh
begin

text \<open>
  Host keys over time: a command goes only to a host whose key the policy admits, the key of a first
  contact stays the key, and what two first contacts at once can do.
\<close>

section \<open>What the code relies on of the library\<close>

definition kh_lines :: "kh_files \<Rightarrow> string \<Rightarrow> string list" where
  "kh_lines files path = (case files path of None \<Rightarrow> [] | Some ls \<Rightarrow> ls)"

definition host_unknown :: "known_hosts_lib \<Rightarrow> string list \<Rightarrow> string \<Rightarrow> bool" where
  "host_unknown kh ls h \<longleftrightarrow> (\<forall>r k. kh_verify kh ls h r k = KeyUnknown)"

definition host_pinned :: "known_hosts_lib \<Rightarrow> string list \<Rightarrow> string \<Rightarrow> string \<Rightarrow> bool" where
  "host_pinned kh ls h k \<longleftrightarrow> (\<forall>r k'. kh_verify kh ls h r k' = (if k' = k then KeyKnown else KeyMismatch))"

lemma pinned_known: "host_pinned kh ls h k \<Longrightarrow> kh_verify kh ls h r k' = (if k' = k then KeyKnown else KeyMismatch)"
  by (simp add: host_pinned_def)

text \<open>
  A line for a host that was unknown makes its key the only one; a line that does not name a host says
  nothing of it; a line with the key a host is known by changes nothing for it; the normal form of an
  address is its own normal form. Lines name addresses by their normal forms.
\<close>

definition lawful :: "known_hosts_lib \<Rightarrow> bool" where
  "lawful kh \<longleftrightarrow>
     (\<forall>ls h addrs k. host_unknown kh ls h \<and> kh_normalize kh h \<in> kh_normalize kh ` set addrs \<longrightarrow>
        host_pinned kh (ls @ [kh_line kh addrs k]) h k) \<and>
     (\<forall>ls h addrs k r k'. kh_normalize kh h \<notin> kh_normalize kh ` set addrs \<longrightarrow>
        kh_verify kh (ls @ [kh_line kh addrs k]) h r k' = kh_verify kh ls h r k') \<and>
     (\<forall>ls h addrs k. host_pinned kh ls h k \<longrightarrow> host_pinned kh (ls @ [kh_line kh addrs k]) h k) \<and>
     (\<forall>a. kh_normalize kh (kh_normalize kh a) = kh_normalize kh a)"

lemma lawful_pins:
  "lawful kh \<Longrightarrow> host_unknown kh ls h \<Longrightarrow> kh_normalize kh h \<in> kh_normalize kh ` set addrs \<Longrightarrow>
     host_pinned kh (ls @ [kh_line kh addrs k]) h k"
  unfolding lawful_def by blast

lemma lawful_others:
  "lawful kh \<Longrightarrow> kh_normalize kh h \<notin> kh_normalize kh ` set addrs \<Longrightarrow>
     kh_verify kh (ls @ [kh_line kh addrs k]) h r k' = kh_verify kh ls h r k'"
  by (simp add: lawful_def)

lemma lawful_again: "lawful kh \<Longrightarrow> host_pinned kh ls h k \<Longrightarrow> host_pinned kh (ls @ [kh_line kh addrs k]) h k"
  by (simp add: lawful_def)

lemma lawful_normal: "lawful kh \<Longrightarrow> kh_normalize kh (kh_normalize kh a) = kh_normalize kh a"
  by (simp add: lawful_def)

section \<open>One connection\<close>

lemma ensureFile_lines:
  "ensureFile fs path files = (ok, files') \<Longrightarrow>
     kh_lines files' q = kh_lines files q \<and> (files q = Some ls \<longrightarrow> files' q = Some ls) \<and> (ok \<longrightarrow> files' path \<noteq> None)"
  by (auto simp: ensureFile_def kh_lines_def split: if_splits option.splits)

lemma callback_cases:
  assumes "hostKeyCallback kh fs t cl files = (Inr cb, files')"
  shows "cb = AnyKey \<and> ssh_policy t cl = HostKeyInsecure \<or>
    ssh_policy t cl \<noteq> HostKeyInsecure \<and> files' (knownHostsPath t cl) \<noteq> None \<and>
      (cb = Snapshot (kh_lines files (knownHostsPath t cl)) \<and> ssh_policy t cl = HostKeyStrict \<or>
       cb = Learning (knownHostsPath t cl) (kh_lines files (knownHostsPath t cl)) \<and> ssh_policy t cl \<noteq> HostKeyStrict)"
  using assms
  by (auto simp: hostKeyCallback_def Let_def kh_lines_def [symmetric] dest: ensureFile_lines
      split: if_splits prod.splits bool.splits)

lemma callback_lines:
  "hostKeyCallback kh fs t cl files = (cb, files') \<Longrightarrow>
     kh_lines files' q = kh_lines files q \<and> (files q = Some ls \<longrightarrow> files' q = Some ls)"
  by (auto simp: hostKeyCallback_def Let_def dest: ensureFile_lines split: if_splits prod.splits bool.splits)

text \<open>What a connection may do to a file, and what a connection that delivers a command was shown.\<close>

definition connection_line :: "known_hosts_lib \<Rightarrow> string \<Rightarrow> string \<Rightarrow> string \<Rightarrow> string" where
  "connection_line kh addr remote key =
     kh_line kh (addr # (if remote \<noteq> addr then [kh_normalize kh remote] else [])) key"

lemma check_host_key_files:
  assumes "check_host_key kh fs cb addr remote key files = (err, files')"
  shows "files' = files \<or>
    (\<exists>path snap. cb = Learning path snap \<and> kh_verify kh snap addr remote key = KeyUnknown \<and>
       files' = files(path \<mapsto> kh_lines files path @ [connection_line kh addr remote key]) \<and> err = None)"
  using assms
  by (cases cb) (auto simp: appendKnownHostLocked_def connection_line_def kh_lines_def Let_def
      split: verdict.splits option.splits if_splits)

definition admitted :: "known_hosts_lib \<Rightarrow> SSHTransportConfig \<Rightarrow> Client \<Rightarrow> kh_files \<Rightarrow> string \<Rightarrow> string \<Rightarrow> string \<Rightarrow> bool" where
  "admitted kh t cl files addr remote key \<longleftrightarrow>
     (let v = kh_verify kh (kh_lines files (knownHostsPath t cl)) addr remote key
      in ssh_policy t cl = HostKeyInsecure \<or> v = KeyKnown \<or> ssh_policy t cl \<noteq> HostKeyStrict \<and> v = KeyUnknown)"

lemma connect_delivers:
  assumes "ssh_Execute rt kh kf fs peer t cl action files = (r, files', Some (addr, key, cmd))"
  shows "action = ActionShutdown" "addr = ssh_addr rt t cl" "key = sp_key peer addr"
    "ssh_connect rt kh kf fs peer t cl files = (None, files')"
    "cmd = ssh_setting cl ''command'' (ssh_Command t)"
  using assms by (auto simp: ssh_Execute_def Let_def split: if_splits prod.splits option.splits)

lemma connect_checks:
  assumes "ssh_connect rt kh kf fs peer t cl files = (None, files')"
  obtains cb files1 where "hostKeyCallback kh fs t cl files = (Inr cb, files1)"
    and "check_host_key kh fs cb (ssh_addr rt t cl) (sp_remote peer (ssh_addr rt t cl)) (sp_key peer (ssh_addr rt t cl)) files1 = (None, files')"
  using assms by (auto simp: ssh_connect_def Let_def split: option.splits prod.splits sum.splits if_splits)

lemma delivered_admitted:
  assumes "ssh_Execute rt kh kf fs peer t cl action files = (r, files', Some (addr, key, cmd))"
  shows "admitted kh t cl files addr (sp_remote peer addr) key"
proof -
  note d = connect_delivers [OF assms]
  obtain cb files1 where cb: "hostKeyCallback kh fs t cl files = (Inr cb, files1)"
    and ck: "check_host_key kh fs cb addr (sp_remote peer addr) key files1 = (None, files')"
    using connect_checks [OF d(4)] d(2,3) by metis
  show ?thesis using callback_cases [OF cb] ck
    by (auto simp: admitted_def Let_def split: verdict.splits if_splits)
qed

section \<open>Connections that overlap\<close>

text \<open>
  A stage has a goroutine per client, so contacts overlap. A contact is cut where it reads and where it
  writes the file: \<open>ssh_begin\<close> goes as far as the callback with its snapshot of the lines, \<open>ssh_finish\<close>
  is the handshake, in which the callback is called under the lock, and the command.
\<close>

record contact =
  ct_keys :: key_files
  ct_fs :: file_system
  ct_peer :: ssh_peer
  ct_client :: Client
  ct_action :: ActionType

definition ssh_begin ::
  "known_hosts_lib \<Rightarrow> SSHTransportConfig \<Rightarrow> contact \<Rightarrow> kh_files \<Rightarrow> (ssh_error + host_key_callback) \<times> kh_files" where
  "ssh_begin kh t c files =
     (if ct_action c \<noteq> ActionShutdown then (Inl (SshUnsupported (ct_action c)), files)
      else case loadKey (ct_keys c) t (ct_client c) of
             Some err \<Rightarrow> (Inl err, files)
           | None \<Rightarrow> hostKeyCallback kh (ct_fs c) t (ct_client c) files)"

definition ssh_finish ::
  "rt \<Rightarrow> known_hosts_lib \<Rightarrow> SSHTransportConfig \<Rightarrow> contact \<Rightarrow> host_key_callback \<Rightarrow> kh_files \<Rightarrow>
     (ssh_error + bool \<times> string) \<times> kh_files \<times> (string \<times> string \<times> string) option" where
  "ssh_finish rt kh t c callback files =
     (let cl = ct_client c; peer = ct_peer c; addr = ssh_addr rt t cl; command = ssh_setting cl ''command'' (ssh_Command t)
      in case sp_dial peer addr (connectTimeout t cl) of
           Some err \<Rightarrow> (Inl (SshDialFailed addr err), files, None)
         | None \<Rightarrow>
             (case check_host_key kh (ct_fs c) callback addr (sp_remote peer addr) (sp_key peer addr) files of
                (Some err, files') \<Rightarrow> (Inl err, files', None)
              | (None, files') \<Rightarrow>
                  (if \<not> sp_login peer (ssh_setting cl ''user'' (ssh_User t)) then (Inl (SshAuthFailed addr), files', None)
                   else if \<not> sp_session peer then (Inl NoSession, files', None)
                   else (Inr (classify (sp_run peer command (commandTimeout t cl))), files',
                         Some (addr, sp_key peer addr, command)))))"

lemma ssh_Execute_phases:
  "ssh_Execute rt kh (ct_keys c) (ct_fs c) (ct_peer c) t (ct_client c) (ct_action c) files =
     (case ssh_begin kh t c files of
        (Inl err, files') \<Rightarrow> (Inl err, files', None)
      | (Inr callback, files') \<Rightarrow> ssh_finish rt kh t c callback files')"
  by (simp add: ssh_Execute_def ssh_connect_def ssh_begin_def ssh_finish_def Let_def split: option.split prod.split sum.split)

datatype contact_event = BeginContact contact | FinishContact nat

fun contact_step ::
  "rt \<Rightarrow> known_hosts_lib \<Rightarrow> SSHTransportConfig \<Rightarrow> contact_event \<Rightarrow> kh_files \<times> (contact \<times> host_key_callback) list \<Rightarrow>
     kh_files \<times> (contact \<times> host_key_callback) list" where
  "contact_step rt kh t (BeginContact c) (files, begun) =
     (case ssh_begin kh t c files of
        (Inl _, files') \<Rightarrow> (files', begun)
      | (Inr callback, files') \<Rightarrow> (files', begun @ [(c, callback)]))"
| "contact_step rt kh t (FinishContact i) (files, begun) =
     (if i < length begun then (fst (snd (ssh_finish rt kh t (fst (begun ! i)) (snd (begun ! i)) files)), begun)
      else (files, begun))"

abbreviation contacts_run where
  "contacts_run rt kh t evs \<equiv> fold (contact_step rt kh t) evs"

lemma contacts_run_begun: "\<exists>new. snd (contacts_run rt kh t evs (files, begun)) = begun @ new"
proof (induction evs arbitrary: files begun)
  case (Cons ev evs)
  obtain files1 begun1 where s: "contact_step rt kh t ev (files, begun) = (files1, begun1)" by force
  then have "\<exists>new. begun1 = begun @ new" by (cases ev) (auto split: prod.splits sum.splits if_splits)
  then show ?case using Cons.IH [of files1 begun1] s by auto
qed simp

lemma finish_lines:
  assumes "ssh_finish rt kh t c cb files = (r, files', d)" and "a = ssh_addr rt t (ct_client c)"
  shows "kh_lines files' q = kh_lines files q \<or>
    (\<exists>snap. cb = Learning q snap \<and> kh_verify kh snap a (sp_remote (ct_peer c) a) (sp_key (ct_peer c) a) = KeyUnknown \<and>
       kh_lines files' q = kh_lines files q @ [connection_line kh a (sp_remote (ct_peer c) a) (sp_key (ct_peer c) a)])"
proof -
  obtain err files1 where k: "check_host_key kh (ct_fs c) cb a (sp_remote (ct_peer c) a) (sp_key (ct_peer c) a) files = (err, files1)"
    by force
  have "files' = files \<or> files' = files1"
    using assms k by (auto simp: ssh_finish_def Let_def split: option.splits if_splits)
  then show ?thesis using check_host_key_files [OF k] by (auto simp: kh_lines_def)
qed

text \<open>
  A contact that leaves a host alone: it neither goes to its address under a name or by a remote address
  that means the same, or else is shown the key \<open>k\<close>.
\<close>

definition leaves_alone :: "rt \<Rightarrow> known_hosts_lib \<Rightarrow> SSHTransportConfig \<Rightarrow> string \<Rightarrow> string \<Rightarrow> contact \<Rightarrow> bool" where
  "leaves_alone rt kh t h k c \<longleftrightarrow>
     (let a = ssh_addr rt t (ct_client c)
      in sp_key (ct_peer c) a = k \<or>
         kh_normalize kh a \<noteq> kh_normalize kh h \<and> kh_normalize kh (sp_remote (ct_peer c) a) \<noteq> kh_normalize kh h)"

lemma line_leaves_alone:
  assumes "lawful kh" and "leaves_alone rt kh t h k c" and "a = ssh_addr rt t (ct_client c)"
    and "ls' = ls @ [connection_line kh a (sp_remote (ct_peer c) a) (sp_key (ct_peer c) a)]"
  shows "host_pinned kh ls h k \<Longrightarrow> host_pinned kh ls' h k"
    and "host_unknown kh ls h \<Longrightarrow> host_unknown kh ls' h \<or> host_pinned kh ls' h k"
proof -
  let ?addrs = "a # (if sp_remote (ct_peer c) a \<noteq> a then [kh_normalize kh (sp_remote (ct_peer c) a)] else [])"
  have ls': "ls' = ls @ [kh_line kh ?addrs (sp_key (ct_peer c) a)]" using assms(4) by (simp add: connection_line_def)
  have cases: "sp_key (ct_peer c) a = k \<or> kh_normalize kh h \<notin> kh_normalize kh ` set ?addrs"
    using assms(2,3) by (auto simp: leaves_alone_def Let_def lawful_normal [OF assms(1)])
  have others: "kh_verify kh ls' h r k' = kh_verify kh ls h r k'" if "kh_normalize kh h \<notin> kh_normalize kh ` set ?addrs" for r k'
    unfolding ls' by (rule lawful_others [OF assms(1) that])
  show "host_pinned kh ls' h k" if "host_pinned kh ls h k"
    using cases that others lawful_again [OF assms(1) that, of ?addrs] by (auto simp: ls' host_pinned_def)
  show "host_unknown kh ls' h \<or> host_pinned kh ls' h k" if "host_unknown kh ls h"
    using cases that others lawful_pins [OF assms(1) that, of ?addrs] unfolding ls' host_unknown_def by metis
qed

section \<open>The key of the first contact\<close>

definition settled :: "known_hosts_lib \<Rightarrow> string \<Rightarrow> string \<Rightarrow> string \<Rightarrow> kh_files \<Rightarrow> bool" where
  "settled kh p h k files \<longleftrightarrow> host_unknown kh (kh_lines files p) h \<or> host_pinned kh (kh_lines files p) h k"

lemma finish_settled:
  assumes "lawful kh" and "ssh_finish rt kh t c cb files = (r, files', d)" and "leaves_alone rt kh t h k c"
  shows "settled kh p h k files \<Longrightarrow> settled kh p h k files'"
    and "host_pinned kh (kh_lines files p) h k \<Longrightarrow> host_pinned kh (kh_lines files' p) h k"
  using finish_lines [OF assms(2) refl, of p] line_leaves_alone [OF assms(1,3) refl] unfolding settled_def by metis+

lemma begin_lines: "ssh_begin kh t c files = (cb, files') \<Longrightarrow> kh_lines files' q = kh_lines files q"
  using callback_lines by (fastforce simp: ssh_begin_def split: if_splits option.splits)

lemma contacts_settled:
  assumes "lawful kh" and "settled kh p h k files" and "contacts_run rt kh t evs (files, begun) = (files', begun')"
    and "\<forall>x \<in> set begun'. leaves_alone rt kh t h k (fst x)"
  shows "settled kh p h k files'"
  using assms(2-)
proof (induction evs arbitrary: files begun)
  case (Cons ev evs)
  obtain files1 begun1 where s: "contact_step rt kh t ev (files, begun) = (files1, begun1)" by force
  have run: "contacts_run rt kh t evs (files1, begun1) = (files', begun')" using Cons.prems(2) s by simp
  have "settled kh p h k files1"
  proof (cases ev)
    case (BeginContact c)
    obtain cb files2 where b: "ssh_begin kh t c files = (cb, files2)" by force
    then have "files1 = files2" using s BeginContact by (auto split: sum.splits)
    then show ?thesis using begin_lines [OF b] Cons.prems(1) by (simp add: settled_def)
  next
    case (FinishContact i)
    show ?thesis
    proof (cases "i < length begun")
      case True
      obtain r files2 d where f: "ssh_finish rt kh t (fst (begun ! i)) (snd (begun ! i)) files = (r, files2, d)" by (metis prod_cases3)
      then have f1: "files1 = files2" "begun1 = begun" using s FinishContact True by auto
      have "begun ! i \<in> set begun'" using contacts_run_begun [of rt kh t evs files1 begun1] run f1 True by auto
      then show ?thesis using finish_settled(1) [OF assms(1) f] Cons.prems f1 by blast
    qed (use s FinishContact Cons.prems(1) in simp)
  qed
  then show ?case using Cons.IH run Cons.prems(3) by blast
qed simp

text \<open>A contact begun when the host is pinned goes by a snapshot in which it is.\<close>

definition sees_pin :: "known_hosts_lib \<Rightarrow> SSHTransportConfig \<Rightarrow> string \<Rightarrow> string \<Rightarrow> string \<Rightarrow> contact \<times> host_key_callback \<Rightarrow> bool" where
  "sees_pin kh t p h k x \<longleftrightarrow> (let cl = ct_client (fst x) in
     snd x = AnyKey \<and> ssh_policy t cl = HostKeyInsecure \<or>
     (\<exists>snap. (snd x = Snapshot snap \<or> snd x = Learning (knownHostsPath t cl) snap) \<and>
        (knownHostsPath t cl = p \<longrightarrow> host_pinned kh snap h k)))"

lemma begin_sees_pin:
  assumes "ssh_begin kh t c files = (Inr cb, files')" and "host_pinned kh (kh_lines files p) h k"
  shows "sees_pin kh t p h k (c, cb)"
proof -
  have "hostKeyCallback kh (ct_fs c) t (ct_client c) files = (Inr cb, files')"
    using assms(1) by (auto simp: ssh_begin_def split: if_splits option.splits)
  from callback_cases [OF this] show ?thesis using assms(2) by (auto simp: sees_pin_def Let_def)
qed

lemma finish_keeps_pin:
  assumes "lawful kh" and "ssh_finish rt kh t c cb files = (r, files', d)" and "host_pinned kh (kh_lines files p) h k"
    and "leaves_alone rt kh t h k c \<or> ssh_addr rt t (ct_client c) = h \<and> sees_pin kh t p h k (c, cb)"
  shows "host_pinned kh (kh_lines files' p) h k"
proof (cases "leaves_alone rt kh t h k c")
  case True
  show ?thesis by (rule finish_settled(2) [OF assms(1,2) True assms(3)])
next
  case False
  then have "kh_lines files' p = kh_lines files p"
    using finish_lines [OF assms(2) refl, of p] assms(4) by (auto simp: sees_pin_def Let_def pinned_known split: if_splits)
  then show ?thesis using assms(3) by simp
qed

lemma contacts_keep_pin:
  assumes "lawful kh" and "host_pinned kh (kh_lines files p) h k" and "contacts_run rt kh t evs (files, old @ new) = (files', begun)"
    and "\<forall>x \<in> set old. leaves_alone rt kh t h k (fst x)" and "\<forall>x \<in> set new. sees_pin kh t p h k x"
    and "\<forall>x \<in> set begun. ssh_addr rt t (ct_client (fst x)) = h \<or> leaves_alone rt kh t h k (fst x)"
  shows "host_pinned kh (kh_lines files' p) h k \<and> (\<exists>new'. begun = old @ new' \<and> (\<forall>x \<in> set new'. sees_pin kh t p h k x))"
  using assms(2,3,5)
proof (induction evs arbitrary: files new)
  case (Cons ev evs)
  obtain files1 begun1 where s: "contact_step rt kh t ev (files, old @ new) = (files1, begun1)" by force
  have run: "contacts_run rt kh t evs (files1, begun1) = (files', begun)" using Cons.prems(2) s by simp
  have "host_pinned kh (kh_lines files1 p) h k \<and> (\<exists>new1. begun1 = old @ new1 \<and> (\<forall>x \<in> set new1. sees_pin kh t p h k x))"
  proof (cases ev)
    case (BeginContact c)
    obtain cb files2 where b: "ssh_begin kh t c files = (cb, files2)" by force
    then have "files1 = files2" and "begun1 = old @ new \<or> (\<exists>cb'. cb = Inr cb' \<and> begun1 = old @ new @ [(c, cb')])"
      using s BeginContact by (auto split: sum.splits)
    then show ?thesis using begin_lines [OF b] begin_sees_pin b Cons.prems(1,3) by fastforce
  next
    case (FinishContact i)
    show ?thesis
    proof (cases "i < length (old @ new)")
      case True
      let ?x = "(old @ new) ! i"
      obtain r files2 d where f: "ssh_finish rt kh t (fst ?x) (snd ?x) files = (r, files2, d)" by (metis prod_cases3)
      then have f1: "files1 = files2" "begun1 = old @ new" using s FinishContact True by auto
      have x: "?x \<in> set (old @ new)" using True by (rule nth_mem)
      then have "?x \<in> set begun" using contacts_run_begun [of rt kh t evs files1 begun1] run f1 by auto
      then have "leaves_alone rt kh t h k (fst ?x) \<or> ssh_addr rt t (ct_client (fst ?x)) = h \<and> sees_pin kh t p h k (fst ?x, snd ?x)"
        using x assms(4,6) Cons.prems(3) by auto
      from finish_keeps_pin [OF assms(1) f Cons.prems(1) this] show ?thesis using f1 Cons.prems(3) by blast
    qed (use s FinishContact Cons.prems in auto)
  qed
  then show ?case using Cons.IH run by blast
qed auto

lemma finish_delivers:
  assumes "ssh_finish rt kh t c cb files = (r, files', Some (addr, key, cmd))"
  shows "addr = ssh_addr rt t (ct_client c)" "key = sp_key (ct_peer c) addr"
    "check_host_key kh (ct_fs c) cb addr (sp_remote (ct_peer c) addr) key files = (None, files')"
  using assms by (auto simp: ssh_finish_def Let_def split: if_splits prod.splits option.splits)

lemma first_contact_pins:
  assumes "lawful kh" and "host_unknown kh (kh_lines files (knownHostsPath t (ct_client c))) addr"
    and "ssh_policy t (ct_client c) \<noteq> HostKeyInsecure" and "ssh_begin kh t c files = (Inr cb, files0)"
    and "settled kh (knownHostsPath t (ct_client c)) addr key files1"
    and "ssh_finish rt kh t c cb files1 = (r, files2, Some (addr, key, cmd))"
  shows "host_pinned kh (kh_lines files2 (knownHostsPath t (ct_client c))) addr key"
proof -
  let ?p = "knownHostsPath t (ct_client c)"
  note d = finish_delivers [OF assms(6)]
  have "hostKeyCallback kh (ct_fs c) t (ct_client c) files = (Inr cb, files0)"
    using assms(4) by (auto simp: ssh_begin_def split: if_splits option.splits)
  from callback_cases [OF this] have cb: "cb = Learning ?p (kh_lines files ?p)"
    using d(3) assms(2,3) by (auto simp: host_unknown_def split: if_splits)
  have "leaves_alone rt kh t addr key c" using d(1,2) by (simp add: leaves_alone_def)
  from finish_settled(1) [OF assms(1,6) this assms(5)] have s: "settled kh ?p addr key files2" .
  have "\<exists>k'. kh_verify kh (kh_lines files2 ?p) addr (sp_remote (ct_peer c) addr) k' \<noteq> KeyUnknown"
  proof (cases "\<exists>fresh. files1 ?p = Some fresh \<and> kh_readable kh fresh \<and> kh_verify kh fresh addr (sp_remote (ct_peer c) addr) key = KeyKnown")
    case True
    then have "files2 = files1" using d(3) assms(2) cb by (auto simp: host_unknown_def)
    then show ?thesis using True by (auto simp: kh_lines_def intro!: exI [of _ key])
  next
    case False
    then have "kh_lines files2 ?p = kh_lines files1 ?p @ [connection_line kh addr (sp_remote (ct_peer c) addr) key]"
      using d(3) assms(2) cb by (auto simp: host_unknown_def appendKnownHostLocked_def connection_line_def kh_lines_def Let_def
          split: option.splits if_splits)
    moreover have "host_unknown kh (kh_lines files1 ?p) addr \<Longrightarrow> host_pinned kh (kh_lines files1 ?p @ [connection_line kh addr (sp_remote (ct_peer c) addr) key]) addr key"
      unfolding connection_line_def by (rule lawful_pins [OF assms(1)]) simp_all
    moreover have "host_pinned kh (kh_lines files1 ?p) addr key \<Longrightarrow> host_pinned kh (kh_lines files1 ?p @ [connection_line kh addr (sp_remote (ct_peer c) addr) key]) addr key"
      unfolding connection_line_def by (rule lawful_again [OF assms(1)])
    ultimately show ?thesis using assms(5) by (auto simp: settled_def host_pinned_def intro!: exI [of _ key])
  qed
  then show ?thesis using s by (auto simp: settled_def host_unknown_def)
qed


section \<open>Two first contacts at once\<close>

text \<open>
  Two clients of a stage may have the same host, and each goroutine builds its callback before the
  other's has written. Both callbacks see an unknown host; under the lock the second asks only
  whether its own key has been learned meanwhile, not whether the host has, and appends.
\<close>

lemma two_first_contacts_both_accepted:
  assumes "lawful kh" and "host_unknown kh ls addr" and "files p = Some ls" and "fs_can_append fs p" and "k1 \<noteq> k2"
    and "check_host_key kh fs (Learning p ls) addr addr k1 files = (r1, files1)"
    and "check_host_key kh fs (Learning p ls) addr addr k2 files1 = (r2, files2)"
  shows "r1 = None \<and> r2 = None \<and> files2 p = Some (ls @ [kh_line kh [addr] k1, kh_line kh [addr] k2])"
proof -
  have u: "kh_verify kh ls addr rm k = KeyUnknown" for rm k using assms(2) by (simp add: host_unknown_def)
  have f1: "r1 = None" "files1 = files(p \<mapsto> ls @ [kh_line kh [addr] k1])"
    using assms(3,4,6) u by (auto simp: appendKnownHostLocked_def)
  have "kh_verify kh (ls @ [kh_line kh [addr] k1]) addr addr k2 = KeyMismatch"
    using lawful_pins [OF assms(1,2), of "[addr]" k1] assms(5) by (simp add: host_pinned_def)
  then show ?thesis using assms(4,7) u f1 by (auto simp: appendKnownHostLocked_def)
qed

end
