(* ===== verification/Appliances.thy ===== *)
theory Appliances
  imports Probing
begin

text \<open>
  The appliances that are switched off through their own interface: Proxmox and OPNsense over HTTPS,
  TrueNAS over a websocket (\<open>modules/proxmox\<close>, \<open>modules/opnsense\<close>, \<open>modules/truenas\<close>), the TLS options they
  share (\<open>netutil/tls.go\<close>), and how OPNsense and TrueNAS are asked for a hardware address. The result
  of an operation comes with what it sent, so that what travels can be reasoned about.
\<close>

section \<open>TLS options (tls.go)\<close>

record TLSOptions =
  tls_InsecureSkipVerify :: bool
  tls_CACertFile :: string
  tls_ServerName :: string

definition configBool :: "(string \<rightharpoonup> goval) \<Rightarrow> string \<Rightarrow> bool" where
  "configBool cfg key =
     (case cfg key of
        Some (GBool b) \<Rightarrow> b
      | Some (GString s) \<Rightarrow> s \<in> {''true'', ''yes'', ''1''}
      | _ \<Rightarrow> False)"

definition TLSOptionsFrom :: "(string \<rightharpoonup> goval) \<Rightarrow> TLSOptions" where
  "TLSOptionsFrom cfg =
     \<lparr>tls_InsecureSkipVerify = configBool cfg ''tls_insecure_skip_verify'',
      tls_CACertFile = configString cfg ''tls_ca_cert'', tls_ServerName = configString cfg ''tls_server_name''\<rparr>"

text \<open>What is in a certificate file, and how a connection verifies its peer.\<close>

datatype pem = PemUnreadable | PemEmpty | PemUsable

datatype tls_verify = SystemRoots string | PinnedCA string string | NoVerification

datatype tls_error = CAUnreadable string | CAEmpty string | CAWithoutCheck

definition TLSConfig :: "(string \<Rightarrow> pem) \<Rightarrow> TLSOptions \<Rightarrow> tls_error + tls_verify" where
  "TLSConfig pems opts =
     (let ca = tls_CACertFile opts
      in if ca \<noteq> [] \<and> pems ca = PemUnreadable then Inl (CAUnreadable ca)
         else if ca \<noteq> [] \<and> pems ca = PemEmpty then Inl (CAEmpty ca)
         else if tls_InsecureSkipVerify opts then (if ca \<noteq> [] then Inl CAWithoutCheck else Inr NoVerification)
         else Inr (if ca \<noteq> [] then PinnedCA ca (tls_ServerName opts) else SystemRoots (tls_ServerName opts)))"

text \<open>\<open>httpClientFor\<close>: one HTTP client for each TLS configuration, kept from its first use.\<close>

type_synonym tls_cache = "TLSOptions \<rightharpoonup> tls_verify"

definition httpClientFor :: "(string \<Rightarrow> pem) \<Rightarrow> Client \<Rightarrow> tls_cache \<Rightarrow> (tls_error + tls_verify) \<times> tls_cache" where
  "httpClientFor pems cl cache =
     (let opts = TLSOptionsFrom (ec_TransportConfig cl)
      in case cache opts of
           Some v \<Rightarrow> (Inr v, cache)
         | None \<Rightarrow>
             (case TLSConfig pems opts of
                Inl err \<Rightarrow> (Inl err, cache)
              | Inr v \<Rightarrow> (Inr v, cache(opts \<mapsto> v))))"

section \<open>Requests\<close>

datatype authorization = NoAuthorization | Authorization string | BasicAuth string string

record http_request =
  hr_method :: string
  hr_url :: string
  hr_body :: "string option"
  hr_auth :: authorization
  hr_verify :: tls_verify

text \<open>The network: whether a request can be built, and the answer to it: an error, or status and body.\<close>

record http_world =
  hw_valid :: "string \<Rightarrow> string \<Rightarrow> bool"
  hw_do :: "http_request \<Rightarrow> string + nat \<times> string"
  hw_pems :: "string \<Rightarrow> pem"

definition port_or :: "int \<Rightarrow> Client \<Rightarrow> int" where
  "port_or dflt cl = (case ec_TransportConfig cl ''port'' of Some (GInt p) \<Rightarrow> p | _ \<Rightarrow> dflt)"

definition status_ok :: "nat \<Rightarrow> bool" where
  "status_ok n \<longleftrightarrow> 200 \<le> n \<and> n < 300"

text \<open>
  The request both HTTPS transports end in: the answer for the engine, the cache, and the request sent.
\<close>

definition https_command ::
  "http_world \<Rightarrow> Client \<Rightarrow> string \<Rightarrow> string option \<Rightarrow> authorization \<Rightarrow> string \<Rightarrow> tls_cache \<Rightarrow>
     exec_answer \<times> tls_cache \<times> http_request option" where
  "https_command w cl url body auth sent_message cache =
     (if \<not> hw_valid w ''POST'' url then (ExecError ''creating request'', cache, None)
      else case httpClientFor (hw_pems w) cl cache of
             (Inl _, cache') \<Rightarrow> (ExecError ''TLS configuration'', cache', None)
           | (Inr v, cache') \<Rightarrow>
               (let req = \<lparr>hr_method = ''POST'', hr_url = url, hr_body = body, hr_auth = auth, hr_verify = v\<rparr>
                in (case hw_do w req of
                      Inl err \<Rightarrow> ExecAnswer False err
                    | Inr (status, text) \<Rightarrow>
                        (if status_ok status then ExecAnswer True sent_message
                         else ExecAnswer False (''HTTP '' @ show_nat status @ '': '' @ take 4096 text)),
                    cache', Some req)))"

section \<open>Proxmox\<close>

definition proxmox_node :: "Client \<Rightarrow> string" where
  "proxmox_node cl = (case ec_TransportConfig cl ''node'' of Some (GString n) \<Rightarrow> n | _ \<Rightarrow> ec_Name cl)"

definition proxmox_url :: "Client \<Rightarrow> string" where
  "proxmox_url cl =
     URL ''https'' (ec_Address cl) (port_or 8006 cl) (''/api2/json/nodes/'' @ PathEscape (proxmox_node cl) @ ''/status'')"

definition proxmox_Execute ::
  "http_world \<Rightarrow> Client \<Rightarrow> ActionType \<Rightarrow> tls_cache \<Rightarrow> exec_answer \<times> tls_cache \<times> http_request option" where
  "proxmox_Execute w cl action cache =
     (if action \<noteq> ActionShutdown
      then (ExecError (''proxmox transport does not support action '' @ ActionType_String action), cache, None)
      else https_command w cl (proxmox_url cl) (Some ''command=shutdown'')
             (if ec_Credentials cl \<noteq> [] then Authorization (''PVEAPIToken='' @ ec_Credentials cl) else NoAuthorization)
             ''shutdown command sent'' cache)"

section \<open>OPNsense\<close>

definition parseCredentials :: "string \<Rightarrow> string \<times> string" where
  "parseCredentials creds = (case Cut creds (CHR '':'') of Some kv \<Rightarrow> kv | None \<Rightarrow> (creds, []))"

definition opnsense_auth :: "Client \<Rightarrow> authorization" where
  "opnsense_auth cl =
     (if ec_Credentials cl \<noteq> [] then (case parseCredentials (ec_Credentials cl) of (k, s) \<Rightarrow> BasicAuth k s)
      else NoAuthorization)"

definition opnsense_Execute ::
  "http_world \<Rightarrow> Client \<Rightarrow> ActionType \<Rightarrow> tls_cache \<Rightarrow> exec_answer \<times> tls_cache \<times> http_request option" where
  "opnsense_Execute w cl action cache =
     (if action \<noteq> ActionShutdown
      then (ExecError (''opnsense transport does not support action '' @ ActionType_String action), cache, None)
      else https_command w cl (URL ''https'' (ec_Address cl) (port_or 443 cl) ''/api/core/system/halt'') None
             (opnsense_auth cl) ''halt command sent'' cache)"

section \<open>TrueNAS\<close>

text \<open>
  A websocket connection: how it was made, the messages still to come and how reading them ends, the
  outcome of each write, and the calls written so far with their parameters.
\<close>

datatype rpc_value = RBool bool | RObject string | ROther string

record rpc_message =
  rm_id :: "string option"
  rm_error :: "string option"
  rm_result :: rpc_value

datatype rpc_params = LoginKey string | NoDelay | NoParams

record ws_conn =
  wc_url :: string
  wc_verify :: "tls_verify option"
  wc_incoming :: "rpc_message list"
  wc_ends :: string
  wc_write_ok :: "nat \<Rightarrow> bool"
  wc_calls :: "(string \<times> rpc_params) list"

text \<open>Dialling: an error, or the messages the other end will send, how they end, and the writes that succeed.\<close>

type_synonym ws_network = "string \<Rightarrow> tls_verify option \<Rightarrow> string + rpc_message list \<times> string \<times> (nat \<Rightarrow> bool)"

definition useTLS :: "Client \<Rightarrow> bool" where
  "useTLS cl = (case ec_TransportConfig cl ''tls'' of Some (GBool b) \<Rightarrow> b | _ \<Rightarrow> True)"

definition truenas_connect :: "(string \<Rightarrow> pem) \<Rightarrow> ws_network \<Rightarrow> Client \<Rightarrow> string + ws_conn" where
  "truenas_connect pems net cl =
     (let dial = (\<lambda>scheme v. let url = URL scheme (ec_Address cl) (port_or 443 cl) ''/api/current''
             in case net url v of
                  Inl err \<Rightarrow> Inl (''dialing '' @ url @ '': '' @ err)
                | Inr (incoming, ends, writes) \<Rightarrow>
                    Inr \<lparr>wc_url = url, wc_verify = v, wc_incoming = incoming, wc_ends = ends,
                         wc_write_ok = writes, wc_calls = []\<rparr>)
      in if useTLS cl then
           (case TLSConfig pems (TLSOptionsFrom (ec_TransportConfig cl)) of
              Inl _ \<Rightarrow> Inl ''truenas TLS configuration''
            | Inr v \<Rightarrow> dial ''wss'' (Some v))
         else dial ''ws'' None)"

text \<open>Messages without an id, and answers to other calls, are passed over.\<close>

fun read_reply :: "string \<Rightarrow> string \<Rightarrow> rpc_message list \<Rightarrow> (string + rpc_value) \<times> rpc_message list" where
  "read_reply ident ends [] = (Inl (''reading RPC response: '' @ ends), [])"
| "read_reply ident ends (m # ms) =
     (if rm_id m = Some ident then
        ((case rm_error m of Some err \<Rightarrow> Inl (''RPC error: '' @ err) | None \<Rightarrow> Inr (rm_result m)), ms)
      else read_reply ident ends ms)"

definition callRPC :: "int \<Rightarrow> string \<Rightarrow> rpc_params \<Rightarrow> ws_conn \<Rightarrow> (string + rpc_value) \<times> ws_conn" where
  "callRPC ident proc params c =
     (if \<not> wc_write_ok c (length (wc_calls c)) then (Inl ''writing RPC'', c)
      else let c1 = c\<lparr>wc_calls := wc_calls c @ [(proc, params)]\<rparr>
           in case read_reply (show_int ident) (wc_ends c1) (wc_incoming c1) of
                (r, rest) \<Rightarrow> (r, c1\<lparr>wc_incoming := rest\<rparr>))"

definition truenas_authenticate :: "int \<Rightarrow> Client \<Rightarrow> ws_conn \<Rightarrow> string option \<times> ws_conn" where
  "truenas_authenticate ident cl c =
     (case callRPC ident ''auth.login_with_api_key'' (LoginKey (ec_Credentials cl)) c of
        (Inl err, c1) \<Rightarrow> (Some err, c1)
      | (Inr v, c1) \<Rightarrow>
          (case v of
             RBool True \<Rightarrow> (None, c1)
           | RObject _ \<Rightarrow> (None, c1)
           | _ \<Rightarrow> (Some ''unexpected auth response'', c1)))"

text \<open>The counter of the calls is shared, so the two calls have the identifiers they draw from it.\<close>

definition truenas_Execute ::
  "(string \<Rightarrow> pem) \<Rightarrow> ws_network \<Rightarrow> (string \<Rightarrow> string \<Rightarrow> string) \<Rightarrow> (rpc_value \<Rightarrow> string) \<Rightarrow> int \<Rightarrow> int \<Rightarrow> Client \<Rightarrow> ActionType \<Rightarrow>
     exec_answer \<times> ws_conn option" where
  "truenas_Execute pems net redact print id1 id2 cl action =
     (if action \<noteq> ActionShutdown
      then (ExecError (''truenas transport does not support action '' @ ActionType_String action), None)
      else case truenas_connect pems net cl of
             Inl err \<Rightarrow> (ExecError (''connecting to TrueNAS: '' @ err), None)
           | Inr c \<Rightarrow>
               (case truenas_authenticate id1 cl c of
                  (Some err, c1) \<Rightarrow> (ExecError (''authentication failed: '' @ redact err (ec_Credentials cl)), Some c1)
                | (None, c1) \<Rightarrow>
                    (case callRPC id2 ''system.shutdown'' NoDelay c1 of
                       (Inl err, c2) \<Rightarrow> (ExecAnswer False err, Some c2)
                     | (Inr v, c2) \<Rightarrow> (ExecAnswer True (''shutdown initiated: '' @ print v), Some c2))))"

end
