(* ===== verification/Discovery.thy ===== *)
theory Discovery
  imports Appliances "HOL-Library.Multiset"
begin

text \<open>
  How an appliance is asked for the hardware address it is woken by (\<open>modules/opnsense/discover.go\<close>,
  \<open>modules/truenas/discover.go\<close>): which of its interfaces is chosen. OPNsense answers with a map, which
  Go iterates in any order; the choice does not depend on it.
\<close>

section \<open>Choosing an interface\<close>

definition validMAC :: "string \<Rightarrow> bool" where
  "validMAC s = (case net_ParseMAC s of None \<Rightarrow> False | Some hw \<Rightarrow> list_ex (\<lambda>b. b \<noteq> 0) hw)"

definition normaliseMAC :: "string \<Rightarrow> string" where
  "normaliseMAC s = (case net_ParseMAC s of None \<Rightarrow> s | Some hw \<Rightarrow> HardwareAddr_String hw)"

text \<open>The last step: a single candidate is taken, several or none are not.\<close>

definition only_candidate :: "('i \<Rightarrow> string) \<Rightarrow> 'i list \<Rightarrow> string" where
  "only_candidate mac candidates = (case candidates of [c] \<Rightarrow> normaliseMAC (mac c) | _ \<Rightarrow> [])"

text \<open>
  The loop: an interface that has no usable address is passed over, one that holds the client's IP
  address ends it, and the others that could do are counted.
\<close>

fun pick_loop :: "('i \<Rightarrow> string) \<Rightarrow> ('i \<Rightarrow> bool) \<Rightarrow> ('i \<Rightarrow> bool) \<Rightarrow> 'i list \<Rightarrow> 'i list \<Rightarrow> string" where
  "pick_loop mac holds could candidates [] = only_candidate mac candidates"
| "pick_loop mac holds could candidates (i # xs) =
     (if \<not> validMAC (mac i) then pick_loop mac holds could candidates xs
      else if holds i then normaliseMAC (mac i)
      else pick_loop mac holds could (if could i then candidates @ [i] else candidates) xs)"

definition ip_in :: "string \<Rightarrow> string list \<Rightarrow> bool" where
  "ip_in address addrs \<longleftrightarrow>
     (case net_ParseIP address of
        None \<Rightarrow> False
      | Some target \<Rightarrow> list_ex (\<lambda>a. case net_ParseIP a of None \<Rightarrow> False | Some ip \<Rightarrow> IP_Equal ip target) addrs)"

section \<open>OPNsense\<close>

record interfaceConfig =
  ic_Device :: string
  ic_MacAddr :: string
  ic_IsPhysical :: bool
  ic_Status :: string
  ic_IPv4 :: "string list"

definition opnsense_pick :: "interfaceConfig list \<Rightarrow> string \<Rightarrow> string" where
  "opnsense_pick configs address =
     pick_loop ic_MacAddr (\<lambda>i. ip_in address (ic_IPv4 i)) (\<lambda>i. ic_IsPhysical i \<and> ic_Status i = ''up'') []
       (filter (\<lambda>i. ic_MacAddr i \<noteq> []) configs)"

text \<open>
  \<open>interfaceConfigs\<close> and \<open>DiscoverMAC\<close>, with the request sent; \<open>decode\<close> is the JSON decoder, with the
  order of the map it yields.
\<close>

definition interfaceConfigs ::
  "http_world \<Rightarrow> (string \<Rightarrow> interfaceConfig list option) \<Rightarrow> Client \<Rightarrow> tls_cache \<Rightarrow>
     (string + interfaceConfig list) \<times> tls_cache \<times> http_request option" where
  "interfaceConfigs w decode cl cache =
     (let url = URL ''https'' (ec_Address cl) (port_or 443 cl) ''/api/diagnostics/interface/getInterfaceConfig''
      in if \<not> hw_valid w ''GET'' url then (Inl ''creating request'', cache, None)
         else case httpClientFor (hw_pems w) cl cache of
                (Inl _, cache') \<Rightarrow> (Inl ''opnsense TLS configuration'', cache', None)
              | (Inr v, cache') \<Rightarrow>
                  (let req = \<lparr>hr_method = ''GET'', hr_url = url, hr_body = None, hr_auth = opnsense_auth cl, hr_verify = v\<rparr>
                   in (case hw_do w req of
                         Inl err \<Rightarrow> Inl err
                       | Inr (status, body) \<Rightarrow>
                           (if \<not> status_ok status then Inl (''HTTP '' @ show_nat status @ '' from the interface API'')
                            else case decode (take (2 ^ 20) body) of
                                   None \<Rightarrow> Inl ''decoding interface list''
                                 | Some configs \<Rightarrow> Inr configs),
                       cache', Some req)))"

definition opnsense_DiscoverMAC ::
  "http_world \<Rightarrow> (string \<Rightarrow> interfaceConfig list option) \<Rightarrow> Client \<Rightarrow> tls_cache \<Rightarrow>
     (string + string) \<times> tls_cache \<times> http_request option" where
  "opnsense_DiscoverMAC w decode cl cache =
     (case interfaceConfigs w decode cl cache of
        (Inl err, rest) \<Rightarrow> (Inl err, rest)
      | (Inr configs, rest) \<Rightarrow> (Inr (opnsense_pick configs (ec_Address cl)), rest))"

section \<open>TrueNAS\<close>

record nasInterface =
  ni_IfName :: string
  ni_Type :: string
  ni_LinkAddress :: string
  ni_LinkState :: string
  ni_StateAliases :: "string list"
  ni_Aliases :: "string list"

definition interfaceHasAddress :: "string \<Rightarrow> nasInterface \<Rightarrow> bool" where
  "interfaceHasAddress address i \<longleftrightarrow> ip_in address (ni_StateAliases i) \<or> ip_in address (ni_Aliases i)"

definition truenas_pick :: "nasInterface list \<Rightarrow> string \<Rightarrow> string" where
  "truenas_pick interfaces address =
     pick_loop ni_LinkAddress (interfaceHasAddress address)
       (\<lambda>i. ni_Type i = ''PHYSICAL'' \<and> ni_LinkState i \<noteq> ''LINK_STATE_DOWN'') [] interfaces"

text \<open>The answer, and the connection with the calls made on it.\<close>

definition truenas_DiscoverMAC ::
  "(string \<Rightarrow> pem) \<Rightarrow> ws_network \<Rightarrow> (string \<Rightarrow> string \<Rightarrow> string) \<Rightarrow> (rpc_value \<Rightarrow> nasInterface list option) \<Rightarrow> int \<Rightarrow> int \<Rightarrow> Client \<Rightarrow>
     (string + string) \<times> ws_conn option" where
  "truenas_DiscoverMAC pems net redact decode id1 id2 cl =
     (case truenas_connect pems net cl of
        Inl err \<Rightarrow> (Inl (''connecting to TrueNAS: '' @ err), None)
      | Inr c \<Rightarrow>
          (case truenas_authenticate id1 cl c of
             (Some err, c1) \<Rightarrow> (Inl (''authentication failed: '' @ redact err (ec_Credentials cl)), Some c1)
           | (None, c1) \<Rightarrow>
               (case callRPC id2 ''interface.query'' NoParams c1 of
                  (Inl err, c2) \<Rightarrow> (Inl (''querying interfaces: '' @ err), Some c2)
                | (Inr v, c2) \<Rightarrow>
                    (case decode v of
                       None \<Rightarrow> Inl ''decoding interface list''
                     | Some interfaces \<Rightarrow> Inr (truenas_pick interfaces (ec_Address cl)), Some c2))))"

section \<open>The choice\<close>

lemma pick_loop_find:
  "pick_loop mac holds could candidates xs =
     (case find (\<lambda>i. validMAC (mac i) \<and> holds i) xs of
        Some i \<Rightarrow> normaliseMAC (mac i)
      | None \<Rightarrow> only_candidate mac (candidates @ filter (\<lambda>i. validMAC (mac i) \<and> could i) xs))"
proof (induction xs arbitrary: candidates)
  case (Cons x xs)
  show ?case by (cases "validMAC (mac x)"; cases "holds x"; cases "could x") (simp_all add: Cons.IH cong: option.case_cong)
qed simp

text \<open>
  The chosen address is that of an interface that holds the client's address, or, when none with a
  usable address does, of the only one that could be meant.
\<close>

definition rightly_picked :: "('i \<Rightarrow> string) \<Rightarrow> ('i \<Rightarrow> bool) \<Rightarrow> ('i \<Rightarrow> bool) \<Rightarrow> 'i list \<Rightarrow> string \<Rightarrow> bool" where
  "rightly_picked mac holds could xs m \<longleftrightarrow>
     (\<exists>i \<in> set xs. validMAC (mac i) \<and> m = normaliseMAC (mac i) \<and>
        (holds i \<or> filter (\<lambda>j. validMAC (mac j) \<and> could j) xs = [i] \<and> list_all (\<lambda>j. \<not> (validMAC (mac j) \<and> holds j)) xs))"

lemma pick_loop_right:
  assumes "pick_loop mac holds could [] xs = m" and "m \<noteq> []"
  shows "rightly_picked mac holds could xs m"
proof (cases "find (\<lambda>i. validMAC (mac i) \<and> holds i) xs")
  case (Some i)
  then have i: "i \<in> set xs" "validMAC (mac i)" "holds i" by (auto simp: find_Some_iff)
  have "m = normaliseMAC (mac i)" using assms(1) Some by (simp add: pick_loop_find)
  then show ?thesis using i by (auto simp: rightly_picked_def)
next
  case None
  then obtain c where c: "filter (\<lambda>i. validMAC (mac i) \<and> could i) xs = [c]" "m = normaliseMAC (mac c)"
    using assms None by (auto simp: pick_loop_find only_candidate_def split: list.splits)
  then have "c \<in> set xs" "validMAC (mac c)" by (metis (mono_tags, lifting) filter_eq_ConsD in_set_conv_decomp)+
  then show ?thesis using c None by (auto simp: rightly_picked_def find_None_iff list_all_iff)
qed

lemma pick_loop_order:
  assumes "mset xs = mset xs'"
    and "\<And>i j. i \<in> set xs \<Longrightarrow> j \<in> set xs \<Longrightarrow> holds i \<Longrightarrow> holds j \<Longrightarrow> validMAC (mac i) \<Longrightarrow> validMAC (mac j) \<Longrightarrow>
      normaliseMAC (mac i) = normaliseMAC (mac j)"
  shows "pick_loop mac holds could [] xs = pick_loop mac holds could [] xs'"
proof -
  let ?P = "\<lambda>i. validMAC (mac i) \<and> holds i" and ?Q = "\<lambda>i. validMAC (mac i) \<and> could i"
  have s: "set xs = set xs'" using assms(1) by (metis set_mset_mset)
  have one: "filter ?Q xs = [c] \<longleftrightarrow> filter ?Q xs' = [c]" for c
  proof -
    have "mset (filter ?Q xs) = mset (filter ?Q xs')" using assms(1) by simp
    then show ?thesis by (metis mset_single_iff)
  qed
  show ?thesis
  proof (cases "find ?P xs")
    case None
    then have "find ?P xs' = None" using s by (auto simp: find_None_iff)
    moreover have "only_candidate mac (filter ?Q xs) = only_candidate mac (filter ?Q xs')"
      using one by (auto simp: only_candidate_def split: list.split) blast+
    ultimately show ?thesis using None by (simp add: pick_loop_find)
  next
    case (Some i)
    then have i: "i \<in> set xs" "?P i" by (auto simp: find_Some_iff)
    then obtain j where j: "find ?P xs' = Some j" using s by (cases "find ?P xs'") (auto simp: find_None_iff)
    then have "j \<in> set xs" "?P j" using s by (auto simp: find_Some_iff)
    then show ?thesis using Some j i assms(2) [of i j] by (simp add: pick_loop_find)
  qed
qed

text \<open>
  C36. An appliance is woken through the right interface. The address OPNsense is discovered to have is a
  valid one of an interface that holds the client's IP address, or else of the only physical interface
  that is up, and it is the same in whatever order the map is iterated, if no two different
  interfaces hold the IP address.
\<close>

theorem discovered_interface_right:
  assumes "mset configs = mset configs'" and "list_all (\<lambda>i. list_all (\<lambda>j. ip_in address (ic_IPv4 i) \<and> ip_in address (ic_IPv4 j) \<longrightarrow> i = j) configs) configs"
    and "opnsense_pick configs address \<noteq> []"
  shows "opnsense_pick configs' address = opnsense_pick configs address \<and>
    rightly_picked ic_MacAddr (\<lambda>i. ip_in address (ic_IPv4 i)) (\<lambda>i. ic_IsPhysical i \<and> ic_Status i = ''up'')
      (filter (\<lambda>i. ic_MacAddr i \<noteq> []) configs) (opnsense_pick configs address)"
proof
  show "opnsense_pick configs' address = opnsense_pick configs address"
    unfolding opnsense_pick_def
    by (rule pick_loop_order [symmetric]) (use assms(1,2) in \<open>auto simp: list_all_iff\<close>)
  show "rightly_picked ic_MacAddr (\<lambda>i. ip_in address (ic_IPv4 i)) (\<lambda>i. ic_IsPhysical i \<and> ic_Status i = ''up'')
      (filter (\<lambda>i. ic_MacAddr i \<noteq> []) configs) (opnsense_pick configs address)"
    unfolding opnsense_pick_def by (rule pick_loop_right [OF refl]) (use assms(3) in \<open>simp add: opnsense_pick_def\<close>)
qed

lemma truenas_interface_right:
  "truenas_pick interfaces address \<noteq> [] \<Longrightarrow>
     rightly_picked ni_LinkAddress (interfaceHasAddress address)
       (\<lambda>i. ni_Type i = ''PHYSICAL'' \<and> ni_LinkState i \<noteq> ''LINK_STATE_DOWN'') interfaces (truenas_pick interfaces address)"
  unfolding truenas_pick_def by (rule pick_loop_right) auto

end
