(* ===== verification/Appliance_Safety.thy ===== *)
theory Appliance_Safety
  imports Discovery
begin

text \<open>
  What travels to the appliances: credentials go only over connections that are verified unless the
  client's configuration gives that up, and TrueNAS is told to shut down only after it took the key.
\<close>

section \<open>HTTPS\<close>

text \<open>What the options of a client ask of a connection.\<close>

definition verified_as_asked :: "TLSOptions \<Rightarrow> tls_verify \<Rightarrow> bool" where
  "verified_as_asked opts v \<longleftrightarrow>
     v = (if tls_InsecureSkipVerify opts then NoVerification
          else if tls_CACertFile opts \<noteq> [] then PinnedCA (tls_CACertFile opts) (tls_ServerName opts)
          else SystemRoots (tls_ServerName opts))"

lemma TLSConfig_as_asked: "TLSConfig pems opts = Inr v \<Longrightarrow> verified_as_asked opts v"
  by (auto simp: TLSConfig_def verified_as_asked_def Let_def split: if_splits)

definition cache_ok :: "tls_cache \<Rightarrow> bool" where
  "cache_ok cache \<longleftrightarrow> (\<forall>opts v. cache opts = Some v \<longrightarrow> verified_as_asked opts v)"

lemma httpClientFor_ok:
  "httpClientFor pems cl cache = (r, cache') \<Longrightarrow> cache_ok cache \<Longrightarrow>
     cache_ok cache' \<and> (\<forall>v. r = Inr v \<longrightarrow> verified_as_asked (TLSOptionsFrom (ec_TransportConfig cl)) v)"
  by (auto simp: httpClientFor_def cache_ok_def Let_def dest: TLSConfig_as_asked TLSConfig_as_asked [OF sym]
      split: option.splits sum.splits if_splits)

lemma https_command_ok:
  assumes "https_command w cl url body auth m cache = (r, cache', sent)" and "cache_ok cache"
  shows "cache_ok cache' \<and>
    (\<forall>req. sent = Some req \<longrightarrow> hr_url req = url \<and> hr_auth req = auth \<and>
       verified_as_asked (TLSOptionsFrom (ec_TransportConfig cl)) (hr_verify req))"
  using assms httpClientFor_ok [of "hw_pems w" cl cache]
  by (auto simp: https_command_def Let_def split: if_splits prod.splits sum.splits)

datatype https_module = Proxmox | OPNsense

text \<open>
  The calls the engine makes of one transport, each with the world it meets, and the requests they send:
  actions, and for OPNsense the question for the hardware address, with the same kept clients.
\<close>

datatype appliance_call = CallExecute ActionType | CallDiscover "string \<Rightarrow> interfaceConfig list option"

fun https_call :: "https_module \<Rightarrow> http_world \<Rightarrow> Client \<Rightarrow> appliance_call \<Rightarrow> tls_cache \<Rightarrow> tls_cache \<times> http_request option" where
  "https_call Proxmox w cl (CallExecute action) cache = snd (proxmox_Execute w cl action cache)"
| "https_call OPNsense w cl (CallExecute action) cache = snd (opnsense_Execute w cl action cache)"
| "https_call Proxmox w cl (CallDiscover decode) cache = (cache, None)"
| "https_call OPNsense w cl (CallDiscover decode) cache = snd (opnsense_DiscoverMAC w decode cl cache)"

fun https_run :: "https_module \<Rightarrow> (http_world \<times> Client \<times> appliance_call) list \<Rightarrow> tls_cache \<Rightarrow> (Client \<times> http_request) list" where
  "https_run md [] cache = []"
| "https_run md ((w, cl, call) # rest) cache =
     (case https_call md w cl call cache of
        (cache', sent) \<Rightarrow> (case sent of None \<Rightarrow> [] | Some req \<Rightarrow> [(cl, req)]) @ https_run md rest cache')"

lemma URL_https: "HasPrefix (URL ''https'' host port path) ''https://''"
  by (simp add: URL_def HasPrefix_def Let_def)

lemma discover_ok:
  assumes "interfaceConfigs w decode cl cache = (r, cache', sent)" and "cache_ok cache"
  shows "cache_ok cache' \<and> (\<forall>req. sent = Some req \<longrightarrow> HasPrefix (hr_url req) ''https://'' \<and>
       verified_as_asked (TLSOptionsFrom (ec_TransportConfig cl)) (hr_verify req))"
  using assms httpClientFor_ok [of "hw_pems w" cl cache] URL_https
  by (auto simp: interfaceConfigs_def Let_def split: if_splits prod.splits sum.splits)

lemma https_call_ok:
  assumes "https_call md w cl call cache = (cache', sent)" and "cache_ok cache"
  shows "cache_ok cache' \<and>
    (\<forall>req. sent = Some req \<longrightarrow> HasPrefix (hr_url req) ''https://'' \<and>
       verified_as_asked (TLSOptionsFrom (ec_TransportConfig cl)) (hr_verify req))"
proof (cases call)
  case (CallExecute action)
  show ?thesis
  proof (cases "action = ActionShutdown")
    case True
    then obtain r url body auth m where "https_command w cl url body auth m cache = (r, cache', sent)" "HasPrefix url ''https://''"
      using assms(1) URL_https CallExecute
      by (cases md) (auto simp: proxmox_Execute_def opnsense_Execute_def proxmox_url_def snd_def split: prod.splits)
    then show ?thesis using https_command_ok [OF _ assms(2)] by metis
  qed (use assms CallExecute in \<open>cases md; auto simp: proxmox_Execute_def opnsense_Execute_def\<close>)
next
  case (CallDiscover decode)
  obtain r c1 s1 where d: "interfaceConfigs w decode cl cache = (r, c1, s1)" by (metis prod_cases3)
  have "cache' = cache \<and> sent = None \<or> cache' = c1 \<and> sent = s1"
    using assms(1) CallDiscover d by (cases md; cases r) (auto simp: opnsense_DiscoverMAC_def)
  then show ?thesis using discover_ok [OF d assms(2)] assms(2) by auto
qed

lemma https_run_ok:
  "cache_ok cache \<Longrightarrow> (cl, req) \<in> set (https_run md calls cache) \<Longrightarrow>
     HasPrefix (hr_url req) ''https://'' \<and> verified_as_asked (TLSOptionsFrom (ec_TransportConfig cl)) (hr_verify req)"
proof (induction calls arbitrary: cache)
  case (Cons c calls)
  obtain w cl' call where c: "c = (w, cl', call)" by (metis prod_cases3)
  obtain cache' sent where x: "https_call md w cl' call cache = (cache', sent)" by force
  from Cons.prems(2) have "sent = Some req \<and> cl' = cl \<or> (cl, req) \<in> set (https_run md calls cache')"
    by (auto simp: c x split: option.splits)
  then show ?case using https_call_ok [OF x Cons.prems(1)] Cons.IH by blast
qed simp

section \<open>TrueNAS\<close>

lemma callRPC_calls:
  "callRPC ident proc params c = (r, c') \<Longrightarrow>
     wc_url c' = wc_url c \<and> wc_verify c' = wc_verify c \<and> (wc_calls c' = wc_calls c \<or> wc_calls c' = wc_calls c @ [(proc, params)]) \<and>
     ((\<exists>v. r = Inr v) \<longrightarrow> wc_calls c' = wc_calls c @ [(proc, params)])"
  by (auto simp: callRPC_def Let_def split: if_splits prod.splits)

lemma truenas_connect_conn:
  "truenas_connect pems net cl = Inr c \<Longrightarrow>
     wc_calls c = [] \<and>
     (if useTLS cl then HasPrefix (wc_url c) ''wss://'' \<and>
        (\<exists>v. wc_verify c = Some v \<and> verified_as_asked (TLSOptionsFrom (ec_TransportConfig cl)) v)
      else ec_TransportConfig cl ''tls'' = Some (GBool False))"
  by (auto simp: truenas_connect_def URL_def HasPrefix_def Let_def useTLS_def dest: TLSConfig_as_asked
      split: sum.splits if_splits prod.splits option.splits goval.splits bool.splits)

text \<open>A connection on which a call is made only after the login with the client's key.\<close>

definition login_first :: "string \<times> rpc_params \<Rightarrow> Client \<Rightarrow> ws_conn \<Rightarrow> bool" where
  "login_first call cl c \<longleftrightarrow>
     (let login = (''auth.login_with_api_key'', LoginKey (ec_Credentials cl))
      in wc_calls c = [] \<or> wc_calls c = [login] \<or> wc_calls c = [login, call])"

definition carried_as_asked :: "Client \<Rightarrow> ws_conn \<Rightarrow> bool" where
  "carried_as_asked cl c \<longleftrightarrow>
     (if useTLS cl then HasPrefix (wc_url c) ''wss://'' \<and>
        (case wc_verify c of None \<Rightarrow> False | Some v \<Rightarrow> verified_as_asked (TLSOptionsFrom (ec_TransportConfig cl)) v)
      else ec_TransportConfig cl ''tls'' = Some (GBool False))"

lemma truenas_session:
  assumes "truenas_connect pems net cl = Inr c0" and "truenas_authenticate id1 cl c0 = (e, c1)"
    and "callRPC id2 proc params c1 = (v, c2)" and "c = c1 \<or> e = None \<and> c = c2"
  shows "login_first (proc, params) cl c \<and> carried_as_asked cl c"
proof -
  obtain r0 where r0: "callRPC id1 ''auth.login_with_api_key'' (LoginKey (ec_Credentials cl)) c0 = (r0, c1)"
    using assms(2) by (auto simp: truenas_authenticate_def split: prod.splits sum.splits rpc_value.splits bool.splits)
  have ok: "e = None \<Longrightarrow> \<exists>v. r0 = Inr v"
    using assms(2) r0 by (auto simp: truenas_authenticate_def split: sum.splits)
  have "login_first (proc, params) cl c"
    using assms(4) ok callRPC_calls [OF r0] callRPC_calls [OF assms(3)] truenas_connect_conn [OF assms(1)]
    by (auto simp: login_first_def Let_def)
  moreover have "wc_url c = wc_url c0 \<and> wc_verify c = wc_verify c0"
    using assms(4) callRPC_calls [OF r0] callRPC_calls [OF assms(3)] by auto
  then have "carried_as_asked cl c" using truenas_connect_conn [OF assms(1)] by (auto simp: carried_as_asked_def)
  ultimately show ?thesis by blast
qed

lemma truenas_execute_session:
  assumes "truenas_Execute pems net redact print id1 id2 cl action = (r, Some c)"
  shows "login_first (''system.shutdown'', NoDelay) cl c \<and> carried_as_asked cl c"
proof -
  obtain c0 where c0: "truenas_connect pems net cl = Inr c0"
    using assms by (auto simp: truenas_Execute_def split: if_splits sum.splits)
  obtain e c1 where a: "truenas_authenticate id1 cl c0 = (e, c1)" by force
  obtain v c2 where s: "callRPC id2 ''system.shutdown'' NoDelay c1 = (v, c2)" by force
  show ?thesis
    by (rule truenas_session [OF c0 a s])
      (use assms c0 a s in \<open>auto simp: truenas_Execute_def split: if_splits option.splits sum.splits\<close>)
qed

lemma truenas_discover_session:
  assumes "truenas_DiscoverMAC pems net redact decode id1 id2 cl = (r, Some c)"
  shows "login_first (''interface.query'', NoParams) cl c \<and> carried_as_asked cl c"
proof -
  obtain c0 where c0: "truenas_connect pems net cl = Inr c0"
    using assms by (auto simp: truenas_DiscoverMAC_def split: sum.splits)
  obtain e c1 where a: "truenas_authenticate id1 cl c0 = (e, c1)" by force
  obtain v c2 where s: "callRPC id2 ''interface.query'' NoParams c1 = (v, c2)" by force
  show ?thesis
    by (rule truenas_session [OF c0 a s])
      (use assms c0 a s in \<open>auto simp: truenas_DiscoverMAC_def split: if_splits option.splits sum.splits\<close>)
qed

text \<open>
  C21. Credentials travel as the configuration says. Every request the HTTPS transports send, to act or to
  ask for a hardware address, in any order and with the clients they keep, goes over HTTPS to a peer
  verified as that client's options ask, and unverified only where \<open>tls_insecure_skip_verify\<close> is set; and
  TrueNAS is acted on, and asked, only over a connection that is encrypted and verified so, unless
  \<open>tls: false\<close> is written out: a failed handshake is never retried in the clear. The shutdown, or the
  question, is called after the login, and each once. (What the HTTP client does on a redirect is its own.)
\<close>

theorem credentials_travel_as_configured:
  "list_all (\<lambda>(cl, req). HasPrefix (hr_url req) ''https://'' \<and>
      verified_as_asked (TLSOptionsFrom (ec_TransportConfig cl)) (hr_verify req)) (https_run md calls Map.empty) \<and>
    (case truenas_Execute pems net redact print id1 id2 cl action of
        (_, None) \<Rightarrow> True
      | (_, Some c) \<Rightarrow> login_first (''system.shutdown'', NoDelay) cl c \<and> carried_as_asked cl c) \<and>
    (case truenas_DiscoverMAC pems net redact decode id1 id2 cl of
        (_, None) \<Rightarrow> True
      | (_, Some c) \<Rightarrow> login_first (''interface.query'', NoParams) cl c \<and> carried_as_asked cl c)"
proof (intro conjI)
  have "cache_ok Map.empty" by (simp add: cache_ok_def)
  then show "list_all (\<lambda>(cl, req). HasPrefix (hr_url req) ''https://'' \<and>
      verified_as_asked (TLSOptionsFrom (ec_TransportConfig cl)) (hr_verify req)) (https_run md calls Map.empty)"
    using https_run_ok by (fastforce simp: list_all_iff)
qed (auto split: prod.split option.split dest: truenas_execute_session truenas_discover_session)

end
