(* ===== verification/Rest_Exec.thy ===== *)
theory Rest_Exec
  imports Appliances
begin

text \<open>
  The two transports an operator programs himself: requests to any HTTP interface (\<open>modules/rest/rest.go\<close>)
  and shell commands (\<open>modules/exec/exec.go\<close>), with the redaction of secrets (\<open>netutil/redact.go\<close>). What
  a transport answers is written to the database, sent to the browser and to webhooks, so the point of
  the redaction is that a credential is not in it.
\<close>

section \<open>Redaction (redact.go)\<close>

definition redactedPlaceholder :: string where "redactedPlaceholder = ''REDACTED''"

definition sensitiveQueryKeys :: "string list" where
  "sensitiveQueryKeys =
     [''apikey'', ''api_key'', ''access_token'', ''auth'', ''key'', ''password'', ''passwd'',
      ''pass'', ''secret'', ''sig'', ''signature'', ''token'']"

definition isSensitiveKey :: "string \<Rightarrow> bool" where
  "isSensitiveKey key \<longleftrightarrow> ToLower (ReplaceAll key ''-'' ''_'') \<in> set sensitiveQueryKeys"

text \<open>The library: parsing and printing a URL, and the query of one as keys with their values.\<close>

record url_parts =
  up_scheme :: string
  up_user :: "(string \<times> string option) option"
  up_host :: string
  up_path :: string
  up_query :: string

record url_lib =
  ul_parse :: "string \<Rightarrow> url_parts option"
  ul_print :: "url_parts \<Rightarrow> string"
  ul_query :: "string \<Rightarrow> (string \<times> string list) list"
  ul_encode :: "(string \<times> string list) list \<Rightarrow> string"

definition RedactURL :: "url_lib \<Rightarrow> string \<Rightarrow> string" where
  "RedactURL ul raw =
     (case ul_parse ul raw of
        None \<Rightarrow> redactedPlaceholder
      | Some u \<Rightarrow>
          (let u1 = (case up_user u of
                 Some (name, Some _) \<Rightarrow> u\<lparr>up_user := Some (name, Some redactedPlaceholder)\<rparr>
               | _ \<Rightarrow> u);
               q = ul_query ul (up_query u)
           in ul_print ul
                (if list_ex (isSensitiveKey \<circ> fst) q
                 then u1\<lparr>up_query := ul_encode ul (map (\<lambda>(k, vs). (k, if isSensitiveKey k then [redactedPlaceholder] else vs)) q)\<rparr>
                 else u1)))"

definition RedactEndpoint :: "url_lib \<Rightarrow> string \<Rightarrow> string" where
  "RedactEndpoint ul raw =
     (case ul_parse ul raw of
        None \<Rightarrow> redactedPlaceholder
      | Some u \<Rightarrow>
          if up_host u = [] then redactedPlaceholder
          else up_scheme u @ ''://'' @ up_host u @
               (if up_path u \<noteq> [] \<and> up_path u \<noteq> ''/'' then ''/'' @ redactedPlaceholder else []))"

definition RedactSecrets :: "string \<Rightarrow> string list \<Rightarrow> string" where
  "RedactSecrets s secrets =
     foldl (\<lambda>s secret. if length secret < 4 then s else ReplaceAll s secret redactedPlaceholder) s secrets"

section \<open>HTTP interfaces (rest.go)\<close>

definition urlFields :: "string list" where
  "urlFields =
     [''shutdown_url'', ''wake_url'', ''probe_url'', ''poe_off_url'', ''poe_on_url'', ''outlet_off_url'', ''outlet_on_url'']"

definition sanitise :: "url_lib \<Rightarrow> Client \<Rightarrow> string \<Rightarrow> string" where
  "sanitise ul cl msg =
     foldl (\<lambda>m field. let raw = configString (ec_TransportConfig cl) field
                        in if raw = [] then m
                           else let expanded = rest_expandVars cl raw in ReplaceAll m expanded (RedactURL ul expanded))
       (RedactSecrets msg [ec_Credentials cl]) urlFields"

text \<open>
  The network: an error of building a request, the headers the configuration gives, by canonical name,
  and the answer to a request: an error, or status and body.
\<close>

record rest_request =
  rr_method :: string
  rr_url :: string
  rr_body :: "string option"
  rr_headers :: "string \<rightharpoonup> string"

record rest_world =
  rw_invalid :: "string \<Rightarrow> string \<Rightarrow> string option"
  rw_headers :: "goval option \<Rightarrow> (string \<rightharpoonup> string)"
  rw_do :: "rest_request \<Rightarrow> string + nat \<times> string"

definition upper_char :: "char \<Rightarrow> char" where
  "upper_char c = (if 97 \<le> (of_char c :: nat) \<and> (of_char c :: nat) \<le> 122 then char_of ((of_char c :: nat) - 32) else c)"

definition maxResponseBody :: nat where "maxResponseBody = 4096"

text \<open>What is reported of the answer to a request.\<close>

definition rest_answer :: "url_lib \<Rightarrow> Client \<Rightarrow> string + nat \<times> string \<Rightarrow> exec_answer" where
  "rest_answer ul cl outcome =
     (case outcome of
        Inl err \<Rightarrow> ExecAnswer False (sanitise ul cl err)
      | Inr (status, text) \<Rightarrow>
          ExecAnswer (status_ok status)
            (''HTTP '' @ show_nat status @ '': '' @ sanitise ul cl (TrimSpace (take maxResponseBody text))))"

definition rest_Execute ::
  "url_lib \<Rightarrow> rest_world \<Rightarrow> Client \<Rightarrow> ActionType \<Rightarrow> exec_answer \<times> rest_request option" where
  "rest_Execute ul w cl action =
     (let prefix = ActionType_String action; cfg = ec_TransportConfig cl;
          raw = configString cfg (prefix @ ''_url'')
      in if raw = [] then (ExecError (''rest transport: no '' @ prefix @ ''_url configured''), None)
         else let verb0 = map upper_char (configString cfg (prefix @ ''_method''));
                  verb = (if verb0 = [] then ''POST'' else verb0);
                  url = rest_expandVars cl raw;
                  payload = configString cfg (prefix @ ''_body'');
                  body = (if payload = [] then None else Some (rest_expandVars cl payload))
              in case rw_invalid w verb url of
                   Some err \<Rightarrow> (ExecError (''creating request: '' @ err), None)
                 | None \<Rightarrow>
                     (let headers = rw_headers w (cfg (prefix @ ''_headers''));
                          typed = (if (headers ''Content-Type'' = None \<or> headers ''Content-Type'' = Some []) \<and> body \<noteq> None
                                   then headers(''Content-Type'' \<mapsto> ''application/json'') else headers);
                          req = \<lparr>rr_method = verb, rr_url = url, rr_body = body, rr_headers = typed\<rparr>
                      in (rest_answer ul cl (rw_do w req), Some req)))"

section \<open>Shell commands (exec.go)\<close>

definition config_text :: "(string \<rightharpoonup> goval) \<Rightarrow> string \<Rightarrow> string option" where
  "config_text cfg key = (case cfg key of Some (GString s) \<Rightarrow> Some s | _ \<Rightarrow> None)"

text \<open>The shell: the error of a run, if there is one, and the output.\<close>

definition exec_Execute ::
  "(string \<Rightarrow> string list \<Rightarrow> string option \<times> string) \<Rightarrow> Client \<Rightarrow> ActionType \<Rightarrow> exec_answer" where
  "exec_Execute sh cl action =
     (let key = ActionType_String action @ ''_command''; cfg = ec_TransportConfig cl
      in case (case config_text cfg key of Some c \<Rightarrow> Some c | None \<Rightarrow> config_text cfg ''command'') of
           None \<Rightarrow> ExecError (''exec transport: no command configured for action '' @ ActionType_String action @
                      '' (set '' @ key @ '' or command)'')
         | Some cmd \<Rightarrow>
             (case sh (exec_expandVars cl cmd) (clientEnv cl) of
                (Some err, output) \<Rightarrow> ExecAnswer False (''exit error: '' @ err @ '', output: '' @ output)
              | (None, output) \<Rightarrow> ExecAnswer True (TrimSpace output)))"

section \<open>A redacted text has no secret\<close>

lemma replace_step:
  assumes "s \<noteq> []" and "old \<noteq> []"
  shows "replace_from s old new =
    (if HasPrefix s old then new @ replace_from (drop (length old) s) old new else hd s # replace_from (tl s) old new)"
  using assms by (simp add: replace_from.simps [of s] drop_Suc)

lemma replace_Nil [simp]: "replace_from [] old new = []"
  by (simp add: replace_from.simps)

lemma HasPrefix_Cons: "HasPrefix (x # xs) (c # q) \<longleftrightarrow> x = c \<and> HasPrefix xs q"
  by (auto simp: HasPrefix_def)

lemma replace_prefix:
  assumes "n \<notin> set p" and "set p \<inter> set ns = {}" and "old \<noteq> []" and "HasPrefix (replace_from s old (n # ns)) p"
  shows "HasPrefix s p"
  using assms(1,2,4)
proof (induction s arbitrary: p)
  case (Cons x xs)
  show ?case
  proof (cases p)
    case (Cons c q)
    note p = Cons
    show ?thesis
    proof (cases "HasPrefix (x # xs) old")
      case True
      then have "n = c" using Cons.prems(3) assms(3) p by (simp add: replace_step HasPrefix_Cons)
      then show ?thesis using Cons.prems(1) p by simp
    next
      case False
      then show ?thesis using Cons.prems assms(3) p Cons.IH [of q] by (simp add: replace_step HasPrefix_Cons)
    qed
  qed (simp add: HasPrefix_def)
qed simp

lemma contains_append:
  "StrContains (a @ b) sub \<Longrightarrow> set a \<inter> set sub = {} \<Longrightarrow> sub \<noteq> [] \<Longrightarrow> StrContains b sub"
  by (induction a) (cases sub; auto simp: HasPrefix_def)+

lemma replace_hides:
  assumes "n \<notin> set old" and "set old \<inter> set ns = {}" and "old \<noteq> []"
  shows "\<not> StrContains (replace_from s old (n # ns)) old"
proof (induction "length s" arbitrary: s rule: less_induct)
  case less
  show ?case
  proof (cases s)
    case (Cons x xs)
    show ?thesis
    proof (cases "HasPrefix s old")
      case True
      have "length (drop (length old) s) < length s" using Cons assms(3) by (cases old) auto
      then have "\<not> StrContains (replace_from (drop (length old) s) old (n # ns)) old" by (rule less)
      then have "\<not> StrContains ((n # ns) @ replace_from (drop (length old) s) old (n # ns)) old"
        using contains_append [of "n # ns" _ old] assms by auto
      then show ?thesis using True Cons assms(3) by (simp add: replace_step)
    next
      case False
      have "\<not> StrContains (replace_from xs old (n # ns)) old" by (rule less) (simp add: Cons)
      moreover have "\<not> HasPrefix (replace_from s old (n # ns)) old"
        using replace_prefix [OF assms(1,2,3)] False by blast
      ultimately show ?thesis using False Cons assms(3) by (simp add: replace_step)
    qed
  qed (use assms(3) in simp)
qed

lemma StrContains_trans: "StrContains s t \<Longrightarrow> StrContains t u \<Longrightarrow> StrContains s u"
  unfolding StrContains_iff by (metis append.assoc)

lemma StrContains_length: "StrContains s t \<Longrightarrow> length t \<le> length s"
  by (auto simp: StrContains_iff)

text \<open>An occurrence without a given character does not cross it.\<close>

lemma StrContains_split:
  assumes "StrContains (p @ c # q) sub" and "c \<notin> set sub"
  shows "StrContains p sub \<or> StrContains q sub"
proof -
  obtain a b where ab: "p @ c # q = a @ sub @ b" using assms(1) by (auto simp: StrContains_iff)
  then obtain us where us: "p = a @ us \<and> us @ c # q = sub @ b \<or> p @ us = a \<and> c # q = us @ sub @ b"
    by (auto simp: append_eq_append_conv2)
  then consider x where "p = a @ x" "x @ c # q = sub @ b" | x where "a = p @ c # x" "q = x @ sub @ b"
    by (cases us) auto
  then show ?thesis
  proof cases
    case 1
    then obtain y where "x = sub @ y" using assms(2) by (auto simp: append_eq_append_conv2 Cons_eq_append_conv)
    then show ?thesis using 1 by (auto simp: StrContains_iff)
  next
    case 2
    then show ?thesis by (auto simp: StrContains_iff)
  qed
qed

lemma replace_absent: "\<not> StrContains s old \<Longrightarrow> replace_from s old new = s"
proof (induction s)
  case (Cons x xs)
  then have "old \<noteq> []" by (auto simp: HasPrefix_def)
  with Cons show ?case by (simp add: replace_step)
qed simp

lemma replace_self: "replace_from s old old = s"
proof (induction "length s" arbitrary: s rule: less_induct)
  case less
  show ?case
  proof (cases "s = [] \<or> old = []")
    case True
    then show ?thesis by (auto simp: replace_from.simps)
  next
    case False
    then have "length (drop (length old) s) < length s" "length (tl s) < length s" by (cases s; cases old; auto)+
    then have "replace_from (drop (length old) s) old old = drop (length old) s" "replace_from (tl s) old old = tl s"
      by (simp_all only: less)
    then show ?thesis using False by (auto simp: replace_step HasPrefix_def) (metis append_take_drop_id)
  qed
qed

lemma ReplaceAll_self: "ReplaceAll s u u = s"
  by (simp add: ReplaceAll_def replace_self)

section \<open>What a REST transport reports\<close>

lemma RedactSecrets_hides:
  assumes "4 \<le> length cred" and "set cred \<inter> set redactedPlaceholder = {}"
  shows "\<not> StrContains (RedactSecrets s [cred]) cred"
proof -
  have "cred \<noteq> []" using assms(1) by auto
  moreover have "CHR ''R'' \<notin> set cred" "set cred \<inter> set ''EDACTED'' = {}" using assms(2) by (auto simp: redactedPlaceholder_def)
  ultimately show ?thesis using replace_hides [of "CHR ''R''" cred "''EDACTED''" s] assms(1)
    by (simp add: RedactSecrets_def ReplaceAll_def redactedPlaceholder_def)
qed

text \<open>A URL of the configuration that has no secret but the credential.\<close>

definition url_plain :: "url_lib \<Rightarrow> Client \<Rightarrow> string \<Rightarrow> bool" where
  "url_plain ul cl field \<longleftrightarrow>
     (let raw = configString (ec_TransportConfig cl) field; u = rest_expandVars cl raw
      in raw = [] \<or> StrContains u (ec_Credentials cl) \<or> RedactURL ul u = u)"

lemma sanitise_hides:
  assumes "4 \<le> length (ec_Credentials cl)" and "set (ec_Credentials cl) \<inter> set redactedPlaceholder = {}"
    and "list_all (url_plain ul cl) urlFields"
  shows "\<not> StrContains (sanitise ul cl msg) (ec_Credentials cl)"
proof -
  let ?c = "ec_Credentials cl"
  let ?f = "\<lambda>m field. let raw = configString (ec_TransportConfig cl) field
                     in if raw = [] then m
                        else let expanded = rest_expandVars cl raw in ReplaceAll m expanded (RedactURL ul expanded)"
  have ne: "?c \<noteq> []" using assms(1) by auto
  have step: "?f m field = m" if "\<not> StrContains m ?c" "url_plain ul cl field" for m field
  proof (cases "StrContains (rest_expandVars cl (configString (ec_TransportConfig cl) field)) ?c")
    case True
    let ?u = "rest_expandVars cl (configString (ec_TransportConfig cl) field)"
    have "\<not> StrContains m ?u" using StrContains_trans True that(1) by blast
    moreover have "?u \<noteq> []" using StrContains_length [OF True] ne by auto
    ultimately show ?thesis by (simp add: ReplaceAll_def replace_absent Let_def)
  next
    case False
    then show ?thesis using that(2) by (auto simp: url_plain_def Let_def ReplaceAll_self)
  qed
  have "foldl f m xs = m" if "P m" "list_all Q xs" "\<And>m x. P m \<Longrightarrow> Q x \<Longrightarrow> f m x = m" for f :: "string \<Rightarrow> string \<Rightarrow> string" and P Q m xs
    using that(2) by (induction xs) (simp_all add: that(1,3))
  from this [of "\<lambda>m. \<not> StrContains m ?c" _ "url_plain ul cl" urlFields ?f, OF _ assms(3) step]
  show ?thesis unfolding sanitise_def using RedactSecrets_hides [OF assms(1,2)] by simp
qed

lemma show_nat_short: "n < 1000 \<Longrightarrow> length (show_nat n) \<le> 3"
  by (subst show_nat.simps, subst show_nat.simps, subst show_nat.simps) auto


end
