(* ===== verification/Snmp_Gpio.thy ===== *)
theory Snmp_Gpio
  imports Probing "HOL-Library.Word"
begin

text \<open>
  The SNMP source, the switching of PoE ports over SNMP (\<open>modules/snmp/snmp.go\<close>) and the GPIO source
  (\<open>modules/gpio/gpio.go\<close>). The SNMP library, the device files and the lines of a chip are parameters, as
  are the keys of a configuration value that is itself a mapping.
\<close>

section \<open>Values of the configuration\<close>

text \<open>\<open>strconv.Atoi\<close> with its error ignored: zero for text that is no number, and the bound beyond the range.\<close>

fun decimal_value :: "nat \<Rightarrow> string \<Rightarrow> nat option" where
  "decimal_value acc [] = Some acc"
| "decimal_value acc (c # cs) =
     (if is_digit c then decimal_value (10 * acc + (of_char c - 48)) cs else None)"

definition Atoi :: "string \<Rightarrow> int" where
  "Atoi s =
     (let neg = (s \<noteq> [] \<and> hd s = CHR ''-'');
          digits = (if s \<noteq> [] \<and> (hd s = CHR ''-'' \<or> hd s = CHR ''+'') then tl s else s)
      in case (if digits = [] then None else decimal_value 0 digits) of
           None \<Rightarrow> 0
         | Some n \<Rightarrow> (if neg then max (- (2 ^ 63)) (- int n) else min (2 ^ 63 - 1) (int n)))"

definition toInt :: "rt \<Rightarrow> goval option \<Rightarrow> int" where
  "toInt rt v =
     (case v of
        Some (GInt n) \<Rightarrow> n
      | Some (GFloat64 f) \<Rightarrow> rt_FloatToInt rt f
      | Some (GString s) \<Rightarrow> Atoi s
      | _ \<Rightarrow> 0)"

section \<open>The SNMP source\<close>

record snmp_oid =
  oi_OID :: string
  oi_Name :: string
  oi_Type :: string

record snmp_instance =
  sn_Name :: string
  sn_Host :: string
  sn_Port :: int
  sn_PollInterval :: string
  sn_Version :: int
  sn_Community :: string
  sn_User :: string
  sn_AuthPass :: string
  sn_PrivPass :: string
  sn_OIDs :: "snmp_oid list"

text \<open>The interval is not checked for its sign: \<open>time.NewTicker\<close> panics on a negative one.\<close>

definition snmp_poll :: "string \<Rightarrow> duration" where
  "snmp_poll s =
     (let d = (case time_ParseDuration s of None \<Rightarrow> 0 | Some d \<Rightarrow> d) in if d = 0 then 30 * Second else d)"

definition snmp_declaration :: "snmp_oid \<Rightarrow> FactDeclaration" where
  "snmp_declaration oid =
     \<lparr>d_Name = oi_Name oid, d_Type = (if oi_Type oid = [] then ''number'' else oi_Type oid), d_Range = [],
      d_Values = [], d_Description = ''SNMP OID '' @ oi_OID oid, d_Unit = []\<rparr>"

definition snmp_Declarations :: "snmp_instance list \<Rightarrow> (string \<times> duration \<times> FactDeclaration list) list" where
  "snmp_Declarations sns = map (\<lambda>i. (sn_Name i, snmp_poll (sn_PollInterval i), map snmp_declaration (sn_OIDs i))) sns"

definition snmp_RegisterFacts :: "snmp_instance list \<Rightarrow> Store \<Rightarrow> Store" where
  "snmp_RegisterFacts sns st = fold (\<lambda>(name, poll, ds). RegisterSource name poll ds) (snmp_Declarations sns) st"

text \<open>
  A variable of an answer, by its type; \<open>VText\<close> is what \<open>fmt.Sprint\<close> prints of the other types. A
  number is read as a big integer and cut to 64 bits.
\<close>

datatype snmp_value = VNumber int | VOctets string | VText string | VMissing

definition Int64 :: "int \<Rightarrow> int" where
  "Int64 n = sint (word_of_int n :: 64 word)"

definition decodeSnmpValue :: "snmp_value \<Rightarrow> goval option" where
  "decodeSnmpValue v =
     (case v of
        VNumber n \<Rightarrow> Some (GInt64 (Int64 n))
      | VOctets s \<Rightarrow> Some (GString s)
      | VText s \<Rightarrow> Some (GString s)
      | VMissing \<Rightarrow> None)"

datatype snmp_version = SNMPv1 | SNMPv2c | SNMPv3

datatype snmp_security = NoAuthNoPriv | AuthNoPriv | AuthPriv

record snmp_params =
  sp_target :: string
  sp_port :: "16 word"
  sp_version :: snmp_version
  sp_community :: string
  sp_user :: string
  sp_flags :: snmp_security
  sp_auth :: "string option"
  sp_priv :: "string option"

definition newGoSNMP ::
  "string \<Rightarrow> int \<Rightarrow> int \<Rightarrow> string \<Rightarrow> string \<Rightarrow> string \<Rightarrow> string \<Rightarrow> snmp_params option" where
  "newGoSNMP host port version community user authPass privPass =
     (if host = [] then None
      else let base = \<lparr>sp_target = host, sp_port = word_of_int (if port = 0 then 161 else port),
                       sp_version = (if version = 3 then SNMPv3 else if version = 1 then SNMPv1 else SNMPv2c),
                       sp_community = (if version = 3 then [] else community), sp_user = [],
                       sp_flags = NoAuthNoPriv, sp_auth = None, sp_priv = None\<rparr>
           in Some (if version \<noteq> 3 then base
                    else base\<lparr>sp_user := user,
                              sp_auth := (if authPass = [] then None else Some authPass),
                              sp_priv := (if privPass = [] then None else Some privPass),
                              sp_flags := (if authPass = [] \<and> privPass = [] then NoAuthNoPriv
                                           else if privPass = [] then AuthNoPriv else AuthPriv)\<rparr>))"

record snmp_world =
  nw_connects :: "snmp_params \<Rightarrow> bool"
  nw_get :: "snmp_params \<Rightarrow> string list \<Rightarrow> snmp_value list option"
  nw_set :: "snmp_params \<Rightarrow> string \<Rightarrow> int \<Rightarrow> string option"

definition instance_params :: "snmp_instance \<Rightarrow> snmp_params option" where
  "instance_params i =
     newGoSNMP (sn_Host i) (sn_Port i) (sn_Version i) (sn_Community i) (sn_User i) (sn_AuthPass i) (sn_PrivPass i)"

text \<open>\<open>fetchAndUpdate\<close>: the updates of one poll. An answer beyond the OIDs asked for ends the loop.\<close>

definition snmp_fetchAndUpdate :: "snmp_world \<Rightarrow> instant \<Rightarrow> snmp_instance \<Rightarrow> event list" where
  "snmp_fetchAndUpdate w now i =
     (if sn_OIDs i = [] then []
      else case instance_params i of
             None \<Rightarrow> []
           | Some ps \<Rightarrow>
               if \<not> nw_connects w ps then []
               else case nw_get w ps (map oi_OID (sn_OIDs i)) of
                      None \<Rightarrow> []
                    | Some vs \<Rightarrow>
                        List.map_filter (\<lambda>(oid, v). map_option (\<lambda>x. FactUpdate (sn_Name i @ CHR ''.'' # oi_Name oid) x now)
                            (decodeSnmpValue v)) (zip (sn_OIDs i) vs))"

section \<open>PoE ports\<close>

definition poeAdminEnableOID :: string where "poeAdminEnableOID = ''1.3.6.1.2.1.105.1.1.1.3''"

text \<open>A port is a group and a number; an entry that is no mapping, or not positive, is left out.\<close>

definition getConfigPortList ::
  "rt \<Rightarrow> (goval \<Rightarrow> (string \<rightharpoonup> goval) option) \<Rightarrow> (string \<rightharpoonup> goval) \<Rightarrow> string \<Rightarrow> (int \<times> int) list" where
  "getConfigPortList rt as_map cfg key =
     (case cfg key of
        Some (GAnys items) \<Rightarrow>
          List.map_filter (\<lambda>item. case as_map item of
               None \<Rightarrow> None
             | Some m \<Rightarrow> (let g = toInt rt (m ''group''); p = toInt rt (m ''port'')
                          in if g > 0 \<and> p > 0 then Some (g, p) else None)) items
      | _ \<Rightarrow> [])"

definition switchAddress :: "Client \<Rightarrow> string" where
  "switchAddress cl =
     (let addr = configString (ec_TransportConfig cl) ''switch_address''
      in if addr \<noteq> [] then addr else ec_Address cl)"

definition port_oid :: "int \<times> int \<Rightarrow> string" where
  "port_oid p = poeAdminEnableOID @ ''.'' @ show_int (fst p) @ ''.'' @ show_int (snd p)"

definition port_name :: "int \<times> int \<Rightarrow> string" where
  "port_name p = ''port '' @ show_int (fst p) @ ''/'' @ show_int (snd p)"

text \<open>The loop over the ports: every port is tried, and the errors are collected. The second result is what was sent.\<close>

definition set_ports ::
  "snmp_world \<Rightarrow> snmp_params \<Rightarrow> int \<Rightarrow> (int \<times> int) list \<Rightarrow> string list \<times> (string \<times> int) list" where
  "set_ports w ps value ports =
     (List.map_filter (\<lambda>p. map_option (\<lambda>err. port_name p @ '': '' @ err) (nw_set w ps (port_oid p) value)) ports,
      map (\<lambda>p. (port_oid p, value)) ports)"

definition setPoeState ::
  "rt \<Rightarrow> (goval \<Rightarrow> (string \<rightharpoonup> goval) option) \<Rightarrow> snmp_world \<Rightarrow> Client \<Rightarrow> bool \<Rightarrow> exec_answer \<times> (string \<times> int) list" where
  "setPoeState rt as_map w cl enable =
     (let cfg = ec_TransportConfig cl; ports = getConfigPortList rt as_map cfg ''ports'';
          own = toInt rt (cfg ''snmp_port''); port = (if own \<noteq> 0 then own else 161); addr = switchAddress cl
      in if ports = [] then (ExecError ''snmp-poe: no ports configured in transport_config'', [])
         else if addr = [] then (ExecError (''snmp-poe: no switch_address configured for client '' @ ec_Name cl), [])
         else case newGoSNMP addr port (toInt rt (cfg ''snmp_version'')) (configString cfg ''snmp_community'')
                 (configString cfg ''snmp_user'') (configString cfg ''snmp_auth_pass'') (configString cfg ''snmp_priv_pass'') of
                None \<Rightarrow> (ExecError ''snmp-poe: SNMP host address is required'', [])
              | Some ps \<Rightarrow>
                  if \<not> nw_connects w ps then (ExecError (''snmp-poe: connecting to '' @ addr), [])
                  else case set_ports w ps (if enable then 1 else 2) ports of
                         (errs, sent) \<Rightarrow>
                           (if errs \<noteq> []
                            then ExecAnswer False (''PoE '' @ (if enable then ''enable'' else ''disable'') @ '' failed on '' @
                                   show_nat (length errs) @ '' of '' @ show_nat (length ports) @ '' ports: '' @ join_with ''; '' errs)
                            else ExecAnswer True (''PoE '' @ (if enable then ''enabled'' else ''disabled'') @ '' on '' @
                                   show_nat (length ports) @ '' port(s) via SNMP SET''), sent))"

definition poe_Execute ::
  "rt \<Rightarrow> (goval \<Rightarrow> (string \<rightharpoonup> goval) option) \<Rightarrow> snmp_world \<Rightarrow> Client \<Rightarrow> ActionType \<Rightarrow> exec_answer \<times> (string \<times> int) list" where
  "poe_Execute rt as_map w cl action =
     (if action = ActionPoeOff \<or> action = ActionPoeOn then setPoeState rt as_map w cl (action = ActionPoeOn)
      else (ExecError (''snmp-poe transport does not support action '' @ ActionType_String action), []))"

section \<open>The GPIO source\<close>

record gpio_pin =
  gp_Name :: string
  gp_Chip :: string
  gp_Line :: int
  gp_Type :: string
  gp_ActiveLow :: bool
  gp_PollInterval :: string
  gp_Description :: string

definition gpio_defaultPollInterval :: duration where "gpio_defaultPollInterval = 5 * Second"

definition gpio_pollInterval :: "gpio_pin \<Rightarrow> duration" where
  "gpio_pollInterval p =
     (if gp_PollInterval p = [] then gpio_defaultPollInterval
      else case time_ParseDuration (gp_PollInterval p) of
             None \<Rightarrow> gpio_defaultPollInterval
           | Some d \<Rightarrow> if d \<le> 0 then gpio_defaultPollInterval else d)"

definition gpio_declaration :: "gpio_pin \<Rightarrow> FactDeclaration" where
  "gpio_declaration p =
     \<lparr>d_Name = gp_Name p, d_Type = (if gp_Type p \<in> {''temperature'', ''analog''} then ''number'' else ''bool''),
      d_Range = [], d_Values = [], d_Description = gp_Description p, d_Unit = []\<rparr>"

definition gpio_shortest :: "gpio_pin list \<Rightarrow> duration" where
  "gpio_shortest pins =
     foldl (\<lambda>shortest p. if shortest = 0 \<or> gpio_pollInterval p < shortest then gpio_pollInterval p else shortest) 0 pins"

definition gpio_Declarations :: "gpio_pin list \<Rightarrow> (string \<times> duration \<times> FactDeclaration list) list" where
  "gpio_Declarations pins =
     (if pins = [] then [] else [(''gpio'', gpio_shortest pins, map gpio_declaration pins)])"

definition gpio_RegisterFacts :: "gpio_pin list \<Rightarrow> Store \<Rightarrow> Store" where
  "gpio_RegisterFacts pins st = fold (\<lambda>(name, poll, ds). RegisterSource name poll ds) (gpio_Declarations pins) st"

text \<open>\<open>Start\<close>: the pins that are polled; the chip must be there and the line be granted.\<close>

definition gpio_started :: "(string \<Rightarrow> bool) \<Rightarrow> (gpio_pin \<Rightarrow> bool) \<Rightarrow> gpio_pin list \<Rightarrow> gpio_pin list" where
  "gpio_started chip_there granted pins =
     filter (\<lambda>p. chip_there (''/dev/'' @ gp_Chip p) \<and> gp_Type p \<noteq> ''temperature'' \<and> granted p) pins"

text \<open>\<open>readAndEmit\<close>: the update, and whether polling goes on; a reading that fails is passed over.\<close>

definition readAndEmit :: "int option \<Rightarrow> bool \<Rightarrow> instant \<Rightarrow> gpio_pin \<Rightarrow> event list \<times> bool" where
  "readAndEmit reading cancelled now p =
     (case reading of
        None \<Rightarrow> ([], True)
      | Some v \<Rightarrow>
          if cancelled then ([], False)
          else ([FactUpdate (''gpio.'' @ gp_Name p) (if gp_Type p = ''analog'' then GInt v else GBool (v = 1)) now], True))"

section \<open>Facts about them\<close>

text \<open>A port is switched by a shutdown only when every port was: success means that each was sent the value and none refused.\<close>

lemma poe_shutdown_complete:
  assumes "poe_Execute rt as_map w cl (poe_RemapAction ActionShutdown) = (ExecAnswer True m, sent)"
  shows "sent = map (\<lambda>p. (port_oid p, 2)) (getConfigPortList rt as_map (ec_TransportConfig cl) ''ports'') \<and> sent \<noteq> [] \<and>
    (\<exists>ps. \<forall>(oid, v) \<in> set sent. nw_set w ps oid v = None)"
proof -
  have none: "List.map_filter f xs = [] \<Longrightarrow> \<forall>x \<in> set xs. f x = None" for f :: "int \<times> int \<Rightarrow> string option" and xs
    by (induction xs) (auto simp: List.map_filter_simps split: option.splits)
  show ?thesis using assms
    by (auto simp: poe_Execute_def setPoeState_def set_ports_def Let_def dest!: none split: if_splits option.splits) blast+
qed

text \<open>The interval all pins share is that of the fastest, so no pin is taken for fresh too long.\<close>

lemma gpio_pollInterval_pos: "0 < gpio_pollInterval p"
  by (simp add: gpio_pollInterval_def gpio_defaultPollInterval_def split: option.split)

definition shorter :: "duration \<Rightarrow> gpio_pin \<Rightarrow> duration" where
  "shorter s p = (if s = 0 \<or> gpio_pollInterval p < s then gpio_pollInterval p else s)"

lemma shorter_bounds: "0 \<le> s \<Longrightarrow> 0 < shorter s p \<and> shorter s p \<le> gpio_pollInterval p \<and> (0 < s \<longrightarrow> shorter s p \<le> s)"
  using gpio_pollInterval_pos [of p] by (auto simp: shorter_def)

lemma shorter_fold:
  "0 < s \<Longrightarrow> 0 < foldl shorter s pins \<and> foldl shorter s pins \<le> s \<and> (\<forall>p \<in> set pins. foldl shorter s pins \<le> gpio_pollInterval p)"
proof (induction pins arbitrary: s)
  case (Cons q pins)
  note b = shorter_bounds [of s q]
  then have "0 < shorter s q" "shorter s q \<le> s" "shorter s q \<le> gpio_pollInterval q" using Cons.prems by auto
  with Cons.IH [of "shorter s q"] show ?case by auto
qed simp

lemma gpio_shortest_le:
  assumes "p \<in> set pins"
  shows "0 < gpio_shortest pins \<and> gpio_shortest pins \<le> gpio_pollInterval p"
proof -
  obtain q rest where pins: "pins = q # rest" using assms by (cases pins) auto
  have "gpio_shortest pins = foldl shorter (shorter 0 q) rest" by (simp add: gpio_shortest_def shorter_def [abs_def] pins)
  moreover have q: "shorter 0 q = gpio_pollInterval q" by (simp add: shorter_def)
  ultimately have g: "gpio_shortest pins = foldl shorter (gpio_pollInterval q) rest" by simp
  note f = shorter_fold [OF gpio_pollInterval_pos, of q rest]
  from assms pins consider "p = q" | "p \<in> set rest" by auto
  then show ?thesis using f unfolding g by cases blast+
qed

text \<open>A 64-bit counter past the middle of its range is read as a negative number.\<close>

lemma counter_read_negative: "decodeSnmpValue (VNumber (2 ^ 63)) = Some (GInt64 (- (2 ^ 63)))"
  by (simp add: decodeSnmpValue_def Int64_def)

lemma snmp_poll_negative: "time_ParseDuration s = Some d \<Longrightarrow> d < 0 \<Longrightarrow> snmp_poll s = d"
  by (simp add: snmp_poll_def)

end
