(* ===== verification/Migrations.thy ===== *)
theory Migrations
  imports Prelude
begin

text \<open>
  The schema's history (\<open>internal/state/migrate.go\<close>): the migrations, the transaction each runs in, and
  the run of those a database does not have yet. Of SQLite the statements the migrations use are
  modelled; that an operation fails, or that the process dies in it, is an input.
\<close>

section \<open>The statements\<close>

text \<open>
  A statement in SQL: a table with its columns, an index with its table, its columns and whether it is
  unique, the two that change what is there, and the deletion of keys by a \<open>LIKE\<close> pattern \<open>prefix%\<close>.
\<close>

datatype ddl =
    CreateTable string "string list"
  | CreateIndex bool string string "string list"
  | DropTable string
  | AddColumn string string
  | DeleteKeysLike string

record schema =
  sd_tables :: "(string \<times> string list) list"
  sd_indexes :: "(string \<times> bool \<times> string \<times> string list) list"
  sd_migrations :: "(nat \<times> string) list option"
  sd_kv :: "string list"
  sd_tokenNames :: "string list"

definition emptySchema :: schema where
  "emptySchema = \<lparr>sd_tables = [], sd_indexes = [], sd_migrations = None, sd_kv = [], sd_tokenNames = []\<rparr>"

text \<open>
  A statement's effect, or its error. \<open>IF NOT EXISTS\<close> and \<open>IF EXISTS\<close> make an error of nothing; a unique
  index cannot be made over names that are not.
\<close>

fun exec_ddl :: "ddl \<Rightarrow> schema \<Rightarrow> string + schema" where
  "exec_ddl (CreateTable t cols) d =
     (if map_of (sd_tables d) t \<noteq> None then Inr d else Inr (d\<lparr>sd_tables := sd_tables d @ [(t, cols)]\<rparr>))"
| "exec_ddl (CreateIndex unique i t cols) d =
     (if map_of (sd_indexes d) i \<noteq> None then Inr d
      else case map_of (sd_tables d) t of
             None \<Rightarrow> Inl (''no such table: '' @ t)
           | Some have \<Rightarrow>
               (case find (\<lambda>c. c \<notin> set have) cols of
                  Some c \<Rightarrow> Inl (''no such column: '' @ c)
                | None \<Rightarrow>
                    (if unique \<and> t = ''api_tokens'' \<and> cols = [''name''] \<and> \<not> distinct (sd_tokenNames d)
                     then Inl ''UNIQUE constraint failed''
                     else Inr (d\<lparr>sd_indexes := sd_indexes d @ [(i, unique, t, cols)]\<rparr>))))"
| "exec_ddl (DropTable t) d =
     Inr (d\<lparr>sd_tables := filter (\<lambda>r. fst r \<noteq> t) (sd_tables d),
            sd_indexes := filter (\<lambda>(_, _, u, _). u \<noteq> t) (sd_indexes d)\<rparr>)"
| "exec_ddl (AddColumn t c) d =
     (case map_of (sd_tables d) t of
        None \<Rightarrow> Inl (''no such table: '' @ t)
      | Some have \<Rightarrow>
          (if c \<in> set have then Inl (''duplicate column name: '' @ c)
           else Inr (d\<lparr>sd_tables := map (\<lambda>r. if fst r = t then (t, snd r @ [c]) else r) (sd_tables d)\<rparr>)))"
| "exec_ddl (DeleteKeysLike prefix) d =
     (if map_of (sd_tables d) ''kv'' = None then Inl ''no such table: kv''
      else Inr (d\<lparr>sd_kv := filter (\<lambda>k. \<not> HasPrefix (ToLower k) (ToLower prefix)) (sd_kv d)\<rparr>))"

section \<open>The migrations\<close>

record migration =
  mg_version :: nat
  mg_name :: string
  mg_stmts :: "ddl list"

definition migrations :: "migration list" where
  "migrations =
     [\<lparr>mg_version = 1, mg_name = ''initial schema'', mg_stmts =
        [CreateTable ''sequences'' [''id'', ''plan_name'', ''state'', ''current_stage'', ''ponr_crossed'', ''started_at'',
           ''completed_at'', ''config_snapshot'', ''pre_sequence_state'', ''resolved_addrs''],
         CreateTable ''client_states'' [''client_name'', ''state'', ''updated_at'', ''sequence_id''],
         CreateTable ''intents'' [''id'', ''sequence_id'', ''client_name'', ''action'', ''timestamp'', ''status'', ''result''],
         CreateTable ''stage_records'' [''sequence_id'', ''stage_index'', ''stage_name'', ''started_at'', ''completed_at'', ''clients''],
         CreateTable ''client_locks'' [''client_name'', ''sequence_id'', ''locked_at''],
         CreateTable ''api_tokens'' [''token_hash'', ''name'', ''scope'', ''created_at''],
         CreateTable ''auth'' [''id'', ''password_hash''],
         CreateTable ''kv'' [''key'', ''value''],
         CreateIndex False ''idx_intents_sequence'' ''intents'' [''sequence_id''],
         CreateIndex False ''idx_intents_client'' ''intents'' [''client_name'']]\<rparr>,
      \<lparr>mg_version = 2, mg_name = ''sessions table'', mg_stmts =
        [CreateTable ''sessions'' [''token_hash'', ''created_at'', ''expires_at''],
         CreateIndex False ''idx_sessions_expires'' ''sessions'' [''expires_at''],
         DeleteKeysLike ''session:'']\<rparr>,
      \<lparr>mg_version = 3, mg_name = ''drop unused dwell_state table'', mg_stmts = [DropTable ''dwell_state'']\<rparr>,
      \<lparr>mg_version = 4, mg_name = ''dwell tracker persistence'', mg_stmts =
        [CreateTable ''dwell_trackers'' [''condition_key'', ''required_ns'', ''elapsed_ns'', ''satisfied'', ''last_seen_at'']]\<rparr>,
      \<lparr>mg_version = 5, mg_name = ''index sequences by state for active lookup'', mg_stmts =
        [CreateIndex False ''idx_sequences_state_started'' ''sequences'' [''state'', ''started_at''],
         CreateIndex False ''idx_stage_records_sequence'' ''stage_records'' [''sequence_id'']]\<rparr>,
      \<lparr>mg_version = 6, mg_name = ''api token metadata'', mg_stmts =
        [AddColumn ''api_tokens'' ''last_used_at'',
         CreateIndex True ''idx_api_tokens_name'' ''api_tokens'' [''name'']]\<rparr>,
      \<lparr>mg_version = 7, mg_name = ''sequence abort and post-shutdown bookkeeping'', mg_stmts =
        [AddColumn ''sequences'' ''aborted'',
         AddColumn ''sequences'' ''post_shutdown_run'',
         CreateIndex False ''idx_intents_status'' ''intents'' [''sequence_id'', ''status'']]\<rparr>,
      \<lparr>mg_version = 8, mg_name = ''learned MAC addresses'', mg_stmts =
        [CreateTable ''learned_macs'' [''client_name'', ''mac'', ''source'', ''learned_at'', ''confirmed_at'']]\<rparr>]"

section \<open>Running them\<close>

text \<open>
  What becomes of an operation: it goes well, it fails and is undone, or, for a commit, it takes effect
  and its answer is lost (the process dies in between).
\<close>

datatype fate = Fine | Fails | Unheard

text \<open>
  The operations of a run are numbered by the version of the migration and their place in its
  transaction; those before the first migration have the version 0.
\<close>

type_synonym fates = "nat \<Rightarrow> nat \<Rightarrow> fate"

definition no_faults :: fates where "no_faults v i = Fine"

definition applied_rows :: "schema \<Rightarrow> (nat \<times> string) list" where
  "applied_rows d = (case sd_migrations d of None \<Rightarrow> [] | Some rows \<Rightarrow> rows)"

definition appliedVersions :: "schema \<Rightarrow> nat set" where
  "appliedVersions d = set (map fst (applied_rows d))"

fun exec_stmts :: "(nat \<Rightarrow> fate) \<Rightarrow> nat \<Rightarrow> ddl list \<Rightarrow> schema \<Rightarrow> string + schema" where
  "exec_stmts f i [] d = Inr d"
| "exec_stmts f i (s # ss) d =
     (if f i \<noteq> Fine then Inl ''statement failed''
      else case exec_ddl s d of Inl err \<Rightarrow> Inl err | Inr d' \<Rightarrow> exec_stmts f (Suc i) ss d')"

definition applyMigration :: "fates \<Rightarrow> migration \<Rightarrow> schema \<Rightarrow> string option \<times> schema" where
  "applyMigration fs m d =
     (let f = fs (mg_version m); n = length (mg_stmts m)
      in if f 0 \<noteq> Fine then (Some ''beginning transaction'', d)
         else case exec_stmts f 1 (mg_stmts m) d of
                Inl err \<Rightarrow> (Some err, d)
              | Inr d1 \<Rightarrow>
                  (if f (n + 1) \<noteq> Fine \<or> mg_version m \<in> appliedVersions d1 then (Some ''recording migration'', d)
                   else let d2 = d1\<lparr>sd_migrations := Some (applied_rows d1 @ [(mg_version m, mg_name m)])\<rparr>
                        in case f (n + 2) of
                             Fine \<Rightarrow> (None, d2)
                           | Fails \<Rightarrow> (Some ''commit'', d)
                           | Unheard \<Rightarrow> (Some ''commit'', d2)))"

text \<open>The loop, with the versions found applied when it began.\<close>

fun migrate_loop :: "fates \<Rightarrow> nat set \<Rightarrow> migration list \<Rightarrow> schema \<Rightarrow> string option \<times> schema" where
  "migrate_loop fs applied [] d = (None, d)"
| "migrate_loop fs applied (m # ms) d =
     (if mg_version m \<in> applied then migrate_loop fs applied ms d
      else case applyMigration fs m d of
             (Some err, d') \<Rightarrow> (Some (''migration '' @ mg_name m @ '': '' @ err), d')
           | (None, d') \<Rightarrow> migrate_loop fs applied ms d')"

definition migrate :: "fates \<Rightarrow> schema \<Rightarrow> string option \<times> schema" where
  "migrate fs d =
     (let d1 = d\<lparr>sd_migrations := Some (applied_rows d)\<rparr>
      in case fs 0 0 of
           Fails \<Rightarrow> (Some ''creating schema_migrations'', d)
         | Unheard \<Rightarrow> (Some ''creating schema_migrations'', d1)
         | Fine \<Rightarrow> (if fs 0 1 \<noteq> Fine then (Some ''reading applied migrations'', d1)
                    else migrate_loop fs (appliedVersions d1) migrations d1))"

definition SchemaVersion :: "schema \<Rightarrow> nat" where
  "SchemaVersion d = foldr max (map fst (applied_rows d)) 0"

section \<open>An interrupted run is resumed\<close>

lemma exec_ddl_applied: "exec_ddl s d = Inr d' \<Longrightarrow> applied_rows d' = applied_rows d"
  by (cases "(s, d)" rule: exec_ddl.cases) (auto simp: applied_rows_def split: option.splits if_splits)

lemma exec_stmts_applied: "exec_stmts f i ss d = Inr d' \<Longrightarrow> applied_rows d' = applied_rows d"
  by (induction f i ss d rule: exec_stmts.induct) (auto dest: exec_ddl_applied split: if_splits sum.splits)

lemma exec_stmts_no_faults: "exec_stmts f i ss d = Inr d' \<Longrightarrow> exec_stmts (no_faults v) j ss d = Inr d'"
  by (induction f i ss d arbitrary: j rule: exec_stmts.induct) (auto simp: no_faults_def split: if_splits sum.splits)

text \<open>A migration whose transaction did not commit leaves no trace; one that did is the unhindered one.\<close>

lemma applyMigration_cases:
  assumes "applyMigration fs m d = (e, d')"
  obtains "e \<noteq> None" "d' = d"
  | "applyMigration no_faults m d = (None, d')" "mg_version m \<notin> appliedVersions d"
      "appliedVersions d' = insert (mg_version m) (appliedVersions d)"
proof (cases "exec_stmts (fs (mg_version m)) 1 (mg_stmts m) d")
  case (Inl err)
  then show thesis using assms that(1) by (auto simp: applyMigration_def Let_def split: if_splits)
next
  case (Inr d1)
  let ?d2 = "d1\<lparr>sd_migrations := Some (applied_rows d1 @ [(mg_version m, mg_name m)])\<rparr>"
  have v: "appliedVersions d1 = appliedVersions d" using exec_stmts_applied [OF Inr] by (simp add: appliedVersions_def)
  show thesis
  proof (cases "d' = d \<and> e \<noteq> None")
    case True
    then show thesis using that(1) by blast
  next
    case False
    then have d': "d' = ?d2" "mg_version m \<notin> appliedVersions d1"
      using assms Inr by (auto simp: applyMigration_def Let_def split: if_splits fate.splits)
    have "applyMigration no_faults m d = (None, ?d2)"
      using exec_stmts_no_faults [OF Inr] d'(2) by (simp add: applyMigration_def Let_def no_faults_def)
    moreover have "appliedVersions ?d2 = insert (mg_version m) (appliedVersions d1)"
      by (auto simp: appliedVersions_def applied_rows_def)
    ultimately show thesis using that(2) d' v by simp
  qed
qed

lemma migrate_loop_cong:
  "(\<And>m. m \<in> set ms \<Longrightarrow> mg_version m \<in> A \<longleftrightarrow> mg_version m \<in> B) \<Longrightarrow> migrate_loop fs A ms d = migrate_loop fs B ms d"
proof (induction ms arbitrary: d)
  case (Cons m ms)
  then have "migrate_loop fs A ms x = migrate_loop fs B ms x" for x by simp
  with Cons.prems [of m] show ?case by (simp split: prod.split option.split)
qed simp

lemma migrate_loop_monotone: "migrate_loop fs A ms d = (e, d') \<Longrightarrow> appliedVersions d \<subseteq> appliedVersions d'"
proof (induction ms arbitrary: d)
  case (Cons m ms)
  obtain f d1 where a: "applyMigration fs m d = (f, d1)" by fastforce
  then have sub: "appliedVersions d \<subseteq> appliedVersions d1" by (rule applyMigration_cases) auto
  show ?case
  proof (cases "mg_version m \<in> A")
    case True
    then show ?thesis using Cons by simp
  next
    case False
    then show ?thesis using Cons a sub by (cases f) force+
  qed
qed simp

text \<open>What an interrupted loop has done is the beginning of the unhindered one, which goes on from there.\<close>

lemma migrate_loop_prefix:
  assumes "migrate_loop fs A ms d = (e, d')"
  shows "\<exists>n. migrate_loop no_faults A (take n ms) d = (None, d')"
  using assms
proof (induction ms arbitrary: d)
  case (Cons m ms)
  show ?case
  proof (cases "mg_version m \<in> A")
    case True
    then obtain n where "migrate_loop no_faults A (take n ms) d = (None, d')" using Cons by auto
    then show ?thesis using True by (intro exI [of _ "Suc n"]) simp
  next
    case False
    obtain f d1 where a: "applyMigration fs m d = (f, d1)" by fastforce
    show ?thesis
    proof (cases rule: applyMigration_cases [OF a])
      case 1
      then have "d' = d" using Cons.prems False a by auto
      then show ?thesis by (intro exI [of _ 0]) simp
    next
      case 2
      show ?thesis
      proof (cases f)
        case None
        then obtain n where "migrate_loop no_faults A (take n ms) d1 = (None, d')" using Cons False a by auto
        then show ?thesis using 2 False by (intro exI [of _ "Suc n"]) simp
      next
        case (Some err)
        then have "d' = d1" using Cons.prems False a by auto
        then show ?thesis using 2 False by (intro exI [of _ "Suc 0"]) simp
      qed
    qed
  qed
qed simp

lemma migrate_loop_resumes:
  assumes "migrate_loop fs A ms d = (e, d')" and "migrate_loop no_faults A ms d = (None, goal)"
    and "\<And>m. m \<in> set ms \<Longrightarrow> mg_version m \<in> A \<longleftrightarrow> mg_version m \<in> appliedVersions d"
    and "distinct (map mg_version ms)"
  shows "migrate_loop no_faults (appliedVersions d') ms d' = (None, goal)"
  using assms
proof (induction ms arbitrary: d)
  case (Cons m ms)
  show ?case
  proof (cases "mg_version m \<in> A")
    case True
    then have "mg_version m \<in> appliedVersions d'"
      using Cons.prems(3) [of m] migrate_loop_monotone [OF Cons.prems(1)] by auto
    moreover have "migrate_loop no_faults (appliedVersions d') ms d' = (None, goal)"
      using Cons.IH [of d] Cons.prems True by simp
    ultimately show ?thesis by simp
  next
    case False
    obtain f d1 where a: "applyMigration fs m d = (f, d1)" by fastforce
    show ?thesis
    proof (cases rule: applyMigration_cases [OF a])
      case 1
      then have "d' = d" using Cons.prems(1) False a by auto
      then show ?thesis using Cons.prems(2,3) migrate_loop_cong [of "m # ms" A "appliedVersions d"] by metis
    next
      case 2
      have rest: "migrate_loop no_faults A ms d1 = (None, goal)" using Cons.prems(2) False 2(1) by simp
      have agree: "mg_version n \<in> A \<longleftrightarrow> mg_version n \<in> appliedVersions d1" if "n \<in> set ms" for n
        using Cons.prems(3) [of n] Cons.prems(4) that 2(3) by (auto simp: image_iff)
      have "\<exists>f'. migrate_loop fs A ms d1 = (f', d') \<or> d' = d1" and sub: "appliedVersions d1 \<subseteq> appliedVersions d'"
        using Cons.prems(1) False a migrate_loop_monotone [of fs A ms d1 e d'] by (cases f; auto)+
      then have "migrate_loop no_faults (appliedVersions d') ms d' = (None, goal)"
        using Cons.IH [of d1] rest agree Cons.prems(4) migrate_loop_cong [of ms A "appliedVersions d1"] a Cons.prems(1) False
        by (cases f) auto
      then show ?thesis using sub 2(3) by auto
    qed
  qed
qed simp

lemma distinct_versions: "distinct (map mg_version migrations)"
  by (simp add: migrations_def)

lemma table_made: "applied_rows (d\<lparr>sd_migrations := Some (applied_rows d)\<rparr>) = applied_rows d"
  by (simp add: applied_rows_def)

lemma migrate_no_faults:
  "migrate no_faults d = migrate_loop no_faults (appliedVersions d) migrations (d\<lparr>sd_migrations := Some (applied_rows d)\<rparr>)"
  by (simp add: migrate_def no_faults_def appliedVersions_def table_made)

lemma migrate_loop_table: "migrate_loop fs A ms x = (e, y) \<Longrightarrow> sd_migrations x \<noteq> None \<Longrightarrow> sd_migrations y \<noteq> None"
proof (induction ms arbitrary: x)
  case (Cons m ms)
  obtain f x1 where a: "applyMigration fs m x = (f, x1)" by fastforce
  have "sd_migrations x1 \<noteq> None"
    using a Cons.prems(2) by (auto simp: applyMigration_def Let_def split: if_splits sum.splits fate.splits)
  then show ?case using Cons a by (cases f) (simp_all split: if_splits)
qed simp

lemma migrate_once_resumes:
  assumes "migrate no_faults d = (None, goal)"
  shows "migrate no_faults (snd (migrate fs d)) = (None, goal)"
proof -
  let ?d1 = "d\<lparr>sd_migrations := Some (applied_rows d)\<rparr>"
  obtain e d' where m: "migrate fs d = (e, d')" by fastforce
  have v: "appliedVersions ?d1 = appliedVersions d" by (simp add: appliedVersions_def table_made)
  have same: "migrate no_faults ?d1 = migrate no_faults d" by (simp add: migrate_no_faults v table_made)
  consider "d' = d" | "d' = ?d1" | "migrate_loop fs (appliedVersions ?d1) migrations ?d1 = (e, d')"
    using m by (auto simp: migrate_def Let_def split: fate.splits if_splits)
  then show ?thesis
  proof cases
    case 3
    have "migrate_loop no_faults (appliedVersions ?d1) migrations ?d1 = (None, goal)" using assms v by (simp add: migrate_no_faults)
    then have go: "migrate_loop no_faults (appliedVersions d') migrations d' = (None, goal)"
      using migrate_loop_resumes [OF 3 _ _ distinct_versions] by simp
    have "sd_migrations d' \<noteq> None" using migrate_loop_table [OF 3] by simp
    then have "d'\<lparr>sd_migrations := Some (applied_rows d')\<rparr> = d'" by (force simp: applied_rows_def)
    then show ?thesis using go m by (simp add: migrate_no_faults)
  qed (use assms same m in simp_all)
qed

text \<open>What some number of whole migrations leave, from \<open>d\<close> on.\<close>

definition whole_migrations :: "schema \<Rightarrow> schema \<Rightarrow> bool" where
  "whole_migrations d x \<longleftrightarrow> x = d \<or>
     (\<exists>n. migrate_loop no_faults (appliedVersions d) (take n migrations) (d\<lparr>sd_migrations := Some (applied_rows d)\<rparr>) = (None, x))"

lemma migrate_whole: "whole_migrations d (snd (migrate fs d))"
proof -
  let ?d1 = "d\<lparr>sd_migrations := Some (applied_rows d)\<rparr>"
  obtain e d' where m: "migrate fs d = (e, d')" by fastforce
  have v: "appliedVersions ?d1 = appliedVersions d" by (simp add: appliedVersions_def table_made)
  consider "d' = d" | "d' = ?d1" | "migrate_loop fs (appliedVersions d) migrations ?d1 = (e, d')"
    using m v by (auto simp: migrate_def Let_def split: fate.splits if_splits)
  then show ?thesis
  proof cases
    case 2
    then show ?thesis using m by (auto simp: whole_migrations_def intro: exI [of _ 0])
  next
    case 3
    from migrate_loop_prefix [OF 3] show ?thesis using m by (simp add: whole_migrations_def)
  qed (use m in \<open>simp add: whole_migrations_def\<close>)
qed

text \<open>
  C35. An upgrade can be cut short and resumed. However many attempts end in an error or with the death of the
  process, at whatever statement, the first attempt nothing hinders brings the database to the schema it
  would have reached at once; and each attempt, hindered or not, leaves exactly what some number of whole
  migrations leave.
\<close>

theorem interrupted_migration_resumes:
  assumes "migrate no_faults d = (None, goal)"
  shows "migrate no_faults (foldl (\<lambda>x fs. snd (migrate fs x)) d attempts) = (None, goal) \<and>
    whole_migrations x (snd (migrate fs x))"
  using assms migrate_once_resumes migrate_whole by (induction attempts arbitrary: d) auto

lemma fresh_database: "fst (migrate no_faults emptySchema) = None \<and> SchemaVersion (snd (migrate no_faults emptySchema)) = 8"
  by code_simp

end
