(* ===== verification/Durability.thy ===== *)
theory Durability
  imports Migrations Executor
begin

text \<open>
  The file under the database (\<open>internal/state/durability.go\<close>, \<open>Open\<close> in \<open>db.go\<close>): SQLite's write-ahead
  log, the durable write that has it flushed, \<open>Sync\<close>, and the opening of the file with its permissions.
  The engine's model of a write (\<open>Executor.db_write\<close>, \<open>db_write_durable\<close>) is shown to be a safe
  description of it: whatever a power cut leaves of the log is among what the engine reckons with.
\<close>

section \<open>The log\<close>

text \<open>
  What the log holds: the last content that is on the disk for certain and those committed since, which
  are not flushed one by one under \<open>synchronous = NORMAL\<close>.
\<close>

datatype synchronous = FULL | NORMAL

record 'd wal =
  wl_synchronous :: synchronous
  wl_flushed :: 'd
  wl_pending :: "'d list"

definition latest :: "'d wal \<Rightarrow> 'd" where
  "latest w = (if wl_pending w = [] then wl_flushed w else last (wl_pending w))"

text \<open>What a power cut may leave.\<close>

definition survivors :: "'d wal \<Rightarrow> 'd list" where
  "survivors w = wl_flushed w # wl_pending w"

definition checkpoint :: "'d wal \<Rightarrow> 'd wal" where
  "checkpoint w = w\<lparr>wl_flushed := latest w, wl_pending := []\<rparr>"

definition commit :: "('d \<Rightarrow> 'd) \<Rightarrow> 'd wal \<Rightarrow> 'd wal" where
  "commit f w =
     (case wl_synchronous w of
        NORMAL \<Rightarrow> w\<lparr>wl_pending := wl_pending w @ [f (latest w)]\<rparr>
      | FULL \<Rightarrow> w\<lparr>wl_flushed := f (latest w), wl_pending := []\<rparr>)"

section \<open>Durably and Sync (durability.go)\<close>

text \<open>
  The four calls that may fail: getting the connection, raising \<open>synchronous\<close>, the write itself and the
  restoring of the default, which is tried even after a failed write.
\<close>

record durably_calls =
  dc_conn :: bool
  dc_raise :: bool
  dc_write :: bool
  dc_restore :: bool

definition Durably :: "durably_calls \<Rightarrow> ('d \<Rightarrow> 'd) \<Rightarrow> 'd wal \<Rightarrow> string option \<times> 'd wal" where
  "Durably c f w =
     (if \<not> dc_conn c then (Some ''acquiring a connection for a durable write'', w)
      else if \<not> dc_raise c then (Some ''raising durability'', w)
      else let w1 = w\<lparr>wl_synchronous := FULL\<rparr>;
               w2 = (if dc_write c then commit f w1 else w1);
               writeErr = (if dc_write c then None else Some ''write failed'')
           in if dc_restore c then (writeErr, w2\<lparr>wl_synchronous := NORMAL\<rparr>)
              else if writeErr = None then (Some ''restoring durability'', w2)
              else (writeErr, w2))"

definition Sync :: "bool \<Rightarrow> 'd wal \<Rightarrow> string option \<times> 'd wal" where
  "Sync ok w = (if ok then (None, checkpoint w) else (Some ''checkpointing write-ahead log'', w))"

definition SaveIntentDurable :: "durably_calls \<Rightarrow> Intent \<Rightarrow> DB wal \<Rightarrow> string option \<times> DB wal" where
  "SaveIntentDurable c it = Durably c (SaveIntent it)"

definition SaveSequenceDurable :: "durably_calls \<Rightarrow> Sequence \<Rightarrow> DB wal \<Rightarrow> string option \<times> DB wal" where
  "SaveSequenceDurable c seq = Durably c (SaveSequence seq)"

lemmas wal_defs = latest_def survivors_def checkpoint_def commit_def

text \<open>A durable write that reports success is on the disk, and the connection is back to the default.\<close>

lemma Durably_success:
  assumes "Durably c f w = (None, w')"
  shows "survivors w' = [f (latest w)]" and "wl_synchronous w' = NORMAL"
  using assms by (auto simp: Durably_def wal_defs Let_def split: if_splits)

text \<open>
  It is the only way back: when the restoring fails (it runs under the context of the write, so it fails
  whenever that has been cancelled meanwhile) the only connection stays at \<open>FULL\<close>, for later plain
  writes too.
\<close>

lemma Durably_stays_full:
  "dc_conn c \<Longrightarrow> dc_raise c \<Longrightarrow> \<not> dc_restore c \<Longrightarrow>
     wl_synchronous (snd (Durably c f w)) = FULL \<and> wl_pending (commit g (snd (Durably c f w))) = []"
  by (auto simp: Durably_def wal_defs Let_def split: synchronous.splits)

section \<open>The engine's writes describe the log\<close>

datatype wal_op =
    PlainWrite bool "DB \<Rightarrow> DB"
  | DurableWrite durably_calls "DB \<Rightarrow> DB"
  | AutoCheckpoint
  | SyncCall bool

text \<open>What happens to the log, and what the engine takes to have happened.\<close>

fun wal_step :: "DB wal \<Rightarrow> wal_op \<Rightarrow> DB wal" where
  "wal_step w (PlainWrite ok f) = (if ok then commit f w else w)"
| "wal_step w (DurableWrite c f) = snd (Durably c f w)"
| "wal_step w AutoCheckpoint = checkpoint w"
| "wal_step w (SyncCall ok) = snd (Sync ok w)"

fun engine_step :: "Executor \<Rightarrow> wal_op \<Rightarrow> Executor" where
  "engine_step e (PlainWrite ok f) = db_write ok f e"
| "engine_step e (DurableWrite c f) = db_write_durable (dc_conn c \<and> dc_raise c \<and> dc_write c) f e"
| "engine_step e AutoCheckpoint = e"
| "engine_step e (SyncCall ok) = e"

definition represents :: "DB wal \<Rightarrow> Executor \<Rightarrow> bool" where
  "represents w e \<longleftrightarrow> latest w = e_db e \<and> e_db e \<in> set (e_disk e) \<and> set (survivors w) \<subseteq> set (e_disk e) \<and> \<not> e_cancelled e"

lemma represents_step: "represents w e \<Longrightarrow> represents (wal_step w op) (engine_step e op)"
proof (cases op)
  case (PlainWrite ok f)
  then show "represents w e \<Longrightarrow> ?thesis"
    by (cases "wl_synchronous w") (auto simp: represents_def wal_defs db_write_def emit_def)
next
  case (DurableWrite c f)
  then show "represents w e \<Longrightarrow> ?thesis"
    by (cases "dc_conn c"; cases "dc_raise c"; cases "dc_write c"; cases "dc_restore c")
      (auto simp: represents_def Durably_def Let_def wal_defs db_write_durable_def emit_def)
next
  case AutoCheckpoint
  then show "represents w e \<Longrightarrow> ?thesis" by (auto simp: represents_def wal_defs split: if_splits)
next
  case (SyncCall ok)
  then show "represents w e \<Longrightarrow> ?thesis" by (auto simp: represents_def Sync_def wal_defs split: if_splits)
qed

text \<open>
  C32. The model of the disk the engine's proofs rest on is refined by the log: after any sequence of plain and
  durable writes, whichever of their calls fail and whenever SQLite checkpoints, the database holds what
  the engine takes it to hold, and everything a power cut can leave of the log is among the contents the
  engine reckons with.
\<close>

theorem log_refines_disk:
  assumes "represents w e"
  shows "latest (foldl wal_step w ops) = e_db (foldl engine_step e ops) \<and>
    set (survivors (foldl wal_step w ops)) \<subseteq> set (e_disk (foldl engine_step e ops))"
proof -
  have "represents (foldl wal_step w ops) (foldl engine_step e ops)"
    using assms by (induction ops arbitrary: w e) (auto intro: represents_step)
  then show ?thesis by (simp add: represents_def)
qed

section \<open>Opening the database (db.go)\<close>

definition dataDirMode :: nat where "dataDirMode = 7 * 64"
definition dbFileMode :: nat where "dbFileMode = 6 * 64"
definition busyTimeoutMS :: nat where "busyTimeoutMS = 5000"

text \<open>
  The files under the data directory with their permission bits, and the schema in the database file.
  \<open>oc_chmod\<close> says whether a change of permissions goes well.
\<close>

record data_dir =
  dd_modes :: "string \<rightharpoonup> nat"
  dd_schema :: schema

record open_calls =
  oc_mkdir :: bool
  oc_open :: bool
  oc_ping :: bool
  oc_fates :: fates
  oc_chmod :: "string \<Rightarrow> bool"

text \<open>The bits of group and others, \<open>perm & 0o077\<close>.\<close>

definition open_bits :: "nat \<Rightarrow> nat" where "open_bits perm = perm mod 64"

definition checkDataDirPermissions :: "nat option \<Rightarrow> nat option" where
  "checkDataDirPermissions stat =
     (case stat of None \<Rightarrow> None | Some perm \<Rightarrow> (if open_bits perm = 0 then None else Some perm))"

text \<open>The loop over the file and its two siblings; a file that does not exist is no error.\<close>

fun chmod_files :: "(string \<Rightarrow> bool) \<Rightarrow> string list \<Rightarrow> (string \<rightharpoonup> nat) \<Rightarrow> string option \<times> (string \<rightharpoonup> nat)" where
  "chmod_files ok [] m = (None, m)"
| "chmod_files ok (p # ps) m =
     (if m p = None then chmod_files ok ps m
      else if \<not> ok p then (Some (''restricting permissions on '' @ p), m)
      else chmod_files ok ps (m(p \<mapsto> dbFileMode)))"

definition db_files :: "string list" where
  "db_files = [''state.db'', ''state.db-wal'', ''state.db-shm'']"

text \<open>
  \<open>Open\<close>: the directory is made with \<open>dataDirMode\<close> if it is not there; the ping creates the file.
  The answer is the warning about a directory open to others, if any.
\<close>

definition Open :: "open_calls \<Rightarrow> data_dir \<Rightarrow> (string + nat option) \<times> data_dir" where
  "Open c d =
     (if \<not> oc_mkdir c then (Inl ''creating data dir'', d)
      else let d1 = (if dd_modes d ''.'' = None then d\<lparr>dd_modes := (dd_modes d)(''.'' \<mapsto> dataDirMode)\<rparr> else d)
      in if \<not> oc_open c then (Inl ''opening database'', d1)
      else if \<not> oc_ping c then (Inl ''opening database at state.db'', d1)
      else let d2 = (if dd_modes d1 ''state.db'' = None then d1\<lparr>dd_modes := (dd_modes d1)(''state.db'' \<mapsto> 6 * 64 + 4 * 8 + 4)\<rparr> else d1)
      in case migrate (oc_fates c) (dd_schema d2) of
           (Some err, s) \<Rightarrow> (Inl (''migrating database: '' @ err), d2\<lparr>dd_schema := s\<rparr>)
         | (None, s) \<Rightarrow>
             (case chmod_files (oc_chmod c) db_files (dd_modes d2) of
                (Some err, m) \<Rightarrow> (Inl err, d2\<lparr>dd_schema := s, dd_modes := m\<rparr>)
              | (None, m) \<Rightarrow> (Inr (checkDataDirPermissions (m ''.'')), d2\<lparr>dd_schema := s, dd_modes := m\<rparr>)))"

lemma chmod_files_outcome:
  "chmod_files ok ps m = (None, m') \<Longrightarrow>
     m' = (\<lambda>p. if p \<in> set ps \<and> m p \<noteq> None then Some dbFileMode else m p)"
proof (induction ok ps m rule: chmod_files.induct)
  case (2 ok q qs m)
  show ?case
  proof (cases "m q = None")
    case True
    then show ?thesis using 2 by (auto simp: fun_eq_iff)
  next
    case False
    then have "m' = (\<lambda>p. if p \<in> set qs \<and> (m(q \<mapsto> dbFileMode)) p \<noteq> None then Some dbFileMode else (m(q \<mapsto> dbFileMode)) p)"
      using "2.IH"(2) "2.prems" False by (simp del: fun_upd_apply split: if_splits)
    then show ?thesis using False by (auto simp: fun_eq_iff)
  qed
qed simp

text \<open>After \<open>Open\<close> the password hash, the sessions and the tokens are in files only their owner can read.\<close>

lemma opened_files_private:
  assumes "Open c d = (Inr warning, d')" and "p \<in> set db_files"
  shows "case dd_modes d' p of None \<Rightarrow> True | Some perm \<Rightarrow> open_bits perm = 0"
proof -
  obtain m m' where "chmod_files (oc_chmod c) db_files m = (None, m')" "dd_modes d' = m'"
    using assms(1) by (auto simp: Open_def Let_def split: if_splits prod.splits option.splits)
  then show ?thesis using chmod_files_outcome [of "oc_chmod c" db_files m m'] assms(2)
    by (auto simp: open_bits_def dbFileMode_def)
qed

end
