(* ===== verification/Doctor.thy ===== *)
theory Doctor
  imports Appliances Journal
begin

text \<open>
  The live preflight checks (\<open>internal/doctor/doctor.go\<close>, \<open>mac.go\<close>): what each check finds, and the
  report. What the checks contact is a parameter. The time a check took is not in the model.
\<close>

section \<open>Checks and reports\<close>

datatype Status = StatusOK | StatusWarn | StatusFail | StatusSkip

fun Status_String :: "Status \<Rightarrow> string" where
  "Status_String StatusOK = ''OK''"
| "Status_String StatusWarn = ''WARN''"
| "Status_String StatusFail = ''FAIL''"
| "Status_String StatusSkip = ''SKIP''"

record Check =
  ck_Subject :: string
  ck_Name :: string
  ck_Status :: Status
  ck_Detail :: string

abbreviation check :: "string \<Rightarrow> string \<Rightarrow> Status \<Rightarrow> string \<Rightarrow> Check" where
  "check subject name st detail \<equiv> \<lparr>ck_Subject = subject, ck_Name = name, ck_Status = st, ck_Detail = detail\<rparr>"

definition Report_Add :: "Check list \<Rightarrow> Check \<Rightarrow> Check list" where
  "Report_Add r c = r @ [c]"

definition Report_Counts :: "Check list \<Rightarrow> Status \<Rightarrow> nat" where
  "Report_Counts r st = length (filter (\<lambda>c. ck_Status c = st) r)"

definition HasFailures :: "Check list \<Rightarrow> bool" where
  "HasFailures r \<longleftrightarrow> list_ex (\<lambda>c. ck_Status c = StatusFail) r"

record Options =
  op_Timeout :: duration
  op_SourceSettle :: duration
  op_Concurrency :: int

definition DefaultOptions :: Options where
  "DefaultOptions = \<lparr>op_Timeout = 5 * Second, op_SourceSettle = 20 * Second, op_Concurrency = 8\<rparr>"

text \<open>The options as \<open>New\<close> completes them.\<close>

definition doctor_New :: "Options \<Rightarrow> Options" where
  "doctor_New o' =
     \<lparr>op_Timeout = (if op_Timeout o' \<le> 0 then op_Timeout DefaultOptions else op_Timeout o'),
      op_SourceSettle = (if op_SourceSettle o' \<le> 0 then op_SourceSettle DefaultOptions else op_SourceSettle o'),
      op_Concurrency = (if op_Concurrency o' \<le> 0 then op_Concurrency DefaultOptions else op_Concurrency o')\<rparr>"

section \<open>What is contacted\<close>

datatype stat_answer = NotExist | StatError string | IsDir nat | IsFile nat

text \<open>
  \<open>dw_createTemp\<close> is the error of creating a file in a directory, \<open>dw_errText\<close> the text of a probe's
  error, \<open>dw_duration\<close> how Go prints a duration.
\<close>

record doctor_world =
  dw_stat :: "string \<Rightarrow> stat_answer"
  dw_createTemp :: "string \<Rightarrow> string option"
  dw_lookupHost :: "string \<Rightarrow> string + string list"
  dw_probe :: probe_world
  dw_errText :: "probe_error \<Rightarrow> string"
  dw_macs :: mac_world
  dw_now :: instant
  dw_duration :: "duration \<Rightarrow> string"

text \<open>
  A source as it behaves when it is started: its instances, its error at the start, the keys of the
  updates it delivers before the deadline, and its error when it is stopped.
\<close>

record tried_source =
  ts_Name :: string
  ts_Instances :: "string list"
  ts_start :: "string option"
  ts_updates :: "string list"
  ts_stop :: "string option"

text \<open>\<open>%q\<close> on a text of printable characters and ASCII controls.\<close>

definition quote_char :: "char \<Rightarrow> string" where
  "quote_char c =
     (if c = CHR 0x22 \<or> c = CHR 0x5C then [CHR 0x5C, c]
      else if c = CHR 0x07 then [CHR 0x5C, CHR ''a'']
      else if c = CHR 0x08 then [CHR 0x5C, CHR ''b'']
      else if c = CHR 0x0C then [CHR 0x5C, CHR ''f'']
      else if c = CHR 0x0A then [CHR 0x5C, CHR ''n'']
      else if c = CHR 0x0D then [CHR 0x5C, CHR ''r'']
      else if c = CHR 0x09 then [CHR 0x5C, CHR ''t'']
      else if c = CHR 0x0B then [CHR 0x5C, CHR ''v'']
      else if (of_char c :: nat) < 32 \<or> c = CHR 0x7F
      then [CHR 0x5C, CHR ''x'', hex_digit (of_char c div 16), hex_digit (of_char c mod 16)]
      else [c])"

definition strconv_Quote :: "string \<Rightarrow> string" where
  "strconv_Quote s = CHR 0x22 # concat (map quote_char s) @ [CHR 0x22]"

definition client_subject :: "ClientConfig \<Rightarrow> string" where
  "client_subject c = ''client '' @ strconv_Quote (cl_Name c)"

section \<open>The daemon's own files\<close>

definition checkDataDir :: "doctor_world \<Rightarrow> Config \<Rightarrow> Check list" where
  "checkDataDir w cfg =
     (let dir = ca_DataDir (cf_Canarium cfg)
      in [case dw_stat w dir of
            NotExist \<Rightarrow> check ''canarium'' ''data_dir'' StatusWarn (dir @ '' does not exist; it will be created at startup'')
          | StatError err \<Rightarrow> check ''canarium'' ''data_dir'' StatusFail (''cannot stat '' @ dir @ '': '' @ err)
          | IsFile _ \<Rightarrow> check ''canarium'' ''data_dir'' StatusFail (dir @ '' is not a directory'')
          | IsDir _ \<Rightarrow>
              (case dw_createTemp w dir of
                 Some err \<Rightarrow> check ''canarium'' ''data_dir'' StatusFail (dir @ '' is not writable: '' @ err)
               | None \<Rightarrow> check ''canarium'' ''data_dir'' StatusOK (dir @ '' is writable''))])"

fun show_octal :: "nat \<Rightarrow> string" where
  "show_octal n = (if n < 8 then show_nat n else show_octal (n div 8) @ show_nat (n mod 8))"

declare show_octal.simps [simp del]

definition checkSSHKey :: "doctor_world \<Rightarrow> Config \<Rightarrow> Check list" where
  "checkSSHKey w cfg =
     (let path = ssh_KeyPath (cf_SSH cfg); ssh_check = check ''transport ssh'' ''key_path'';
          readable = (\<lambda>perm. if perm mod 64 \<noteq> 0
            then ssh_check StatusWarn (path @ '' is mode '' @ show_octal perm @ ''; a private key should not be group- or world-readable'')
            else ssh_check StatusOK (path @ '' is readable''))
      in if \<not> list_ex (\<lambda>c. cl_Transport c = ''ssh'') (cf_Clients cfg) then []
         else if path = [] then [ssh_check StatusFail
           ''no key_path configured under transports.ssh, and clients use the ssh transport'']
         else [case dw_stat w path of
                 NotExist \<Rightarrow> ssh_check StatusFail (''cannot read '' @ path @ '': no such file or directory'')
               | StatError err \<Rightarrow> ssh_check StatusFail (''cannot read '' @ path @ '': '' @ err)
               | IsDir perm \<Rightarrow> readable perm
               | IsFile perm \<Rightarrow> readable perm])"

section \<open>Sources\<close>

text \<open>
  The instances heard from: as long as there are fewer of them than expected, one more update is taken.
  An update's instance is what stands before the first dot of its key.
\<close>

definition key_instance :: "string \<Rightarrow> string" where
  "key_instance key = (case Cut key (CHR ''.'') of None \<Rightarrow> key | Some (a, _) \<Rightarrow> a)"

fun collect :: "nat \<Rightarrow> string list \<Rightarrow> string list \<Rightarrow> string list" where
  "collect n seen [] = seen"
| "collect n seen (key # keys) =
     (if length seen < n then collect n (List.insert (key_instance key) seen) keys else seen)"

definition instance_check :: "doctor_world \<Rightarrow> Options \<Rightarrow> string \<Rightarrow> string list \<Rightarrow> string \<Rightarrow> Check" where
  "instance_check w o' subject seen i =
     (if i \<in> set seen then check (subject @ '' / '' @ i) ''facts'' StatusOK ''reporting''
      else check (subject @ '' / '' @ i) ''facts'' StatusFail
        (''no facts received within '' @ dw_duration w (op_SourceSettle o') @
         '' - check the host, port and credentials; the daemon would run blind with every condition '' @
         ''reading this source unavailable''))"

text \<open>\<open>order\<close> is the order in which Go ranges over the map of the expected instances.\<close>

definition checkSource :: "doctor_world \<Rightarrow> Options \<Rightarrow> (string list \<Rightarrow> string list) \<Rightarrow> tried_source \<Rightarrow> Check list" where
  "checkSource w o' order s =
     (let subject = ''source '' @ ts_Name s
      in case ts_start s of
           Some err \<Rightarrow> [check subject ''start'' StatusFail err]
         | None \<Rightarrow>
             (let expected = remdups (ts_Instances s)
              in map (instance_check w o' subject (collect (length expected) [] (ts_updates s))) (order expected) @
                 (case ts_stop s of None \<Rightarrow> [] | Some err \<Rightarrow> [check subject ''stop'' StatusWarn err])))"

definition checkSources :: "doctor_world \<Rightarrow> Options \<Rightarrow> (string list \<Rightarrow> string list) \<Rightarrow> tried_source list \<Rightarrow> Check list" where
  "checkSources w o' order sources =
     (if sources = [] then [check ''sources'' ''configured'' StatusWarn
        ''no sources are configured, so no plan can ever trigger'']
      else concat (map (checkSource w o' order) sources))"

section \<open>The address a client is woken by (mac.go)\<close>

definition staleMACAge :: duration where "staleMACAge = 7 * 24 * Hour"

definition usesWOL :: "ClientConfig \<Rightarrow> bool" where
  "usesWOL c \<longleftrightarrow> (case cl_Wake c of Some k \<Rightarrow> wc_Transport k = ''wol'' | None \<Rightarrow> cl_Transport c = ''wol'')"

definition configuredMAC :: "ClientConfig \<Rightarrow> string" where
  "configuredMAC c = (case cl_Wake c of Some k \<Rightarrow> (if wc_MAC k \<noteq> [] then wc_MAC k else cl_MAC c) | None \<Rightarrow> cl_MAC c)"

text \<open>\<open>int(d.Minutes())\<close> and \<open>int(d.Hours())\<close>, which are computed in floating point.\<close>

definition in_units :: "duration \<Rightarrow> duration \<Rightarrow> rat" where
  "in_units unit d = fl (fl (of_int (d div unit)) + fl (fl (of_int (d mod unit)) / of_int unit))"

definition describeAge :: "duration \<Rightarrow> string" where
  "describeAge age =
     (if age < Minute then ''just now''
      else if age < Hour then show_int \<lfloor>in_units Minute age\<rfloor> @ '' minutes ago''
      else if age < 48 * Hour then show_int \<lfloor>in_units Hour age\<rfloor> @ '' hours ago''
      else show_int \<lfloor>fl (in_units Hour age / 24)\<rfloor> @ '' days ago'')"

text \<open>What the device reports, else what the kernel's neighbour table has.\<close>

definition discoverMACNow :: "(string \<rightharpoonup> Transport) \<Rightarrow> doctor_world \<Rightarrow> ClientConfig \<Rightarrow> string \<times> string" where
  "discoverMACNow transports w c =
     (let neighbour = (let found = mw_neighbour (dw_macs w) (cl_Address c)
            in if found = [] then ([], [])
               else case NormaliseMAC found of Some m \<Rightarrow> (m, ''the neighbour table'') | None \<Rightarrow> ([], []))
      in case transports (cl_Transport c) of
           None \<Rightarrow> neighbour
         | Some t \<Rightarrow>
             (if \<not> tr_Discovers t then neighbour
              else case mw_device (dw_macs w) (cl_Name c) of
                     None \<Rightarrow> neighbour
                   | Some found \<Rightarrow>
                       (case NormaliseMAC found of
                          Some m \<Rightarrow> (m, ''the '' @ cl_Transport c @ '' API'')
                        | None \<Rightarrow> neighbour)))"

text \<open>\<open>learned\<close> is what the daemon has on record.\<close>

definition checkWakeMAC ::
  "(string \<rightharpoonup> Transport) \<Rightarrow> doctor_world \<Rightarrow> (string \<rightharpoonup> LearnedMAC) \<Rightarrow> ClientConfig \<Rightarrow> Check list" where
  "checkWakeMAC transports w learned c =
     (let wake = check (client_subject c) ''wake MAC'';
          search = (case discoverMACNow transports w c of (mac, source) \<Rightarrow>
            if mac \<noteq> [] then wake StatusOK (mac @ '', discovered now from '' @ source @
              ''; the daemon keeps this up to date while the client is up'')
            else wake StatusFail
              ((if (case transports (cl_Transport c) of None \<Rightarrow> False | Some t \<Rightarrow> tr_Discovers t)
                then ''no mac: configured and none could be discovered. Wake-on-LAN cannot run for this client''
                else ''no mac: configured, and the '' @ cl_Transport c @
                  '' transport cannot report one. Wake-on-LAN cannot run for this client'') @ '' - set mac: on it''))
      in if \<not> usesWOL c then []
         else if configuredMAC c \<noteq> [] then
           [if NormaliseMAC (configuredMAC c) = None
            then wake StatusFail (strconv_Quote (configuredMAC c) @ '' is not a usable hardware address; wake-on-LAN will fail'')
            else wake StatusOK (configuredMAC c @ '', from the configuration file'')]
         else case learned (cl_Name c) of
                Some l \<Rightarrow>
                  (if NormaliseMAC (lm_MAC l) = None then [search]
                   else let age = dw_now w - lm_ConfirmedAt l;
                            detail = lm_MAC l @ '', discovered from '' @ lm_Source l @ '' and last confirmed '' @ describeAge age
                        in [if age > staleMACAge
                            then wake StatusWarn (detail @ ''; the client has not been seen up since. Set mac: to be certain'')
                            else wake StatusOK detail])
              | None \<Rightarrow> [search])"

section \<open>Clients\<close>

definition checkResolves :: "doctor_world \<Rightarrow> string \<Rightarrow> string \<Rightarrow> Check" where
  "checkResolves w subject address =
     (if net_ParseIP address \<noteq> None then check subject ''address'' StatusOK (address @ '' is a literal address'')
      else case dw_lookupHost w address of
             Inl err \<Rightarrow> check subject ''address'' StatusFail (address @ '' does not resolve: '' @ err @
               ''. During an outage DNS may be down too; consider a literal address.'')
           | Inr addrs \<Rightarrow> check subject ''address'' StatusWarn (address @ '' resolves to '' @
               concat (map (\<lambda>(i, a). (if i = 0 then [] else '', '') @ a) (enumerate 0 addrs)) @
               '', but DNS may itself be unavailable during an outage; a literal address is more robust''))"

definition checkCredentials :: "ClientConfig \<Rightarrow> Check list" where
  "checkCredentials c =
     (let cred = check (client_subject c) ''credentials''
      in if cl_Transport c \<notin> {''proxmox'', ''truenas'', ''opnsense''} then []
         else if TrimSpace (cl_Credentials c) = []
         then [cred StatusFail (''the '' @ cl_Transport c @ '' transport requires credentials and none are set'')]
         else if tls_InsecureSkipVerify (TLSOptionsFrom (cl_Config c))
         then [cred StatusWarn ''configured, but TLS verification is disabled for this client; credentials can be captured by an on-path attacker'']
         else [cred StatusOK ''configured''])"

definition doctor_probePort :: "ClientConfig \<Rightarrow> int" where
  "doctor_probePort c = (case cl_Probe c of Some p \<Rightarrow> pr_Port p | None \<Rightarrow> 0)"

text \<open>The client a probe is given: its name, address and settings, and nothing else.\<close>

definition probed_client :: "rt \<Rightarrow> Options \<Rightarrow> ClientConfig \<Rightarrow> Client" where
  "probed_client rt o' c =
     \<lparr>ec_Name = cl_Name c, ec_Description = [], ec_Transport = [], ec_Address = cl_Address c, ec_MAC = [],
      ec_Credentials = [], ec_Tags = [], ec_Feeds = [], ec_FeedPolicy = FeedPolicyAny, ec_ShutdownBudget = 0,
      ec_WakePolicy = WakePolicyPowerState, ec_DependsOn = [], ec_After = [], ec_Before = [],
      ec_ProbeConfig = \<lparr>ep_Method = [], ep_Port = doctor_probePort c,
        ep_Timeout = (case cl_Probe c of None \<Rightarrow> op_Timeout o'
          | Some p \<Rightarrow> duration_or rt (pr_Timeout p) (op_Timeout o'))\<rparr>,
      ec_WakeConfig = None, ec_TransportConfig = cl_Config c, ec_GuardPeriod = 0\<rparr>"

definition checkProbe :: "rt \<Rightarrow> Config \<Rightarrow> doctor_world \<Rightarrow> Options \<Rightarrow> Transport \<Rightarrow> ClientConfig \<Rightarrow> Check" where
  "checkProbe rt cfg w o' t c =
     (let probe = check (client_subject c) ''probe''
      in if ActionProbe \<notin> set (tr_Capabilities t)
         then probe StatusSkip (''the '' @ cl_Transport c @ '' transport cannot probe; shutdown cannot be verified'')
         else case module_Probe rt (cf_SSH cfg) (cl_Transport c) (dw_probe w) (probed_client rt o' c) of
                Inl err \<Rightarrow> probe StatusWarn (''inconclusive: '' @ dw_errText w err @ '' (the host may simply be off)'')
              | Inr s \<Rightarrow> (if s = StateUp then probe StatusOK ''reachable''
                          else probe StatusWarn ''not reachable (expected if the host is currently off)''))"

definition checkClient ::
  "rt \<Rightarrow> Config \<Rightarrow> (string \<rightharpoonup> Transport) \<Rightarrow> doctor_world \<Rightarrow> Options \<Rightarrow> (string \<rightharpoonup> LearnedMAC) \<Rightarrow> ClientConfig \<Rightarrow> Check list" where
  "checkClient rt cfg transports w o' learned c =
     (case transports (cl_Transport c) of
        None \<Rightarrow> [check (client_subject c) ''transport'' StatusFail (''unknown transport '' @ strconv_Quote (cl_Transport c))]
      | Some t \<Rightarrow>
          (if cl_Address c = [] then check (client_subject c) ''address'' StatusWarn ''no address configured''
           else checkResolves w (client_subject c) (cl_Address c)) #
          checkCredentials c @ checkWakeMAC transports w learned c @ [checkProbe rt cfg w o' t c])"

section \<open>The run\<close>

text \<open>
  The clients are checked concurrently, each adding its checks in its own order: what is added is an
  interleaving of the clients' lists.
\<close>

inductive interleaves :: "'a list list \<Rightarrow> 'a list \<Rightarrow> bool" where
  finished: "list_all (\<lambda>xs. xs = []) xss \<Longrightarrow> interleaves xss []"
| add: "i < length xss \<Longrightarrow> xss ! i = x # xs \<Longrightarrow> interleaves (xss[i := xs]) ys \<Longrightarrow> interleaves xss (x # ys)"

definition subject_less :: "Check \<Rightarrow> Check \<Rightarrow> bool" where
  "subject_less a b \<longleftrightarrow> \<not> str_le (ck_Subject b) (ck_Subject a)"

text \<open>
  \<open>Run\<close>, where \<open>added\<close> are the clients' checks as they came in.
\<close>

definition doctor_Run ::
  "doctor_world \<Rightarrow> Config \<Rightarrow> Options \<Rightarrow> (string list \<Rightarrow> string list) \<Rightarrow> tried_source list \<Rightarrow> Check list \<Rightarrow> Check list" where
  "doctor_Run w cfg o' order sources added =
     sort_stable subject_less (checkDataDir w cfg @ checkSSHKey w cfg @ checkSources w o' order sources @ added)"

end
