(* ===== verification/Doctor_Correct.thy ===== *)
theory Doctor_Correct
  imports Doctor Journal_Correct Sequence_Run
begin

text \<open>
  The preflight report does not depend on the order in which the clients answer or Go ranges over a map,
  and a report without failures means that every client woken by a magic packet can be.
\<close>

section \<open>A stable sort is determined by its classes\<close>

context sort_order
begin

definition alike :: "'a \<Rightarrow> 'a \<Rightarrow> bool" where
  "alike a b \<longleftrightarrow> \<not> lt a b \<and> \<not> lt b a"

lemma filter_insert_stable: "filter (alike k) (insert_stable lt x ys) = filter (alike k) (x # ys)"
proof (induction ys)
  case (Cons y ys)
  have "lt y x \<Longrightarrow> alike k x \<Longrightarrow> alike k y \<Longrightarrow> False"
    using neg_trans [of k x y] by (auto simp: alike_def)
  then show ?case using Cons by auto
qed simp

lemma filter_sort_stable: "filter (alike k) (sort_stable lt xs) = filter (alike k) xs"
proof (induction xs)
  case (Cons x xs)
  have "sort_stable lt (x # xs) = insert_stable lt x (sort_stable lt xs)" by (simp add: sort_stable_def)
  then show ?case using Cons filter_insert_stable [of k x "sort_stable lt xs"] by simp
qed (simp add: sort_stable_def)

lemma alike_refl: "alike a a"
  using asym by (auto simp: alike_def)

lemma sorted_determined:
  assumes "sorted_wrt (\<lambda>a b. \<not> lt b a) xs" and "sorted_wrt (\<lambda>a b. \<not> lt b a) ys"
    and "\<And>k. filter (alike k) xs = filter (alike k) ys"
  shows "xs = ys"
  using assms
proof (induction xs arbitrary: ys)
  case Nil
  show ?case
  proof (cases ys)
    case (Cons a zs)
    then show ?thesis using Nil.prems(3) [of a] alike_refl [of a] by simp
  qed simp
next
  case (Cons x xs)
  have "x \<in> set (filter (alike x) (x # xs))" using alike_refl [of x] by simp
  then have "x \<in> set ys" unfolding Cons.prems(3) by simp
  then obtain y zs where ys: "ys = y # zs" by (cases ys) auto
  have "y \<in> set (filter (alike y) ys)" using alike_refl [of y] ys by simp
  then have "y \<in> set (x # xs)" unfolding Cons.prems(3) [symmetric] by (auto split: if_splits)
  then have "\<not> lt y x" using Cons.prems(1) asym by auto
  moreover have "\<not> lt x y" using \<open>x \<in> set ys\<close> Cons.prems(2) ys asym by auto
  ultimately have "alike x y" by (simp add: alike_def)
  then have xy: "x = y" using Cons.prems(3) [of x] alike_refl [of x] ys by simp
  have "filter (alike k) xs = filter (alike k) zs" for k using Cons.prems(3) [of k] ys xy by (cases "alike k x") auto
  then show ?case using Cons ys xy by auto
qed

lemma sort_stable_determined:
  assumes "\<And>k. filter (alike k) xs = filter (alike k) ys"
  shows "sort_stable lt xs = sort_stable lt ys"
  by (rule sorted_determined) (use assms in \<open>simp_all add: sorted_sort_stable filter_sort_stable\<close>)

end

lemma str_le_antisym: "str_le a b \<Longrightarrow> str_le b a \<Longrightarrow> a = b"
proof (induction a b rule: str_le.induct)
  case (1 b)
  then show ?case by (cases b) auto
qed auto

lemma str_le_refl: "str_le a a"
  using str_le_total by blast

interpretation subjects: sort_order subject_less
proof unfold_locales
  fix a b c
  show "\<not> subject_less b a" if "subject_less a b"
    using that str_le_total [of "ck_Subject a" "ck_Subject b"] by (auto simp: subject_less_def)
  show "\<not> subject_less c a" if "\<not> subject_less b a" "\<not> subject_less c b"
    using that str_le_trans [of "ck_Subject a" "ck_Subject b" "ck_Subject c"] by (auto simp: subject_less_def)
qed

lemma subjects_alike: "subjects.alike a b \<longleftrightarrow> ck_Subject a = ck_Subject b"
  using str_le_antisym str_le_refl by (auto simp: subjects.alike_def subject_less_def)

section \<open>Subjects tell clients apart\<close>

lemma hex_digit_inj: "a < 16 \<Longrightarrow> b < 16 \<Longrightarrow> hex_digit a = hex_digit b \<longleftrightarrow> a = b"
  by (metis hex_val_digit option.inject)

text \<open>What reads the first character back.\<close>

definition escaped :: "char \<Rightarrow> char option" where
  "escaped d = map_of
     [(CHR 0x22, CHR 0x22), (CHR 0x5C, CHR 0x5C), (CHR ''a'', CHR 0x07), (CHR ''b'', CHR 0x08), (CHR ''f'', CHR 0x0C),
      (CHR ''n'', CHR 0x0A), (CHR ''r'', CHR 0x0D), (CHR ''t'', CHR 0x09), (CHR ''v'', CHR 0x0B)] d"

definition unquote :: "string \<Rightarrow> char \<times> string" where
  "unquote s =
     (if hd s \<noteq> CHR 0x5C then (hd s, drop 1 s)
      else case escaped (s ! 1) of
             Some c \<Rightarrow> (c, drop 2 s)
           | None \<Rightarrow> (char_of (16 * the (hex_val (s ! 2)) + the (hex_val (s ! 3))), drop 4 s))"

lemma unquote_quote: "unquote (quote_char c @ xs) = (c, xs)"
proof -
  have "(of_char c :: nat) div 16 < 16" "(of_char c :: nat) mod 16 < 16"
    using nat_of_char_less_256 [of c] by (simp_all add: less_mult_imp_div_less)
  then show ?thesis
    by (simp add: unquote_def quote_char_def escaped_def hex_val_digit)
qed

lemma quote_char_prefix_free: "quote_char c @ xs = quote_char d @ ys \<Longrightarrow> c = d \<and> xs = ys"
  using unquote_quote by (metis prod.inject)

lemma quote_char_not_end: "quote_char c @ xs \<noteq> [CHR 0x22]"
  by (simp add: quote_char_def)

lemma concat_quote_inj: "concat (map quote_char s) @ [CHR 0x22] = concat (map quote_char t) @ [CHR 0x22] \<Longrightarrow> s = t"
proof (induction s arbitrary: t)
  case Nil
  then show ?case using quote_char_not_end by (cases t) (auto dest: sym)
next
  case (Cons c s)
  show ?case
  proof (cases t)
    case Nil
    then show ?thesis using Cons.prems quote_char_not_end by simp
  next
    case (Cons d t')
    then have "quote_char c @ concat (map quote_char s) @ [CHR 0x22] = quote_char d @ concat (map quote_char t') @ [CHR 0x22]"
      using Cons.prems by simp
    from quote_char_prefix_free [OF this] show ?thesis using Cons.IH Cons by simp
  qed
qed

lemma client_subject_inj: "client_subject c = client_subject d \<Longrightarrow> cl_Name c = cl_Name d"
  using concat_quote_inj [of "cl_Name c" "cl_Name d"] by (simp add: client_subject_def strconv_Quote_def)

lemma checkWakeMAC_subject: "k \<in> set (checkWakeMAC transports w learned c) \<Longrightarrow> ck_Subject k = client_subject c"
  unfolding checkWakeMAC_def Let_def
  by (cases "discoverMACNow transports w c"; cases "learned (cl_Name c)"; simp split: if_splits)

lemma checkProbe_subject: "ck_Subject (checkProbe rt cfg w o' t c) = client_subject c"
  by (simp add: checkProbe_def Let_def split: sum.split)

lemma checkResolves_subject: "ck_Subject (checkResolves w subject address) = subject"
  by (simp add: checkResolves_def split: sum.split)

lemma checkCredentials_subject: "k \<in> set (checkCredentials c) \<Longrightarrow> ck_Subject k = client_subject c"
  by (simp add: checkCredentials_def Let_def split: if_splits)

lemma checkClient_subject: "k \<in> set (checkClient rt cfg transports w o' learned c) \<Longrightarrow> ck_Subject k = client_subject c"
  unfolding checkClient_def
  by (cases "transports (cl_Transport c)"; cases "cl_Address c = []")
    (auto simp: checkProbe_subject checkResolves_subject dest: checkWakeMAC_subject checkCredentials_subject)

section \<open>The order of the answers does not matter\<close>

lemma update_member:
  assumes "i < length xss" and "xss ! i = x # xs"
  shows "(\<exists>j < length xss. z \<in> set (xss ! j)) \<longleftrightarrow> z = x \<or> (\<exists>j < length xss. z \<in> set (xss[i := xs] ! j))"
proof
  assume "\<exists>j < length xss. z \<in> set (xss ! j)"
  then obtain j where j: "j < length xss" "z \<in> set (xss ! j)" by blast
  then show "z = x \<or> (\<exists>j < length xss. z \<in> set (xss[i := xs] ! j))"
    using assms by (cases "j = i") (auto intro: exI [of _ j])
next
  assume "z = x \<or> (\<exists>j < length xss. z \<in> set (xss[i := xs] ! j))"
  then consider "z = x" | j where "j < length xss" "z \<in> set (xss[i := xs] ! j)" by blast
  then show "\<exists>j < length xss. z \<in> set (xss ! j)"
  proof cases
    case 1
    then show ?thesis using assms by (intro exI [of _ i]) simp
  next
    case (2 j)
    then show ?thesis using assms by (intro exI [of _ j]) (cases "j = i"; simp)
  qed
qed

lemma interleaves_member: "interleaves xss ys \<Longrightarrow> z \<in> set ys \<longleftrightarrow> (\<exists>j < length xss. z \<in> set (xss ! j))"
proof (induction rule: interleaves.induct)
  case (finished xss)
  then show ?case by (simp add: list_all_length)
next
  case (add i xss x xs ys)
  then show ?case using update_member [OF add.hyps(1,2), of z] by simp
qed

text \<open>Elements of one class that only one of the lists has come in that list's order.\<close>

lemma interleaves_filter:
  assumes "interleaves xss ys" and "\<And>j. j < length xss \<Longrightarrow> j \<noteq> i \<Longrightarrow> filter P (xss ! j) = []" and "i < length xss"
  shows "filter P ys = filter P (xss ! i)"
  using assms
proof (induction rule: interleaves.induct)
  case (finished xss)
  then show ?case by (simp add: list_all_length)
next
  case (add j xss x xs ys)
  have others: "filter P ((xss[j := xs]) ! l) = []" if "l < length (xss[j := xs])" "l \<noteq> i" for l
    using add.prems(1) [of l] that add.hyps(2) by (cases "l = j") (auto split: if_splits)
  have ih: "filter P ys = filter P ((xss[j := xs]) ! i)" using add.IH others add.prems(2) by simp
  show ?case
  proof (cases "j = i")
    case True
    then show ?thesis using ih add.hyps by simp
  next
    case False
    then have "\<not> P x" using add.prems(1) [of j] add.hyps(1,2) by (auto split: if_splits)
    then show ?thesis using ih False by simp
  qed
qed

lemma interleaves_none: "interleaves xss ys \<Longrightarrow> (\<And>xs. xs \<in> set xss \<Longrightarrow> filter P xs = []) \<Longrightarrow> filter P ys = []"
  by (auto simp: filter_empty_conv interleaves_member) (meson nth_mem)

lemma client_checks_order:
  assumes "interleaves (map (checkClient rt cfg transports w o' learned) cs) x"
    and "interleaves (map (checkClient rt cfg transports w o' learned) cs) y"
    and "distinct (map cl_Name cs)"
  shows "filter (subjects.alike k) x = filter (subjects.alike k) y"
proof (cases "\<exists>i < length cs. ck_Subject k = client_subject (cs ! i)")
  case True
  then obtain i where i: "i < length cs" "ck_Subject k = client_subject (cs ! i)" by blast
  have "filter (subjects.alike k) (checkClient rt cfg transports w o' learned (cs ! j)) = []" if "j < length cs" "j \<noteq> i" for j
  proof -
    have "cl_Name (cs ! i) \<noteq> cl_Name (cs ! j)" using assms(3) i(1) that by (simp add: distinct_conv_nth)
    then have "client_subject (cs ! i) \<noteq> client_subject (cs ! j)" using client_subject_inj by blast
    then show ?thesis using i(2) by (auto simp: filter_empty_conv subjects_alike dest: checkClient_subject)
  qed
  then show ?thesis
    using interleaves_filter [OF assms(1), of i "subjects.alike k"] interleaves_filter [OF assms(2), of i "subjects.alike k"] i(1)
    by simp
next
  case False
  then have "filter (subjects.alike k) xs = []" if "xs \<in> set (map (checkClient rt cfg transports w o' learned) cs)" for xs
    using that by (auto simp: filter_empty_conv subjects_alike in_set_conv_nth dest!: checkClient_subject)
  then show ?thesis using interleaves_none [OF assms(1)] interleaves_none [OF assms(2)] by simp
qed

lemma filter_one:
  assumes "inj_on f (set xs)" and "distinct xs" and "x \<in> set xs"
  shows "filter (\<lambda>y. f x = f y) xs = [x]"
  using assms by (induction xs) (auto simp: inj_on_def filter_empty_conv)

lemma permuted_filter:
  assumes "set xs = set ys" and "distinct xs" and "distinct ys" and "inj_on f (set xs)"
  shows "filter (\<lambda>y. k = f y) xs = filter (\<lambda>y. k = f y) ys"
proof (cases "\<exists>x \<in> set xs. k = f x")
  case True
  then obtain x where x: "x \<in> set xs" "k = f x" by blast
  then show ?thesis using filter_one [of f xs x] filter_one [of f ys x] assms by auto
next
  case False
  then have "filter (\<lambda>y. k = f y) xs = []" "filter (\<lambda>y. k = f y) ys = []" using assms(1) by (auto simp: filter_empty_conv)
  then show ?thesis by simp
qed

text \<open>A range over a map visits each key once.\<close>

definition ranges :: "(string list \<Rightarrow> string list) \<Rightarrow> bool" where
  "ranges order \<longleftrightarrow> (\<forall>ks. distinct ks \<longrightarrow> distinct (order ks) \<and> set (order ks) = set ks)"

lemma instance_check_subject: "ck_Subject (instance_check w o' subject seen i) = subject @ '' / '' @ i"
  by (simp add: instance_check_def)

lemma checkSource_order:
  assumes "ranges order" and "ranges order'"
  shows "filter (subjects.alike k) (checkSource w o' order s) = filter (subjects.alike k) (checkSource w o' order' s)"
proof -
  let ?f = "\<lambda>i. (''source '' @ ts_Name s) @ '' / '' @ i"
  have same: "filter (\<lambda>i. ck_Subject k = ?f i) (order (remdups (ts_Instances s))) =
      filter (\<lambda>i. ck_Subject k = ?f i) (order' (remdups (ts_Instances s)))"
    using assms by (intro permuted_filter) (auto simp: ranges_def inj_on_def)
  have step: "filter (subjects.alike k) (map (instance_check w o' subject seen) xs) =
      map (instance_check w o' subject seen) (filter (\<lambda>i. ck_Subject k = subject @ '' / '' @ i) xs)" for subject seen xs
    by (induction xs) (simp_all only: list.map filter.simps subjects_alike instance_check_subject split: if_split, simp)
  show ?thesis
    unfolding checkSource_def Let_def by (cases "ts_start s") (simp_all only: option.case filter_append step same)
qed

lemma checks_reported:
  assumes "interleaves (map (checkClient rt cfg transports w o' learned) (cf_Clients cfg)) added"
    and "c \<in> set (cf_Clients cfg)" and "k \<in> set (checkClient rt cfg transports w o' learned c)"
  shows "k \<in> set (doctor_Run w cfg o' order sources added)"
proof -
  have "set (doctor_Run w cfg o' order sources added) =
      set (checkDataDir w cfg @ checkSSHKey w cfg @ checkSources w o' order sources @ added)"
    unfolding doctor_Run_def using subjects.mset_sort_stable by (rule mset_eq_setD)
  then have run: "set added \<subseteq> set (doctor_Run w cfg o' order sources added)" by auto
  obtain j where "j < length (cf_Clients cfg)" "cf_Clients cfg ! j = c" using assms(2) by (auto simp: in_set_conv_nth)
  then have "k \<in> set added" using interleaves_member [OF assms(1), of k] assms(3) by (auto intro: exI [of _ j])
  then show ?thesis using run by blast
qed

text \<open>
  C39. A preflight gives one report. Whatever the order in which the clients' concurrent checks come in and
  the maps are ranged over, the sorted report is the same, and it has every check of every client.
\<close>

theorem report_independent_of_schedule:
  assumes "interleaves (map (checkClient rt cfg transports w o' learned) (cf_Clients cfg)) added"
    and "interleaves (map (checkClient rt cfg transports w o' learned) (cf_Clients cfg)) added'"
    and "distinct (map cl_Name (cf_Clients cfg))" and "ranges order" and "ranges order'"
  shows "doctor_Run w cfg o' order sources added = doctor_Run w cfg o' order' sources added' \<and>
    list_all (\<lambda>c. set (checkClient rt cfg transports w o' learned c) \<subseteq> set (doctor_Run w cfg o' order sources added)) (cf_Clients cfg)"
proof
  have "filter (subjects.alike k) (checkSources w o' order sources) = filter (subjects.alike k) (checkSources w o' order' sources)" for k
    using checkSource_order [OF assms(4,5)] by (simp add: checkSources_def filter_concat o_def)
  then show "doctor_Run w cfg o' order sources added = doctor_Run w cfg o' order' sources added'"
    unfolding doctor_Run_def
    by (intro subjects.sort_stable_determined) (simp add: client_checks_order [OF assms(1-3)])
  show "list_all (\<lambda>c. set (checkClient rt cfg transports w o' learned c) \<subseteq> set (doctor_Run w cfg o' order sources added)) (cf_Clients cfg)"
    using checks_reported [OF assms(1)] by (simp only: list_all_iff) blast
qed

section \<open>A clean report means the fleet can be woken\<close>

text \<open>An address written with colons or dashes that \<open>net.ParseMAC\<close> reads is what the transport reads.\<close>

lemma hex_val_plain:
  assumes "hex_val c = Some n"
  shows "c \<noteq> CHR '':''" "c \<noteq> CHR ''-''" "hex_val (lower_char c) = Some n"
  using assms by (auto simp: hex_val_def lower_char_def Let_def split: if_splits)

lemma strip_separated:
  assumes "parse_octets n e s = Some bs" and "e = CHR '':'' \<or> e = CHR ''-''" and "length s + 1 = 3 * n" and "0 < n"
  shows "hex_DecodeString (ToLower (remove_char (CHR ''-'') (remove_char (CHR '':'') s))) = Some bs"
  using assms
proof (induction n arbitrary: s bs)
  case (Suc n)
  then obtain a c r where s: "s = a # c # r" by (cases s; cases "tl s") auto
  then obtain b bs' where p: "xtoi2 s e = Some b" "parse_octets n e (drop 3 s) = Some bs'" "bs = b # bs'"
    using Suc.prems(1) by (auto split: option.splits)
  then obtain x y where xy: "hex_val a = Some x" "hex_val c = Some y" "b = of_nat (16 * x + y)" and r: "r = [] \<or> hd r = e"
    by (auto simp: s split: if_splits option.splits)
  note plain = hex_val_plain [OF xy(1)] hex_val_plain [OF xy(2)]
  show ?case
  proof (cases n)
    case 0
    then have "r = []" using Suc.prems(3) by (simp add: s)
    then show ?thesis using plain p xy(3) 0 by (simp add: s remove_char_def ToLower_def)
  next
    case (Suc m)
    then obtain r' where r': "r = e # r'" using r Suc.prems(3) by (cases r) (auto simp: s)
    have "hex_DecodeString (ToLower (remove_char (CHR ''-'') (remove_char (CHR '':'') r'))) = Some bs'"
      using Suc.IH [of r' bs'] p(2) Suc.prems(2,3) Suc by (simp add: s r')
    then show ?thesis using plain p(3) xy(3) Suc.prems(2) by (auto simp: s r' remove_char_def ToLower_def)
  qed
qed simp

lemma packet_of_separated:
  assumes "net_ParseMAC m = Some hw" and "length hw = 6" and "m ! 2 = CHR '':'' \<or> m ! 2 = CHR ''-''"
  shows "buildMagicPacket m = Inr (replicate 6 255 @ concat (replicate 16 hw))"
proof -
  have p: "parse_octets ((length m + 1) div 3) (m ! 2) m = Some hw" "(length m + 1) mod 3 = 0" "14 \<le> length m"
    using assms(1,3) by (auto simp: net_ParseMAC_def Let_def split: if_splits)
  then have d: "hex_DecodeString (ToLower (remove_char (CHR ''-'') (remove_char (CHR '':'') m))) = Some hw"
    by (intro strip_separated [OF p(1) assms(3)]) presburger+
  have len: "hex_DecodeString t = Some bs \<Longrightarrow> length t = 2 * length bs" for t bs
    by (induction t arbitrary: bs rule: hex_DecodeString.induct) (auto split: option.splits)
  have "fold (\<lambda>i p. p[i := (255 :: octet)]) [0..<6] (replicate 102 0) = replicate 6 255 @ replicate 96 0"
    by code_simp
  then show ?thesis using copies [OF assms(2), of 16 "replicate 6 255 @ replicate 96 0"] assms(2) len [OF d] d
    by (simp add: buildMagicPacket_def)
qed

text \<open>The addresses doctor may go by: the configured one, else the one on record, else one found now.\<close>

definition preflight_mac :: "(string \<rightharpoonup> Transport) \<Rightarrow> doctor_world \<Rightarrow> (string \<rightharpoonup> LearnedMAC) \<Rightarrow> ClientConfig \<Rightarrow> string \<Rightarrow> bool" where
  "preflight_mac transports w learned c m \<longleftrightarrow>
     (if clientMAC c \<noteq> [] then m = clientMAC c
      else (\<exists>l. learned (cl_Name c) = Some l \<and> lm_MAC l = m) \<or> fst (discoverMACNow transports w c) = m)"

lemma NormaliseMAC_parses: "NormaliseMAC m = Some t \<Longrightarrow> \<exists>hw. net_ParseMAC m = Some hw \<and> length hw = 6"
  by (auto simp: NormaliseMAC_def split: option.splits if_splits)

lemma normal_parses: "NormaliseMAC s = Some m \<Longrightarrow> \<exists>hw. net_ParseMAC m = Some hw \<and> length hw = 6"
  using NormaliseMAC_normal_form NormaliseMAC_parses by blast

lemma discovered_parses:
  "fst (discoverMACNow transports w c) \<noteq> [] \<Longrightarrow>
     \<exists>hw. net_ParseMAC (fst (discoverMACNow transports w c)) = Some hw \<and> length hw = 6"
  unfolding discoverMACNow_def Let_def by (auto dest: normal_parses split: option.splits if_splits)

lemma clean_wake_check:
  assumes "usesWOL c" and "\<And>k. k \<in> set (checkWakeMAC transports w learned c) \<Longrightarrow> ck_Status k \<noteq> StatusFail"
  shows "\<exists>m hw. preflight_mac transports w learned c m \<and> net_ParseMAC m = Some hw \<and> length hw = 6"
proof -
  have same: "configuredMAC c = clientMAC c" by (simp add: configuredMAC_def clientMAC_def split: option.split)
  show ?thesis
  proof (cases "clientMAC c = []")
    case False
    then obtain t where "NormaliseMAC (clientMAC c) = Some t"
      using assms by (cases "NormaliseMAC (clientMAC c)") (auto simp: checkWakeMAC_def Let_def same)
    then show ?thesis using NormaliseMAC_parses [of "clientMAC c" t] False by (auto simp: preflight_mac_def)
  next
    case True
    show ?thesis
    proof (cases "\<exists>l t. learned (cl_Name c) = Some l \<and> NormaliseMAC (lm_MAC l) = Some t")
      case known: True
      then obtain l t where l: "learned (cl_Name c) = Some l" "NormaliseMAC (lm_MAC l) = Some t" by blast
      then show ?thesis using NormaliseMAC_parses [OF l(2)] True by (auto simp: preflight_mac_def)
    next
      case unknown: False
      obtain m source where d: "discoverMACNow transports w c = (m, source)" by fastforce
      have "m \<noteq> []"
      proof
        assume "m = []"
        then have "list_ex (\<lambda>k. ck_Status k = StatusFail) (checkWakeMAC transports w learned c)"
          using unknown True assms(1) d same
          by (cases "learned (cl_Name c)") (auto simp: checkWakeMAC_def Let_def)
        then show False using assms(2) by (auto simp: list_ex_iff)
      qed
      then show ?thesis using discovered_parses [of transports w c] d True by (auto simp: preflight_mac_def)
    qed
  qed
qed

text \<open>
  Which clients are woken by a magic packet: doctor and the daemon agree on a client without a wake block
  and on one whose block names its transport. A block without one makes the daemon fall back on the
  transport of the client, and doctor pass the client over.
\<close>

lemma usesWOL_wakeClient:
  "(\<forall>k. cl_Wake c = Some k \<longrightarrow> wc_Transport k \<noteq> []) \<Longrightarrow> usesWOL c \<longleftrightarrow> wake_transport c = ''wol''"
  by (simp add: usesWOL_def wake_transport_def split: option.split)

lemma unnamed_wake_transport_unchecked:
  "cl_Wake c = Some k \<Longrightarrow> wc_Transport k = [] \<Longrightarrow> cl_Transport c = ''wol'' \<Longrightarrow>
     wake_transport c = ''wol'' \<and> checkWakeMAC transports w learned c = []"
  by (simp add: checkWakeMAC_def usesWOL_def wake_transport_def)


text \<open>The dotted form passes the check, and the transport refuses it.\<close>

lemma dotted_passes_then_fails:
  "NormaliseMAC ''aabb.ccdd.eeff'' \<noteq> None \<and> buildMagicPacket ''aabb.ccdd.eeff'' = Inl ''invalid MAC address length: aabb.ccdd.eeff''"
  by code_simp

end
