(* ===== verification/Example_Modules.thy ===== *)
theory Example_Modules
  imports Example_Tools Probe_Evidence Ssh_Keys Appliance_Safety Rest_Exec Snmp_Gpio Discovery Durability Doctor_Correct
begin

text \<open>
  The theorems about the modules, the database file and the preflight checks, applied to small inputs.
\<close>

section \<open>A client that refuses connections\<close>

definition refusing :: probe_world where
  "refusing = \<lparr>pw_dial = (\<lambda>_ _. Some ECONNREFUSED), pw_url_ok = (\<lambda>_. True), pw_get = (\<lambda>_. None), pw_sh = (\<lambda>_ _. Exited 0)\<rparr>"

definition probe_round :: event where
  "probe_round = ProbeTick True 5 (\<lambda>n. if n = ''a'' then Some StateDown else None) demo_world"

theorem down_only_on_evidence_witness:
  "list_ex (\<lambda>cl. evidence_for ''ssh'' refusing cl) [buildClient quick_env (quick_client ''a'')]"
proof -
  let ?e = "NewExecutor quick_env NewStore NewEvaluator empty_db" and ?t = "cf_SSH quick_cfg"
  have a: "cf_Clients (en_cfg quick_env) = [quick_client ''a'']" "cl_Name (quick_client ''a'') = ''a''"
    "cl_Transport (quick_client ''a'') = ''ssh''"
    by (simp_all add: demo_env_def quick_cfg_def quick_client_def demo_client_def)
  have answer: "probe_answer (en_rt quick_env) ?t refusing (buildClient quick_env (quick_client ''a'')) = Some StateDown"
    by (simp add: probe_answer_def module_Probe_def buildClient_def a ssh_Probe_def tcp_answer_def ProbeTCP_def
        ClassifyDialError_def refusing_def)
  have m: "modules_answer quick_env ?t refusing ?e probe_round"
    using answer a by (auto simp: modules_answer_def probe_round_def asked_def split: if_splits)
  obtain pc' e' where s: "daemon_step quick_env probe_round (Idle, ?e) = (pc', e')" by (metis surj_pair)
  have "clientState (snd (daemon_step quick_env probe_round (Idle, ?e))) ''a'' = StateDown \<and> clientState ?e ''a'' \<noteq> StateDown"
    by code_simp
  then have d: "clientState e' ''a'' = StateDown" "clientState ?e ''a'' \<noteq> StateDown" using s by auto
  have "\<not> is_restart probe_round" by (simp add: probe_round_def)
  from down_only_on_evidence [OF m this s d] obtain cl where cl: "cl \<in> asked quick_env ?e (quick_client ''a'')" "evidence_for ''ssh'' refusing cl"
    using a by auto
  have "e_active ?e = None" by (simp add: NewExecutor_def)
  then have "ec_Address cl = ec_Address (buildClient quick_env (quick_client ''a''))"
    using cl(1) by (auto simp: asked_def buildClientFor_def buildClient_def addressFor_def pinned_addr_def)
  then show ?thesis using cl(2) by (simp add: evidence_for_def tcp_evidence_def)
qed

section \<open>A file of known hosts\<close>

text \<open>A line as a text: the number of its addresses, the addresses, the key.\<close>

definition enc :: "string \<Rightarrow> string" where
  "enc s = concat (map (\<lambda>c. [CHR ''+'', c]) s) @ [CHR '';'']"

fun dec :: "string \<Rightarrow> string \<times> string" where
  "dec (a # c # t) = (if a = CHR ''+'' then (case dec t of (s, r) \<Rightarrow> (c # s, r)) else ([], c # t))"
| "dec _ = ([], [])"

fun decs :: "nat \<Rightarrow> string \<Rightarrow> string list \<times> string" where
  "decs 0 t = ([], t)"
| "decs (Suc n) t = (case dec t of (s, r) \<Rightarrow> (case decs n r of (ss, u) \<Rightarrow> (s # ss, u)))"

lemma dec_enc: "t \<noteq> [] \<Longrightarrow> dec (enc s @ t) = (s, t)"
proof (induction s)
  case Nil
  then show ?case by (cases t) (auto simp: enc_def)
next
  case (Cons c s)
  then show ?case by (simp add: enc_def)
qed

lemma decs_enc: "t \<noteq> [] \<Longrightarrow> decs (length ss) (concat (map enc ss) @ t) = (ss, t)"
  by (induction ss) (simp_all add: dec_enc)

definition line_of :: "string list \<Rightarrow> string \<Rightarrow> string" where
  "line_of addrs key = replicate (length addrs) (CHR ''x'') @ CHR '' '' # concat (map enc addrs) @ enc key @ ''.''"

definition parse_line :: "string \<Rightarrow> string list \<times> string" where
  "parse_line l =
     (case decs (length (takeWhile (\<lambda>c. c = CHR ''x'') l)) (drop 1 (dropWhile (\<lambda>c. c = CHR ''x'') l)) of
        (addrs, r) \<Rightarrow> (addrs, fst (dec r)))"

lemma counts:
  "takeWhile (\<lambda>c. c = CHR ''x'') (replicate n (CHR ''x'') @ CHR '' '' # r) = replicate n (CHR ''x'')"
  "dropWhile (\<lambda>c. c = CHR ''x'') (replicate n (CHR ''x'') @ CHR '' '' # r) = CHR '' '' # r"
  by (induction n) simp_all

lemma parse_line_of: "parse_line (line_of addrs key) = (addrs, key)"
proof -
  have "enc key @ ''.'' \<noteq> []" by simp
  from decs_enc [OF this, of addrs] show ?thesis
    by (simp add: parse_line_def line_of_def counts dec_enc)
qed

definition demo_lib :: known_hosts_lib where
  "demo_lib =
     \<lparr>kh_readable = (\<lambda>_. True),
      kh_verify = (\<lambda>ls h r k. case filter (\<lambda>p. h \<in> set (fst p)) (map parse_line ls) of
          [] \<Rightarrow> KeyUnknown | (_, k') # _ \<Rightarrow> if k = k' then KeyKnown else KeyMismatch),
      kh_line = line_of, kh_normalize = (\<lambda>a. a)\<rparr>"

lemma demo_lib_lawful: "lawful demo_lib"
proof -
  have unknown: "host_unknown demo_lib ls h \<Longrightarrow> filter (\<lambda>p. h \<in> set (fst p)) (map parse_line ls) = []" for ls h
  proof (rule ccontr)
    assume u: "host_unknown demo_lib ls h" and "filter (\<lambda>p. h \<in> set (fst p)) (map parse_line ls) \<noteq> []"
    then obtain as k' ps where "filter (\<lambda>p. h \<in> set (fst p)) (map parse_line ls) = (as, k') # ps"
      by (cases "filter (\<lambda>p. h \<in> set (fst p)) (map parse_line ls)") auto
    then have "kh_verify demo_lib ls h [] k' = KeyKnown" by (simp add: demo_lib_def)
    then show False using u by (simp add: host_unknown_def)
  qed
  have pinned: "\<exists>as ps. filter (\<lambda>p. h \<in> set (fst p)) (map parse_line ls) = (as, k) # ps" if "host_pinned demo_lib ls h k" for ls h k
  proof -
    have "kh_verify demo_lib ls h [] k = KeyKnown" using that by (simp add: host_pinned_def)
    then show ?thesis by (auto simp: demo_lib_def split: list.splits if_splits)
  qed
  have again: "host_pinned demo_lib (ls @ [kh_line demo_lib addrs k]) h k" if p: "host_pinned demo_lib ls h k" for ls h addrs k
    using pinned [OF p] by (auto simp: host_pinned_def demo_lib_def parse_line_of)
  have first: "host_pinned demo_lib (ls @ [kh_line demo_lib addrs k]) h k" if u: "host_unknown demo_lib ls h" and "h \<in> set addrs" for ls h addrs k
    using unknown [OF u] that(2) by (simp add: host_pinned_def demo_lib_def parse_line_of)
  show ?thesis unfolding lawful_def
    using again first by (auto simp: demo_lib_def parse_line_of)
qed

definition shutdown_client :: Client where
  "shutdown_client = (buildClient quick_env (quick_client ''a''))\<lparr>ec_TransportConfig := Map.empty\<rparr>"

definition ssh_config :: SSHTransportConfig where
  "ssh_config = ssh_New \<lparr>ssh_User = [], ssh_Port = 22, ssh_Command = [], ssh_KeyPath = ''/id'', ssh_KeyPassphrase = [],
     ssh_KnownHosts = ''/known'', ssh_HostKeyPolicy = [], ssh_ConnectTimeout = [], ssh_CommandTimeout = []\<rparr>"

definition peer_with :: "string \<Rightarrow> ssh_peer" where
  "peer_with key = \<lparr>sp_dial = (\<lambda>_ _. None), sp_remote = (\<lambda>a. a), sp_key = (\<lambda>_. key), sp_login = (\<lambda>_. True),
     sp_session = True, sp_run = (\<lambda>_ _. CleanExit)\<rparr>"

definition my_key :: key_files where
  "my_key = \<lparr>kf_readable = (\<lambda>_. True), kf_parse = (\<lambda>_ _. ParsedSigner)\<rparr>"

definition good_disk :: file_system where
  "good_disk = \<lparr>fs_stat_fails = (\<lambda>_. False), fs_can_create = (\<lambda>_. True), fs_can_append = (\<lambda>_. True)\<rparr>"

definition ssh_contact :: "string \<Rightarrow> contact" where
  "ssh_contact key = \<lparr>ct_keys = my_key, ct_fs = good_disk, ct_peer = peer_with key, ct_client = shutdown_client, ct_action = ActionShutdown\<rparr>"

definition host_a :: string where
  "host_a = ssh_addr demo_rt ssh_config shutdown_client"

definition known :: string where
  "known = knownHostsPath ssh_config shutdown_client"

lemma demo_lib_simps:
  "kh_readable demo_lib ls" "kh_line demo_lib = line_of" "kh_verify demo_lib [] h r k = KeyUnknown"
  "kh_verify demo_lib [line_of [h] k'] h r k = (if k = k' then KeyKnown else KeyMismatch)"
  by (simp_all add: demo_lib_def parse_line_of)

lemma ssh_demo_policy: "ssh_policy ssh_config shutdown_client = HostKeyAcceptNew" "known \<noteq> []"
  by code_simp+

lemma ssh_contact_begin:
  "ssh_begin demo_lib ssh_config (ssh_contact key) files =
     (Inr (Learning known (kh_lines files known)), files(known \<mapsto> kh_lines files known))"
proof -
  have k: "loadKey my_key ssh_config shutdown_client = None" by code_simp
  have "HostKeyAcceptNew \<noteq> HostKeyInsecure" "HostKeyAcceptNew \<noteq> HostKeyStrict" by code_simp+
  then show ?thesis using ssh_demo_policy
    by (auto simp: ssh_begin_def ssh_contact_def k hostKeyCallback_def known_def Let_def ensureFile_def good_disk_def
        kh_lines_def demo_lib_def fun_upd_idem split: option.splits)
qed

lemma ssh_contact_finish:
  "ssh_finish demo_rt demo_lib ssh_config (ssh_contact key) cb files =
     (case check_host_key demo_lib good_disk cb host_a host_a key files of
        (Some err, files') \<Rightarrow> (Inl err, files', None)
      | (None, files') \<Rightarrow> (Inr (True, ''shutdown command completed''), files', Some (host_a, key, ssh_setting shutdown_client ''command'' (ssh_Command ssh_config))))"
proof -
  have c: "ct_client (ssh_contact key) = shutdown_client" "ct_fs (ssh_contact key) = good_disk" "ct_peer (ssh_contact key) = peer_with key"
    by (simp_all add: ssh_contact_def)
  have p: "sp_dial (peer_with key) a d = None" "sp_remote (peer_with key) a = a" "sp_key (peer_with key) a = key"
    "sp_login (peer_with key) u" "sp_session (peer_with key)" "sp_run (peer_with key) cmd d = CleanExit" for a d u cmd
    by (simp_all add: peer_with_def)
  show ?thesis by (simp add: ssh_finish_def c p Let_def classify_def host_a_def split: prod.split option.split)
qed

text \<open>
  A contact shown \<open>K1\<close> is the first; one with the same key overlaps with it; one begun later that is shown
  \<open>K2\<close> is sent nothing.
\<close>

abbreviation finish_ssh :: "string \<Rightarrow> host_key_callback \<Rightarrow> kh_files \<Rightarrow> (ssh_error + bool \<times> string) \<times> kh_files \<times> (string \<times> string \<times> string) option" where
  "finish_ssh key cb files \<equiv> ssh_finish demo_rt demo_lib ssh_config (ssh_contact key) cb files"


section \<open>An interface that quotes the credential\<close>

definition demo_urls :: url_lib where
  "demo_urls = \<lparr>ul_parse = (\<lambda>_. None), ul_print = up_path, ul_query = (\<lambda>_. []), ul_encode = (\<lambda>_. [])\<rparr>"

definition rest_client :: Client where
  "rest_client = shutdown_client\<lparr>ec_Credentials := ''s3cr-t'',
     ec_TransportConfig := [''shutdown_url'' \<mapsto> GString ''http://h/off?k={credentials}'']\<rparr>"

definition quoting :: rest_world where
  "quoting = \<lparr>rw_invalid = (\<lambda>_ _. None), rw_headers = (\<lambda>_. Map.empty), rw_do = (\<lambda>r. Inl (''dial '' @ rr_url r @ '': refused''))\<rparr>"


text \<open>A library that quotes the URL of a request it cannot form puts the credential in the message.\<close>

lemma unformed_request_quotes_credential:
  "case rest_Execute demo_urls (quoting\<lparr>rw_invalid := (\<lambda>_ url. Some (''parse '' @ url))\<rparr>) rest_client ActionShutdown of
     (ExecError err, None) \<Rightarrow> StrContains err ''s3cr-t'' | _ \<Rightarrow> False"
  by code_simp

section \<open>An appliance with two interfaces\<close>

definition lan :: interfaceConfig where
  "lan = \<lparr>ic_Device = ''em0'', ic_MacAddr = ''aa:bb:cc:00:00:01'', ic_IsPhysical = True, ic_Status = ''up'', ic_IPv4 = [''10.0.0.1'']\<rparr>"

definition wan :: interfaceConfig where
  "wan = \<lparr>ic_Device = ''em1'', ic_MacAddr = ''aa:bb:cc:00:00:02'', ic_IsPhysical = True, ic_Status = ''up'', ic_IPv4 = [''192.0.2.7'']\<rparr>"

theorem discovered_interface_right_witness:
  "opnsense_pick [wan, lan] ''10.0.0.1'' = ''aa:bb:cc:00:00:01''"
proof -
  have p: "opnsense_pick [lan, wan] ''10.0.0.1'' = ''aa:bb:cc:00:00:01''" by code_simp
  have one: "\<not> ip_in ''10.0.0.1'' (ic_IPv4 wan)" by code_simp
  have "mset [lan, wan] = mset [wan, lan]" by simp
  moreover have "list_all (\<lambda>i. list_all (\<lambda>j. ip_in ''10.0.0.1'' (ic_IPv4 i) \<and> ip_in ''10.0.0.1'' (ic_IPv4 j) \<longrightarrow> i = j) [lan, wan]) [lan, wan]"
    using one by simp
  moreover have "opnsense_pick [lan, wan] ''10.0.0.1'' \<noteq> []" by (simp add: p)
  ultimately show ?thesis using discovered_interface_right [of "[lan, wan]" "[wan, lan]" "''10.0.0.1''"] p by simp
qed

section \<open>The database file\<close>

text \<open>The process dies in the third statement of the sixth migration's transaction, then its commit is not heard of.\<close>

definition power_cut :: fates where "power_cut v i = (if v = 6 \<and> i = 2 then Fails else Fine)"
definition lost_answer :: fates where "lost_answer v i = (if v = 7 \<and> i = 5 then Unheard else Fine)"

theorem interrupted_migration_resumes_witness:
  "fst (migrate power_cut emptySchema) \<noteq> None \<and>
   migrate no_faults (foldl (\<lambda>x fs. snd (migrate fs x)) emptySchema [power_cut, lost_answer]) = migrate no_faults emptySchema"
proof -
  obtain e goal where g: "migrate no_faults emptySchema = (e, goal)" by (metis surj_pair)
  then have "migrate no_faults emptySchema = (None, goal)" using fresh_database by simp
  from interrupted_migration_resumes [OF this, of "[power_cut, lost_answer]"] have
    "migrate no_faults (foldl (\<lambda>x fs. snd (migrate fs x)) emptySchema [power_cut, lost_answer]) = migrate no_faults emptySchema"
    using \<open>migrate no_faults emptySchema = (None, goal)\<close> by simp
  moreover have "fst (migrate power_cut emptySchema) \<noteq> None" by code_simp
  ultimately show ?thesis by blast
qed

definition fresh_log :: "DB wal" where
  "fresh_log = \<lparr>wl_synchronous = NORMAL, wl_flushed = empty_db, wl_pending = []\<rparr>"

definition mode_writes :: "wal_op list" where
  "mode_writes =
     [PlainWrite True (SetKV ''mode'' ''armed''),
      DurableWrite \<lparr>dc_conn = True, dc_raise = True, dc_write = True, dc_restore = True\<rparr> (SetKV ''k'' ''v''),
      PlainWrite True (SetKV ''mode'' ''disarmed'')]"

theorem log_refines_disk_witness:
  "length (survivors (foldl wal_step fresh_log mode_writes)) = 2 \<and>
   set (survivors (foldl wal_step fresh_log mode_writes)) \<subseteq>
     set (e_disk (foldl engine_step (NewExecutor quick_env NewStore NewEvaluator empty_db) mode_writes))"
proof -
  have "represents fresh_log (NewExecutor quick_env NewStore NewEvaluator empty_db)"
    by (simp add: represents_def wal_defs fresh_log_def NewExecutor_def)
  from log_refines_disk [OF this, of mode_writes]
  have "set (survivors (foldl wal_step fresh_log mode_writes)) \<subseteq>
     set (e_disk (foldl engine_step (NewExecutor quick_env NewStore NewEvaluator empty_db) mode_writes))" by blast
  moreover have "length (survivors (foldl wal_step fresh_log mode_writes)) = 2"
    by (simp add: mode_writes_def wal_defs fresh_log_def Durably_def Let_def)
  ultimately show ?thesis by blast
qed

section \<open>A preflight\<close>

definition preflight_world :: doctor_world where
  "preflight_world =
     \<lparr>dw_stat = (\<lambda>_. IsDir 448), dw_createTemp = (\<lambda>_. None), dw_lookupHost = (\<lambda>_. Inl ''no DNS''), dw_probe = refusing,
      dw_errText = (\<lambda>_. ''timeout''), dw_macs = demo_world, dw_now = 0, dw_duration = (\<lambda>_. ''20s'')\<rparr>"

definition wol_client :: "string \<Rightarrow> ClientConfig" where
  "wol_client name = (quick_client name)\<lparr>cl_Transport := ''exec'', cl_MAC := ''aa-bb-cc-00-00-01'',
     cl_Wake := Some \<lparr>wc_Transport = ''wol'', wc_MAC = [], wc_Broadcast = [], wc_Config = Map.empty\<rparr>\<rparr>"

definition fleet_cfg :: Config where
  "fleet_cfg = quick_cfg\<lparr>cf_Clients := [wol_client ''a'', wol_client ''b'']\<rparr>"

abbreviation checks :: "ClientConfig \<Rightarrow> Check list" where
  "checks \<equiv> checkClient demo_rt fleet_cfg buildTransports preflight_world DefaultOptions Map.empty"

lemma one_after_the_other: "interleaves [xs, ys] (xs @ ys)" "interleaves [xs, ys] (ys @ xs)"
proof -
  have empty: "interleaves [[], []] []" by (rule interleaves.finished) simp
  have left: "interleaves [xs, []] xs" for xs :: "'a list"
  proof (induction xs)
    case (Cons x xs)
    have "interleaves ([x # xs, []][0 := xs]) xs" using Cons by simp
    then show ?case by (rule interleaves.add [rotated 2]) simp_all
  qed (rule empty)
  have right: "interleaves [[], ys] ys" for ys :: "'a list"
  proof (induction ys)
    case (Cons y ys)
    have "interleaves ([[], y # ys][1 := ys]) ys" using Cons by simp
    then show ?case by (rule interleaves.add [rotated 2]) simp_all
  qed (rule empty)
  show "interleaves [xs, ys] (xs @ ys)"
  proof (induction xs)
    case (Cons x xs)
    have "interleaves ([x # xs, ys][0 := xs]) (xs @ ys)" using Cons by simp
    then have "interleaves [x # xs, ys] (x # (xs @ ys))" by (rule interleaves.add [rotated 2]) simp_all
    then show ?case by simp
  qed (simp add: right)
  show "interleaves [xs, ys] (ys @ xs)"
  proof (induction ys)
    case (Cons y ys)
    have "interleaves ([xs, y # ys][1 := ys]) (ys @ xs)" using Cons by simp
    then have "interleaves [xs, y # ys] (y # (ys @ xs))" by (rule interleaves.add [rotated 2]) simp_all
    then show ?case by simp
  qed (simp add: left)
qed

lemma fleet: "cf_Clients fleet_cfg = [wol_client ''a'', wol_client ''b'']" "cl_Name (wol_client n) = n"
  by (simp_all add: fleet_cfg_def wol_client_def quick_client_def demo_client_def)

theorem report_independent_of_schedule_witness:
  "doctor_Run preflight_world fleet_cfg DefaultOptions rev [] (checks (wol_client ''a'') @ checks (wol_client ''b'')) =
   doctor_Run preflight_world fleet_cfg DefaultOptions id [] (checks (wol_client ''b'') @ checks (wol_client ''a''))"
proof -
  have i: "interleaves (map checks (cf_Clients fleet_cfg)) (checks (wol_client ''a'') @ checks (wol_client ''b''))"
    "interleaves (map checks (cf_Clients fleet_cfg)) (checks (wol_client ''b'') @ checks (wol_client ''a''))"
    using one_after_the_other by (simp_all add: fleet)
  have "distinct (map cl_Name (cf_Clients fleet_cfg))" by (simp add: fleet)
  moreover have "ranges rev" "ranges id" by (simp_all add: ranges_def)
  ultimately show ?thesis using report_independent_of_schedule [OF i] by blast
qed


end
