(* ===== verification/Loader.thy ===== *)
theory Loader
  imports Config
begin

text \<open>
  Reading the configuration file (\<open>config/loader.go\<close>): environment variables are substituted in its text,
  the text is decoded strictly, the defaults are filled in. The decoder is a parameter: what the
  \<open>n\<close>-th call of \<open>Decode\<close> answers on a text.
\<close>

section \<open>Environment variables\<close>

definition name_start :: "char \<Rightarrow> bool" where
  "name_start c \<longleftrightarrow> (let n = of_char c :: nat in (65 \<le> n \<and> n \<le> 90) \<or> (97 \<le> n \<and> n \<le> 122) \<or> n = 95)"

definition name_char :: "char \<Rightarrow> bool" where
  "name_char c \<longleftrightarrow> name_start c \<or> is_digit c"

text \<open>\<open>envVarRe\<close> at the head of a text: the name and what follows the closing brace.\<close>

definition env_ref :: "string \<Rightarrow> (string \<times> string) option" where
  "env_ref s =
     (if take 2 s \<noteq> ''${'' then None
      else let t = drop 2 s; name = takeWhile name_char t; rest = dropWhile name_char t
           in if name \<noteq> [] \<and> name_start (hd name) \<and> rest \<noteq> [] \<and> hd rest = CHR ''}'' then Some (name, tl rest) else None)"

lemma env_ref_shorter: "env_ref s = Some (n, rest) \<Longrightarrow> length rest < length s"
proof -
  assume "env_ref s = Some (n, rest)"
  then have "s \<noteq> []" and "rest = tl (dropWhile name_char (drop 2 s))"
    by (auto simp: env_ref_def Let_def split: if_splits)
  moreover have "length (dropWhile name_char (drop 2 s)) \<le> length s"
    using length_dropWhile_le [of name_char "drop 2 s"] by (simp add: le_diff_conv)
  ultimately show ?thesis by (cases s) (auto simp: less_Suc_eq_le intro: order_trans [OF _ diff_le_self])
qed

text \<open>The text as literal characters and references, the leftmost first.\<close>

function env_pieces :: "string \<Rightarrow> (char + string) list" where
  "env_pieces [] = []"
| "env_pieces (c # s) =
     (case env_ref (c # s) of
        None \<Rightarrow> Inl c # env_pieces s
      | Some (n, rest) \<Rightarrow> Inr n # env_pieces rest)"
  by pat_completeness auto
termination
  by (relation "measure length") (auto dest: env_ref_shorter)

definition missingEnvPlaceholder :: string where
  "missingEnvPlaceholder = ''unset-during-validation''"

definition yaml_special :: "char \<Rightarrow> bool" where
  "yaml_special c \<longleftrightarrow>
     of_char c \<in> {10::nat, 13, 9, 34, 39} \<or> c \<in> set '':#{}[],&*?|<>=!%@`''"

definition yamlSafe :: "string \<Rightarrow> string" where
  "yamlSafe val =
     (if \<not> list_ex yaml_special val then val
      else char_of (39::nat) # concat (map (\<lambda>c. if of_char c = (39::nat) then [c, c] else [c]) val) @ [char_of (39::nat)])"

definition substituted :: "(string \<rightharpoonup> string) \<Rightarrow> bool \<Rightarrow> char + string \<Rightarrow> string" where
  "substituted env placeholderForMissing p =
     (case p of
        Inl c \<Rightarrow> [c]
      | Inr n \<Rightarrow>
          (case env n of
             Some val \<Rightarrow> yamlSafe val
           | None \<Rightarrow> if placeholderForMissing then missingEnvPlaceholder else ''${'' @ n @ ''}''))"

definition unset_refs :: "(string \<rightharpoonup> string) \<Rightarrow> (char + string) list \<Rightarrow> string list" where
  "unset_refs env ps = List.map_filter (\<lambda>p. case p of Inl _ \<Rightarrow> None | Inr n \<Rightarrow> if env n = None then Some n else None) ps"

definition expandEnv :: "(string \<rightharpoonup> string) \<Rightarrow> string \<Rightarrow> bool \<Rightarrow> string \<times> string list" where
  "expandEnv env raw placeholderForMissing =
     (concat (map (substituted env placeholderForMissing) (env_pieces raw)), add_unseen [] (unset_refs env (env_pieces raw)))"

section \<open>Conditions in YAML (condition_yaml.go)\<close>

text \<open>
  What the library says of a node a condition is written as: its line, whether it is a scalar, and what
  it decodes to as a string and as the fields of a condition. The latter is a new decoder of the library,
  to which the strictness of the one that reads the file does not extend.
\<close>

record yaml_node =
  yn_Line :: nat
  yn_scalar :: bool
  yn_string :: "string + string"
  yn_plain :: "string + ConditionConfig"

definition UnmarshalYAML :: "yaml_node \<Rightarrow> string + ConditionConfig" where
  "UnmarshalYAML node =
     (if yn_scalar node then
        (case yn_string node of
           Inl err \<Rightarrow> Inl (''line '' @ show_nat (yn_Line node) @ '': a condition must be a mapping or a string: '' @ err)
         | Inr s \<Rightarrow> Inr (conditionFromString s))
      else yn_plain node)"

text \<open>A bare string is a literal, or a template with the string as it is written.\<close>

lemma UnmarshalYAML_string:
  assumes "yn_scalar node" and "yn_string node = Inr s"
  shows "\<exists>c. UnmarshalYAML node = Inr c \<and> c_For c = [] \<and>
    (ToLower (TrimSpace s) \<notin> {''true'', ''false''} \<longrightarrow> inferConditionType c = ''template'' \<and> c_Value c = s) \<and>
    (ToLower (TrimSpace s) \<in> {''true'', ''false''} \<longrightarrow> inferConditionType c = ToLower (TrimSpace s))"
  using assms by (auto simp: UnmarshalYAML_def conditionFromString_def literal_cond_def inferConditionType_def Let_def)

section \<open>Decoding and loading\<close>

datatype decoded = Document Config | EndOfInput | Malformed string

definition parseStrict :: "(string \<Rightarrow> nat \<Rightarrow> decoded) \<Rightarrow> string \<Rightarrow> string + Config" where
  "parseStrict yaml data =
     (case yaml data 0 of
        EndOfInput \<Rightarrow> Inl ''config file is empty''
      | Malformed err \<Rightarrow> Inl (''parsing config: '' @ err)
      | Document cfg \<Rightarrow>
          (case yaml data 1 of
             Document _ \<Rightarrow> Inl ''config contains more than one YAML document; Canarium reads a single document''
           | Malformed err \<Rightarrow> Inl (''parsing config: '' @ err)
           | EndOfInput \<Rightarrow> Inr cfg))"

record LoadOptions =
  lo_AllowMissingEnv :: bool

record LoadResult =
  lr_Config :: Config
  lr_MissingEnv :: "string list"

text \<open>\<open>file\<close> is what reading the file gave; the error of unset variables carries their names.\<close>

datatype load_error = ReadingFailed string | EnvUnset "string list" | Unparsable string

definition LoadWith ::
  "(string \<Rightarrow> string \<Rightarrow> string) \<Rightarrow> (string \<rightharpoonup> string) \<Rightarrow> (string \<Rightarrow> nat \<Rightarrow> decoded) \<Rightarrow> string + string \<Rightarrow> LoadOptions \<Rightarrow> load_error + LoadResult" where
  "LoadWith join env yaml file opts =
     (case file of
        Inl err \<Rightarrow> Inl (ReadingFailed err)
      | Inr data \<Rightarrow>
          (case expandEnv env data (lo_AllowMissingEnv opts) of
             (expanded, missing) \<Rightarrow>
               if missing \<noteq> [] \<and> \<not> lo_AllowMissingEnv opts then Inl (EnvUnset missing)
               else case parseStrict yaml expanded of
                      Inl err \<Rightarrow> Inl (Unparsable err)
                    | Inr cfg \<Rightarrow> Inr \<lparr>lr_Config = applyDefaults join cfg, lr_MissingEnv = missing\<rparr>))"

definition Load :: "(string \<Rightarrow> string \<Rightarrow> string) \<Rightarrow> (string \<rightharpoonup> string) \<Rightarrow> (string \<Rightarrow> nat \<Rightarrow> decoded) \<Rightarrow> string + string \<Rightarrow> load_error + Config" where
  "Load join env yaml file = map_sum id lr_Config (LoadWith join env yaml file \<lparr>lo_AllowMissingEnv = False\<rparr>)"

section \<open>A substituted value is a scalar\<close>

text \<open>
  How YAML reads a single-quoted scalar that stays on its line: up to the quote that is not doubled (a line
  break in it is folded into a space, which is left out here). The result is the
  value and the text after it.
\<close>

fun read_quoted :: "string \<Rightarrow> (string \<times> string) option" where
  "read_quoted [] = None"
| "read_quoted [c] = (if of_char c = (39::nat) then Some ([], []) else None)"
| "read_quoted (c # d # s) =
     (if of_char c = (39::nat)
      then if of_char d = (39::nat) then map_option (\<lambda>(v, rest). (c # v, rest)) (read_quoted s)
           else Some ([], d # s)
      else map_option (\<lambda>(v, rest). (c # v, rest)) (read_quoted (d # s)))"

lemma read_quoted_plain:
  "of_char c \<noteq> (39::nat) \<Longrightarrow> read_quoted (c # s) = map_option (\<lambda>(v, rest). (c # v, rest)) (read_quoted s)"
  by (cases s) auto

lemma read_quoted_value:
  assumes "rest = [] \<or> of_char (hd rest) \<noteq> (39::nat)"
  shows "read_quoted (concat (map (\<lambda>c. if of_char c = (39::nat) then [c, c] else [c]) v) @ char_of (39::nat) # rest) = Some (v, rest)"
proof (induction v)
  case Nil
  show ?case using assms by (cases rest) auto
next
  case (Cons c v)
  then show ?case by (cases "of_char c = (39::nat)") (simp_all add: read_quoted_plain)
qed

text \<open>
  A secret on one line cannot change the structure of the file: what is put into the text for it is free of every
  character YAML gives a meaning, or it is one single-quoted scalar that reads back as the secret, and
  what follows it in the text is read as it would be.
\<close>

lemma substituted_secret_is_scalar:
  assumes "rest = [] \<or> of_char (hd rest) \<noteq> (39::nat)" and "list_all (\<lambda>c. of_char c \<notin> {10::nat, 13}) v"
  shows "if list_ex yaml_special v
    then \<exists>q. yamlSafe v = char_of (39::nat) # q \<and> read_quoted (q @ rest) = Some (v, rest)
    else yamlSafe v = v"
  using read_quoted_value [OF assms(1), of v] by (auto simp: yamlSafe_def)

lemma unset_refs_iff: "n \<in> set (unset_refs env ps) \<longleftrightarrow> Inr n \<in> set ps \<and> env n = None"
  by (force simp: unset_refs_def List.map_filter_def split: sum.splits)

lemma expandEnv_missing: "n \<in> set (snd (expandEnv env raw b)) \<longleftrightarrow> Inr n \<in> set (env_pieces raw) \<and> env n = None"
  by (simp add: expandEnv_def unset_refs_iff)

text \<open>The daemon never runs with a variable unset: it says which are, each once.\<close>

lemma load_needs_every_variable:
  "case LoadWith join env yaml (Inr data) \<lparr>lo_AllowMissingEnv = False\<rparr> of
     Inr r \<Rightarrow> lr_MissingEnv r = [] \<and> (\<forall>n. Inr n \<in> set (env_pieces data) \<longrightarrow> env n \<noteq> None)
   | Inl (EnvUnset names) \<Rightarrow> names \<noteq> [] \<and> distinct names \<and>
       set names = {n. Inr n \<in> set (env_pieces data) \<and> env n = None}
   | Inl _ \<Rightarrow> True"
proof -
  obtain x missing where e: "expandEnv env data False = (x, missing)" by fastforce
  have m: "n \<in> set missing \<longleftrightarrow> Inr n \<in> set (env_pieces data) \<and> env n = None" for n
    using expandEnv_missing [of n env data False] by (simp add: e)
  have d: "distinct missing" using e by (auto simp: expandEnv_def intro: distinct_add_unseen)
  show ?thesis using m d by (auto simp: LoadWith_def e split: sum.split)
qed

end
