(* ===== verification/Sources.thy ===== *)
theory Sources
  imports Nut_Correct Snmp_Gpio Self_Preservation Derived
begin

text \<open>
  How the daemon is put together from its configuration (\<open>cmd/canarium/wiring.go\<close>): the sources that are
  built and registered, the manager that carries their updates into the fact store, and the registry that
  validation checks names against. The decoding of a source's settings is a parameter.
\<close>

section \<open>Building the sources\<close>

definition sourceTypes :: "string list" where
  "sourceTypes = [''gpio'', ''nut'', ''snmp'']"

definition sourceUpdateBuffer :: nat where "sourceUpdateBuffer = 128"

datatype source_module =
    NutSource "nut_instance list"
  | SnmpSource "snmp_instance list"
  | GpioSource "gpio_pin list"

record decoders =
  dec_nut :: "(string \<rightharpoonup> goval) \<Rightarrow> string + nut_instance list"
  dec_snmp :: "(string \<rightharpoonup> goval) \<Rightarrow> string + snmp_instance list"
  dec_gpio :: "(string \<rightharpoonup> goval) \<Rightarrow> string + gpio_pin list"

definition buildSource :: "decoders \<Rightarrow> SourceConfig \<Rightarrow> Store \<Rightarrow> string + source_module \<times> Store" where
  "buildSource dec src st =
     (if sc_Type src = ''nut'' then
        (case dec_nut dec (sc_Config src) of
           Inl err \<Rightarrow> Inl err
         | Inr is \<Rightarrow> if is = [] then Inl ''no instances configured'' else Inr (NutSource is, RegisterFacts is st))
      else if sc_Type src = ''snmp'' then
        (case dec_snmp dec (sc_Config src) of
           Inl err \<Rightarrow> Inl err
         | Inr is \<Rightarrow> if is = [] then Inl ''no instances configured'' else Inr (SnmpSource is, snmp_RegisterFacts is st))
      else if sc_Type src = ''gpio'' then
        (case dec_gpio dec (sc_Config src) of
           Inl err \<Rightarrow> Inl err
         | Inr pins \<Rightarrow> if pins = [] then Inl ''no pins configured'' else Inr (GpioSource pins, gpio_RegisterFacts pins st))
      else Inl (''unknown source type '' @ sc_Type src))"

fun buildSources :: "decoders \<Rightarrow> SourceConfig list \<Rightarrow> Store \<Rightarrow> string + source_module list \<times> Store" where
  "buildSources dec [] st = Inr ([], st)"
| "buildSources dec (src # srcs) st =
     (case buildSource dec src st of
        Inl err \<Rightarrow> Inl (''source '' @ sc_Name src @ '': '' @ err)
      | Inr (m, st1) \<Rightarrow>
          (case buildSources dec srcs st1 of
             Inl err \<Rightarrow> Inl err
           | Inr (ms, st2) \<Rightarrow> Inr (m # ms, st2)))"

section \<open>The manager\<close>

text \<open>
  \<open>sm_updates\<close> is the channel; \<open>sm_cancelled\<close> that the context is done; \<open>sm_forwarding\<close> that the
  goroutine that empties the channel runs.
\<close>

record SourceManager =
  sm_sources :: "source_module list"
  sm_updates :: "event list"
  sm_cancelled :: bool
  sm_forwarding :: bool

definition NewSourceManager :: "decoders \<Rightarrow> Config \<Rightarrow> Store \<Rightarrow> string + SourceManager \<times> Store" where
  "NewSourceManager dec cfg st =
     (case buildSources dec (cf_Sources cfg) st of
        Inl err \<Rightarrow> Inl err
      | Inr (ms, st') \<Rightarrow> Inr (\<lparr>sm_sources = ms, sm_updates = [], sm_cancelled = False, sm_forwarding = False\<rparr>, st'))"

fun source_Name :: "source_module \<Rightarrow> string" where
  "source_Name (NutSource _) = ''nut''"
| "source_Name (SnmpSource _) = ''snmp''"
| "source_Name (GpioSource _) = ''gpio''"

text \<open>\<open>starts\<close> and \<open>stops\<close> are the errors of the sources' own methods.\<close>

fun start_loop :: "(source_module \<Rightarrow> string option) \<Rightarrow> source_module list \<Rightarrow> string option" where
  "start_loop starts [] = None"
| "start_loop starts (m # ms) =
     (case starts m of
        Some err \<Rightarrow> Some (''starting source '' @ source_Name m @ '': '' @ err)
      | None \<Rightarrow> start_loop starts ms)"

definition manager_Start :: "(source_module \<Rightarrow> string option) \<Rightarrow> SourceManager \<Rightarrow> string option \<times> SourceManager" where
  "manager_Start starts m =
     (case start_loop starts (sm_sources m) of
        Some err \<Rightarrow> (Some err, m\<lparr>sm_cancelled := True\<rparr>)
      | None \<Rightarrow> (None, m\<lparr>sm_forwarding := True\<rparr>))"

definition manager_Stop :: "(source_module \<Rightarrow> string option) \<Rightarrow> SourceManager \<Rightarrow> string list \<times> SourceManager" where
  "manager_Stop stops m =
     (List.map_filter stops (sm_sources m), m\<lparr>sm_cancelled := True, sm_forwarding := False\<rparr>)"

text \<open>What one poll of all instances of a source publishes, by what the network and the lines answer; a pin
  is read only where \<open>Start\<close> got its line.\<close>

record poll_world =
  pw_now :: instant
  pw_net :: nut_network
  pw_dropped :: "event \<Rightarrow> bool"
  pw_snmp :: snmp_world
  pw_chip :: "string \<Rightarrow> bool"
  pw_granted :: "gpio_pin \<Rightarrow> bool"
  pw_line :: "gpio_pin \<Rightarrow> int option"
  pw_done :: bool

fun source_poll :: "rt \<Rightarrow> poll_world \<Rightarrow> source_module \<Rightarrow> event list" where
  "source_poll rt w (NutSource is) = concat (map (nut_fetchAndUpdate rt (pw_net w) (pw_now w) (pw_dropped w)) is)"
| "source_poll rt w (SnmpSource is) = concat (map (snmp_fetchAndUpdate (pw_snmp w) (pw_now w)) is)"
| "source_poll rt w (GpioSource pins) =
     concat (map (\<lambda>p. fst (readAndEmit (pw_line w p) (pw_done w) (pw_now w) p)) (gpio_started (pw_chip w) (pw_granted w) pins))"

text \<open>
  The goroutines: each source polls on its own, and blocks while the channel is full; the forwarder takes
  the oldest update, or ends when the context is done. The daemon starts and stops the manager.
\<close>

inductive manager_step :: "rt \<Rightarrow> SourceManager \<times> Store \<Rightarrow> SourceManager \<times> Store \<Rightarrow> bool" for rt where
  publish: "s \<in> set (sm_sources m) \<Longrightarrow> ev \<in> set (source_poll rt w s) \<Longrightarrow> length (sm_updates m) < sourceUpdateBuffer \<Longrightarrow>
     manager_step rt (m, st) (m\<lparr>sm_updates := sm_updates m @ [ev]\<rparr>, st)"
| forward: "sm_forwarding m \<Longrightarrow> sm_updates m = FactUpdate k v t # rest \<Longrightarrow>
     manager_step rt (m, st) (m\<lparr>sm_updates := rest\<rparr>, Store_Update k v t st)"
| start: "manager_step rt (m, st) (snd (manager_Start starts m), st)"
| refresh: "manager_step rt (m, st) (m, RefreshQuality now st)"
| stop: "manager_step rt (m, st) (snd (manager_Stop stops m), st)"

inductive_cases manager_stepE: "manager_step rt ms ms'"

section \<open>The registry\<close>

definition transportNames :: "string list" where
  "transportNames = sort_strings (map fst transport_table)"

text \<open>\<open>keys\<close> is the order in which Go ranges over the declarations.\<close>

definition buildRegistry :: "Config \<Rightarrow> string list \<Rightarrow> LocalIdentity \<Rightarrow> Registry" where
  "buildRegistry cfg keys local =
     \<lparr>rg_Transports = transportNames, rg_Local = Some local, rg_SourceTypes = sourceTypes,
      rg_Facts = sort_strings (sort_strings keys @ DerivedFactKeys cfg)\<rparr>"

end
