(* ===== verification/Source_Types.thy ===== *)
theory Source_Types
  imports Sources
begin

text \<open>
  What the sources of a configuration put into the fact store has the type that they declared, whatever
  they are sent, and the channel between them is bounded.
\<close>

section \<open>Declarations\<close>

fun module_Declarations :: "source_module \<Rightarrow> (string \<times> duration \<times> FactDeclaration list) list" where
  "module_Declarations (NutSource is) = nut_Declarations is"
| "module_Declarations (SnmpSource is) = snmp_Declarations is"
| "module_Declarations (GpioSource pins) = gpio_Declarations pins"

text \<open>Registering a list of declared sources, and the facts it declares by their keys.\<close>

definition register_all :: "(string \<times> duration \<times> FactDeclaration list) list \<Rightarrow> Store \<Rightarrow> Store" where
  "register_all ds st = fold (\<lambda>(name, poll, fs). RegisterSource name poll fs) ds st"

definition keyed :: "(string \<times> duration \<times> FactDeclaration list) list \<Rightarrow> (string \<times> FactDeclaration) list" where
  "keyed ds = concat (map (\<lambda>(name, poll, fs). map (\<lambda>d. (fact_key name (d_Name d), d)) fs) ds)"

lemma register_all_append: "register_all (ds @ es) st = register_all es (register_all ds st)"
  by (simp add: register_all_def)

lemma keyed_append: "keyed (ds @ es) = keyed ds @ keyed es"
  by (simp add: keyed_def)

definition fresh_fact :: "string \<Rightarrow> string \<Rightarrow> FactDeclaration \<Rightarrow> Fact" where
  "fresh_fact k source d =
     \<lparr>f_Key = k, f_Value = GNil, f_Type = ParseFactType (d_Type d), f_Quality = QualityUnknown,
      f_UpdatedAt = None, f_Source = source\<rparr>"

text \<open>A registered fact has no value and the type first declared for its key.\<close>

definition registered :: "(string \<times> FactDeclaration) list \<Rightarrow> Store \<Rightarrow> Store \<Rightarrow> bool" where
  "registered kds st st' \<longleftrightarrow>
     (\<forall>k. case s_facts st k of
            Some f \<Rightarrow> s_facts st' k = Some f
          | None \<Rightarrow> (case map_of kds k of
                      None \<Rightarrow> s_facts st' k = None
                    | Some d \<Rightarrow> \<exists>source. s_facts st' k = Some (fresh_fact k source d))) \<and>
     dom (s_decls st') = dom (s_decls st) \<union> fst ` set kds"

lemma registered_refl: "s_facts st' = s_facts st \<Longrightarrow> s_decls st' = s_decls st \<Longrightarrow> registered [] st st'"
  by (simp add: registered_def split: option.split)

lemma registered_trans:
  assumes "registered a st st1" and "registered b st1 st2"
  shows "registered (a @ b) st st2"
proof -
  have "case s_facts st k of
      Some f \<Rightarrow> s_facts st2 k = Some f
    | None \<Rightarrow> (case map_of (a @ b) k of
                None \<Rightarrow> s_facts st2 k = None
              | Some d \<Rightarrow> \<exists>source. s_facts st2 k = Some (fresh_fact k source d))" for k
    using assms [unfolded registered_def, THEN conjunct1, rule_format, of k]
    by (auto simp: map_add_def split: option.splits)
  then show ?thesis using assms by (auto simp: registered_def)
qed

lemma registered_one: "registered [(fact_key source (d_Name d), d)] st (register_decl source d st)"
  by (auto simp: registered_def register_decl_def fresh_fact_def Let_def split: option.split)

lemma registered_fold:
  "registered (map (\<lambda>d. (fact_key source (d_Name d), d)) ds) st (fold (register_decl source) ds st)"
proof (induction ds arbitrary: st)
  case (Cons d ds)
  show ?case using registered_trans [OF registered_one Cons.IH, of source d st] by simp
qed (simp add: registered_refl)

lemma registered_source:
  "registered (map (\<lambda>d. (fact_key source (d_Name d), d)) ds) st (RegisterSource source poll ds st)"
  using registered_trans [OF registered_refl registered_fold, of "st\<lparr>s_polls := (s_polls st)(source \<mapsto> poll)\<rparr>" st source ds]
  by (simp add: RegisterSource_def)

lemma registered_all: "registered (keyed ds) st (register_all ds st)"
proof (induction ds arbitrary: st)
  case (Cons x ds)
  obtain name poll fs where x: "x = (name, poll, fs)" by (cases x) auto
  show ?case using registered_trans [OF registered_source Cons.IH, of name fs st poll]
    by (simp add: x keyed_def register_all_def)
qed (simp add: registered_refl keyed_def register_all_def)

definition all_declared :: "source_module list \<Rightarrow> (string \<times> FactDeclaration) list" where
  "all_declared ms = keyed (concat (map module_Declarations ms))"

lemma buildSource_registers:
  "buildSource dec src st = Inr (m, st') \<Longrightarrow> st' = register_all (module_Declarations m) st"
  by (auto simp: buildSource_def RegisterFacts_def snmp_RegisterFacts_def gpio_RegisterFacts_def register_all_def
      split: if_splits sum.splits)

lemma buildSources_registers:
  "buildSources dec srcs st = Inr (ms, st') \<Longrightarrow> registered (all_declared ms) st st'"
proof (induction srcs arbitrary: st ms st')
  case (Cons src srcs)
  then obtain m st1 ms' where one: "buildSource dec src st = Inr (m, st1)"
    and rest: "buildSources dec srcs st1 = Inr (ms', st')" and ms: "ms = m # ms'"
    by (auto split: sum.splits)
  have "registered (keyed (module_Declarations m)) st st1"
    using registered_all buildSource_registers [OF one] by metis
  from registered_trans [OF this Cons.IH [OF rest]] show ?case
    by (simp add: ms all_declared_def keyed_append)
qed (simp add: all_declared_def keyed_def registered_refl)

section \<open>Values of a type\<close>

definition fits :: "FactType \<Rightarrow> goval \<Rightarrow> bool" where
  "fits ty v =
     (case ty of
        TypeBool \<Rightarrow> (case v of GBool _ \<Rightarrow> True | _ \<Rightarrow> False)
      | TypeSet \<Rightarrow> (case v of GStrings _ \<Rightarrow> True | _ \<Rightarrow> False)
      | TypeString \<Rightarrow> (case v of GString _ \<Rightarrow> True | _ \<Rightarrow> False)
      | TypeEnum \<Rightarrow> (case v of GString _ \<Rightarrow> True | _ \<Rightarrow> False)
      | _ \<Rightarrow> (case v of GFloat64 _ \<Rightarrow> True | GInt _ \<Rightarrow> True | GInt64 _ \<Rightarrow> True | _ \<Rightarrow> False))"

text \<open>An SNMP value has the type the agent sent, a number or text, whatever was declared.\<close>

definition fits_snmp :: "goval \<Rightarrow> bool" where
  "fits_snmp v = (case v of GInt64 _ \<Rightarrow> True | GString _ \<Rightarrow> True | _ \<Rightarrow> False)"

fun published_by :: "source_module \<Rightarrow> FactDeclaration \<Rightarrow> goval \<Rightarrow> bool" where
  "published_by (SnmpSource _) d v = fits_snmp v"
| "published_by _ d v = fits (ParseFactType (d_Type d)) v"

definition proper_update :: "source_module list \<Rightarrow> event \<Rightarrow> bool" where
  "proper_update ms ev \<longleftrightarrow>
     (\<exists>k v t m d. ev = FactUpdate k v t \<and> m \<in> set ms \<and> (k, d) \<in> set (keyed (module_Declarations m)) \<and> published_by m d v)"

lemma nut_value_fits: "v \<in> set standardVars \<Longrightarrow> var_value rt v raw = Some x \<Longrightarrow> fits (ParseFactType (sv_typ v)) x"
proof -
  assume v: "v \<in> set standardVars" and x: "var_value rt v raw = Some x"
  have "list_all (\<lambda>v. sv_typ v \<in> {''set'', ''string'', ''number'', ''percent'', ''duration''}) standardVars" by code_simp
  then have "sv_typ v \<in> {''set'', ''string'', ''number'', ''percent'', ''duration''}" using v by (auto simp: list_all_iff)
  then show ?thesis using x by (auto simp: var_value_def fits_def ParseFactType_def)
qed

lemma nut_proper:
  assumes "NutSource is \<in> set ms" and "i \<in> set is" and "ev \<in> set (nut_fetchAndUpdate rt net now dropped i)"
  shows "proper_update ms ev"
proof -
  obtain vars v where v: "v \<in> set standardVars" "var_update rt (ni_Name i) now vars v = Some ev"
    using assms(3) by (auto simp: nut_fetchAndUpdate_def List.map_filter_def split: prod.splits sum.splits)
  then obtain raw x where ev: "ev = FactUpdate (ni_Name i @ CHR ''.'' # sv_fact v) x now" "var_value rt v raw = Some x"
    by (auto simp: var_update_def split: option.splits)
  have "(ni_Name i @ CHR ''.'' # sv_fact v, nut_declaration v) \<in> set (keyed (module_Declarations (NutSource is)))"
    using assms(2) v by (auto simp: keyed_def nut_Declarations_def fact_key_def nut_declaration_def intro!: bexI)
  moreover have "published_by (NutSource is) (nut_declaration v) x"
    using nut_value_fits [OF v(1) ev(2)] by (simp add: nut_declaration_def)
  ultimately show ?thesis using ev assms(1) unfolding proper_update_def by blast
qed

lemma snmp_proper:
  assumes "SnmpSource is \<in> set ms" and "i \<in> set is" and "ev \<in> set (snmp_fetchAndUpdate w now i)"
  shows "proper_update ms ev"
proof -
  obtain oid sv x where o': "oid \<in> set (sn_OIDs i)" "decodeSnmpValue sv = Some x"
    "ev = FactUpdate (sn_Name i @ CHR ''.'' # oi_Name oid) x now"
    using assms(3) by (auto simp: snmp_fetchAndUpdate_def List.map_filter_def dest: set_zip_leftD split: if_splits option.splits)
  have "(sn_Name i @ CHR ''.'' # oi_Name oid, snmp_declaration oid) \<in> set (keyed (module_Declarations (SnmpSource is)))"
    using assms(2) o'(1) by (auto simp: keyed_def snmp_Declarations_def fact_key_def snmp_declaration_def intro!: bexI)
  moreover have "published_by (SnmpSource is) (snmp_declaration oid) x"
    using o'(2) by (auto simp: fits_snmp_def decodeSnmpValue_def split: snmp_value.splits)
  ultimately show ?thesis using o'(3) assms(1) unfolding proper_update_def by blast
qed

lemma gpio_proper:
  assumes "GpioSource pins \<in> set ms" and "p \<in> set (gpio_started chip granted pins)" and "ev \<in> set (fst (readAndEmit r dn now p))"
  shows "proper_update ms ev"
proof -
  obtain v where ev: "ev = FactUpdate (''gpio.'' @ gp_Name p) (if gp_Type p = ''analog'' then GInt v else GBool (v = 1)) now"
    using assms(3) by (auto simp: readAndEmit_def split: option.splits if_splits)
  have "(''gpio.'' @ gp_Name p, gpio_declaration p) \<in> set (keyed (module_Declarations (GpioSource pins)))"
  proof -
    have "d_Name (gpio_declaration q) = gp_Name q" for q by (simp add: gpio_declaration_def)
    then show ?thesis using assms(2) by (auto simp: keyed_def gpio_started_def gpio_Declarations_def fact_key_def image_iff)
  qed
  moreover have "published_by (GpioSource pins) (gpio_declaration p) (if gp_Type p = ''analog'' then GInt v else GBool (v = 1))"
    using assms(2) by (auto simp: gpio_started_def gpio_declaration_def fits_def ParseFactType_def)
  ultimately show ?thesis using ev assms(1) unfolding proper_update_def by blast
qed

lemma poll_proper: "m \<in> set ms \<Longrightarrow> ev \<in> set (source_poll rt w m) \<Longrightarrow> proper_update ms ev"
  by (cases m) (auto intro: nut_proper snmp_proper gpio_proper)

section \<open>The store over the life of the manager\<close>

definition well_typed :: "source_module list \<Rightarrow> string \<Rightarrow> Fact \<Rightarrow> bool" where
  "well_typed ms k f \<longleftrightarrow>
     f_Value f = GNil \<or>
     list_ex (\<lambda>m. list_ex (\<lambda>(k', d). k' = k \<and> f_Type f = ParseFactType (d_Type d) \<and> published_by m d (f_Value f))
       (keyed (module_Declarations m))) ms"

definition manager_inv :: "source_module list \<Rightarrow> SourceManager \<times> Store \<Rightarrow> bool" where
  "manager_inv ms x \<longleftrightarrow>
     (case x of (m, st) \<Rightarrow>
        sm_sources m = ms \<and> length (sm_updates m) \<le> sourceUpdateBuffer \<and> list_all (proper_update ms) (sm_updates m) \<and>
        (\<forall>k f. s_facts st k = Some f \<longrightarrow> well_typed ms k f \<and>
           (\<exists>d. map_of (all_declared ms) k = Some d \<and> f_Type f = ParseFactType (d_Type d))))"

lemma all_declared_in: "(k, d) \<in> set (all_declared ms) \<longleftrightarrow> (\<exists>m \<in> set ms. (k, d) \<in> set (keyed (module_Declarations m)))"
  by (auto simp: all_declared_def keyed_def)

lemma well_typed_published:
  assumes "distinct (map fst (all_declared ms))" and "proper_update ms (FactUpdate k v t)"
    and "map_of (all_declared ms) k = Some d" and "f_Type f = ParseFactType (d_Type d)"
  shows "well_typed ms k (Fact_Set f v t)"
proof -
  obtain m d' where m: "m \<in> set ms" "(k, d') \<in> set (keyed (module_Declarations m))" "published_by m d' v"
    using assms(2) by (auto simp: proper_update_def)
  then have "map_of (all_declared ms) k = Some d'"
    using assms(1) by (intro map_of_is_SomeI) (auto simp: all_declared_in)
  with m assms(3,4) show ?thesis by (auto simp: well_typed_def list_ex_iff Fact_Set_def)
qed

lemma manager_inv_step:
  assumes "distinct (map fst (all_declared ms))" and "manager_inv ms x" and "manager_step rt x y"
  shows "manager_inv ms y"
  using assms(3,2)
proof cases
  case (publish s m ev w st)
  then show ?thesis using assms(2) poll_proper by (auto simp: manager_inv_def)
next
  case (forward m k v t rest st)
  have p: "proper_update ms (FactUpdate k v t)" using assms(2) forward by (simp add: manager_inv_def)
  have "well_typed ms k' f \<and> (\<exists>d. map_of (all_declared ms) k' = Some d \<and> f_Type f = ParseFactType (d_Type d))"
    if "s_facts (Store_Update k v t st) k' = Some f" for k' f
  proof (cases "s_facts st k = None \<or> k' \<noteq> k")
    case True
    then have "s_facts st k' = Some f" using that by (auto split: option.splits)
    then show ?thesis using assms(2) forward by (simp add: manager_inv_def)
  next
    case False
    then obtain g where g: "s_facts st k = Some g" "k' = k" by auto
    then have f: "f = Fact_Set g v t" using that by simp
    obtain d where "map_of (all_declared ms) k = Some d" "f_Type g = ParseFactType (d_Type d)"
      using g assms(2) forward by (fastforce simp: manager_inv_def)
    then show ?thesis using well_typed_published [OF assms(1) p] g f by (simp add: Fact_Set_def)
  qed
  then show ?thesis using assms(2) forward by (auto simp: manager_inv_def simp del: Update_facts)
next
  case (refresh m st now)
  have ty: "f_Type (refresh_fact p now k f) = f_Type f" for p k f
    by (simp add: refresh_fact_def Let_def SetQuality_def split: option.splits)
  then have "well_typed ms k (refresh_fact p now k f) = well_typed ms k f" for p k f by (simp add: well_typed_def)
  with ty show ?thesis using assms(2) refresh by (auto simp: manager_inv_def)
next
  case (start m st starts)
  then show ?thesis using assms(2) by (simp add: manager_inv_def manager_Start_def split: option.split)
next
  case (stop m st stops)
  then show ?thesis using assms(2) by (simp add: manager_inv_def manager_Stop_def)
qed

lemma manager_inv_new:
  assumes "NewSourceManager dec cfg NewStore = Inr (m, st)"
  shows "manager_inv (sm_sources m) (m, st)"
proof -
  have b: "buildSources dec (cf_Sources cfg) NewStore = Inr (sm_sources m, st)" and u: "sm_updates m = []"
    using assms by (auto simp: NewSourceManager_def split: sum.splits)
  note r = buildSources_registers [OF b, unfolded registered_def, THEN conjunct1, rule_format]
  have "f_Value f = GNil \<and> (\<exists>d. map_of (all_declared (sm_sources m)) k = Some d \<and> f_Type f = ParseFactType (d_Type d))"
    if "s_facts st k = Some f" for k f
    using r [of k] that by (auto simp: NewStore_def fresh_fact_def split: option.splits)
  with u show ?thesis by (auto simp: manager_inv_def well_typed_def)
qed

lemma manager_inv_steps:
  assumes "distinct (map fst (all_declared ms))" and "(manager_step rt)\<^sup>*\<^sup>* x y" and "manager_inv ms x"
  shows "manager_inv ms y"
  using assms(2,3) by induction (auto intro: manager_inv_step [OF assms(1)])


end
