(* ===== verification/Timeline_File.thy ===== *)
theory Timeline_File
  imports Simulate
begin

text \<open>
  The file of a timeline (\<open>internal/simulate/timeline.go\<close>, \<open>reader.go\<close>) from the values of its JSON on:
  what \<open>encoding/json\<close> does with the fields of the two structs, the strict top level, and the decoders the
  code brings for a duration and for an event. The reading of the JSON text itself is a parameter.
\<close>

section \<open>JSON values\<close>

text \<open>
  A number is its \<open>float64\<close>, \<open>None\<close> where it is out of range; keys are kept in order, with duplicates.
\<close>

datatype json =
    JsonNull
  | JsonBool bool
  | JsonNumber "rat option"
  | JsonString string
  | JsonArray "json list"
  | JsonObject "(string \<times> json) list"

datatype json_error =
    JsonSyntax
  | UnknownField string
  | WrongType string
  | NumberRange
  | InvalidDuration string
  | NotADuration
  | NegativeDuration

text \<open>
  The decoder goes on after a mismatch, of which it keeps the first, and stops at an error of an
  \<open>UnmarshalJSON\<close>: \<open>Inl\<close> is the error it stopped at, \<open>Inr\<close> the error kept and the value.
\<close>

type_synonym 'a decoding = "json_error option \<times> 'a"

definition saveError :: "json_error \<Rightarrow> 'a decoding \<Rightarrow> 'a decoding" where
  "saveError err d = (case fst d of None \<Rightarrow> (Some err, snd d) | Some _ \<Rightarrow> d)"

fun decode_fields :: "('k \<Rightarrow> 's \<Rightarrow> json_error + 's) \<Rightarrow> 'k list \<Rightarrow> 's \<Rightarrow> json_error + 's" where
  "decode_fields f [] d = Inr d"
| "decode_fields f (k # ks) d = (case f k d of Inl err \<Rightarrow> Inl err | Inr d' \<Rightarrow> decode_fields f ks d')"

definition settle :: "json_error + 'a decoding \<Rightarrow> json_error + 'a" where
  "settle r = (case r of Inl err \<Rightarrow> Inl err | Inr (Some err, _) \<Rightarrow> Inl err | Inr (None, x) \<Rightarrow> Inr x)"

text \<open>The field a key means: the name itself before one that differs in case.\<close>

definition json_field :: "string list \<Rightarrow> string \<Rightarrow> string option" where
  "json_field names key = (if key \<in> set names then Some key else find (\<lambda>n. ToLower n = ToLower key) names)"

text \<open>What an \<open>any\<close> receives; \<open>show\<close> renders an object, which is a Go map, as \<open>%v\<close> does.\<close>

fun json_any :: "(json \<Rightarrow> string) \<Rightarrow> json \<Rightarrow> goval option" where
  "json_any show JsonNull = Some GNil"
| "json_any show (JsonBool b) = Some (GBool b)"
| "json_any show (JsonNumber q) = map_option (\<lambda>q. GFloat64 (Finite q)) q"
| "json_any show (JsonString s) = Some (GString s)"
| "json_any show (JsonArray js) = map_option GAnys (those (map (json_any show) js))"
| "json_any show (JsonObject kvs) =
     map_option (\<lambda>_. GOther (show (JsonObject kvs))) (those (map (\<lambda>kv. json_any show (snd kv)) kvs))"

section \<open>Durations and events\<close>

text \<open>\<open>Duration.UnmarshalJSON\<close>; a null is decoded into the string without an error, as the empty string.\<close>

fun Duration_UnmarshalJSON :: "rt \<Rightarrow> json \<Rightarrow> json_error + duration" where
  "Duration_UnmarshalJSON rt (JsonString s) =
     (case ParseDuration rt s of None \<Rightarrow> Inl (InvalidDuration s) | Some d \<Rightarrow> Inr d)"
| "Duration_UnmarshalJSON rt JsonNull =
     (case ParseDuration rt [] of None \<Rightarrow> Inl (InvalidDuration []) | Some d \<Rightarrow> Inr d)"
| "Duration_UnmarshalJSON rt (JsonNumber (Some q)) =
     (if q < 0 then Inl NegativeDuration
      else Inr (float_to_duration rt (f_mul_pos (Finite q) (of_int Second))))"
| "Duration_UnmarshalJSON rt _ = Inl NotADuration"

definition zero_event :: TimelineEvent where
  "zero_event = \<lparr>te_At = 0, te_Fact = [], te_Value = GNil, te_explicitNull = False\<rparr>"

text \<open>One key of an event; a key that is no field is skipped, because this decoder is not the strict one.\<close>

definition decode_event_field ::
  "rt \<Rightarrow> (json \<Rightarrow> string) \<Rightarrow> string \<times> json \<Rightarrow> TimelineEvent decoding \<Rightarrow> json_error + TimelineEvent decoding" where
  "decode_event_field rt show kv d =
     (case json_field [''at'', ''fact'', ''value''] (fst kv) of
        None \<Rightarrow> Inr d
      | Some n \<Rightarrow>
          (if n = ''at'' then
             (case Duration_UnmarshalJSON rt (snd kv) of
                Inl err \<Rightarrow> Inl err
              | Inr t \<Rightarrow> Inr (fst d, (snd d)\<lparr>te_At := t\<rparr>))
           else if n = ''fact'' then
             Inr (case snd kv of
                    JsonString s \<Rightarrow> (fst d, (snd d)\<lparr>te_Fact := s\<rparr>)
                  | JsonNull \<Rightarrow> d
                  | _ \<Rightarrow> saveError (WrongType ''fact'') d)
           else
             Inr (case json_any show (snd kv) of
                    Some v \<Rightarrow> (fst d, (snd d)\<lparr>te_Value := v\<rparr>)
                  | None \<Rightarrow> saveError NumberRange d)))"

text \<open>\<open>TimelineEvent.UnmarshalJSON\<close>: of several keys \<open>value\<close> the map of raw fields has the last.\<close>

definition Event_UnmarshalJSON :: "rt \<Rightarrow> (json \<Rightarrow> string) \<Rightarrow> json \<Rightarrow> json_error + TimelineEvent" where
  "Event_UnmarshalJSON rt show j =
     (case j of
        JsonObject kvs \<Rightarrow>
          (case settle (decode_fields (decode_event_field rt show) kvs (None, zero_event)) of
             Inl err \<Rightarrow> Inl err
           | Inr e \<Rightarrow> Inr (if map_of (rev kvs) ''value'' = Some JsonNull then e\<lparr>te_explicitNull := True\<rparr> else e))
      | JsonNull \<Rightarrow> Inr zero_event
      | _ \<Rightarrow> Inl (WrongType ''event''))"

fun decode_events :: "rt \<Rightarrow> (json \<Rightarrow> string) \<Rightarrow> json list \<Rightarrow> json_error + TimelineEvent list" where
  "decode_events rt show [] = Inr []"
| "decode_events rt show (j # js) =
     (case Event_UnmarshalJSON rt show j of
        Inl err \<Rightarrow> Inl err
      | Inr e \<Rightarrow> map_sum id ((#) e) (decode_events rt show js))"

section \<open>The file\<close>

definition decode_timeline_field ::
  "rt \<Rightarrow> (json \<Rightarrow> string) \<Rightarrow> string \<times> json \<Rightarrow> Timeline decoding \<Rightarrow> json_error + Timeline decoding" where
  "decode_timeline_field rt show kv d =
     (case json_field [''duration'', ''step'', ''events''] (fst kv) of
        None \<Rightarrow> Inr (saveError (UnknownField (fst kv)) d)
      | Some n \<Rightarrow>
          (if n = ''duration'' then
             map_sum id (\<lambda>t. (fst d, (snd d)\<lparr>tl_Duration := t\<rparr>)) (Duration_UnmarshalJSON rt (snd kv))
           else if n = ''step'' then
             map_sum id (\<lambda>t. (fst d, (snd d)\<lparr>tl_Step := t\<rparr>)) (Duration_UnmarshalJSON rt (snd kv))
           else
             (case snd kv of
                JsonArray js \<Rightarrow> map_sum id (\<lambda>es. (fst d, (snd d)\<lparr>tl_Events := es\<rparr>)) (decode_events rt show js)
              | JsonNull \<Rightarrow> Inr (fst d, (snd d)\<lparr>tl_Events := []\<rparr>)
              | _ \<Rightarrow> Inr (saveError (WrongType ''events'') d))))"

definition zero_timeline :: Timeline where
  "zero_timeline = \<lparr>tl_Duration = 0, tl_Step = 0, tl_Events = []\<rparr>"

definition decode_timeline :: "rt \<Rightarrow> (json \<Rightarrow> string) \<Rightarrow> json \<Rightarrow> json_error + Timeline" where
  "decode_timeline rt show j =
     (case j of
        JsonObject kvs \<Rightarrow> settle (decode_fields (decode_timeline_field rt show) kvs (None, zero_timeline))
      | JsonNull \<Rightarrow> Inr zero_timeline
      | _ \<Rightarrow> Inl (WrongType ''timeline''))"

datatype timeline_error =
    ReadingTimeline string
  | ParsingTimeline json_error
  | InvalidTimeline sim_error

text \<open>The byte order mark some editors write (\<open>newTrimReader\<close>).\<close>

definition newTrimReader :: "string \<Rightarrow> string" where
  "newTrimReader data = TrimPrefix data [CHR 0xEF, CHR 0xBB, CHR 0xBF]"

text \<open>
  \<open>LoadTimeline\<close> of a file that reads as \<open>file\<close>; \<open>parse\<close> reads the first JSON value of a text, what follows it
  is not looked at.
\<close>

definition LoadTimelineFile ::
  "rt \<Rightarrow> (json \<Rightarrow> string) \<Rightarrow> (string \<Rightarrow> json option) \<Rightarrow> string + string \<Rightarrow> timeline_error + Timeline" where
  "LoadTimelineFile rt show parse file =
     (case file of
        Inl err \<Rightarrow> Inl (ReadingTimeline err)
      | Inr data \<Rightarrow>
          (case parse (newTrimReader data) of
             None \<Rightarrow> Inl (ParsingTimeline JsonSyntax)
           | Some j \<Rightarrow>
               (case decode_timeline rt show j of
                  Inl err \<Rightarrow> Inl (ParsingTimeline err)
                | Inr decoded \<Rightarrow> map_sum InvalidTimeline id (LoadTimeline decoded))))"

section \<open>Durations are read as they are meant\<close>

lemma floorlog2_bounds: "0 < n \<Longrightarrow> 2 ^ floorlog2 n \<le> n \<and> n < 2 ^ Suc (floorlog2 n)"
proof (induction n rule: floorlog2.induct)
  case (1 n)
  show ?case
  proof (cases "n < 2")
    case True
    then show ?thesis using "1.prems" by (subst (1 2) floorlog2.simps) simp
  next
    case False
    then have "2 ^ floorlog2 (n div 2) \<le> n div 2 \<and> n div 2 < 2 ^ Suc (floorlog2 (n div 2))" using "1.IH" by simp
    then show ?thesis using False by (subst (1 2) floorlog2.simps) auto
  qed
qed

lemma round_half_even_of_int [simp]: "round_half_even (of_int n) = n"
  by (simp add: round_half_even_def)

text \<open>Integers below \<open>2 ^ 53\<close> are doubles.\<close>

lemma fl_of_int:
  assumes "0 \<le> n" and "n < 2 ^ 53"
  shows "fl (of_int n) = of_int n"
proof (cases "n = 0")
  case False
  define k where "k = floorlog2 (nat n)"
  have b: "2 ^ k \<le> nat n" using floorlog2_bounds [of "nat n"] False assms(1) by (simp add: k_def)
  then have pow: "(2::int) ^ k \<le> n" using False assms(1) by (metis int_nat_eq of_nat_numeral of_nat_le_iff of_nat_power)
  have "nat n < 2 ^ 53" using assms by (simp add: nat_less_iff)
  then have "(2::nat) ^ k < 2 ^ 53" using b by (rule le_less_trans [rotated])
  then have k: "k \<le> 52" using power_strict_increasing_iff [of "2::nat" k 53] by simp
  have log1: "floorlog2 (Suc 0) = 0" by (simp add: floorlog2.simps)
  have q: "quotient_of (of_int n) = (n, 1)" by (simp add: quotient_of_int)
  have p2: "\<not> of_int n < pow2 (int k)"
  proof -
    have "(of_int (2 ^ k) :: rat) \<le> of_int n" using pow by (subst of_int_le_iff)
    then show ?thesis by (simp add: pow2_def)
  qed
  have e: "pow2 (- (int k - 52)) = of_int (2 ^ (52 - k))" using k by (simp add: pow2_def nat_diff_distrib)
  have inv: "pow2 (int k - 52) * of_int (2 ^ (52 - k)) = 1"
  proof (cases "k = 52")
    case False
    then have "nat (52 - int k) = 52 - k" "\<not> 52 \<le> int k" using k by auto
    then show ?thesis using False k by (simp add: pow2_def)
  qed (simp add: pow2_def)
  have r: "round_half_even (of_int n * pow2 (- (int k - 52))) = n * 2 ^ (52 - k)"
    unfolding e of_int_mult [symmetric] by (rule round_half_even_of_int)
  have "fl (of_int n) = of_int (n * 2 ^ (52 - k)) * pow2 (int k - 52)"
    using False assms(1) q p2 r by (simp add: fl_def Let_def log1 k_def [symmetric] sgn_if)
  then show ?thesis using inv by (simp add: mult.assoc mult.commute)
qed (simp add: fl_def)

text \<open>A number is a number of seconds, exactly for every whole number up to 104 days.\<close>

lemma float_to_duration_of_int: "0 \<le> m \<Longrightarrow> m < 2 ^ 63 \<Longrightarrow> float_to_duration rt (Finite (of_int m)) = m"
  by (simp add: float_to_duration_def Let_def)

lemma number_is_seconds:
  assumes "int n * Second < 2 ^ 53"
  shows "Duration_UnmarshalJSON rt (JsonNumber (Some (of_nat n))) = Inr (int n * Second)"
proof -
  define m where "m = int n * Second"
  have i: "(of_nat n :: rat) * of_int Second = of_int m" by (simp add: m_def)
  have m: "0 \<le> m" "m < 2 ^ 53" using assms by (simp_all add: m_def)
  have "float_to_duration rt (f_mul_pos (Finite (of_nat n)) (of_int Second)) = m"
    unfolding f_mul_pos.simps i fl_of_int [OF m] by (rule float_to_duration_of_int) (use m in simp_all)
  moreover have "\<not> (of_nat n :: rat) < 0" by simp
  ultimately show ?thesis by (simp only: Duration_UnmarshalJSON.simps if_False m_def)
qed

section \<open>What a strict file refuses and an event lets through\<close>

lemma decode_fields_append:
  "decode_fields f (ks @ ls) d = (case decode_fields f ks d of Inl err \<Rightarrow> Inl err | Inr d' \<Rightarrow> decode_fields f ls d')"
  by (induction ks arbitrary: d) (auto split: sum.splits)

lemma decode_fields_keep:
  assumes "decode_fields f ks d = Inr d'" and "P d" and "\<And>k d d'. f k d = Inr d' \<Longrightarrow> P d \<Longrightarrow> P d'"
  shows "P d'"
  using assms(1,2) by (induction ks arbitrary: d) (auto split: sum.splits intro: assms(3))

lemma saveError_kept [simp]: "\<exists>err'. fst (saveError err d) = Some err'"
  by (cases d) (auto simp: saveError_def split: option.splits)

lemma timeline_error_kept:
  "decode_timeline_field rt show kv d = Inr d' \<Longrightarrow> fst d \<noteq> None \<Longrightarrow> fst d' \<noteq> None"
  by (auto simp: decode_timeline_field_def map_sum_def split: option.splits if_splits sum.splits json.splits)

text \<open>A key at the top level that is no field is an error, whatever else the file holds.\<close>

lemma unknown_key_refused:
  assumes "(k, v) \<in> set kvs" and "json_field [''duration'', ''step'', ''events''] k = None"
  shows "\<exists>err. decode_timeline rt show (JsonObject kvs) = Inl err"
proof -
  let ?f = "decode_timeline_field rt show"
  obtain xs ys where kvs: "kvs = xs @ (k, v) # ys" using assms(1) by (meson split_list)
  have "fst d \<noteq> None" if r: "decode_fields ?f kvs (None, zero_timeline) = Inr d" for d
  proof -
    obtain d1 where "decode_fields ?f ys (saveError (UnknownField k) d1) = Inr d"
      using r kvs assms(2) by (auto simp: decode_fields_append decode_timeline_field_def split: sum.splits)
    then show ?thesis by (rule decode_fields_keep) (auto dest: timeline_error_kept)
  qed
  then show ?thesis
    by (cases "decode_fields ?f kvs (None, zero_timeline)") (fastforce simp: decode_timeline_def settle_def split: option.splits)+
qed

text \<open>
  In an event such a key changes nothing: a misspelt \<open>at\<close> is passed over, and the event is due at once.
\<close>

lemma unknown_event_key_ignored:
  assumes "json_field [''at'', ''fact'', ''value''] k = None"
  shows "Event_UnmarshalJSON rt show (JsonObject (xs @ (k, v) # ys)) = Event_UnmarshalJSON rt show (JsonObject (xs @ ys))"
proof -
  have "k \<noteq> ''value''" using assms by (auto simp: json_field_def)
  then have "map_of (rev (xs @ (k, v) # ys)) ''value'' = map_of (rev (xs @ ys)) ''value''"
    using \<open>k \<noteq> ''value''\<close> by (simp add: map_add_def fun_upd_def)
  moreover have "decode_event_field rt show (k, v) d = Inr d" for d
    using assms by (simp add: decode_event_field_def)
  ultimately show ?thesis by (simp add: Event_UnmarshalJSON_def decode_fields_append split: sum.splits)
qed

lemma misspelt_time_is_zero:
  "Event_UnmarshalJSON rt show
     (JsonObject [(''time'', JsonNumber (Some 300)), (''fact'', JsonString f), (''value'', JsonBool b)]) =
   Inr \<lparr>te_At = 0, te_Fact = f, te_Value = GBool b, te_explicitNull = False\<rparr>"
  by (simp add: Event_UnmarshalJSON_def decode_event_field_def json_field_def zero_event_def settle_def ToLower_def lower_char_def)

section \<open>A file that loads\<close>

lemma Timeline_validate_ok:
  assumes "Timeline_validate decoded = Inr t"
  shows "0 < tl_Step t" and "tl_Step t \<le> tl_Duration t" and "tl_Events t \<noteq> []"
    and "\<And>e. e \<in> set (tl_Events t) \<Longrightarrow>
      0 \<le> te_At e \<and> te_At e \<le> tl_Duration t \<and> splitFactKey (te_Fact e) \<noteq> None \<and> (te_Value e = GNil \<longrightarrow> te_explicitNull e)"
proof -
  show "0 < tl_Step t" "tl_Step t \<le> tl_Duration t" "tl_Events t \<noteq> []"
    using assms by (auto simp: Timeline_validate_def Let_def split: if_splits list.splits)
  have "List.map_filter (check_event (tl_Duration t)) (enumerate 0 (tl_Events t)) = []"
    using assms by (auto simp: Timeline_validate_def Let_def split: if_splits list.splits)
  then have c: "\<forall>ie \<in> set (enumerate 0 (tl_Events t)). check_event (tl_Duration t) ie = None"
    by (force simp: List.map_filter_def filter_empty_conv)
  fix e assume e: "e \<in> set (tl_Events t)"
  then obtain i where "i < length (tl_Events t)" "tl_Events t ! i = e" by (auto simp: in_set_conv_nth)
  then have "(i, e) \<in> set (enumerate 0 (tl_Events t))" by (simp add: in_set_enumerate_eq)
  then have "check_event (tl_Duration t) (i, e) = None" using c by blast
  then show "0 \<le> te_At e \<and> te_At e \<le> tl_Duration t \<and> splitFactKey (te_Fact e) \<noteq> None \<and> (te_Value e = GNil \<longrightarrow> te_explicitNull e)"
    by (auto simp: check_event_def split: if_splits)
qed

text \<open>
  The events of a timeline that loads are in the order of their times, within its duration, of qualified
  facts, with a value or an explicit null, and a step is positive and fits.
\<close>

theorem loaded_timeline_ok:
  assumes "LoadTimelineFile rt show parse file = Inr script"
  shows "0 < tl_Step script \<and> tl_Step script \<le> tl_Duration script \<and> tl_Events script \<noteq> [] \<and>
    sorted (map te_At (tl_Events script)) \<and>
    (\<forall>e \<in> set (tl_Events script). 0 \<le> te_At e \<and> te_At e \<le> tl_Duration script \<and> splitFactKey (te_Fact e) \<noteq> None \<and>
       (te_Value e = GNil \<longrightarrow> te_explicitNull e))"
proof -
  obtain decoded where "LoadTimeline decoded = Inr script"
    using assms by (auto simp: LoadTimelineFile_def map_sum_def split: sum.splits option.splits)
  then obtain t where t: "Timeline_validate decoded = Inr t" "script = t\<lparr>tl_Events := sort_key te_At (tl_Events t)\<rparr>"
    by (auto simp: LoadTimeline_def split: sum.splits)
  have "sort_key te_At (tl_Events t) \<noteq> []" using Timeline_validate_ok(3) [OF t(1)] by (metis set_empty set_sort)
  then show ?thesis using Timeline_validate_ok(1,2,4) [OF t(1)] t(2) by simp
qed

end
