(* ===== verification/Commands.thy ===== *)
theory Commands
  imports Loader Source_Types Doctor Timeline_File Server Durability Daemon
begin

text \<open>
  The commands of the program (\<open>cmd/canarium/main.go\<close>): loading with validation, the daemon's start, and
  the outcome of \<open>validate\<close>, \<open>doctor\<close>, \<open>simulate\<close> and \<open>hash-password\<close>. Flags are arguments, what a
  command prints is a list of lines, and that it exits with an error is the value \<open>Inl\<close>.
\<close>

section \<open>Loading and validating\<close>

text \<open>
  What loading depends on: the environment, the decoder, the file, how paths are joined, the decoders of
  the sources, the order in which Go ranges over the declared facts, over the wake durations and over the
  dependencies, and who this host is.
\<close>

record load_world =
  lw_env :: "string \<rightharpoonup> string"
  lw_yaml :: "string \<Rightarrow> nat \<Rightarrow> decoded"
  lw_file :: "string + string"
  lw_join :: "string \<Rightarrow> string \<Rightarrow> string"
  lw_decoders :: decoders
  lw_keys :: "Store \<Rightarrow> string list"
  lw_wfields :: "string list"
  lw_order :: "string list"
  lw_local :: LocalIdentity

definition empty_result :: ValidationResult where
  "empty_result = \<lparr>vr_Errors = [], vr_Warnings = [], vr_Info = []\<rparr>"

definition loadAndValidate :: "rt \<Rightarrow> load_world \<Rightarrow> LoadOptions \<Rightarrow> load_error + Config \<times> ValidationResult" where
  "loadAndValidate rt w opts =
     (case LoadWith (lw_join w) (lw_env w) (lw_yaml w) (lw_file w) opts of
        Inl err \<Rightarrow> Inl err
      | Inr loaded \<Rightarrow>
          (let cfg = lr_Config loaded
           in case NewSourceManager (lw_decoders w) cfg NewStore of
                Inl err \<Rightarrow> Inr (cfg, add_diag empty_result (Err (LoadMsg (SourcesUnusable err))))
              | Inr (_, st) \<Rightarrow>
                  (let registry = buildRegistry cfg (lw_keys w st) (lw_local w);
                       result = ValidateWith rt cfg (Some registry) (lw_wfields w) (lw_order w)
                   in Inr (cfg, foldl add_diag result (map (\<lambda>n. Warn (LoadMsg (EnvMissing n))) (lr_MissingEnv loaded))))))"

datatype line = ErrorLine message | WarnLine message | InfoLine message | Text string

definition reportValidation :: "ValidationResult \<Rightarrow> bool \<Rightarrow> line list \<times> bool" where
  "reportValidation r verbose =
     (map ErrorLine (vr_Errors r) @ map WarnLine (vr_Warnings r) @ (if verbose then map InfoLine (vr_Info r) else []),
      HasErrors r)"

datatype command_error =
    Loading load_error
  | ValidationFailed nat
  | OpeningDatabase string
  | BuildingSources string
  | StartingSources string
  | PreflightFailed
  | LoadingTimeline timeline_error
  | BadTimeline sim_error
  | ReadingPassword string
  | PasswordTooShort
  | PasswordsDiffer
  | HashingFailed

definition validateCmd :: "rt \<Rightarrow> load_world \<Rightarrow> bool \<Rightarrow> bool \<Rightarrow> line list \<times> (command_error + unit)" where
  "validateCmd rt w silent strictEnv =
     (case loadAndValidate rt w \<lparr>lo_AllowMissingEnv = \<not> strictEnv\<rparr> of
        Inl err \<Rightarrow> ([], Inl (Loading err))
      | Inr (_, result) \<Rightarrow>
          (case reportValidation result (\<not> silent) of
             (out, True) \<Rightarrow> (out, Inl (ValidationFailed (length (vr_Errors result))))
           | (out, False) \<Rightarrow>
               (out @ [Text (if vr_Warnings result \<noteq> []
                             then ''Configuration is valid ('' @ show_nat (length (vr_Warnings result)) @ '' warning(s)).''
                             else ''Configuration is valid.'')], Inr ())))"

section \<open>Preflight and simulation\<close>

text \<open>
  \<open>learnedMACs\<close>: what the database has on record, and nothing when there is none or it cannot be read.
  The database is opened as the daemon opens it, so it is migrated and its files' modes are set.
\<close>

definition learnedMACs :: "bool \<Rightarrow> open_calls \<Rightarrow> data_dir \<Rightarrow> bool \<Rightarrow> DB \<Rightarrow> (string \<rightharpoonup> LearnedMAC) \<times> data_dir" where
  "learnedMACs exists calls dir readable db =
     (if \<not> exists then (Map.empty, dir)
      else case Open calls dir of
             (Inl _, dir') \<Rightarrow> (Map.empty, dir')
           | (Inr _, dir') \<Rightarrow> (if readable then LearnedMACs db else Map.empty, dir'))"

definition printDoctorReport :: "Check list \<Rightarrow> string list" where
  "printDoctorReport report =
     map (\<lambda>c. Status_String (ck_Status c) @ [char_of (9::nat)] @ ck_Subject c @ [char_of (9::nat)] @ ck_Name c @ [char_of (9::nat)] @ ck_Detail c) report @
     [show_nat (Report_Counts report StatusOK) @ '' ok, '' @ show_nat (Report_Counts report StatusWarn) @ '' warning(s), '' @
      show_nat (Report_Counts report StatusFail) @ '' failure(s), '' @ show_nat (Report_Counts report StatusSkip) @ '' skipped'']"

text \<open>
  \<open>tried\<close> is how the sources that were built behave when they are started; \<open>added\<close> gives the checks of
  the clients in the order they came in.
\<close>

definition doctorCmd ::
  "rt \<Rightarrow> load_world \<Rightarrow> doctor_world \<Rightarrow> (string list \<Rightarrow> string list) \<Rightarrow> (source_module list \<Rightarrow> tried_source list) \<Rightarrow>
     (Config \<Rightarrow> Check list) \<Rightarrow> Options \<Rightarrow> string list \<times> (command_error + unit)" where
  "doctorCmd rt w dw order tried added opts =
     (case loadAndValidate rt w \<lparr>lo_AllowMissingEnv = False\<rparr> of
        Inl err \<Rightarrow> ([], Inl (Loading err))
      | Inr (cfg, result) \<Rightarrow>
          (if HasErrors result then ([], Inl (ValidationFailed (length (vr_Errors result))))
           else case buildSources (lw_decoders w) (cf_Sources cfg) NewStore of
                  Inl err \<Rightarrow> ([], Inl (BuildingSources err))
                | Inr (ms, _) \<Rightarrow>
                    (let report = doctor_Run dw cfg (doctor_New opts) order (tried ms) (added cfg)
                     in (printDoctorReport report, if HasFailures report then Inl PreflightFailed else Inr ()))))"

text \<open>\<open>describeEvents\<close>, where \<open>print\<close> is how Go prints a duration.\<close>

fun joined :: "string \<Rightarrow> string list \<Rightarrow> string" where
  "joined sep [] = []"
| "joined sep [x] = x"
| "joined sep (x # y # xs) = x @ sep @ joined sep (y # xs)"

definition describeEvents :: "(duration \<Rightarrow> string) \<Rightarrow> sim_event list \<Rightarrow> string" where
  "describeEvents print events =
     (if events = [] then ''never''
      else joined ''; '' (map (\<lambda>ev. (if se_Stage ev = [] then se_Detail ev else se_Stage ev) @ '' at '' @ print (se_At ev)) events))"

definition printSimulationSummary :: "(duration \<Rightarrow> string) \<Rightarrow> Timeline \<Rightarrow> SimulationResult \<Rightarrow> string list" where
  "printSimulationSummary print tl' r =
     [''Simulation of plan '' @ strconv_Quote (rs_Plan r) @ '' over '' @ print (tl_Duration tl') @ '':'',
      ''Triggered:   '' @ describeEvents print (rs_Triggers r), ''Stages run:  '' @ describeEvents print (rs_Stages r),
      ''PONR:        '' @ describeEvents print (rs_PONR r), ''Aborted:     '' @ describeEvents print (rs_Aborts r),
      ''Wake gate:   '' @ describeEvents print (rs_WakeGates r)] @
     (if rs_ShutdownOrder r = [] then [] else [''Would shut down, in order: '' @ joined '', '' (rs_ShutdownOrder r)]) @
     (if rs_NotShutDown r = [] then []
      else (''WOULD NOT BE SHUT DOWN: '' @ joined '', '' (rs_NotShutDown r)) #
           map (\<lambda>ev. ''stage '' @ strconv_Quote (se_Stage ev) @ '' skipped at '' @ print (se_At ev) @ '': '' @ se_Detail ev) (rs_Skipped r)) @
     (if rs_Completed r then [] else [''The timeline ended before the wake gate opened. '' @
        ''Either it is too short, or the gate's conditions were never met.''])"

text \<open>\<open>show\<close>, \<open>parse\<close> and \<open>file\<close> are what the timeline's file is read with (\<open>Timeline_File\<close>).\<close>

definition simulateCmd ::
  "rt \<Rightarrow> load_world \<Rightarrow> instances \<Rightarrow> (duration \<Rightarrow> string) \<Rightarrow> (json \<Rightarrow> string) \<Rightarrow>
     (string \<Rightarrow> json option) \<Rightarrow> string + string \<Rightarrow> string \<Rightarrow> instant \<Rightarrow> (command_error + string list) option" where
  "simulateCmd rt w ins print show parse file planName base =
     (case loadAndValidate rt w \<lparr>lo_AllowMissingEnv = True\<rparr> of
        Inl err \<Rightarrow> Some (Inl (Loading err))
      | Inr (cfg, result) \<Rightarrow>
          (if HasErrors result then Some (Inl (ValidationFailed (length (vr_Errors result))))
           else case LoadTimelineFile rt show parse file of
                  Inl err \<Rightarrow> Some (Inl (LoadingTimeline err))
                | Inr tl' \<Rightarrow> map_option (map_sum BadTimeline (printSimulationSummary print tl')) (Run rt ins cfg tl' planName base)))"

section \<open>Passwords\<close>

text \<open>
  \<open>readPassword\<close>: from a terminal what the driver gives; else one line of the input, which need not be
  ended by a newline. The rest of the input is left.
\<close>

definition readPassword :: "bool \<Rightarrow> (string + string) \<Rightarrow> string \<Rightarrow> string + string" where
  "readPassword interactive typed piped =
     (if interactive then map_sum (\<lambda>err. ''reading password: '' @ err) TrimSpace typed
      else let line = TrimSpace (takeWhile (\<lambda>c. of_char c \<noteq> (10::nat)) piped)
           in if line = [] then Inl ''no password supplied on stdin'' else Inr line)"

definition hashPasswordCmd ::
  "crypto \<Rightarrow> string \<Rightarrow> bool \<Rightarrow> (string + string) \<Rightarrow> (string + string) \<Rightarrow> string \<Rightarrow> command_error + string" where
  "hashPasswordCmd cr salt interactive typed again piped =
     (case readPassword interactive typed piped of
        Inl err \<Rightarrow> Inl (ReadingPassword err)
      | Inr password \<Rightarrow>
          (if length password < MinPasswordLength then Inl PasswordTooShort
           else let hashed = (case hashPassword cr salt password of None \<Rightarrow> Inl HashingFailed | Some h \<Rightarrow> Inr h)
                in if \<not> interactive then hashed
                   else case readPassword True again piped of
                          Inl err \<Rightarrow> Inl (ReadingPassword err)
                        | Inr confirm \<Rightarrow> if password \<noteq> confirm then Inl PasswordsDiffer else hashed))"

datatype password_note = PinnedByFile | CannotTell | NoneSet

definition warnIfNoAdminPassword :: "Config \<Rightarrow> (string + string) \<Rightarrow> password_note option" where
  "warnIfNoAdminPassword cfg stored_hash =
     (if au_PasswordHash (ca_Auth (cf_Canarium cfg)) \<noteq> [] then Some PinnedByFile
      else case stored_hash of Inl _ \<Rightarrow> Some CannotTell | Inr hash \<Rightarrow> if hash = [] then Some NoneSet else None)"

section \<open>The daemon\<close>

text \<open>
  What the start of the daemon meets: the calls on the data directory, the tables in the database, the
  errors of the sources' own starts, the updates that arrive before the executor starts, and what the
  executor is handed at its start. Timers that cannot be loaded are an empty table here.
\<close>

record start_world =
  st_open :: open_calls
  st_dir :: data_dir
  st_db :: DB
  st_dwell :: dwell_table
  st_starts :: "source_module \<Rightarrow> string option"
  st_early :: "event list"
  st_keys :: "string list"
  st_ok :: bool
  st_now :: instant
  st_timings :: Timings
  st_lt :: "instant \<Rightarrow> instant \<Rightarrow> bool"
  st_snapshot :: "Config \<Rightarrow> string option"

definition daemon_env :: "rt \<Rightarrow> start_world \<Rightarrow> Config \<Rightarrow> engine_env" where
  "daemon_env rt sw cfg =
     \<lparr>en_cfg = cfg, en_transports = buildTransports, en_timings = st_timings sw, en_rt = rt, en_lt = st_lt sw,
      en_snapshot = st_snapshot sw\<rparr>"

text \<open>\<open>runDaemon\<close> up to the wait for a signal: the engine it runs, its sources, and the machine's first state.\<close>

definition runDaemon :: "rt \<Rightarrow> load_world \<Rightarrow> start_world \<Rightarrow> command_error + engine_env \<times> SourceManager \<times> daemon" where
  "runDaemon rt w sw =
     (case loadAndValidate rt w \<lparr>lo_AllowMissingEnv = False\<rparr> of
        Inl err \<Rightarrow> Inl (Loading err)
      | Inr (cfg, result) \<Rightarrow>
          (if HasErrors result then Inl (ValidationFailed (length (vr_Errors result)))
           else case Open (st_open sw) (st_dir sw) of
                  (Inl err, _) \<Rightarrow> Inl (OpeningDatabase err)
                | (Inr _, _) \<Rightarrow>
                    (case NewSourceManager (lw_decoders w) cfg NewStore of
                       Inl err \<Rightarrow> Inl (BuildingSources err)
                     | Inr (m, st) \<Rightarrow>
                         (case manager_Start (st_starts sw) m of
                            (Some err, _) \<Rightarrow> Inl (StartingSources err)
                          | (None, m') \<Rightarrow>
                              (let en = daemon_env rt sw cfg
                               in Inr (en, m', boot en (st_db sw) (st_dwell sw) (stored (st_early sw) st) (st_keys sw) (st_ok sw) (st_now sw)))))))"

end
