(* ===== verification/Wired.thy ===== *)
theory Wired
  imports Commands
begin

text \<open>
  What a daemon that started has: a configuration that was accepted names only transports and facts that
  exist in the daemon it is run by.
\<close>

section \<open>What is accepted\<close>

text \<open>
  The keys a condition names in its \<open>fact:\<close> and those of its parts that are evaluated; what the expression
  of a template names is text for the expression language.
\<close>

function condition_facts :: "ConditionConfig \<Rightarrow> string list" where
  "condition_facts c =
     (if c_Fact c = [] then [] else [c_Fact c]) @
     concat (map (\<lambda>(i, x). condition_facts x) (enumerate 0 (checked_kids c)))"
  by pat_completeness auto
termination
  by (relation "measure size") (auto dest: size_checked_kids)

declare condition_facts.simps [simp del]

definition plan_conditions :: "PlanConfig \<Rightarrow> ConditionConfig list" where
  "plan_conditions p =
     pl_Trigger p # (case pl_Abort p of None \<Rightarrow> [] | Some a \<Rightarrow> [a]) @ map sg_When (sh_Stages (pl_Shutdown p)) @ [wk_Gate (pl_Wake p)]"

lemma accepted_condition:
  assumes "\<not> has_err (validateConditionConfig rt (Some reg) ctx c)" and "rg_Facts reg \<noteq> []"
  shows "set (condition_facts c) \<subseteq> set (rg_Facts reg)"
  using assms(1)
proof (induction rt "Some reg" ctx c rule: validateConditionConfig.induct)
  case (1 rt ctx c)
  have kids: "set (condition_facts x) \<subseteq> set (rg_Facts reg)" if "(i, x) \<in> set (enumerate 0 (checked_kids c))" for i x
  proof -
    have "\<not> has_err (validateConditionConfig rt (Some reg) (CtxKid ctx i) x)"
      using "1.prems" that by (fastforce simp: validateConditionConfig.simps [of rt _ ctx c])
    then show ?thesis using "1.hyps" [OF that refl] by blast
  qed
  have "c_Fact c = [] \<or> c_Fact c \<in> set (rg_Facts reg)"
    using "1.prems" assms(2) by (auto simp: validateConditionConfig.simps [of rt _ ctx c] common_diags_def unsupported_def issue_def split: if_splits)
  then show ?case unfolding condition_facts.simps [of c] by (auto dest: kids [THEN subsetD])
qed

lemma accepted_plan:
  "\<not> has_err (validate_plans rt cfg reg wfields names ps) \<Longrightarrow> p \<in> set ps \<Longrightarrow> \<not> has_err (plan_diags rt cfg reg wfields p)"
  by (induction ps arbitrary: names) (auto split: if_splits)

lemma accepted_plan_conditions:
  assumes "\<not> has_err (plan_diags rt cfg reg wfields p)" and "c \<in> set (plan_conditions p)"
  shows "\<exists>ctx. \<not> has_err (validateConditionConfig rt reg ctx c)"
proof -
  have st: "\<exists>i. (i, s) \<in> set (enumerate 0 ss)" if a: "s \<in> set ss" for s and ss :: "StageConfig list"
  proof -
    obtain i where "i < length ss" "ss ! i = s" using a by (auto simp: in_set_conv_nth)
    then have "(i, s) \<in> set (enumerate 0 ss)" by (simp add: in_set_enumerate_eq)
    then show ?thesis by blast
  qed
  from assms(2) consider "c = pl_Trigger p" | "pl_Abort p = Some c" | s where "s \<in> set (sh_Stages (pl_Shutdown p))" "c = sg_When s"
    | "c = wk_Gate (pl_Wake p)"
    by (auto simp: plan_conditions_def split: option.splits)
  then show ?thesis
  proof cases
    case (3 s)
    then obtain i where "(i, s) \<in> set (enumerate 0 (sh_Stages (pl_Shutdown p)))" using st by blast
    then have "\<not> has_err (stage_diags rt cfg reg (pl_Name p) (i, s))" using assms(1) by (auto simp: plan_diags_def)
    then show ?thesis using 3 by (auto simp: stage_diags_def)
  qed (use assms(1) in \<open>auto simp: plan_diags_def\<close>)
qed

lemma accepted_clients:
  "validate_clients rt reg names deferred cs = (ds, r) \<Longrightarrow> \<not> has_err ds \<Longrightarrow> c \<in> set cs \<Longrightarrow> \<not> has_err (client_diags rt reg c)"
  by (induction cs arbitrary: names deferred ds r) (auto split: if_splits prod.splits)

text \<open>Every name in the table of transports is that of a transport.\<close>

lemma transport_known: "x \<in> set transportNames \<Longrightarrow> buildTransports x \<noteq> None"
  by (simp add: transportNames_def buildTransports_def map_of_eq_None_iff)

lemma transportNames_some: "transportNames \<noteq> []"
proof -
  have "''ssh'' \<in> set transportNames" by (simp add: transportNames_def transport_table_def)
  then show ?thesis by force
qed

lemma accepted_client:
  assumes "\<not> has_err (client_diags rt (Some reg) c)" and "rg_Transports reg = transportNames"
  shows "buildTransports (cl_Transport c) \<noteq> None \<and> buildTransports (wake_transport c) \<noteq> None"
proof -
  have "cl_Transport c \<in> set transportNames"
    using assms transportNames_some by (auto simp: client_diags_def unsupported_def issue_def split: if_splits)
  moreover have "wake_transport c \<in> set transportNames"
    using assms transportNames_some calculation
    by (auto simp: client_diags_def unsupported_def issue_def wake_transport_def split: option.splits if_splits)
  ultimately show ?thesis using transport_known by blast
qed

section \<open>What the daemon starts with\<close>

lemma stored_decls: "s_decls (stored evs st) = s_decls st"
  by (induction evs arbitrary: st) (simp_all add: stored_def split: event.splits)

lemma update_derived_decls: "s_decls (updateDerivedFacts cfg ups now st) = s_decls st"
proof -
  have "s_decls (foldl (\<lambda>st c. Store_Update (k c) (v st c) now st) st cs) = s_decls st" for k v and cs :: "ClientConfig list" and st
    by (induction cs arbitrary: st) simp_all
  then show ?thesis by (simp add: updateDerivedFacts_def)
qed

lemma boot_decls:
  "dom (s_decls (e_store (snd (boot en db tbl st keys ok now)))) =
     dom (s_decls st) \<union> derived_key ` cl_Name ` set (cf_Clients (en_cfg en))"
proof -
  have cu: "e_store (snd (cached_ups keys e)) = e_store e" for e by (simp add: cached_ups_def split: option.split)
  have rs: "e_store (snd (restoreState en ok now e)) = e_store e" for e
    by (simp add: restoreState_def Let_def restoreLearnedMACs_def restore_clients_def db_write_def setActiveSequence_def split: option.splits prod.splits)
  have rm: "e_store (restoreMode en e) = e_store e" for e by (simp add: restoreMode_def Let_def split: prod.split bool.split)
  have reg: "dom (s_decls (registerDerivedFacts (en_cfg en) p st)) = dom (s_decls st) \<union> derived_key ` cl_Name ` set (cf_Clients (en_cfg en))" for p
    using registered_source [of derivedSource _ st p, unfolded registered_def, THEN conjunct2]
    by (auto simp: registerDerivedFacts_def derived_key_def fact_key_def image_iff)
  show ?thesis
    by (simp add: boot_def start_executor_def Let_def split_beta rs cu rm update_derived_decls reg NewExecutor_def)
qed

lemma accepted_result:
  assumes "loadAndValidate rt w opts = Inr (cfg, result)" and "\<not> HasErrors result"
  obtains m st where "NewSourceManager (lw_decoders w) cfg NewStore = Inr (m, st)"
    and "\<not> HasErrors (ValidateWith rt cfg (Some (buildRegistry cfg (lw_keys w st) (lw_local w))) (lw_wfields w) (lw_order w))"
proof -
  obtain loaded where l: "LoadWith (lw_join w) (lw_env w) (lw_yaml w) (lw_file w) opts = Inr loaded"
    using assms(1) by (auto simp: loadAndValidate_def split: sum.splits)
  show thesis
  proof (cases "NewSourceManager (lw_decoders w) (lr_Config loaded) NewStore")
    case (Inl err)
    then show thesis using assms l by (auto simp: loadAndValidate_def HasErrors_def)
  next
    case (Inr ms)
    obtain m st where ms: "ms = (m, st)" by fastforce
    then show thesis
      using assms l Inr that [of m st] by (auto simp: loadAndValidate_def HasErrors_def errors_iff Let_def)
  qed
qed

lemma accepted_parts:
  assumes "\<not> HasErrors (ValidateWith rt cfg reg wfields order)"
  shows "\<not> has_err (validateClients rt cfg reg)" and "\<not> has_err (validatePlans rt cfg reg wfields)"
  using assms by (auto simp: HasErrors_def ValidateWith_def errors_iff)


end
