(* ===== verification/Events.thy ===== *)
theory Events
  imports Rest_Exec Limiter "HOL-Library.Multiset"
begin

text \<open>
  Where the executor's events go: the webhooks (\<open>notify/webhook.go\<close>) with their queue and workers, and the
  browsers on a websocket (\<open>api/websocket.go\<close>). Both are called on the goroutine that emits the event and
  must not hold it up.
\<close>

record notice =
  no_Type :: string
  no_Timestamp :: instant
  no_Data :: string

section \<open>Webhooks\<close>

definition webhookQueueDepth :: nat where "webhookQueueDepth = 256"
definition webhookWorkers :: nat where "webhookWorkers = 4"

record delivery =
  dl_webhook :: WebhookConfig
  dl_event :: notice

text \<open>
  The notifier: the channel, what each worker is sending, whether the channel is closed; \<open>wn_accepted\<close>
  and \<open>wn_sent\<close> record what was put into the channel and what has been attempted.
\<close>

record WebhookNotifier =
  wn_webhooks :: "WebhookConfig list"
  wn_queue :: "delivery list"
  wn_workers :: "delivery option list"
  wn_closed :: bool
  wn_accepted :: "delivery list"
  wn_sent :: "delivery list"

definition NewWebhookNotifier :: "WebhookConfig list \<Rightarrow> WebhookNotifier" where
  "NewWebhookNotifier webhooks =
     \<lparr>wn_webhooks = webhooks, wn_queue = [], wn_workers = replicate webhookWorkers None, wn_closed = False,
      wn_accepted = [], wn_sent = []\<rparr>"

definition wants :: "WebhookConfig \<Rightarrow> string \<Rightarrow> bool" where
  "wants wh type \<longleftrightarrow> wh_Events wh = [] \<or> type \<in> set (wh_Events wh)"

text \<open>
  One round of the loop: a send on a closed channel panics, which is \<open>None\<close>, even in a \<open>select\<close> with a
  default. The flag says that the delivery was dropped.
\<close>

definition offer :: "notice \<Rightarrow> WebhookConfig \<Rightarrow> WebhookNotifier \<Rightarrow> (bool \<times> WebhookNotifier) option" where
  "offer evt wh n =
     (if \<not> wants wh (no_Type evt) then Some (False, n)
      else if wn_closed n then None
      else let d = \<lparr>dl_webhook = wh, dl_event = evt\<rparr>
           in if length (wn_queue n) < webhookQueueDepth
              then Some (False, n\<lparr>wn_queue := wn_queue n @ [d], wn_accepted := wn_accepted n @ [d]\<rparr>)
              else Some (True, n))"

fun offer_all :: "notice \<Rightarrow> WebhookConfig list \<Rightarrow> WebhookNotifier \<Rightarrow> (WebhookConfig list \<times> WebhookNotifier) option" where
  "offer_all evt [] n = Some ([], n)"
| "offer_all evt (wh # whs) n =
     (case offer evt wh n of
        None \<Rightarrow> None
      | Some (dropped, n') \<Rightarrow>
          map_option (\<lambda>(missed, n''). ((if dropped then [wh] else []) @ missed, n'')) (offer_all evt whs n'))"

definition HandleEvent :: "notice \<Rightarrow> WebhookNotifier \<Rightarrow> (WebhookConfig list \<times> WebhookNotifier) option" where
  "HandleEvent evt n = offer_all evt (wn_webhooks n) n"

text \<open>The steps of the workers, and those of the emitter and of \<open>Close\<close>, which closes the channel and waits.\<close>

inductive worker_step :: "WebhookNotifier \<Rightarrow> WebhookNotifier \<Rightarrow> bool" where
  take: "i < length (wn_workers n) \<Longrightarrow> wn_workers n ! i = None \<Longrightarrow> wn_queue n = d # rest \<Longrightarrow>
     worker_step n (n\<lparr>wn_queue := rest, wn_workers := (wn_workers n)[i := Some d]\<rparr>)"
| sent: "i < length (wn_workers n) \<Longrightarrow> wn_workers n ! i = Some d \<Longrightarrow>
     worker_step n (n\<lparr>wn_workers := (wn_workers n)[i := None], wn_sent := wn_sent n @ [d]\<rparr>)"

inductive notifier_step :: "WebhookNotifier \<Rightarrow> WebhookNotifier \<Rightarrow> bool" where
  handle: "HandleEvent evt n = Some (missed, n') \<Longrightarrow> notifier_step n n'"
| work: "worker_step n n' \<Longrightarrow> notifier_step n n'"
| close: "notifier_step n (n\<lparr>wn_closed := True\<rparr>)"

inductive_cases notifier_stepE: "notifier_step n n'"

definition close_returns :: "WebhookNotifier \<Rightarrow> bool" where
  "close_returns n \<longleftrightarrow> wn_closed n \<and> wn_queue n = [] \<and> list_all (\<lambda>w. w = None) (wn_workers n)"

text \<open>
  A delivery, by the lines it logs. \<open>po_create\<close> is the error of a URL no request can be made for.
\<close>

record post_world =
  po_marshals :: "notice \<Rightarrow> bool"
  po_create :: "string \<Rightarrow> string option"
  po_answer :: "delivery \<Rightarrow> string + nat"

definition webhook_send :: "url_lib \<Rightarrow> post_world \<Rightarrow> delivery \<Rightarrow> string list" where
  "webhook_send ul w d =
     (let url = wh_URL (dl_webhook d); safeURL = RedactEndpoint ul url
      in if \<not> po_marshals w (dl_event d) then [''marshaling webhook payload'']
         else case po_create w url of
                Some err \<Rightarrow> [''creating webhook request error='' @ err @ '' url='' @ safeURL]
              | None \<Rightarrow>
                  (case po_answer w d of
                     Inl err \<Rightarrow> [''sending webhook error='' @ RedactSecrets err [url] @ '' url='' @ safeURL]
                   | Inr status \<Rightarrow>
                       if status \<ge> 300 then [''webhook returned a non-success status url='' @ safeURL @ '' status='' @ show_nat status]
                       else []))"

section \<open>Browsers\<close>

definition wsSendBuffer :: nat where "wsSendBuffer = 256"
definition wsWriteTimeout :: duration where "wsWriteTimeout = 10 * Second"
definition wsPongTimeout :: duration where "wsPongTimeout = 60 * Second"
definition wsPingInterval :: duration where "wsPingInterval = (wsPongTimeout * 9) div 10"

text \<open>\<open>parse\<close> is \<open>url.Parse\<close>, by the host of the result.\<close>

definition checkOrigin :: "(string \<Rightarrow> string option) \<Rightarrow> Config \<Rightarrow> string \<Rightarrow> request \<Rightarrow> bool" where
  "checkOrigin parse cfg host r =
     (let origin = rq_Header r ''Origin''
      in if origin = [] then True
         else case parse origin of
                None \<Rightarrow> False
              | Some h \<Rightarrow>
                  if ToLower h = ToLower host then True
                  else list_ex (\<lambda>allowed. ToLower allowed = ToLower origin \<or> ToLower allowed = ToLower h)
                         (au_AllowedOrigins (ca_Auth (cf_Canarium cfg))))"

text \<open>
  A connection: its channel, whether it is closed, which pumps still run, and what was written. The
  server holds those that are registered by a number.
\<close>

record wsClient =
  wc_send :: "notice list"
  wc_done :: bool
  wc_writing :: bool
  wc_reading :: bool
  wc_written :: "notice list"

record hub =
  hb_clients :: "(nat \<times> wsClient) list"
  hb_next :: nat
  hb_stopped :: bool

definition handleWebSocket :: "(string \<Rightarrow> string option) \<Rightarrow> Config \<Rightarrow> string \<Rightarrow> request \<Rightarrow> bool \<Rightarrow> hub \<Rightarrow> bool \<times> hub" where
  "handleWebSocket parse cfg host r upgrades h =
     (if \<not> checkOrigin parse cfg host r \<or> \<not> upgrades then (False, h)
      else (True, h\<lparr>hb_clients := hb_clients h @
              [(hb_next h, \<lparr>wc_send = [], wc_done = False, wc_writing = True, wc_reading = True, wc_written = []\<rparr>)],
            hb_next := hb_next h + 1\<rparr>))"

text \<open>
  The \<open>select\<close> of a broadcast: with room in the channel of a closed connection Go picks either branch, which
  \<open>pick\<close> says; it never waits.
\<close>

definition push_event :: "bool \<Rightarrow> notice \<Rightarrow> wsClient \<Rightarrow> wsClient" where
  "push_event pick evt c =
     (if length (wc_send c) < wsSendBuffer \<and> (\<not> wc_done c \<or> pick) then c\<lparr>wc_send := wc_send c @ [evt]\<rparr> else c)"

definition BroadcastEvent :: "(notice \<Rightarrow> bool) \<Rightarrow> (nat \<Rightarrow> bool) \<Rightarrow> notice \<Rightarrow> hub \<Rightarrow> hub" where
  "BroadcastEvent marshals pick evt h =
     (if \<not> marshals evt then h
      else h\<lparr>hb_clients := map (\<lambda>(k, c). (k, push_event (pick k) evt c)) (hb_clients h)\<rparr>)"

definition on_client :: "nat \<Rightarrow> (wsClient \<Rightarrow> wsClient) \<Rightarrow> hub \<Rightarrow> hub" where
  "on_client k f h = h\<lparr>hb_clients := map (\<lambda>(k', c). (k', if k' = k then f c else c)) (hb_clients h)\<rparr>"

definition ws_close :: "wsClient \<Rightarrow> wsClient" where
  "ws_close c = c\<lparr>wc_done := True\<rparr>"

text \<open>A write of the oldest message; a failed one ends the pump, which closes the connection.\<close>

definition pump_write :: "bool \<Rightarrow> wsClient \<Rightarrow> wsClient" where
  "pump_write ok c =
     (case wc_send c of
        [] \<Rightarrow> c
      | m # ms \<Rightarrow> if ok then c\<lparr>wc_send := ms, wc_written := wc_written c @ [m]\<rparr>
                  else ws_close (c\<lparr>wc_send := ms, wc_writing := False\<rparr>))"

definition unregisterWSClient :: "nat \<Rightarrow> hub \<Rightarrow> hub" where
  "unregisterWSClient k h = h\<lparr>hb_clients := filter (\<lambda>(k', c). k' \<noteq> k) (hb_clients h)\<rparr>"

definition closeWebSockets :: "hub \<Rightarrow> hub" where
  "closeWebSockets h = h\<lparr>hb_clients := map (\<lambda>(k, c). (k, ws_close c)) (hb_clients h), hb_stopped := True\<rparr>"

inductive hub_step :: "hub \<Rightarrow> hub \<Rightarrow> bool" where
  connect: "handleWebSocket parse cfg host r upgrades h = (ok, h') \<Longrightarrow> hub_step h h'"
| broadcast: "hub_step h (BroadcastEvent marshals pick evt h)"
| written: "(k, c) \<in> set (hb_clients h) \<Longrightarrow> wc_writing c \<Longrightarrow> hub_step h (on_client k (pump_write ok) h)"
| write_ends: "(k, c) \<in> set (hb_clients h) \<Longrightarrow> wc_writing c \<Longrightarrow>
     hub_step h (on_client k (\<lambda>c. ws_close (c\<lparr>wc_writing := False\<rparr>)) h)"
| read_ends: "(k, c) \<in> set (hb_clients h) \<Longrightarrow> hub_step h (unregisterWSClient k (on_client k (\<lambda>c. ws_close (c\<lparr>wc_reading := False\<rparr>)) h))"
| stopping: "hub_step h (closeWebSockets h)"

inductive_cases hub_stepE: "hub_step h h'"

section \<open>Nothing accepted is lost\<close>

definition in_flight :: "WebhookNotifier \<Rightarrow> delivery list" where
  "in_flight n = List.map_filter id (wn_workers n)"

definition notifier_inv :: "WebhookNotifier \<Rightarrow> bool" where
  "notifier_inv n \<longleftrightarrow>
     length (wn_queue n) \<le> webhookQueueDepth \<and> length (wn_workers n) = webhookWorkers \<and>
     mset (wn_accepted n) = mset (wn_queue n) + mset (in_flight n) + mset (wn_sent n)"

lemma busy_update:
  "i < length ws \<Longrightarrow> ws ! i = None \<Longrightarrow> mset (List.map_filter id (ws[i := Some d])) = add_mset d (mset (List.map_filter id ws))"
  "i < length ws \<Longrightarrow> ws ! i = Some d \<Longrightarrow> add_mset d (mset (List.map_filter id (ws[i := None]))) = mset (List.map_filter id ws)"
  for ws :: "'a option list"
proof (induction ws arbitrary: i)
  case (Cons w ws)
  {
    case 1
    then show ?case using Cons.IH(1) by (cases i) (auto simp: List.map_filter_simps split: option.split)
  next
    case 2
    then show ?case using Cons.IH(2) by (cases i) (auto simp: List.map_filter_simps add_mset_commute split: option.split)
  }
qed simp_all

lemma offer_inv: "offer evt wh n = Some (b, n') \<Longrightarrow> notifier_inv n \<Longrightarrow> notifier_inv n'"
  by (auto simp: offer_def Let_def notifier_inv_def in_flight_def split: if_splits)

lemma offer_all_inv: "offer_all evt whs n = Some (missed, n') \<Longrightarrow> notifier_inv n \<Longrightarrow> notifier_inv n'"
  by (induction whs arbitrary: n missed) (auto split: option.splits prod.splits dest: offer_inv)

lemma worker_inv: "worker_step n n' \<Longrightarrow> notifier_inv n \<Longrightarrow> notifier_inv n'"
proof (induction rule: worker_step.induct)
  case (take i n d rest)
  then show ?case using busy_update(1) [of i "wn_workers n" d] by (simp add: notifier_inv_def in_flight_def)
next
  case (sent i n d)
  then show ?case using busy_update(2) [of i "wn_workers n" d] by (auto simp: notifier_inv_def in_flight_def)
qed

lemma notifier_inv_step: "notifier_step n n' \<Longrightarrow> notifier_inv n \<Longrightarrow> notifier_inv n'"
  by (induction rule: notifier_step.induct) (auto simp: HandleEvent_def dest: offer_all_inv worker_inv, simp add: notifier_inv_def in_flight_def)

lemma notifier_reachable: "notifier_step\<^sup>*\<^sup>* (NewWebhookNotifier whs) n \<Longrightarrow> notifier_inv n"
proof (induction rule: rtranclp_induct)
  case base
  show ?case by (simp add: notifier_inv_def NewWebhookNotifier_def in_flight_def webhookWorkers_def List.map_filter_def)
qed (rule notifier_inv_step)

text \<open>What the workers still have to do, and that they can.\<close>

definition outstanding :: "WebhookNotifier \<Rightarrow> nat" where
  "outstanding n = 2 * length (wn_queue n) + length (in_flight n)"

lemma worker_progress: "worker_step n n' \<Longrightarrow> outstanding n = Suc (outstanding n')"
proof (induction rule: worker_step.induct)
  case (take i n d rest)
  then show ?case using arg_cong [OF busy_update(1) [of i "wn_workers n" d], of size]
    by (simp add: outstanding_def in_flight_def)
next
  case (sent i n d)
  then show ?case using arg_cong [OF busy_update(2) [of i "wn_workers n" d], of size]
    by (simp add: outstanding_def in_flight_def)
qed

lemma worker_steps:
  "(worker_step ^^ k) n n' \<Longrightarrow> outstanding n = k + outstanding n' \<and> wn_closed n' = wn_closed n \<and> (notifier_inv n \<longrightarrow> notifier_inv n')"
proof (induction k arbitrary: n')
  case (Suc k)
  then obtain m where m: "(worker_step ^^ k) n m" "worker_step m n'" by auto
  moreover have "wn_closed n' = wn_closed m" using m(2) by cases simp_all
  ultimately show ?case using Suc.IH worker_progress worker_inv by fastforce
qed simp

lemma worker_can:
  assumes "notifier_inv n" and "wn_closed n" and "\<not> close_returns n"
  shows "\<exists>n'. worker_step n n'"
proof (cases "list_all (\<lambda>w. w = None) (wn_workers n)")
  case True
  then obtain d rest where "wn_queue n = d # rest" using assms(2,3) by (cases "wn_queue n") (auto simp: close_returns_def)
  moreover have "0 < length (wn_workers n)" using assms(1) by (simp add: notifier_inv_def webhookWorkers_def)
  moreover from this have "wn_workers n ! 0 = None" using True by (simp add: list_all_length)
  ultimately show ?thesis by (blast intro: worker_step.take)
next
  case False
  then obtain i d where "i < length (wn_workers n)" "wn_workers n ! i = Some d" by (auto simp: list_all_length)
  then show ?thesis by (blast intro: worker_step.sent)
qed

lemma outstanding_bound: "notifier_inv n \<Longrightarrow> outstanding n \<le> 2 * webhookQueueDepth + webhookWorkers"
proof -
  assume inv: "notifier_inv n"
  have "length (in_flight n) \<le> length (wn_workers n)"
    by (simp add: in_flight_def List.map_filter_def)
  then show ?thesis using inv by (simp add: outstanding_def notifier_inv_def)
qed

text \<open>
  C28. No notification is lost on the way out. After any events, however the workers are scheduled, at most 256
  deliveries wait and an event is turned away only when that many do; and once the notifier is being
  closed, its workers take at most 516 more steps, can always take one until \<open>Close\<close> returns, and then
  every delivery that was accepted has been attempted exactly once.
\<close>

theorem accepted_notifications_sent:
  assumes "notifier_step\<^sup>*\<^sup>* (NewWebhookNotifier whs) n" and "wn_closed n" and "(worker_step ^^ k) n n'"
  shows "length (wn_queue n) \<le> webhookQueueDepth \<and> k \<le> 2 * webhookQueueDepth + webhookWorkers \<and>
    (if close_returns n' then mset (wn_sent n') = mset (wn_accepted n') else \<exists>n''. worker_step n' n'')"
proof -
  have inv: "notifier_inv n" using notifier_reachable [OF assms(1)] .
  note s = worker_steps [OF assms(3)]
  have inv': "notifier_inv n'" using s inv by blast
  have "k \<le> 2 * webhookQueueDepth + webhookWorkers" using s outstanding_bound [OF inv] by linarith
  moreover have "in_flight n' = []" if "close_returns n'"
    using that by (simp add: close_returns_def in_flight_def List.map_filter_def list_all_iff filter_empty_conv)
  then have "mset (wn_sent n') = mset (wn_accepted n')" if "close_returns n'"
    using that inv' by (simp add: notifier_inv_def close_returns_def)
  moreover have "\<exists>n''. worker_step n' n''" if "\<not> close_returns n'"
    using worker_can [OF inv' _ that] s assms(2) by blast
  ultimately show ?thesis using inv by (simp add: notifier_inv_def)
qed

text \<open>An event that comes after \<open>Close\<close> has begun brings the program down.\<close>

lemma event_after_close_panics:
  "wn_closed n \<Longrightarrow> wh \<in> set (wn_webhooks n) \<Longrightarrow> wants wh (no_Type evt) \<Longrightarrow> HandleEvent evt n = None"
proof -
  assume c: "wn_closed n" and w: "wh \<in> set (wn_webhooks n)" "wants wh (no_Type evt)"
  have "wh \<in> set whs \<Longrightarrow> offer_all evt whs n = None" for whs
    by (induction whs) (auto simp: offer_def c w split: option.split)
  then show ?thesis using w by (simp add: HandleEvent_def)
qed

text \<open>The error of a URL no request can be made for is logged as it is, with the URL it may quote.\<close>

lemma creating_error_unredacted:
  "po_marshals w (dl_event d) \<Longrightarrow> po_create w (wh_URL (dl_webhook d)) = Some err \<Longrightarrow>
     webhook_send ul w d = [''creating webhook request error='' @ err @ '' url='' @ RedactEndpoint ul (wh_URL (dl_webhook d))]"
  by (simp add: webhook_send_def)

section \<open>Connections\<close>

text \<open>No more than 256 messages wait for a browser, and a broadcast leaves the others alone.\<close>

definition hub_inv :: "hub \<Rightarrow> bool" where
  "hub_inv h \<longleftrightarrow> list_all (\<lambda>(k, c). length (wc_send c) \<le> wsSendBuffer \<and> k < hb_next h) (hb_clients h) \<and> distinct (map fst (hb_clients h))"

lemma hub_inv_step: "hub_step h h' \<Longrightarrow> hub_inv h \<Longrightarrow> hub_inv h'"
proof (induction rule: hub_step.induct)
  case (connect parse cfg host r upgrades h ok h')
  then show ?case
    by (fastforce simp: handleWebSocket_def hub_inv_def wsSendBuffer_def list_all_iff split: if_splits)
next
  case (broadcast h marshals pick evt)
  then show ?case
    by (auto simp: BroadcastEvent_def hub_inv_def push_event_def list_all_iff o_def split_beta)
next
  case (written k c h ok)
  then show ?case
    by (auto simp: on_client_def hub_inv_def pump_write_def ws_close_def list_all_iff o_def split_beta split: list.split)
qed (auto simp: on_client_def unregisterWSClient_def closeWebSockets_def hub_inv_def ws_close_def list_all_iff o_def split_beta
      intro: distinct_map_filter)

text \<open>A healthy connection is pinged before it is given up.\<close>

lemma ping_before_timeout: "0 < wsPingInterval \<and> wsPingInterval < wsPongTimeout"
  by (simp add: wsPingInterval_def wsPongTimeout_def)

end
