(* ===== verification/Views.thy ===== *)
theory Views
  imports Server Events
begin

text \<open>
  What the API shows (\<open>api/server.go\<close>, \<open>api/plans.go\<close>): the read-only answers as records, before they are
  rendered as JSON, with the session cookie and the web page the server falls back to.
\<close>

section \<open>State and facts\<close>

record health =
  hv_Status :: string
  hv_Mode :: string
  hv_Version :: string

definition handleHealth :: "string \<Rightarrow> Executor \<Rightarrow> health" where
  "handleHealth version e = \<lparr>hv_Status = ''ok'', hv_Mode = Mode_String (e_mode e), hv_Version = version\<rparr>"

record status_view =
  vw_Mode :: string
  vw_Sequence :: "SequenceSnapshot option"
  vw_Clients :: "string \<rightharpoonup> string"
  vw_Version :: string
  vw_Warnings :: "string list"

definition handleStatus :: "string \<Rightarrow> string list \<Rightarrow> Executor \<Rightarrow> status_view" where
  "handleStatus version warnings e =
     \<lparr>vw_Mode = Mode_String (e_mode e), vw_Sequence = map_option Snapshot (e_active e),
      vw_Clients = map_option ClientState_String \<circ> e_clientStates e, vw_Version = version, vw_Warnings = warnings\<rparr>"

definition handleSequence :: "Executor \<Rightarrow> SequenceSnapshot option" where
  "handleSequence e = map_option Snapshot (e_active e)"

record factInfo =
  fi_Value :: goval
  fi_Quality :: string
  fi_UpdatedAt :: "instant option"
  fi_Type :: string
  fi_Unit :: string
  fi_Description :: string

definition fact_info :: "FactDeclaration option \<Rightarrow> Fact \<Rightarrow> factInfo" where
  "fact_info decl f =
     (case Fact_Get f of (value, quality, updated) \<Rightarrow>
        (let info = \<lparr>fi_Value = value, fi_Quality = Quality_String quality, fi_UpdatedAt = updated,
                     fi_Type = [], fi_Unit = [], fi_Description = []\<rparr>
         in case decl of
              None \<Rightarrow> info
            | Some d \<Rightarrow> info\<lparr>fi_Type := d_Type d, fi_Unit := d_Unit d, fi_Description := d_Description d\<rparr>))"

definition handleFacts :: "Store \<Rightarrow> (string \<rightharpoonup> factInfo)" where
  "handleFacts st = (\<lambda>key. map_option (fact_info (AllDeclarations st key)) (AllFacts st key))"

section \<open>Clients\<close>

record clientInfo =
  ci_Name :: string
  ci_Description :: string
  ci_Transport :: string
  ci_Address :: string
  ci_Tags :: "string list"
  ci_Feeds :: "string list"
  ci_FeedPolicy :: string
  ci_WakePolicy :: string
  ci_DependsOn :: "string list"
  ci_State :: string
  ci_MAC :: string
  ci_MACSource :: string
  ci_MACConfirmedAt :: "instant option"

definition client_info :: "Executor \<Rightarrow> ClientConfig \<Rightarrow> clientInfo" where
  "client_info e c =
     (let mac = macFor e None c;
          learned = e_learnedMACs e (cl_Name c);
          known = (case learned of None \<Rightarrow> False | Some l \<Rightarrow> lm_MAC l = mac)
      in \<lparr>ci_Name = cl_Name c, ci_Description = cl_Description c, ci_Transport = cl_Transport c, ci_Address = cl_Address c,
          ci_Tags = cl_Tags c, ci_Feeds = cl_Feeds c, ci_FeedPolicy = cl_FeedPolicy c, ci_WakePolicy = cl_WakePolicy c,
          ci_DependsOn = cl_DependsOn c, ci_State = ClientState_String (clientState e (cl_Name c)), ci_MAC = mac,
          ci_MACSource = (if mac = [] then [] else if known then lm_Source (the learned) else ''configured''),
          ci_MACConfirmedAt = (if mac \<noteq> [] \<and> known then Some (lm_ConfirmedAt (the learned)) else None)\<rparr>)"

definition handleClients :: "Config \<Rightarrow> Executor \<Rightarrow> clientInfo list" where
  "handleClients cfg e = map (client_info e) (cf_Clients cfg)"

section \<open>Plans\<close>

record stageInfo =
  si_Name :: string
  si_Clients :: "string list"
  si_Refs :: "string list"
  si_Unmatched :: "string list"
  si_When :: Explanation
  si_Budget :: string
  si_WaitTimeout :: string
  si_WaitPolicy :: string
  si_PointOfNoReturn :: bool

record postShutdownInfo =
  pi_Action :: string
  pi_Command :: string
  pi_Delay :: int
  pi_UPS :: string

record wakeInfo =
  wi_Gate :: Explanation
  wi_GateMissing :: bool
  wi_Order :: string
  wi_Stagger :: string
  wi_ProbeInterval :: string
  wi_BootDeadline :: string
  wi_Retries :: int

record planInfo =
  pn_Name :: string
  pn_Stages :: nat
  pn_Trigger :: Explanation
  pn_Abort :: "Explanation option"
  pn_Shutdown :: "stageInfo list"
  pn_PostShutdown :: "postShutdownInfo option"
  pn_Wake :: wakeInfo

definition clientConfigured :: "Config \<Rightarrow> string \<Rightarrow> bool" where
  "clientConfigured cfg name \<longleftrightarrow> list_ex (\<lambda>c. cl_Name c = name) (cf_Clients cfg)"

definition unmatchedRefs :: "Config \<Rightarrow> string list \<Rightarrow> string list" where
  "unmatchedRefs cfg refs =
     filter (\<lambda>ref. if HasPrefix ref tag_prefix then ResolveClientRefs [ref] cfg = [] else \<not> clientConfigured cfg ref) refs"

text \<open>\<open>ExplainCondition\<close>: the compiled expressions it may put into the cache are left out.\<close>

definition ExplainCondition :: "rt \<Rightarrow> Executor \<Rightarrow> instant \<Rightarrow> ConditionConfig \<Rightarrow> Explanation" where
  "ExplainCondition rt e now c = fst (Explain rt (e_store e) now c (e_evaluator e))"

definition stage_info :: "rt \<Rightarrow> Config \<Rightarrow> Executor \<Rightarrow> instant \<Rightarrow> StageConfig \<Rightarrow> stageInfo" where
  "stage_info rt cfg e now s =
     \<lparr>si_Name = sg_Name s, si_Clients = ResolveClientRefs (sg_Clients s) cfg, si_Refs = sg_Clients s,
      si_Unmatched = unmatchedRefs cfg (sg_Clients s), si_When = ExplainCondition rt e now (sg_When s),
      si_Budget = sg_Budget s, si_WaitTimeout = sg_WaitTimeout s, si_WaitPolicy = sg_WaitPolicy s,
      si_PointOfNoReturn = sg_PointOfNoReturn s\<rparr>"

definition plan_info :: "rt \<Rightarrow> Config \<Rightarrow> Executor \<Rightarrow> instant \<Rightarrow> PlanConfig \<Rightarrow> planInfo" where
  "plan_info rt cfg e now p =
     (let w = pl_Wake p
      in \<lparr>pn_Name = pl_Name p, pn_Stages = length (sh_Stages (pl_Shutdown p)),
          pn_Trigger = ExplainCondition rt e now (pl_Trigger p), pn_Abort = map_option (ExplainCondition rt e now) (pl_Abort p),
          pn_Shutdown = map (stage_info rt cfg e now) (sh_Stages (pl_Shutdown p)),
          pn_PostShutdown = map_option (\<lambda>ps. \<lparr>pi_Action = ps_Action ps, pi_Command = ps_Command ps, pi_Delay = ps_Delay ps, pi_UPS = ps_UPS ps\<rparr>)
            (sh_PostShutdown (pl_Shutdown p)),
          pn_Wake = \<lparr>wi_Gate = ExplainCondition rt e now (wk_Gate w), wi_GateMissing = IsZeroCondition (wk_Gate w), wi_Order = wk_Order w,
            wi_Stagger = wk_Stagger w, wi_ProbeInterval = wk_ProbeInterval w, wi_BootDeadline = wk_BootDeadline w, wi_Retries = wk_Retries w\<rparr>\<rparr>)"

definition handlePlans :: "rt \<Rightarrow> Config \<Rightarrow> Executor \<Rightarrow> instant \<Rightarrow> planInfo list" where
  "handlePlans rt cfg e now = map (plan_info rt cfg e now) (cf_Plans cfg)"

section \<open>Cookie, page and lifetime\<close>

record cookie =
  ko_Name :: string
  ko_Value :: string
  ko_HttpOnly :: bool
  ko_Secure :: bool
  ko_SameSiteStrict :: bool
  ko_MaxAge :: int

definition sessionCookie :: "server_env \<Rightarrow> request \<Rightarrow> string \<Rightarrow> int \<Rightarrow> cookie" where
  "sessionCookie srv r value maxAge =
     \<lparr>ko_Name = ''canarium_session'', ko_Value = value, ko_HttpOnly = True, ko_Secure = requestIsSecure srv r,
      ko_SameSiteStrict = True, ko_MaxAge = maxAge\<rparr>"

text \<open>\<open>drawn\<close> are the octets the system's source gives; there are as many as were asked for.\<close>

definition sessionTokenBytes :: nat where "sessionTokenBytes = 32"

definition newSessionToken :: "octet list option \<Rightarrow> string option" where
  "newSessionToken drawn = map_option (\<lambda>b. hex_EncodeToString (take sessionTokenBytes b)) drawn"

text \<open>
  The page for a path that no route of the API claims: \<open>None\<close> when the program was built without the pages;
  else the path served and whether it must not be cached. \<open>clean\<close> is \<open>path.Clean\<close>.
\<close>

definition routeWebUI :: "(string \<Rightarrow> string) \<Rightarrow> (string \<Rightarrow> bool) \<Rightarrow> string \<Rightarrow> (string \<times> bool) option" where
  "routeWebUI clean there path =
     (if \<not> there ''index.html'' then None
      else let served = (if there (TrimPrefix (clean path) ''/'') then path else ''/'')
           in Some (served, served = ''/'' \<or> CutSuffix served ''.html'' \<noteq> None))"

section \<open>What the views tell\<close>

text \<open>A reference is shown as unmatched exactly when no client of the configuration is acted on for it.\<close>

lemma unmatchedRefs_iff:
  "ref \<in> set (unmatchedRefs cfg refs) \<longleftrightarrow>
     ref \<in> set refs \<and> (\<forall>c \<in> set (cf_Clients cfg). cl_Name c \<notin> set (ResolveClientRefs [ref] cfg))"
proof (cases "HasPrefix ref tag_prefix")
  case True
  then have "set (ResolveClientRefs [ref] cfg) \<subseteq> cl_Name ` set (cf_Clients cfg)" by (auto simp: Resolve_set)
  then have "ResolveClientRefs [ref] cfg = [] \<longleftrightarrow> (\<forall>c \<in> set (cf_Clients cfg). cl_Name c \<notin> set (ResolveClientRefs [ref] cfg))"
    by (cases "ResolveClientRefs [ref] cfg") auto
  then show ?thesis using True by (simp add: unmatchedRefs_def)
next
  case False
  then have "set (ResolveClientRefs [ref] cfg) = {ref}" by (auto simp: Resolve_set HasPrefix_iff)
  then show ?thesis using False by (auto simp: unmatchedRefs_def clientConfigured_def list_ex_iff)
qed

text \<open>A configuration without its secrets: what the views show of it is the same.\<close>

definition without_secrets :: "Config \<Rightarrow> Config" where
  "without_secrets cfg =
     cfg\<lparr>cf_Clients := map (\<lambda>c. c\<lparr>cl_Credentials := [], cl_Config := Map.empty\<rparr>) (cf_Clients cfg),
         cf_Plans := map (\<lambda>p. p\<lparr>pl_Shutdown := (pl_Shutdown p)\<lparr>sh_PostShutdown :=
           map_option (\<lambda>ps. ps\<lparr>ps_Username := [], ps_Password := []\<rparr>) (sh_PostShutdown (pl_Shutdown p))\<rparr>\<rparr>) (cf_Plans cfg)\<rparr>"

lemma tags_without_secrets: "buildTagMap (without_secrets cfg) = buildTagMap cfg"
  by (simp add: buildTagMap_def without_secrets_def foldl_map)

lemma refs_without_secrets: "ResolveClientRefs refs (without_secrets cfg) = ResolveClientRefs refs cfg"
  by (simp add: ResolveClientRefs_def tags_without_secrets)

lemma unmatched_without_secrets: "unmatchedRefs (without_secrets cfg) refs = unmatchedRefs cfg refs"
proof -
  have "clientConfigured (without_secrets cfg) = clientConfigured cfg"
    by (simp add: clientConfigured_def without_secrets_def list_ex_iff fun_eq_iff)
  then show ?thesis by (simp add: unmatchedRefs_def refs_without_secrets)
qed

lemma client_without_secrets: "client_info e (c\<lparr>cl_Credentials := [], cl_Config := Map.empty\<rparr>) = client_info e c"
proof -
  have "macFor e None (c\<lparr>cl_Credentials := [], cl_Config := Map.empty\<rparr>) = macFor e None c"
    by (cases "cl_Wake c") (simp_all add: macFor_def clientMAC_def pinned_addr_def)
  then show ?thesis by (simp add: client_info_def)
qed

lemma views_hide_secrets:
  "handlePlans rt (without_secrets cfg) e now = handlePlans rt cfg e now \<and>
   handleClients (without_secrets cfg) e = handleClients cfg e"
proof -
  have "stage_info rt (without_secrets cfg) e now s = stage_info rt cfg e now s" for s
    by (simp add: stage_info_def refs_without_secrets unmatched_without_secrets)
  then have "handlePlans rt (without_secrets cfg) e now = handlePlans rt cfg e now"
    by (auto simp: handlePlans_def plan_info_def without_secrets_def Let_def option.map_comp o_def intro!: map_option_cong)
  moreover have "handleClients (without_secrets cfg) e = handleClients cfg e"
    by (simp add: handleClients_def without_secrets_def client_without_secrets)
  ultimately show ?thesis by blast
qed

text \<open>A fact that was never reported is shown without a time and as unknown.\<close>

lemma unreported_shown_unknown:
  "store_inv st \<Longrightarrow> handleFacts st k = Some info \<Longrightarrow> (fi_UpdatedAt info = None \<longleftrightarrow> fi_Quality info = ''unknown'')"
  by (auto simp: handleFacts_def fact_info_def AllFacts_def Fact_Get_def Let_def dest!: store_invD split: option.splits)
    (auto simp: fact_inv_def elim: Quality_String.elims)

end
