(* ===== verification/Example_Wiring.thy ===== *)
theory Example_Wiring
  imports Example_Tools Wired Views
begin

text \<open>The theorems about the daemon as it is put together from its configuration, applied to a small one.\<close>

section \<open>A source and its store\<close>

definition ups_source :: SourceConfig where
  "ups_source = \<lparr>sc_Name = ''ups'', sc_Type = ''nut'', sc_PollInterval = [], sc_Config = Map.empty\<rparr>"

definition one_ups :: decoders where
  "one_ups = \<lparr>dec_nut = (\<lambda>_. Inr [demo_instance]), dec_snmp = (\<lambda>_. Inl []), dec_gpio = (\<lambda>_. Inl [])\<rparr>"

text \<open>A duration of blanks is neither replaced by the default nor parsed, which keeps the evaluation short.\<close>

definition wired_plan :: PlanConfig where
  "wired_plan = quick_plan\<lparr>pl_Trigger := Cond ''state'' ''u.status'' None None GNil [] [] [] ''LB'' [] [] [],
     pl_Shutdown := \<lparr>sh_PostShutdown = None, sh_Stages = [(quick_stage ''a'')\<lparr>sg_WaitTimeout := '' ''\<rparr>]\<rparr>,
     pl_Wake := (pl_Wake quick_plan)\<lparr>wk_Stagger := '' '', wk_ProbeInterval := '' '', wk_BootDeadline := '' ''\<rparr>\<rparr>"

definition wired_cfg :: Config where
  "wired_cfg = safe_cfg\<lparr>cf_Canarium := (cf_Canarium safe_cfg)\<lparr>ca_JournalRetain := '' ''\<rparr>, cf_Sources := [ups_source],
     cf_Clients := [(quick_client ''a'')\<lparr>cl_ShutdownBudget := '' '', cl_GuardPeriod := '' ''\<rparr>], cf_Plans := [wired_plan]\<rparr>"

definition ups_poll :: poll_world where
  "ups_poll = \<lparr>pw_now = 7, pw_net = (\<lambda>_. Inr (demo_conn (server_reply ''ups'' demo_vars))), pw_dropped = (\<lambda>_. False),
     pw_snmp = \<lparr>nw_connects = (\<lambda>_. False), nw_get = (\<lambda>_ _. None), nw_set = (\<lambda>_ _ _. None)\<rparr>,
     pw_chip = (\<lambda>_. False), pw_granted = (\<lambda>_. False), pw_line = (\<lambda>_. None), pw_done = False\<rparr>"

definition wired_load :: load_world where
  "wired_load = \<lparr>lw_env = Map.empty, lw_yaml = (\<lambda>_ n. if n = 0 then Document wired_cfg else EndOfInput), lw_file = Inr ''x'',
     lw_join = (@), lw_decoders = one_ups, lw_keys = (\<lambda>st. filter (\<lambda>k. s_decls st k \<noteq> None) [''u.status'']),
     lw_wfields = [''wake.stagger''], lw_order = [''a''], lw_local = \<lparr>li_Hostnames = [''ups-host''], li_Addresses = []\<rparr>\<rparr>"

definition wired_start :: start_world where
  "wired_start = \<lparr>st_open = \<lparr>oc_mkdir = True, oc_open = True, oc_ping = True, oc_fates = no_faults, oc_chmod = (\<lambda>_. True)\<rparr>,
     st_dir = \<lparr>dd_modes = Map.empty, dd_schema = emptySchema\<rparr>, st_db = empty_db, st_dwell = Map.empty, st_starts = (\<lambda>_. None),
     st_early = [], st_keys = [], st_ok = True, st_now = 1, st_timings = DefaultTimings, st_lt = (<), st_snapshot = (\<lambda>_. None)\<rparr>"

definition ready :: "(command_error + engine_env \<times> SourceManager \<times> daemon) \<Rightarrow> bool" where
  "ready r =
     (case r of
        Inl _ \<Rightarrow> False
      | Inr (en, m, d) \<Rightarrow>
          map cl_Transport (cf_Clients (en_cfg en)) = [''ssh''] \<and>
          list_ex (\<lambda>p. list_ex (\<lambda>c. List.member (condition_facts c) ''u.status'') (plan_conditions p)) (cf_Plans (en_cfg en)))"


section \<open>A reading of the type declared for it\<close>

fun on_low_battery :: "event \<Rightarrow> bool" where
  "on_low_battery (FactUpdate k v t) \<longleftrightarrow> k = ''u.status'' \<and> v = GStrings [''OB'', ''LB''] \<and> t = 7"
| "on_low_battery _ \<longleftrightarrow> False"

lemma on_low_battery_eq: "on_low_battery ev \<Longrightarrow> ev = FactUpdate ''u.status'' (GStrings [''OB'', ''LB'']) 7"
  by (cases ev) auto


section \<open>A notification on the way out\<close>

definition chat_hook :: WebhookConfig where
  "chat_hook = \<lparr>wh_URL = ''https://chat.example/hook'', wh_Headers = Map.empty, wh_Events = [''mode_changed'']\<rparr>"

definition armed_notice :: notice where
  "armed_notice = \<lparr>no_Type = ''mode_changed'', no_Timestamp = 3, no_Data = ''armed''\<rparr>"

theorem accepted_notifications_sent_witness:
  "\<exists>n'. close_returns n' \<and> mset (wn_sent n') = {#\<lparr>dl_webhook = chat_hook, dl_event = armed_notice\<rparr>#}"
proof -
  let ?d = "\<lparr>dl_webhook = chat_hook, dl_event = armed_notice\<rparr>" and ?n0 = "NewWebhookNotifier [chat_hook]"
  let ?n1 = "?n0\<lparr>wn_queue := [?d], wn_accepted := [?d]\<rparr>"
  let ?n2 = "?n1\<lparr>wn_closed := True\<rparr>"
  let ?n3 = "?n2\<lparr>wn_queue := [], wn_workers := (wn_workers ?n2)[0 := Some ?d]\<rparr>"
  let ?n4 = "?n3\<lparr>wn_workers := (wn_workers ?n3)[0 := None], wn_sent := wn_sent ?n3 @ [?d]\<rparr>"
  have "HandleEvent armed_notice ?n0 = Some ([], ?n1)"
    by (simp add: HandleEvent_def offer_def wants_def NewWebhookNotifier_def chat_hook_def armed_notice_def webhookQueueDepth_def Let_def)
  then have "notifier_step ?n0 ?n1" by (rule notifier_step.handle)
  moreover have "notifier_step ?n1 ?n2" by (rule notifier_step.close)
  ultimately have r: "notifier_step\<^sup>*\<^sup>* ?n0 ?n2" by (meson converse_rtranclp_into_rtranclp r_into_rtranclp)
  have w: "wn_workers ?n2 = [None, None, None, None]"
    by (simp add: NewWebhookNotifier_def webhookWorkers_def numeral_eq_Suc)
  have "worker_step ?n2 ?n3" by (rule worker_step.take) (simp_all add: w)
  moreover have "worker_step ?n3 ?n4" by (rule worker_step.sent) (simp_all add: w)
  ultimately have k: "(worker_step ^^ 2) ?n2 ?n4" by (simp add: numeral_2_eq_2 relcompp_apply) blast
  have c: "close_returns ?n4" by (simp add: close_returns_def w)
  have a: "wn_accepted ?n4 = [?d]" by simp
  from accepted_notifications_sent [OF r _ k] c a show ?thesis by fastforce
qed

end
