(* ===== verification/Spec2Isabelle.thy ===== *)
theory Spec2Isabelle
  imports Examples Example_Runs Example_Tools Example_Modules Example_Wiring
begin

text \<open>
  Canarium is a daemon that watches uninterruptible power supplies and, when the power fails, shuts
  the machines behind them down in stages, and wakes them when it is back. This development models
  its core and proves what an operator relies on: that commands go out only when they should, that
  decisions taken survive a power cut, and that losing contact with a source decides nothing.

  \<^bold>\<open>The program.\<close> Sources put readings into the fact store (\<open>internal/facts\<close>), conditions over
  the facts (\<open>internal/conditions\<close>) are evaluated by the loops of the executor
  (\<open>internal/engine/executor.go\<close>); a plan whose trigger is true starts a sequence, which one goroutine
  runs (\<open>internal/engine/sequence_run.go\<close>) with one more goroutine for each client of a stage, and which
  is recorded in a SQLite database (\<open>internal/state\<close>) so that a restart resumes it. The
  configuration (\<open>internal/config\<close>) is validated before any of this. The operator works through an
  HTTP server (\<open>internal/api\<close>), and can replay a power cut against a plan without touching anything
  (\<open>internal/simulate\<close>). The modules (\<open>modules\<close>) are the protocols behind sources and transports.

  \<^bold>\<open>The theories.\<close>
  \<^item> \<open>Prelude\<close>: time as nanoseconds, floats with NaN, Go values, the string helpers of the standard
    library, list and map lemmas and the collections of simplification rules.
  \<^item> \<open>Facts\<close> (\<open>facts/types.go\<close>, \<open>facts/store.go\<close>): qualities, three-valued logic, the store with its
    operations and invariant. \<open>Durations\<close> (\<open>config/loader.go\<close>): \<open>ParseDuration\<close> on the
    \<open>time.ParseDuration\<close> of the language, with printing and reading back and the bound of 64 bits.
  \<^item> \<open>Dwell_Store\<close> (\<open>state/dwell.go\<close>), \<open>Conditions\<close> (\<open>conditions/evaluator.go\<close>, \<open>dwell.go\<close>,
    \<open>expr.go\<close>), \<open>Explain\<close> (\<open>explain.go\<close>) and \<open>Condition_Safety\<close>: evaluation with dwell timers and their
    persistence; a timer is satisfied exactly when its condition was true without a break, losing
    facts decides nothing, the explanation predicts the evaluation, what a restart credits.
  \<^item> \<open>Config\<close>, \<open>Validation\<close>, \<open>Validation_Correct\<close> (\<open>config/types.go\<close>, \<open>loader.go\<close>,
    \<open>validate.go\<close>): defaults, references and every check; the cycle search is correct for every
    iteration order of the map, accepted stages respect the dependencies, accepted conditions decide.
  \<^item> \<open>State_DB\<close> (\<open>state/db.go\<close>, \<open>intents.go\<close>, \<open>retention.go\<close>, \<open>macs.go\<close>): the tables as lists and
    maps, each statement an operation; locks exclude, pruning keeps what is unfinished.
  \<^item> \<open>Engine_Types\<close> (\<open>engine/types.go\<close>, \<open>active_sequence.go\<close>), \<open>Derived\<close> (\<open>derived.go\<close>),
    \<open>Netutil\<close> (\<open>netutil/mac.go\<close>), \<open>Executor\<close> (\<open>executor.go\<close>, \<open>resolve.go\<close>, \<open>macs.go\<close>): the state of
    the executor as one record, with the effects it has on the world as a log.
  \<^item> \<open>Sequence_Run\<close> (\<open>sequence_run.go\<close>): the goroutines as state machines; a program counter is a place
    where the code waits or calls out, and a step takes the answers of the world as its input \<open>tick\<close>.
    \<open>Daemon\<close>: goroutine, loops, requests, stop, crash and restart as the events of one machine,
    with the states it can reach.
  \<^item> \<open>Sequence_Safety\<close>, \<open>Abort_Safety\<close>, \<open>Journal_Writes\<close>, \<open>Recovery\<close>, \<open>Completion\<close>, \<open>Policy\<close>,
    \<open>Wake_Safety\<close>: the invariants of that machine. One sequence runs at a time; an unarmed daemon sends
    nothing; a stage begins only when it is due; after the point of no return nothing aborts; the
    crossing and the intent of a command are on the disk before they matter; clients are locked
    while acted upon; the end of a sequence releases everything; which plan starts, in which order and
    when hosts are woken.
  \<^item> \<open>Progress\<close>: under a fair scheduler a shutdown comes to its end. \<open>Self_Preservation\<close>
    (\<open>selfpreservation.go\<close>, \<open>ValidateWith\<close>): an accepted configuration never shuts down its own host.
  \<^item> \<open>Journal\<close>, \<open>Journal_Correct\<close> (\<open>state/journal.go\<close>): the file written of a finished sequence; it is
    complete, in order, named inside its directory and replaced in one step.
  \<^item> \<open>Simulate\<close> (\<open>simulate/\<close>): the simulator ends, reports consistently and decides as the daemon does.
    \<open>Timeline_File\<close> (\<open>timeline.go\<close>): the decoding of a timeline's file, and what a file that loads holds.
  \<^item> \<open>Net_Addr\<close> (\<open>netutil/addr.go\<close>, \<open>neighbour.go\<close>, on the \<open>net\<close> package of the language), \<open>Limiter\<close>
    (\<open>api/ratelimit.go\<close>, \<open>proxy.go\<close>), \<open>Sessions\<close> (\<open>api/password.go\<close>, \<open>state/sessions.go\<close>,
    \<open>tokens.go\<close>, \<open>cmd/canarium/token.go\<close>), \<open>Server\<close> and \<open>Session_Safety\<close> (\<open>api/server.go\<close>): who may change
    what. The limiter that forgets decides as one that does not; nothing changes without a credential; a
    valid session goes back to a login with the right password.
  \<^item> \<open>Wol\<close> (\<open>modules/wol\<close>): magic packets. \<open>Nut\<close>, \<open>Nut_Correct\<close> (\<open>modules/nut\<close>): the protocol of the UPS
    server; a listing is read back as it was, a poll reaches the fact store, a command is sent only
    after the login was accepted.
  \<^item> \<open>Probing\<close> (\<open>netutil/probe.go\<close>, \<open>addr.go\<close>, \<open>buildTransports\<close> of \<open>cmd/canarium/wiring.go\<close>, and the
    \<open>Probe\<close> of each module), \<open>Probe_Evidence\<close>: what a probe answers to what the network does, and that the
    daemon takes a client for switched off only on positive evidence.
  \<^item> \<open>Ssh\<close>, \<open>Ssh_Keys\<close> (\<open>modules/ssh\<close>): host key policies, the known_hosts file, the command and the
    reading of its end; a key once accepted is the only one accepted later.
  \<^item> \<open>Appliances\<close>, \<open>Appliance_Safety\<close> (\<open>modules/proxmox\<close>, \<open>opnsense\<close>, \<open>truenas\<close>, \<open>netutil/tls.go\<close>):
    requests, certificates and credentials. \<open>Discovery\<close> (their \<open>discover.go\<close>): the hardware address of the
    right interface. \<open>Rest_Exec\<close> (\<open>modules/rest\<close>, \<open>modules/exec\<close>, \<open>netutil/redact.go\<close>): requests and commands
    with their variables, and that no answer shows the credential.
  \<^item> \<open>Snmp_Gpio\<close> (\<open>modules/snmp\<close>, \<open>modules/gpio\<close>): both sources, and the transport that switches the power
    of ports off and on.
  \<^item> \<open>Migrations\<close> (\<open>state/migrate.go\<close>): the schema and the migrations to it, which may be interrupted
    anywhere. \<open>Durability\<close> (\<open>state/durability.go\<close>, \<open>Open\<close> of \<open>state/db.go\<close>): the write-ahead log as the
    implementation of the disk that \<open>Executor\<close> reckons with.
  \<^item> \<open>Doctor\<close>, \<open>Doctor_Correct\<close> (\<open>doctor/\<close>): the checks of a preflight, their report, and what a report
    without failures promises.
  \<^item> \<open>Loader\<close> (\<open>config/loader.go\<close>): the environment variables in the text of the configuration, and its
    strict loading, and conditions written as a string. \<open>Sources\<close>, \<open>Source_Types\<close> (\<open>cmd/canarium/wiring.go\<close>): the sources that are built, the
    manager that carries their updates to the store, and the types of what they publish. \<open>Commands\<close>,
    \<open>Wired\<close> (\<open>cmd/canarium/main.go\<close>): the commands and the start of the daemon, which has whatever an
    accepted configuration names.
  \<^item> \<open>Events\<close> (\<open>notify/webhook.go\<close>, \<open>api/websocket.go\<close>): the queue of notifications, of which none that was
    accepted is lost, and the connections of browsers. \<open>Views\<close> (\<open>api/server.go\<close>, \<open>api/plans.go\<close>): what the
    read-only requests show, without the secrets of the configuration.
  \<^item> \<open>Examples\<close>, \<open>Example_Runs\<close>, \<open>Example_Tools\<close>, \<open>Example_Modules\<close>, \<open>Example_Wiring\<close>: a small
    installation on which each theorem is applied.

  \<^bold>\<open>Interfaces.\<close> The locale \<open>handle_invariant\<close> of \<open>Daemon\<close> states what the setters of the running
  sequence's handle keep; it is interpreted for the identity of the sequence, for a sequence past its
  point of no return, and for one whose post-shutdown action has run. \<open>kleene3\<close> (the
  laws of the three-valued connectives), \<open>fact_store\<close> (what a reader gets after an update), \<open>dwell_store\<close>
  (what the evaluator relies on of the table of timers) and \<open>lock_table\<close> (the contract of the client
  locks) are interpreted on the operations of \<open>Facts\<close>, \<open>Dwell_Store\<close> and \<open>State_DB\<close>; \<open>sort_order\<close> (what
  the stable sort relies on of its comparison) on the records of the journal, on their entries and on the
  subjects of a preflight; \<open>prober\<close> (a client is down only on evidence) on the probe of every module and on
  the table of them all.

  \<^bold>\<open>Time, loops and failures.\<close> Instants and durations are unbounded integers of nanoseconds; where the
  code's width matters (\<open>ParseDuration\<close>) the bound is a theorem. No fuel is used: recursion is structural
  or has a measure, and a loop that waits is a program counter the machine may stay at; the loop of the
  simulator is a partial function, proved to return. A failing
  database is the input \<open>tk_ok\<close> of a step, and \<open>e_disk\<close> holds every database a power cut may leave.

  \<^bold>\<open>Parameters.\<close> The expression machine, the digest that names a timer, float parsing and printing,
  resolver, neighbour table, the identity of the host, bcrypt, SHA-256, random octets and the order of map
  iteration are arguments of the definitions; so are dialling, the HTTP client, the URL parser, the SSH
  library with its reader of known_hosts, the SNMP library, the chip driver, the shell, certificate files
  the file system and the decoders of YAML. In the machine of \<open>Daemon\<close> the answers of transports are inputs; \<open>Probe_Evidence\<close>
  ties the answers to probes to the modules.

  \<^bold>\<open>Not modelled.\<close> The rendering of answers as JSON and the reading of YAML and JSON text; sockets, their
  timeouts and the frames on the wire; process groups and signals; flags and logging, except where a
  log line is what a theorem is about; the order in which a daemon that is told to stop stops its parts.
\<close>

end
